(* ===== verification/Prelude.thy ===== *)
theory Prelude
  imports Main "HOL-Library.Word" "HOL-Library.Monad_Syntax"
begin

unbundle bit_operations_syntax

text \<open>
  What the components share: the machine types and the EFI status codes, the size macros of
  EDK2, the bit-fields of the C structures (a struct of \<open>UINT32 f:n\<close> members is the 32-bit word
  it is laid out in, members from the least significant bit up, as the AArch64 ABI does), bytes
  in memory, and the generic facts on words and lists that the component proofs use.

  Conventions of the whole development:
  \<^item> \<open>UINT8 .. UINT64\<close> and \<open>UINTN\<close> are words of their width where the arithmetic can wrap, and
    \<open>nat\<close> for counters and indices that the code bounds; pointers are \<open>nat\<close>, and 0 is \<open>NULL\<close>;
  \<^item> a result of type \<open>'a option\<close> is \<open>None\<close> when the call does not return normally: an
    \<open>ASSERT\<close> stops it, memory outside the objects the program owns is read or written, or a loop
    does not end. An \<open>EFI_STATUS\<close> is part of the value of a call that returns. Where the code goes on
    behind an assertion, whether assertions stop is a parameter, and \<open>ASSERT\<close> below is used;
  \<^item> firmware services that the repository only calls (DMA, pool memory, MMIO, GCD, events) are
    arguments of the definitions: functions on an opaque world of type \<open>'w\<close>.
\<close>

section \<open>Machine types and status codes\<close>

type_synonym u8 = "8 word"
type_synonym u16 = "16 word"
type_synonym u32 = "32 word"
type_synonym u64 = "64 word"

text \<open>
  An assertion that fails stops a debug build; a release build has none (\<open>MDEPKG_NDEBUG\<close>), and goes on with the next statement.
\<close>

definition ASSERT :: "bool \<Rightarrow> bool \<Rightarrow> unit option" where
  "ASSERT stops b = (if b \<or> \<not> stops then Some () else None)"

lemma ASSERT_True [simp]: "ASSERT stops True = Some ()" "ASSERT False b = Some ()"
  by (simp_all add: ASSERT_def)

lemma ASSERT_Some [simp]: "ASSERT stops b = Some u \<longleftrightarrow> b \<or> \<not> stops"
  by (simp add: ASSERT_def)

lemma ASSERT_passed: "Option.bind (ASSERT stops b) f = Some r \<Longrightarrow> f () = Some r"
  by (auto simp: ASSERT_def split: if_splits)

text \<open>
  \<open>EFI_STATUS\<close> is a \<open>UINTN\<close>; the named codes are its values. \<open>EFI_STATUS_RAW\<close> is the non-zero
  status one gets by storing a 32-bit integer in an \<open>EFI_STATUS\<close> variable: its top bit is clear,
  so \<open>EFI_ERROR\<close> is false of it.
\<close>

datatype EFI_STATUS =
    EFI_SUCCESS | EFI_LOAD_ERROR | EFI_INVALID_PARAMETER | EFI_UNSUPPORTED
  | EFI_BAD_BUFFER_SIZE | EFI_BUFFER_TOO_SMALL | EFI_NOT_READY | EFI_DEVICE_ERROR
  | EFI_WRITE_PROTECTED | EFI_OUT_OF_RESOURCES | EFI_VOLUME_CORRUPTED | EFI_NO_MEDIA
  | EFI_NOT_FOUND | EFI_ACCESS_DENIED | EFI_NO_RESPONSE | EFI_TIMEOUT | EFI_ABORTED
  | EFI_SECURITY_VIOLATION | EFI_CRC_ERROR | EFI_PROTOCOL_ERROR | EFI_MEDIA_CHANGED
  | EFI_ALREADY_STARTED | EFI_STATUS_RAW u32

definition EFI_ERROR :: "EFI_STATUS \<Rightarrow> bool" where
  "EFI_ERROR s = (case s of EFI_SUCCESS \<Rightarrow> False | EFI_STATUS_RAW _ \<Rightarrow> False | _ \<Rightarrow> True)"

definition status_of_u32 :: "u32 \<Rightarrow> EFI_STATUS" where
  "status_of_u32 v = (if v = 0 then EFI_SUCCESS else EFI_STATUS_RAW v)"

lemma EFI_ERROR_simps [simp]:
  "\<not> EFI_ERROR EFI_SUCCESS" "\<not> EFI_ERROR (EFI_STATUS_RAW v)"
  "EFI_ERROR EFI_LOAD_ERROR" "EFI_ERROR EFI_INVALID_PARAMETER" "EFI_ERROR EFI_UNSUPPORTED"
  "EFI_ERROR EFI_BAD_BUFFER_SIZE" "EFI_ERROR EFI_BUFFER_TOO_SMALL" "EFI_ERROR EFI_NOT_READY"
  "EFI_ERROR EFI_DEVICE_ERROR" "EFI_ERROR EFI_WRITE_PROTECTED" "EFI_ERROR EFI_OUT_OF_RESOURCES"
  "EFI_ERROR EFI_VOLUME_CORRUPTED" "EFI_ERROR EFI_NO_MEDIA" "EFI_ERROR EFI_NOT_FOUND"
  "EFI_ERROR EFI_ACCESS_DENIED" "EFI_ERROR EFI_NO_RESPONSE" "EFI_ERROR EFI_TIMEOUT"
  "EFI_ERROR EFI_ABORTED" "EFI_ERROR EFI_SECURITY_VIOLATION" "EFI_ERROR EFI_CRC_ERROR"
  "EFI_ERROR EFI_PROTOCOL_ERROR" "EFI_ERROR EFI_MEDIA_CHANGED" "EFI_ERROR EFI_ALREADY_STARTED"
  by (simp_all add: EFI_ERROR_def)

lemma EFI_ERROR_status_of_u32 [simp]: "\<not> EFI_ERROR (status_of_u32 v)"
  by (simp add: status_of_u32_def)

section \<open>Sizes and pages\<close>

definition EFI_PAGES_TO_SIZE :: "u64 \<Rightarrow> u64" where
  "EFI_PAGES_TO_SIZE pages = push_bit 12 pages"

definition EFI_SIZE_TO_PAGES :: "u64 \<Rightarrow> u64" where
  "EFI_SIZE_TO_PAGES sz = drop_bit 12 sz + (if sz AND 0xFFF \<noteq> 0 then 1 else 0)"

lemma unat_PAGES_TO_SIZE_mod: "unat (EFI_PAGES_TO_SIZE pages) = (4096 * unat pages) mod 2 ^ 64"
  by (simp add: EFI_PAGES_TO_SIZE_def push_bit_eq_mult unat_word_ariths mult.commute)

lemma unat_PAGES_TO_SIZE:
  "unat pages < 2 ^ 52 \<Longrightarrow> unat (EFI_PAGES_TO_SIZE pages) = 4096 * unat pages"
  by (simp add: unat_PAGES_TO_SIZE_mod)

lemma unat_PAGES_TO_SIZE_dvd: "4096 dvd unat (EFI_PAGES_TO_SIZE pages)"
proof -
  have "(4096 :: nat) dvd 2 ^ 64"
    by simp
  then show ?thesis
    unfolding unat_PAGES_TO_SIZE_mod by (simp only: dvd_mod_iff dvd_triv_left)
qed

lemma AND_NOT_mask_eq: "w AND NOT (mask n) = push_bit n (drop_bit n w)" for w :: "'a::len word"
  by (rule bit_word_eqI) (auto simp: bit_simps)

lemma unat_AND_NOT_mask: "unat (w AND NOT (mask n)) = 2 ^ n * (unat w div 2 ^ n)"
  for w :: "'a::len word"
proof -
  have "2 ^ n * (unat w div 2 ^ n) < 2 ^ LENGTH('a)"
    using unsigned_less[where 'a = nat, of w] times_div_less_eq_dividend[of "2 ^ n" "unat w"] by linarith
  then show ?thesis
    by (simp only: AND_NOT_mask_eq unsigned_push_bit_eq unsigned_drop_bit_eq)
       (simp add: push_bit_eq_mult drop_bit_eq_div take_bit_nat_eq_self mult.commute)
qed


lemma div_round_up: "(n + 4095) div 4096 = n div 4096 + (if n mod 4096 = 0 then 0 else 1)" for n :: nat
proof -
  have "(n mod 4096 + 4095) div 4096 = (if n mod 4096 = 0 then 0 else 1)"
    using mod_less_divisor[of 4096 n] by (auto simp: div_nat_eqI)
  then show ?thesis
    by (simp add: div_add1_eq[of n 4095])
qed

lemma unat_SIZE_TO_PAGES:
  "unat (EFI_SIZE_TO_PAGES sz) = (unat sz + 4095) div 4096"
proof -
  have m: "sz AND 0xFFF = take_bit 12 sz"
    by (simp add: take_bit_eq_mask mask_eq_exp_minus_1)
  have d: "unat (drop_bit 12 sz) = unat sz div 4096"
    by (simp add: drop_bit_eq_div unat_div)
  have z: "(take_bit 12 sz = 0) = (unat sz mod 4096 = 0)"
    by (simp add: take_bit_eq_mod unat_mod flip: unat_eq_0)
  have "unat sz div 4096 + 1 < 2 ^ 64" using unsigned_less[where 'a = nat, of sz] by simp
  then show ?thesis
    unfolding EFI_SIZE_TO_PAGES_def m div_round_up using z by (simp add: unat_word_ariths d)
qed

section \<open>Sign extension\<close>

lemma push_drop_id: "2 ^ n dvd unat w \<Longrightarrow> push_bit n (drop_bit n w) = w" for w :: "'a::len word"
  using unat_AND_NOT_mask[of w n] by (simp flip: AND_NOT_mask_eq add: word_unat_eq_iff)

lemma bit_unat: "bit (unat w) n \<longleftrightarrow> bit w n" for w :: "'a::len word"
  by (simp add: bit_unsigned_iff)

lemma bit_top: "bit (v :: u32) 31 \<longleftrightarrow> 2 ^ 31 \<le> unat v"
proof -
  have "unat v div 2 ^ 31 = (if 2 ^ 31 \<le> unat v then 1 else 0)"
    using unsigned_less[where 'a = nat, of v] by (auto simp: div_nat_eqI)
  moreover have "bit v 31 \<longleftrightarrow> odd (unat v div 2 ^ 31)"
    unfolding bit_unat[symmetric, of v 31] by (rule bit_iff_odd)
  ultimately show ?thesis by simp
qed

lemma scast_low:
  assumes "unat (v :: u32) < 2 ^ 31"
  shows "unat (scast v :: u64) = unat v"
proof -
  have "\<not> bit v 31" using assms bit_top[of v] by simp
  then have "scast v = (ucast v :: u64)"
    by (intro bit_word_eqI) (auto simp: bit_signed_iff bit_unsigned_iff min_def le_less dest: bit_imp_le_length)
  moreover have "unat v < 2 ^ 64" using assms by simp
  ultimately show ?thesis by (simp add: unsigned_ucast_eq take_bit_nat_eq_self)
qed

lemma scast_high:
  assumes "2 ^ 31 \<le> unat (v :: u32)"
  shows "2 ^ 32 \<le> unat (scast v :: u64)"
proof -
  have "bit v 31" using assms bit_top[of v] by simp
  then have "bit (unat (scast v :: u64)) 32"
    unfolding bit_unat by (simp add: bit_signed_iff)
  then have "odd (unat (scast v :: u64) div 2 ^ 32)" by (rule bit_iff_odd[THEN iffD1])
  then show ?thesis by (intro leI notI) simp
qed

section \<open>Bit-fields\<close>

text \<open>
  \<open>bf_get off n w\<close> reads the member of width \<open>n\<close> that starts at bit \<open>off\<close> of the word \<open>w\<close>, and
  \<open>bf_set off n v w\<close> assigns the value \<open>v\<close> to it: the compiler keeps the low \<open>n\<close> bits of \<open>v\<close>.
\<close>

named_theorems bf_laws \<open>read-after-write laws of bit-fields\<close>

definition bf_get :: "nat \<Rightarrow> nat \<Rightarrow> 'a::len word \<Rightarrow> 'a word" where
  "bf_get off n w = take_bit n (drop_bit off w)"

definition bf_set :: "nat \<Rightarrow> nat \<Rightarrow> 'a::len word \<Rightarrow> 'a word \<Rightarrow> 'a word" where
  "bf_set off n v w = (w AND NOT (push_bit off (mask n))) OR push_bit off (take_bit n v)"

lemma bf_get_set_same [bf_laws]:
  fixes w :: "'a::len word"
  assumes "off + n \<le> LENGTH('a)"
  shows "bf_get off n (bf_set off n v w) = take_bit n v"
  by (rule bit_word_eqI) (use assms in \<open>auto simp: bf_get_def bf_set_def bit_simps\<close>)

lemma bf_get_set_other [bf_laws]:
  "o1 + n1 \<le> o2 \<or> o2 + n2 \<le> o1 \<Longrightarrow> bf_get o1 n1 (bf_set o2 n2 v w) = bf_get o1 n1 w"
  by (rule bit_word_eqI)
     (auto simp: bf_get_def bf_set_def bit_simps dest: bit_imp_le_length)

lemma bf_set_get [bf_laws]: "bf_set off n (bf_get off n w) w = w"
  by (rule bit_word_eqI) (auto simp: bf_get_def bf_set_def bit_simps)

lemma bf_set_set [bf_laws]: "bf_set off n v (bf_set off n v' w) = bf_set off n v w"
  by (rule bit_word_eqI) (auto simp: bf_get_def bf_set_def bit_simps)

lemma bf_set_commute:
  "o1 + n1 \<le> o2 \<or> o2 + n2 \<le> o1 \<Longrightarrow>
    bf_set o1 n1 v (bf_set o2 n2 v' w) = bf_set o2 n2 v' (bf_set o1 n1 v w)"
  by (rule bit_word_eqI) (auto simp: bf_get_def bf_set_def bit_simps)

lemma bit_bf_get: "bit (bf_get off n w) j \<longleftrightarrow> j < n \<and> bit w (off + j)"
  by (auto simp: bf_get_def bit_simps ac_simps)

lemma bit_bf_set:
  fixes w :: "'a::len word"
  shows "bit (bf_set off n v w) i \<longleftrightarrow>
    (if off \<le> i \<and> i < off + n then i < LENGTH('a) \<and> bit v (i - off) else bit w i)"
  by (auto simp: bf_set_def bit_simps dest: bit_imp_le_length)

lemma bf_get_zero [simp]: "bf_get off n 0 = 0"
  by (simp add: bf_get_def)

lemma unat_bf_get_less:
  fixes w :: "'a::len word"
  assumes "n < LENGTH('a)"
  shows "unat (bf_get off n w) < 2 ^ n"
  using assms by (simp add: bf_get_def unsigned_take_bit_eq)

section \<open>Invariants of step systems\<close>

text \<open>
  A component whose operations are steps on a state: an invariant that holds at the start and
  that every step keeps holds in every state a run of steps reaches.
\<close>

locale step_invariant =
  fixes start :: "'s \<Rightarrow> bool"
    and step :: "'s \<Rightarrow> 's \<Rightarrow> bool"
    and inv :: "'s \<Rightarrow> bool"
  assumes start_inv: "start s \<Longrightarrow> inv s"
    and step_inv: "step s t \<Longrightarrow> inv s \<Longrightarrow> inv t"
begin

lemma run_inv: "step\<^sup>*\<^sup>* s t \<Longrightarrow> inv s \<Longrightarrow> inv t"
  by (induction rule: rtranclp_induct) (auto intro: step_inv)

lemma reachable_inv: "start s \<Longrightarrow> step\<^sup>*\<^sup>* s t \<Longrightarrow> inv t"
  by (blast intro: run_inv start_inv)

end

end
