(* ===== verification/Chains.thy ===== *)
theory Chains
  imports Prelude
begin

text \<open>
  Linked lists in a store, shared by the proofs about endpoint descriptors, transfer descriptors and
  interrupt contexts: \<open>chain nxt st p xs q\<close> says that following \<open>nxt\<close> from \<open>p\<close> visits the objects at
  \<open>xs\<close> and then arrives at \<open>q\<close> for the first time. With \<open>q = 0\<close> it is a \<open>NULL\<close>-terminated list.
\<close>

named_theorems chain_simps \<open>decomposition of chains\<close>

fun chain :: "('o \<Rightarrow> nat) \<Rightarrow> (nat \<rightharpoonup> 'o) \<Rightarrow> nat \<Rightarrow> nat list \<Rightarrow> nat \<Rightarrow> bool" where
  "chain nxt st p [] q \<longleftrightarrow> p = q"
| "chain nxt st p (x # xs) q \<longleftrightarrow>
    p = x \<and> x \<noteq> q \<and> (case st x of None \<Rightarrow> False | Some v \<Rightarrow> chain nxt st (nxt v) xs q)"

lemma chain_end [chain_simps]: "chain nxt st q xs q \<longleftrightarrow> xs = []"
  by (cases xs) auto

lemma chain_step [chain_simps]:
  "p \<noteq> q \<Longrightarrow> chain nxt st p xs q \<longleftrightarrow>
    (\<exists>v ys. st p = Some v \<and> xs = p # ys \<and> chain nxt st (nxt v) ys q)"
  by (cases xs) (auto split: option.splits)

lemma chain_nonempty: "chain nxt st p xs q \<Longrightarrow> xs \<noteq> [] \<Longrightarrow> p \<noteq> q \<and> p = hd xs"
  by (cases xs) auto

lemma chain_dom: "chain nxt st p xs q \<Longrightarrow> set xs \<subseteq> dom st"
  by (induction xs arbitrary: p) (auto split: option.splits)

lemma chain_no_end: "chain nxt st p xs q \<Longrightarrow> q \<notin> set xs"
  by (induction xs arbitrary: p) (auto split: option.splits)

text \<open>Following links is deterministic, so a chain that arrives has no repetition.\<close>

lemma chain_unique: "chain nxt st p xs q \<Longrightarrow> chain nxt st p ys q \<Longrightarrow> xs = ys"
proof (induction xs arbitrary: p ys)
  case Nil
  then show ?case by (simp add: chain_end)
next
  case (Cons x xs)
  then obtain v where v: "p = x" "x \<noteq> q" "st x = Some v" "chain nxt st (nxt v) xs q"
    by (auto split: option.splits)
  with Cons.prems(2) obtain zs where "ys = x # zs" "chain nxt st (nxt v) zs q"
    by (auto simp: chain_step)
  then show ?case using Cons.IH v by blast
qed

lemma chain_suffix: "chain nxt st p (xs @ y # ys) q \<Longrightarrow> chain nxt st y (y # ys) q"
proof (induction xs arbitrary: p)
  case (Cons x xs)
  then obtain v where "chain nxt st (nxt v) (xs @ y # ys) q" by (auto split: option.splits)
  then show ?case by (rule Cons.IH)
qed simp

lemma chain_distinct: "chain nxt st p xs q \<Longrightarrow> distinct xs"
proof (induction xs arbitrary: p)
  case (Cons x xs)
  then obtain v where v: "p = x" "st x = Some v" "chain nxt st (nxt v) xs q" "x \<noteq> q"
    by (auto split: option.splits)
  have "x \<notin> set xs"
  proof
    assume "x \<in> set xs"
    then obtain as bs where xs: "xs = as @ x # bs" by (auto dest: split_list)
    then have "chain nxt st x (x # bs) q" using chain_suffix v(3) by fastforce
    then have "chain nxt st (nxt v) bs q" using v(2) by simp
    then have "xs = bs" using chain_unique v(3) by blast
    then show False using xs by auto
  qed
  then show ?case using Cons.IH v(3) by simp
qed simp

lemma chain_cong:
  "(\<And>x. x \<in> set xs \<Longrightarrow> map_option nxt (st x) = map_option nxt' (st' x)) \<Longrightarrow>
    chain nxt st p xs q = chain nxt' st' p xs q"
proof (induction xs arbitrary: p)
  case (Cons x xs)
  then have "map_option nxt (st x) = map_option nxt' (st' x)" by simp
  with Cons show ?case by (cases "st x"; cases "st' x") auto
qed simp

lemma chain_frame: "y \<notin> set xs \<Longrightarrow> chain nxt (st(y := z)) p xs q = chain nxt st p xs q"
  by (rule chain_cong) auto

lemma chain_append:
  assumes "chain nxt st p xs r" "chain nxt st r ys q" "q \<notin> set xs"
  shows "chain nxt st p (xs @ ys) q"
  using assms by (induction xs arbitrary: p) (auto split: option.splits)

lemma chain_last:
  assumes "chain nxt st p xs q" "xs \<noteq> []"
  shows "\<exists>v. st (last xs) = Some v \<and> nxt v = q \<and> last xs \<in> set xs"
  using assms by (induction xs arbitrary: p) (auto split: option.splits if_splits)

text \<open>The links before the last one do not lead to the end.\<close>

lemma chain_butlast:
  assumes "chain nxt st p (xs @ [y]) q"
  shows "chain nxt st p xs y" "\<forall>x \<in> set xs. \<exists>v. st x = Some v \<and> nxt v \<noteq> q"
proof -
  have "y \<notin> set xs" using chain_distinct[OF assms] by simp
  then show "chain nxt st p xs y"
    using assms by (induction xs arbitrary: p) (auto split: option.splits)
  show "\<forall>x \<in> set xs. \<exists>v. st x = Some v \<and> nxt v \<noteq> q"
    using assms
  proof (induction xs arbitrary: p)
    case (Cons x xs)
    then obtain v where "st x = Some v" "chain nxt st (nxt v) (xs @ [y]) q" by (auto split: option.splits)
    then show ?case using Cons.IH by (auto simp: chain_end)
  qed simp
qed

text \<open>Linking a list behind another.\<close>

lemma chain_link:
  assumes xs: "chain nxt st p xs 0" "xs \<noteq> []" and ys: "chain nxt st r ys 0"
    and dj: "set xs \<inter> set ys = {}" and v: "nxt v = r"
  shows "chain nxt (st(last xs \<mapsto> v)) p (xs @ ys) 0"
proof -
  obtain as a where as: "xs = as @ [a]" using xs(2) by (cases xs rule: rev_cases) auto
  have "a \<notin> set as" "a \<noteq> 0" using chain_distinct[OF xs(1)] chain_no_end[OF xs(1)] as by auto
  then have 1: "chain nxt (st(a \<mapsto> v)) p as a"
    using chain_butlast(1)[OF xs(1)[unfolded as]] by (simp add: chain_frame)
  have "a \<notin> set ys" using dj as by auto
  then have 2: "chain nxt (st(a \<mapsto> v)) a (a # ys) 0" using ys v \<open>a \<noteq> 0\<close> by (simp add: chain_frame)
  have "0 \<notin> set as" using chain_no_end[OF xs(1)] as by auto
  from chain_append[OF 1 2 this] show ?thesis using as by simp
qed

text \<open>Removing the object after \<open>x\<close>: \<open>x\<close> gets the link of the removed one.\<close>

lemma chain_remove:
  assumes c: "chain nxt st p (xs @ x # y # ys) q" and v: "st y = Some w" "nxt v = nxt w"
  shows "chain nxt (st(x \<mapsto> v)) p (xs @ x # ys) q"
proof -
  have d: "distinct (xs @ x # y # ys)" "q \<notin> set (xs @ x # y # ys)"
    by (rule chain_distinct[OF c], rule chain_no_end[OF c])
  have "chain nxt st (nxt w) ys q" using chain_suffix[of nxt st p "xs @ [x]" y ys q] c v by simp
  then have s: "chain nxt (st(x \<mapsto> v)) x (x # ys) q"
    using d v by (simp add: chain_frame)
  have "chain nxt st p xs x" using c d by (induction xs arbitrary: p) (auto split: option.splits)
  then have "chain nxt (st(x \<mapsto> v)) p xs x" using d by (simp add: chain_frame)
  from chain_append[OF this s] show ?thesis using d by simp
qed

text \<open>Inserting an object behind \<open>x\<close>.\<close>

lemma chain_insert:
  assumes c: "chain nxt st p (xs @ x # ys) q" and v: "nxt v = y" "nxt u = r" "chain nxt st r ys q" and y: "y \<notin> set (xs @ x # ys)" "y \<noteq> q"
  shows "chain nxt (st(x \<mapsto> v, y \<mapsto> u)) p (xs @ x # y # ys) q"
proof -
  have d: "distinct (xs @ x # ys)" "q \<notin> set (xs @ x # ys)"
    by (rule chain_distinct[OF c], rule chain_no_end[OF c])
  have s: "chain nxt (st(x \<mapsto> v, y \<mapsto> u)) x (x # y # ys) q"
    using d v y by (auto simp: chain_frame)
  have "chain nxt st p xs x" using c d by (induction xs arbitrary: p) (auto split: option.splits)
  then have "chain nxt (st(x \<mapsto> v, y \<mapsto> u)) p xs x" using d y by (simp add: chain_frame)
  from chain_append[OF this s] show ?thesis using d by simp
qed

end
