(* ===== verification/UsbHcMem.thy ===== *)
theory UsbHcMem
  imports Prelude
begin

unbundle bit_operations_syntax

text \<open>
  The memory pool of the OHCI driver, \<open>src/Silicon/Rockchip/Rk356xPkg/Drivers/OhciDxe/UsbHcMem.c\<close>:
  a chain of DMA buffers, each with a bit array that records which of its 64-byte units are
  handed out. The first part holds the definitions in the order of the code; then come the
  bit-array facts, the first-fit search, and the pool: what is live, that an allocation is
  fresh, that a free gives back exactly what it names, and that the pool's blocks never overlap.
\<close>

section \<open>Data\<close>

text \<open>
  \<open>USBHC_MEM_BLOCK\<close>: \<open>Bits\<close> is the bit array, \<open>BitsPtr\<close> and \<open>Self\<close> the pool addresses of the array
  and of the structure. The \<open>Next\<close> chain that starts at \<open>Pool->Head\<close> is the list \<open>Blocks\<close>; it is
  empty when \<open>Head\<close> is \<open>NULL\<close>.
\<close>

record USBHC_MEM_BLOCK =
  Self :: nat
  Bits :: "u8 list"
  BitsPtr :: nat
  BitsLen :: nat
  Buf :: nat
  BufHost :: nat
  BufLen :: nat
  Mapping :: nat

record USBHC_MEM_POOL =
  PoolSelf :: nat
  Check4G :: bool
  Which4G :: u32
  Blocks :: "USBHC_MEM_BLOCK list"

text \<open>
  The services the pool calls: pool memory, the DMA library and \<open>ZeroMem\<close>, as functions on the
  world. \<open>DmaMap\<close> returns the status, the mapped byte count, the device address and the mapping.
\<close>

record 'w dma_services =
  AllocateZeroPool :: "nat \<Rightarrow> 'w \<Rightarrow> nat \<times> 'w"
  AllocatePool :: "nat \<Rightarrow> 'w \<Rightarrow> nat \<times> 'w"
  FreePool :: "nat \<Rightarrow> 'w \<Rightarrow> 'w"
  DmaAllocateBuffer :: "u64 \<Rightarrow> 'w \<Rightarrow> (EFI_STATUS \<times> nat) \<times> 'w"
  DmaFreeBuffer :: "u64 \<Rightarrow> nat \<Rightarrow> 'w \<Rightarrow> 'w"
  DmaMap :: "nat \<Rightarrow> u64 \<Rightarrow> 'w \<Rightarrow> (EFI_STATUS \<times> u64 \<times> u64 \<times> nat) \<times> 'w"
  DmaUnmap :: "nat \<Rightarrow> 'w \<Rightarrow> 'w"
  ZeroMem :: "nat \<Rightarrow> u64 \<Rightarrow> 'w \<Rightarrow> 'w"

abbreviation (input) USBHC_MEM_UNIT :: nat where
  "USBHC_MEM_UNIT \<equiv> 64"

abbreviation (input) USBHC_MEM_UNIT_MASK :: u64 where
  "USBHC_MEM_UNIT_MASK \<equiv> 63"

abbreviation (input) USBHC_MEM_DEFAULT_PAGES :: u64 where
  "USBHC_MEM_DEFAULT_PAGES \<equiv> 16"

definition USBHC_MEM_ROUND :: "u64 \<Rightarrow> u64" where
  "USBHC_MEM_ROUND Len = (Len + USBHC_MEM_UNIT_MASK) AND NOT USBHC_MEM_UNIT_MASK"

definition USB_HC_BIT :: "nat \<Rightarrow> u8" where
  "USB_HC_BIT a = push_bit a 1"

definition USB_HC_BIT_IS_SET :: "u8 \<Rightarrow> nat \<Rightarrow> bool" where
  "USB_HC_BIT_IS_SET Data b = ((Data AND USB_HC_BIT b) = USB_HC_BIT b)"

definition USB_HC_HIGH_32BIT :: "u64 \<Rightarrow> u32" where
  "USB_HC_HIGH_32BIT Addr64 = ucast (drop_bit 32 Addr64)"

fun NEXT_BIT :: "nat \<times> nat \<Rightarrow> nat \<times> nat" where
  "NEXT_BIT (Byte, Bit) = (if Bit + 1 > 7 then (Byte + 1, 0) else (Byte, Bit + 1))"

section \<open>Operations\<close>

text \<open>
  The failure paths release in the order of the labels \<open>FREE_BUFFER\<close> and \<open>FREE_BITARRAY\<close>. The
  result is \<open>None\<close> where the code returns \<open>NULL\<close>. \<open>sizeof (USBHC_MEM_BLOCK)\<close> is 56.
\<close>

definition UsbHcAllocMemBlock ::
  "'w dma_services \<Rightarrow> USBHC_MEM_POOL \<Rightarrow> u64 \<Rightarrow> 'w \<Rightarrow> USBHC_MEM_BLOCK option \<times> 'w" where
  "UsbHcAllocMemBlock sv Pool Pages w0 =
    (let (Block, w1) = AllocateZeroPool sv 56 w0 in
     if Block = 0 then (None, w1) else
     let buf_len = unat (EFI_PAGES_TO_SIZE Pages);
         bits_len = buf_len div (USBHC_MEM_UNIT * 8);
         (bits, w2) = AllocateZeroPool sv bits_len w1 in
     if bits = 0 then (None, FreePool sv Block w2) else
     let ((Status, host), w3) = DmaAllocateBuffer sv Pages w2;
         free_bitarray = (\<lambda>w. (None, FreePool sv Block (FreePool sv bits w)));
         free_buffer = (\<lambda>w. free_bitarray (DmaFreeBuffer sv Pages host w)) in
     if EFI_ERROR Status then free_bitarray w3 else
     let ((Status', Bytes, MappedAddr, map), w4) = DmaMap sv host (EFI_PAGES_TO_SIZE Pages) w3 in
     if EFI_ERROR Status' \<or> Bytes \<noteq> EFI_PAGES_TO_SIZE Pages then free_buffer w4 else
     if Check4G Pool \<and> Which4G Pool \<noteq> USB_HC_HIGH_32BIT MappedAddr
     then free_buffer (DmaUnmap sv map w4) else
     (Some \<lparr>Self = Block, Bits = replicate bits_len 0, BitsPtr = bits, BitsLen = bits_len,
            Buf = unat MappedAddr, BufHost = host, BufLen = buf_len, Mapping = map\<rparr>, w4))"

definition UsbHcFreeMemBlock :: "'w dma_services \<Rightarrow> USBHC_MEM_BLOCK \<Rightarrow> 'w \<Rightarrow> 'w" where
  "UsbHcFreeMemBlock sv Block w =
    (let w1 = DmaUnmap sv (Mapping Block) w;
         w2 = DmaFreeBuffer sv (EFI_SIZE_TO_PAGES (of_nat (BufLen Block))) (BufHost Block) w1 in
     FreePool sv (Self Block) (FreePool sv (BitsPtr Block) w2))"

text \<open>
  The search loop of \<open>UsbHcAllocMemFromBlock\<close>: its variables are the arguments, its result is
  \<open>(StartByte, StartBit, Available)\<close> when the loop is left.
\<close>

function UsbHcScan ::
  "u8 list \<Rightarrow> nat \<Rightarrow> nat \<Rightarrow> nat \<times> nat \<Rightarrow> nat \<times> nat \<Rightarrow> nat \<Rightarrow> (nat \<times> nat) \<times> nat" where
  "UsbHcScan bits bits_len Units (Byte, Bit) Start Available =
    (if Byte < bits_len then
       if \<not> USB_HC_BIT_IS_SET (bits ! Byte) Bit then
         if Available + 1 \<ge> Units then (Start, Available + 1)
         else UsbHcScan bits bits_len Units (NEXT_BIT (Byte, Bit)) Start (Available + 1)
       else UsbHcScan bits bits_len Units (NEXT_BIT (Byte, Bit)) (NEXT_BIT (Byte, Bit)) 0
     else (Start, Available))"
  by pat_completeness auto
termination
  by (relation "measures [\<lambda>(bits, n, u, (Byte, Bit), s, a). n - Byte,
                          \<lambda>(bits, n, u, (Byte, Bit), s, a). 8 - Bit]") auto

text \<open>The loop that marks the units, with its \<open>ASSERT\<close> that each was free.\<close>

fun UsbHcMarkUnits :: "nat \<Rightarrow> u8 list \<Rightarrow> nat \<times> nat \<Rightarrow> u8 list option" where
  "UsbHcMarkUnits 0 bits _ = Some bits"
| "UsbHcMarkUnits (Suc n) bits (Byte, Bit) =
    (if Byte < length bits \<and> \<not> USB_HC_BIT_IS_SET (bits ! Byte) Bit
     then UsbHcMarkUnits n (bits[Byte := bits ! Byte OR USB_HC_BIT Bit]) (NEXT_BIT (Byte, Bit))
     else None)"

text \<open>Result: the host pointer (0 is \<open>NULL\<close>) and the block with its bit array updated.\<close>

definition UsbHcAllocMemFromBlock ::
  "USBHC_MEM_BLOCK \<Rightarrow> nat \<Rightarrow> (nat \<times> USBHC_MEM_BLOCK) option" where
  "UsbHcAllocMemFromBlock Block Units =
    (if Units = 0 then None else
     let (Start, Available) = UsbHcScan (Bits Block) (BitsLen Block) Units (0, 0) (0, 0) 0 in
     if Available < Units then Some (0, Block) else
     case UsbHcMarkUnits Units (Bits Block) Start of
       None \<Rightarrow> None
     | Some bits \<Rightarrow>
         Some (BufHost Block + (fst Start * 8 + snd Start) * USBHC_MEM_UNIT, Block\<lparr>Bits := bits\<rparr>))"

text \<open>The test of both list scans: the block contains the \<open>AllocSize\<close> bytes at \<open>Mem\<close>.\<close>

definition block_contains :: "nat \<Rightarrow> u64 \<Rightarrow> USBHC_MEM_BLOCK \<Rightarrow> bool" where
  "block_contains Mem AllocSize Block =
    (BufHost Block \<le> Mem \<and> Mem + unat AllocSize \<le> BufHost Block + BufLen Block)"

definition UsbHcGetAddressForHostMem :: "USBHC_MEM_POOL \<Rightarrow> nat \<Rightarrow> u64 \<Rightarrow> nat option" where
  "UsbHcGetAddressForHostMem Pool Mem Size =
    (let AllocSize = USBHC_MEM_ROUND Size in
     if Mem = 0 then Some 0 else
     case find (block_contains Mem AllocSize) (Blocks Pool) of
       None \<Rightarrow> None
     | Some Block \<Rightarrow> Some (Buf Block + (Mem - BufHost Block)))"

fun UsbHcInsertMemBlockToPool ::
  "USBHC_MEM_BLOCK list \<Rightarrow> USBHC_MEM_BLOCK \<Rightarrow> USBHC_MEM_BLOCK list option" where
  "UsbHcInsertMemBlockToPool [] Block = None"
| "UsbHcInsertMemBlockToPool (Head # rest) Block = Some (Head # Block # rest)"

definition UsbHcIsMemBlockEmpty :: "USBHC_MEM_BLOCK \<Rightarrow> bool" where
  "UsbHcIsMemBlockEmpty Block = (\<forall>Index \<in> {0..<BitsLen Block}. Bits Block ! Index = 0)"

fun UsbHcUnlinkMemBlock :: "USBHC_MEM_BLOCK list \<Rightarrow> nat \<Rightarrow> USBHC_MEM_BLOCK list" where
  "UsbHcUnlinkMemBlock (Block # Next # rest) BlockToUnlink =
    (if Self Next = BlockToUnlink then Block # rest
     else Block # UsbHcUnlinkMemBlock (Next # rest) BlockToUnlink)"
| "UsbHcUnlinkMemBlock blocks BlockToUnlink = blocks"

text \<open>\<open>sizeof (USBHC_MEM_POOL)\<close> is 16.\<close>

definition UsbHcInitMemPool ::
  "'w dma_services \<Rightarrow> bool \<Rightarrow> u32 \<Rightarrow> 'w \<Rightarrow> USBHC_MEM_POOL option \<times> 'w" where
  "UsbHcInitMemPool sv check4g which4g w0 =
    (let (p, w1) = AllocatePool sv 16 w0 in
     if p = 0 then (None, w1) else
     let Pool = \<lparr>PoolSelf = p, Check4G = check4g, Which4G = which4g, Blocks = []\<rparr> in
     case UsbHcAllocMemBlock sv Pool USBHC_MEM_DEFAULT_PAGES w1 of
       (None, w2) \<Rightarrow> (None, FreePool sv p w2)
     | (Some Head, w2) \<Rightarrow> (Some (Pool\<lparr>Blocks := [Head]\<rparr>), w2))"

text \<open>
  The loop takes \<open>Head->Next\<close> until there is none; the head is freed last, then the pool itself.
\<close>

fun UsbHcFreeMemPool_loop :: "'w dma_services \<Rightarrow> USBHC_MEM_BLOCK list \<Rightarrow> 'w \<Rightarrow> 'w" where
  "UsbHcFreeMemPool_loop sv (Head # Block # rest) w =
     UsbHcFreeMemPool_loop sv (Head # rest) (UsbHcFreeMemBlock sv Block w)"
| "UsbHcFreeMemPool_loop sv [Head] w = UsbHcFreeMemBlock sv Head w"
| "UsbHcFreeMemPool_loop sv [] w = w"

definition UsbHcFreeMemPool ::
  "'w dma_services \<Rightarrow> USBHC_MEM_POOL \<Rightarrow> 'w \<Rightarrow> (EFI_STATUS \<times> 'w) option" where
  "UsbHcFreeMemPool sv Pool w =
    (if Blocks Pool = [] then None
     else Some (EFI_SUCCESS, FreePool sv (PoolSelf Pool) (UsbHcFreeMemPool_loop sv (Blocks Pool) w)))"

text \<open>The first loop of \<open>UsbHcAllocateMem\<close>: the first block that can satisfy the request.\<close>

fun UsbHcAllocFromBlocks ::
  "USBHC_MEM_BLOCK list \<Rightarrow> nat \<Rightarrow> (nat \<times> USBHC_MEM_BLOCK list) option" where
  "UsbHcAllocFromBlocks [] Units = Some (0, [])"
| "UsbHcAllocFromBlocks (Block # rest) Units =
    (case UsbHcAllocMemFromBlock Block Units of
       None \<Rightarrow> None
     | Some (Mem, Block') \<Rightarrow>
         if Mem \<noteq> 0 then Some (Mem, Block' # rest)
         else map_option (\<lambda>(m, rest'). (m, Block # rest')) (UsbHcAllocFromBlocks rest Units))"

definition UsbHcAllocateMem ::
  "'w dma_services \<Rightarrow> USBHC_MEM_POOL \<Rightarrow> u64 \<Rightarrow> 'w \<Rightarrow> (nat \<times> USBHC_MEM_POOL \<times> 'w) option" where
  "UsbHcAllocateMem sv Pool Size w =
    (let AllocSize = USBHC_MEM_ROUND Size;
         Units = unat AllocSize div USBHC_MEM_UNIT in
     if Blocks Pool = [] then None else
     do {
       (Mem, blocks) \<leftarrow> UsbHcAllocFromBlocks (Blocks Pool) Units;
       if Mem \<noteq> 0 then Some (Mem, Pool\<lparr>Blocks := blocks\<rparr>, ZeroMem sv Mem Size w) else
       let Pages = (if AllocSize > EFI_PAGES_TO_SIZE USBHC_MEM_DEFAULT_PAGES
                    then EFI_SIZE_TO_PAGES AllocSize + 1 else USBHC_MEM_DEFAULT_PAGES) in
       case UsbHcAllocMemBlock sv Pool Pages w of
         (None, w1) \<Rightarrow> Some (0, Pool, w1)
       | (Some NewBlock, w1) \<Rightarrow>
           do {
             (Mem', NewBlock') \<leftarrow> UsbHcAllocMemFromBlock NewBlock Units;
             blocks' \<leftarrow> UsbHcInsertMemBlockToPool (Blocks Pool) NewBlock';
             Some (Mem', Pool\<lparr>Blocks := blocks'\<rparr>,
                   if Mem' \<noteq> 0 then ZeroMem sv Mem' Size w1 else w1)
           }
     })"

text \<open>The loop of \<open>UsbHcFreeMem\<close> that clears the bits, with its \<open>ASSERT\<close> that each was set.\<close>

fun UsbHcClearUnits :: "nat \<Rightarrow> u8 list \<Rightarrow> nat \<times> nat \<Rightarrow> u8 list option" where
  "UsbHcClearUnits 0 bits _ = Some bits"
| "UsbHcClearUnits (Suc n) bits (Byte, Bit) =
    (if Byte < length bits \<and> USB_HC_BIT_IS_SET (bits ! Byte) Bit
     then UsbHcClearUnits n (bits[Byte := bits ! Byte XOR USB_HC_BIT Bit]) (NEXT_BIT (Byte, Bit))
     else None)"

text \<open>
  The scan of \<open>UsbHcFreeMem\<close>: the index of the first block that contains the memory, and that
  block with the bits cleared. No block, or an \<open>ASSERT\<close> of the loop, is \<open>None\<close>.
\<close>

fun UsbHcFreeScan ::
  "USBHC_MEM_BLOCK list \<Rightarrow> nat \<Rightarrow> u64 \<Rightarrow> (nat \<times> USBHC_MEM_BLOCK) option" where
  "UsbHcFreeScan [] ToFree AllocSize = None"
| "UsbHcFreeScan (Block # rest) ToFree AllocSize =
    (if block_contains ToFree AllocSize Block then
       let u = (ToFree - BufHost Block) div USBHC_MEM_UNIT in
       map_option (\<lambda>bits. (0, Block\<lparr>Bits := bits\<rparr>))
         (UsbHcClearUnits (unat AllocSize div USBHC_MEM_UNIT) (Bits Block) (u div 8, u mod 8))
     else map_option (\<lambda>(i, b). (Suc i, b)) (UsbHcFreeScan rest ToFree AllocSize))"

definition UsbHcFreeMem ::
  "'w dma_services \<Rightarrow> USBHC_MEM_POOL \<Rightarrow> nat \<Rightarrow> u64 \<Rightarrow> 'w \<Rightarrow> (USBHC_MEM_POOL \<times> 'w) option" where
  "UsbHcFreeMem sv Pool Mem Size w =
    (let AllocSize = USBHC_MEM_ROUND Size in
     do {
       (i, Block) \<leftarrow> UsbHcFreeScan (Blocks Pool) Mem AllocSize;
       let blocks = (Blocks Pool)[i := Block];
       if i \<noteq> 0 \<and> UsbHcIsMemBlockEmpty Block
       then Some (Pool\<lparr>Blocks := UsbHcUnlinkMemBlock blocks (Self Block)\<rparr>,
                  UsbHcFreeMemBlock sv Block w)
       else Some (Pool\<lparr>Blocks := blocks\<rparr>, w)
     })"

section \<open>The bit array\<close>

text \<open>Unit \<open>u\<close> of a block is bit \<open>u mod 8\<close> of byte \<open>u div 8\<close>; \<open>pos\<close> is the unit a cursor stands on.\<close>

declare UsbHcScan.simps [simp del]

definition used :: "u8 list \<Rightarrow> nat \<Rightarrow> bool" where
  "used bits u = bit (bits ! (u div 8)) (u mod 8)"

fun pos :: "nat \<times> nat \<Rightarrow> nat" where
  "pos (Byte, Bit) = Byte * 8 + Bit"

lemma bit_USB_HC_BIT: "b < 8 \<Longrightarrow> bit (USB_HC_BIT b) k \<longleftrightarrow> k = b"
  by (auto simp: USB_HC_BIT_def bit_simps)

lemma BIT_IS_SET_iff: "b < 8 \<Longrightarrow> USB_HC_BIT_IS_SET d b \<longleftrightarrow> bit d b"
proof
  assume b: "b < 8" and "USB_HC_BIT_IS_SET d b"
  then have "bit (d AND USB_HC_BIT b) b"
    by (simp add: USB_HC_BIT_IS_SET_def bit_USB_HC_BIT)
  then show "bit d b"
    by (simp add: bit_simps)
next
  assume "b < 8" "bit d b"
  then show "USB_HC_BIT_IS_SET d b"
    unfolding USB_HC_BIT_IS_SET_def
    by (intro bit_word_eqI) (auto simp: bit_and_iff bit_USB_HC_BIT)
qed

lemma NEXT_BIT_pos:
  "snd st < 8 \<Longrightarrow> snd (NEXT_BIT st) < 8 \<and> pos (NEXT_BIT st) = Suc (pos st)"
  by (cases st) auto

lemma pos_split: "snd st < 8 \<Longrightarrow> pos st div 8 = fst st \<and> pos st mod 8 = snd st"
  by (cases st) auto

lemma used_pos: "snd st < 8 \<Longrightarrow> used bits (pos st) \<longleftrightarrow> USB_HC_BIT_IS_SET (bits ! fst st) (snd st)"
  by (simp add: used_def BIT_IS_SET_iff pos_split)

lemma used_update:
  assumes "snd st < 8" "fst st < length bits" "\<And>k. k < 8 \<Longrightarrow> bit v k = (if k = snd st then c else bit (bits ! fst st) k)"
  shows "used (bits[fst st := v]) u = (if u = pos st then c else used bits u)"
proof -
  have "u = pos st \<longleftrightarrow> u div 8 = fst st \<and> u mod 8 = snd st"
    using assms(1) pos_split[OF assms(1)] by (cases st) (metis pos.simps div_mult_mod_eq fst_conv snd_conv)
  then show ?thesis
    using assms by (auto simp: used_def nth_list_update)
qed

lemma mark_units:
  assumes "snd st < 8" "\<forall>u \<in> {pos st..<pos st + n}. u < 8 * length bits \<and> \<not> used bits u"
  shows "\<exists>bits'. UsbHcMarkUnits n bits st = Some bits' \<and> length bits' = length bits
    \<and> (\<forall>u. used bits' u \<longleftrightarrow> used bits u \<or> u \<in> {pos st..<pos st + n})"
  using assms
proof (induction n arbitrary: bits st)
  case 0
  then show ?case by auto
next
  case (Suc n)
  obtain Byte Bit where st: "st = (Byte, Bit)" by (cases st)
  let ?v = "bits ! Byte OR USB_HC_BIT Bit"
  let ?bits = "bits[Byte := ?v]"
  have lt: "pos st < 8 * length bits" and free: "\<not> used bits (pos st)"
    using Suc.prems(2) by auto
  have B: "Byte < length bits" using lt st by simp
  have upd: "used ?bits u = (if u = pos st then True else used bits u)" for u
    using used_update[OF Suc.prems(1), of bits ?v True u] B Suc.prems(1) st
    by (simp add: bit_or_iff bit_USB_HC_BIT)
  have "\<forall>u \<in> {pos (NEXT_BIT st)..<pos (NEXT_BIT st) + n}. u < 8 * length ?bits \<and> \<not> used ?bits u"
    using Suc.prems(2) NEXT_BIT_pos[OF Suc.prems(1)] by (auto simp: upd)
  then obtain bits' where "UsbHcMarkUnits n ?bits (NEXT_BIT st) = Some bits'" "length bits' = length bits"
    "\<forall>u. used bits' u \<longleftrightarrow> used ?bits u \<or> u \<in> {pos (NEXT_BIT st)..<pos (NEXT_BIT st) + n}"
    using Suc.IH[of "NEXT_BIT st" ?bits] NEXT_BIT_pos[OF Suc.prems(1)] by auto
  then show ?case
    using B free NEXT_BIT_pos[OF Suc.prems(1)] used_pos[OF Suc.prems(1), of bits] st
    by (auto simp: upd)
qed

lemma clear_units:
  assumes "snd st < 8" "\<forall>u \<in> {pos st..<pos st + n}. u < 8 * length bits \<and> used bits u"
  shows "\<exists>bits'. UsbHcClearUnits n bits st = Some bits' \<and> length bits' = length bits
    \<and> (\<forall>u. used bits' u \<longleftrightarrow> used bits u \<and> u \<notin> {pos st..<pos st + n})"
  using assms
proof (induction n arbitrary: bits st)
  case 0
  then show ?case by auto
next
  case (Suc n)
  obtain Byte Bit where st: "st = (Byte, Bit)" by (cases st)
  let ?v = "bits ! Byte XOR USB_HC_BIT Bit"
  let ?bits = "bits[Byte := ?v]"
  have lt: "pos st < 8 * length bits" and set: "used bits (pos st)"
    using Suc.prems(2) by auto
  have B: "Byte < length bits" using lt st by simp
  have b: "bit (bits ! Byte) Bit" using set used_pos[OF Suc.prems(1), of bits] BIT_IS_SET_iff Suc.prems(1) st by simp
  have upd: "used ?bits u = (if u = pos st then False else used bits u)" for u
    using used_update[OF Suc.prems(1), of bits ?v False u] B b Suc.prems(1) st
    by (simp add: bit_xor_iff bit_USB_HC_BIT)
  have "\<forall>u \<in> {pos (NEXT_BIT st)..<pos (NEXT_BIT st) + n}. u < 8 * length ?bits \<and> used ?bits u"
    using Suc.prems(2) NEXT_BIT_pos[OF Suc.prems(1)] by (auto simp: upd)
  then obtain bits' where r: "UsbHcClearUnits n ?bits (NEXT_BIT st) = Some bits'" "length bits' = length bits"
    and u: "\<forall>u. used bits' u \<longleftrightarrow> used ?bits u \<and> u \<notin> {pos (NEXT_BIT st)..<pos (NEXT_BIT st) + n}"
    using Suc.IH[of "NEXT_BIT st" ?bits] NEXT_BIT_pos[OF Suc.prems(1)] by auto
  have "UsbHcClearUnits (Suc n) bits st = Some bits'"
    using B set used_pos[OF Suc.prems(1), of bits] r(1) st by simp
  moreover have "used bits' u \<longleftrightarrow> used bits u \<and> u \<notin> {pos st..<pos st + Suc n}" for u
    using u[rule_format, of u] NEXT_BIT_pos[OF Suc.prems(1)] by (auto simp: upd)
  ultimately show ?case
    using r(2) by blast
qed

lemma clear_units_used:
  assumes "snd st < 8" "UsbHcClearUnits n bits st = Some bits'"
  shows "\<forall>u \<in> {pos st..<pos st + n}. u < 8 * length bits \<and> used bits u"
  using assms
proof (induction n arbitrary: bits st)
  case 0
  then show ?case by auto
next
  case (Suc n)
  obtain Byte Bit where st: "st = (Byte, Bit)" by (cases st)
  let ?v = "bits ! Byte XOR USB_HC_BIT Bit"
  let ?bits = "bits[Byte := ?v]"
  have B: "Byte < length bits" and s: "USB_HC_BIT_IS_SET (bits ! Byte) Bit"
    and r: "UsbHcClearUnits n ?bits (NEXT_BIT st) = Some bits'"
    using Suc.prems(2) st by (auto split: if_splits)
  have b: "bit (bits ! Byte) Bit" and set: "used bits (pos st)" using s used_pos[OF Suc.prems(1), of bits] BIT_IS_SET_iff Suc.prems(1) st by auto
  have upd: "used ?bits u = (if u = pos st then False else used bits u)" for u
    using used_update[OF Suc.prems(1), of bits ?v False u] B b Suc.prems(1) st
    by (simp add: bit_xor_iff bit_USB_HC_BIT)
  have "\<forall>u \<in> {pos (NEXT_BIT st)..<pos (NEXT_BIT st) + n}. u < 8 * length ?bits \<and> used ?bits u"
    using Suc.IH[OF _ r] NEXT_BIT_pos[OF Suc.prems(1)] by blast
  moreover have "pos st < 8 * length bits" using B Suc.prems(1) st by simp
  ultimately show ?case
    using set NEXT_BIT_pos[OF Suc.prems(1)]
    by (auto simp: upd split: if_splits)  (metis Suc_leI atLeastLessThan_iff le_neq_implies_less)+
qed

section \<open>The first-fit search\<close>

text \<open>The scan finds the lowest run of free units that is long enough, and reports none exactly when there is none.\<close>

definition free_run :: "u8 list \<Rightarrow> nat \<Rightarrow> nat \<Rightarrow> nat \<Rightarrow> bool" where
  "free_run bits n k s \<longleftrightarrow> s + k \<le> n \<and> (\<forall>u \<in> {s..<s + k}. \<not> used bits u)"

definition first_fit :: "u8 list \<Rightarrow> nat \<Rightarrow> nat \<Rightarrow> nat \<Rightarrow> bool" where
  "first_fit bits n k s \<longleftrightarrow> free_run bits n k s \<and> (\<forall>t < s. \<not> free_run bits n k t)"

definition scan_inv :: "u8 list \<Rightarrow> nat \<Rightarrow> nat \<Rightarrow> nat \<times> nat \<Rightarrow> nat \<times> nat \<Rightarrow> nat \<Rightarrow> bool" where
  "scan_inv bits n k st start a \<longleftrightarrow>
     snd st < 8 \<and> snd start < 8 \<and> pos st \<le> 8 * n \<and> pos start + a = pos st \<and> a < k
   \<and> (\<forall>u \<in> {pos start..<pos st}. \<not> used bits u)
   \<and> (\<forall>t < pos start. \<not> free_run bits (8 * n) k t)"

lemma scan_inv_free:
  assumes "scan_inv bits n k st start a" "fst st < n" "\<not> used bits (pos st)" "Suc a < k"
  shows "scan_inv bits n k (NEXT_BIT st) start (Suc a)"
  using assms NEXT_BIT_pos[of st]
  by (cases st) (auto simp: scan_inv_def less_Suc_eq)

lemma scan_inv_used:
  assumes I: "scan_inv bits n k st start a" and "fst st < n" and u: "used bits (pos st)"
  shows "scan_inv bits n k (NEXT_BIT st) (NEXT_BIT st) 0"
proof -
  have "\<not> free_run bits (8 * n) k t" if "t < Suc (pos st)" for t
  proof (cases "t < pos start")
    case True
    then show ?thesis using I by (simp add: scan_inv_def)
  next
    case False
    then have "pos st \<in> {t..<t + k}" using that I by (auto simp: scan_inv_def)
    then show ?thesis using u by (auto simp: free_run_def)
  qed
  then show ?thesis
    using assms NEXT_BIT_pos[of st] by (cases st) (auto simp: scan_inv_def)
qed

lemma scan_spec:
  assumes "scan_inv bits n k st start a"
  shows "\<exists>s a'. UsbHcScan bits n k st start a = (s, a') \<and> snd s < 8 \<and>
     (if k \<le> a' then a' = k \<and> first_fit bits (8 * n) k (pos s)
      else \<forall>t. \<not> free_run bits (8 * n) k t)"
  using assms
proof (induction bits n k st start a rule: UsbHcScan.induct)
  case (1 bits n k Byte Bit start a)
  let ?st = "(Byte, Bit)"
  have st8: "snd ?st < 8" using "1.prems" by (simp add: scan_inv_def)
  note eq = UsbHcScan.simps[of bits n k Byte Bit start a]
  note set = used_pos[OF st8, of bits]
  consider (stop) "\<not> Byte < n" | (last) "Byte < n" "\<not> used bits (pos ?st)" "k \<le> Suc a"
    | (free) "Byte < n" "\<not> used bits (pos ?st)" "Suc a < k" | (used) "Byte < n" "used bits (pos ?st)"
    by linarith
  then show ?case
  proof cases
    case stop
    then have "pos ?st = 8 * n" "pos start + a = 8 * n" "a < k" using "1.prems" by (auto simp: scan_inv_def)
    then have "\<not> free_run bits (8 * n) k t" for t
      using "1.prems" by (cases "t < pos start") (auto simp: scan_inv_def free_run_def)
    then show ?thesis using stop "1.prems" eq by (auto simp: scan_inv_def)
  next
    case last
    then have k: "Suc a = k" and p: "{pos start..<pos start + k} = insert (pos ?st) {pos start..<pos ?st}"
      using "1.prems" by (auto simp: scan_inv_def)
    then have "first_fit bits (8 * n) k (pos start)"
      using "1.prems" last by (auto simp: first_fit_def free_run_def scan_inv_def p)
    then show ?thesis using last eq set k "1.prems" by (auto simp: scan_inv_def)
  next
    case free
    then show ?thesis
      using "1.IH"(1) scan_inv_free[OF "1.prems"] eq set by auto
  next
    case used
    then show ?thesis
      using "1.IH"(2) scan_inv_used[OF "1.prems"] eq set by auto
  qed
qed

definition block_wf :: "USBHC_MEM_BLOCK \<Rightarrow> bool" where
  "block_wf b \<longleftrightarrow> length (Bits b) = BitsLen b \<and> BufLen b = BitsLen b * 512 \<and> BufHost b \<noteq> 0
     \<and> 8 dvd BitsLen b \<and> BufLen b < 2 ^ 64"

lemma scan_start:
  assumes "0 < k"
  shows "scan_inv bits n k (0, 0) (0, 0) 0"
  using assms by (simp add: scan_inv_def)

lemma alloc_from_block:
  assumes wf: "block_wf b" and k: "0 < k"
  shows "(\<forall>s. \<not> free_run (Bits b) (8 * BitsLen b) k s) \<and> UsbHcAllocMemFromBlock b k = Some (0, b)
    \<or> (\<exists>s bits'. first_fit (Bits b) (8 * BitsLen b) k s \<and> length bits' = BitsLen b
        \<and> UsbHcAllocMemFromBlock b k = Some (BufHost b + s * 64, b\<lparr>Bits := bits'\<rparr>)
        \<and> (\<forall>u. used bits' u \<longleftrightarrow> used (Bits b) u \<or> u \<in> {s..<s + k}))"
proof -
  obtain s a where sc: "UsbHcScan (Bits b) (BitsLen b) k (0, 0) (0, 0) 0 = (s, a)" "snd s < 8"
    and R: "if k \<le> a then a = k \<and> first_fit (Bits b) (8 * BitsLen b) k (pos s)
      else \<forall>t. \<not> free_run (Bits b) (8 * BitsLen b) k t"
    using scan_spec[OF scan_start[OF k]] by blast
  show ?thesis
  proof (cases "k \<le> a")
    case False
    then show ?thesis using R sc k by (simp add: UsbHcAllocMemFromBlock_def)
  next
    case True
    then have ff: "first_fit (Bits b) (8 * BitsLen b) k (pos s)" using R by simp
    then have "\<forall>u \<in> {pos s..<pos s + k}. u < 8 * length (Bits b) \<and> \<not> used (Bits b) u"
      using wf by (auto simp: first_fit_def free_run_def block_wf_def)
    from mark_units[OF sc(2) this] obtain bits' where
      "UsbHcMarkUnits k (Bits b) s = Some bits'" "length bits' = length (Bits b)"
      "\<forall>u. used bits' u \<longleftrightarrow> used (Bits b) u \<or> u \<in> {pos s..<pos s + k}" by blast
    then show ?thesis
      using ff True sc k wf
      by (intro disjI2 exI[of _ "pos s"] exI[of _ bits'], cases s)
         (auto simp: UsbHcAllocMemFromBlock_def block_wf_def)
  qed
qed

section \<open>Blocks and what they hold\<close>

definition block_range :: "USBHC_MEM_BLOCK \<Rightarrow> nat set" where
  "block_range b = {BufHost b..<BufHost b + BufLen b}"

definition chunk :: "nat \<Rightarrow> nat \<Rightarrow> nat set" where
  "chunk m k = {m..<m + 64 * k}"

definition block_live :: "USBHC_MEM_BLOCK \<Rightarrow> nat set" where
  "block_live b = {x \<in> block_range b. used (Bits b) ((x - BufHost b) div 64)}"

definition blocks_live :: "USBHC_MEM_BLOCK list \<Rightarrow> nat set" where
  "blocks_live bs = (\<Union>b \<in> set bs. block_live b)"

definition block_ptrs :: "USBHC_MEM_BLOCK \<Rightarrow> nat set" where
  "block_ptrs b = {Self b, BitsPtr b}"

definition apart :: "USBHC_MEM_BLOCK \<Rightarrow> USBHC_MEM_BLOCK \<Rightarrow> bool" where
  "apart b c \<longleftrightarrow> block_range b \<inter> block_range c = {} \<and> block_ptrs b \<inter> block_ptrs c = {}"

definition blocks_wf :: "USBHC_MEM_BLOCK list \<Rightarrow> bool" where
  "blocks_wf bs \<longleftrightarrow> (\<forall>b \<in> set bs. block_wf b) \<and> sorted_wrt apart bs"

text \<open>A block with a new bit array of the right length is where it was.\<close>

lemma apart_sym: "apart b c \<Longrightarrow> apart c b"
  by (auto simp: apart_def)

lemma apart_Bits [simp]:
  "apart (b\<lparr>Bits := x\<rparr>) c = apart b c" "apart c (b\<lparr>Bits := x\<rparr>) = apart c b"
  by (simp_all add: apart_def block_range_def block_ptrs_def)

lemma block_wf_Bits: "block_wf b \<Longrightarrow> length x = BitsLen b \<Longrightarrow> block_wf (b\<lparr>Bits := x\<rparr>)"
  by (simp add: block_wf_def)

lemma block_live_range: "block_live b \<subseteq> block_range b"
  by (auto simp: block_live_def)

lemma chunk_block:
  "x \<in> chunk (BufHost b + 64 * s) k \<longleftrightarrow> BufHost b \<le> x \<and> (x - BufHost b) div 64 \<in> {s..<s + k}"
proof -
  have "x < BufHost b + 64 * s + 64 * k \<longleftrightarrow> (x - BufHost b) div 64 < s + k" if "BufHost b \<le> x"
    using that by (auto simp: div_less_iff_less_mult)
  moreover have "BufHost b + 64 * s \<le> x \<longleftrightarrow> BufHost b \<le> x \<and> s \<le> (x - BufHost b) div 64"
    by (auto simp: less_eq_div_iff_mult_less_eq)
  ultimately show ?thesis
    by (auto simp: chunk_def)
qed

lemma chunk_range:
  "block_wf b \<Longrightarrow> s + k \<le> 8 * BitsLen b \<Longrightarrow> chunk (BufHost b + 64 * s) k \<subseteq> block_range b"
  by (auto simp: chunk_def block_range_def block_wf_def)

lemma block_live_mark:
  assumes "block_wf b" "s + k \<le> 8 * BitsLen b"
    "\<forall>u. used bits' u \<longleftrightarrow> used (Bits b) u \<or> u \<in> {s..<s + k}"
  shows "block_live (b\<lparr>Bits := bits'\<rparr>) = block_live b \<union> chunk (BufHost b + 64 * s) k"
proof (rule set_eqI)
  fix x
  show "x \<in> block_live (b\<lparr>Bits := bits'\<rparr>) \<longleftrightarrow> x \<in> block_live b \<union> chunk (BufHost b + 64 * s) k"
    using assms(3)[rule_format, of "(x - BufHost b) div 64"] chunk_range[OF assms(1,2)]
    by (auto simp: block_live_def chunk_block block_range_def)
qed

lemma block_live_clear:
  assumes "\<forall>u. used bits' u \<longleftrightarrow> used (Bits b) u \<and> u \<notin> {s..<s + k}"
  shows "block_live (b\<lparr>Bits := bits'\<rparr>) = block_live b - chunk (BufHost b + 64 * s) k"
proof (rule set_eqI)
  fix x
  show "x \<in> block_live (b\<lparr>Bits := bits'\<rparr>) \<longleftrightarrow> x \<in> block_live b - chunk (BufHost b + 64 * s) k"
    using assms[rule_format, of "(x - BufHost b) div 64"]
    by (auto simp: block_live_def chunk_block block_range_def)
qed

lemma free_run_fresh:
  assumes "free_run (Bits b) (8 * BitsLen b) k s"
  shows "block_live b \<inter> chunk (BufHost b + 64 * s) k = {}"
proof (rule equals0I)
  fix x assume "x \<in> block_live b \<inter> chunk (BufHost b + 64 * s) k"
  then have "used (Bits b) ((x - BufHost b) div 64)" "(x - BufHost b) div 64 \<in> {s..<s + k}"
    by (simp_all only: Int_iff chunk_block block_live_def mem_Collect_eq)
  then show False
    using assms unfolding free_run_def by blast
qed

definition marked :: "USBHC_MEM_BLOCK \<Rightarrow> nat \<Rightarrow> nat \<Rightarrow> u8 list \<Rightarrow> bool" where
  "marked b k s bits' \<longleftrightarrow> length bits' = BitsLen b \<and> (\<forall>u. used bits' u \<longleftrightarrow> used (Bits b) u \<or> u \<in> {s..<s + k})"

abbreviation "no_room b k \<equiv> \<forall>s. \<not> free_run (Bits b) (8 * BitsLen b) k s"

lemma alloc_from_block':
  assumes wf: "block_wf b" and k: "0 < k"
  obtains (none) "no_room b k" "UsbHcAllocMemFromBlock b k = Some (0, b)"
    | (fit) s bits' where "first_fit (Bits b) (8 * BitsLen b) k s" "marked b k s bits'"
        "UsbHcAllocMemFromBlock b k = Some (BufHost b + 64 * s, b\<lparr>Bits := bits'\<rparr>)"
  using alloc_from_block[OF assms] by (auto simp: marked_def mult.commute)

lemma alloc_from_blocks:
  assumes "\<forall>b \<in> set bs. block_wf b" "0 < k"
  shows "(\<forall>b \<in> set bs. no_room b k) \<and> UsbHcAllocFromBlocks bs k = Some (0, bs)
    \<or> (\<exists>xs b ys s bits'. bs = xs @ b # ys \<and> (\<forall>x \<in> set xs. no_room x k)
         \<and> first_fit (Bits b) (8 * BitsLen b) k s \<and> marked b k s bits'
         \<and> UsbHcAllocFromBlocks bs k = Some (BufHost b + 64 * s, xs @ b\<lparr>Bits := bits'\<rparr> # ys))"
  using assms(1)
proof (induction bs)
  case Nil
  then show ?case by simp
next
  case (Cons b bs)
  have wf: "block_wf b" using Cons.prems by simp
  from this assms(2) show ?case
  proof (cases rule: alloc_from_block')
    case none
    from Cons.IH Cons.prems consider
      "\<forall>b \<in> set bs. no_room b k" "UsbHcAllocFromBlocks bs k = Some (0, bs)"
      | xs c ys s bits' where "bs = xs @ c # ys" "\<forall>x \<in> set xs. no_room x k"
         "first_fit (Bits c) (8 * BitsLen c) k s" "marked c k s bits'"
         "UsbHcAllocFromBlocks bs k = Some (BufHost c + 64 * s, xs @ c\<lparr>Bits := bits'\<rparr> # ys)"
      by auto
    then show ?thesis
    proof cases
      case 1
      then show ?thesis using none by simp
    next
      case 2
      then show ?thesis
        using none by (intro disjI2 exI[of _ "b # xs"] exI[of _ c] exI[of _ ys] exI[of _ s] exI[of _ bits']) simp
    qed
  next
    case (fit s bits')
    then show ?thesis
      using wf by (intro disjI2 exI[of _ "[]"] exI[of _ b] exI[of _ bs] exI[of _ s] exI[of _ bits'])
        (simp add: block_wf_def)
  qed
qed

lemma blocks_wf_replace:
  "blocks_wf (xs @ b # ys) \<Longrightarrow> length x = BitsLen b \<Longrightarrow> blocks_wf (xs @ b\<lparr>Bits := x\<rparr> # ys)"
  by (auto simp: blocks_wf_def sorted_wrt_append block_wf_Bits)

lemma blocks_wf_remove: "blocks_wf (xs @ b # ys) \<Longrightarrow> blocks_wf (xs @ ys)"
  by (auto simp: blocks_wf_def sorted_wrt_append)

lemma blocks_wf_split:
  assumes "blocks_wf (xs @ b # ys)"
  shows "block_wf b" "c \<in> set xs \<union> set ys \<Longrightarrow> apart b c" "c \<in> set xs \<union> set ys \<Longrightarrow> block_wf c"
  using assms by (auto simp: blocks_wf_def sorted_wrt_append intro: apart_sym)

lemma blocks_live_append [simp]:
  "blocks_live (xs @ ys) = blocks_live xs \<union> blocks_live ys"
  "blocks_live (b # ys) = block_live b \<union> blocks_live ys" "blocks_live [] = {}"
  by (auto simp: blocks_live_def)

lemma apart_live_chunk:
  assumes "blocks_wf (xs @ b # ys)" "s + k \<le> 8 * BitsLen b"
  shows "chunk (BufHost b + 64 * s) k \<inter> (blocks_live xs \<union> blocks_live ys) = {}"
proof -
  have "block_live c \<inter> block_range b = {}" if "c \<in> set xs \<union> set ys" for c
    using blocks_wf_split[OF assms(1)] block_live_range[of c] that by (fastforce simp: apart_def)
  then show ?thesis
    using chunk_range[OF blocks_wf_split(1)[OF assms(1)] assms(2)]
    by (fastforce simp: blocks_live_def)
qed

text \<open>What the caller holds: \<open>k\<close> units at \<open>m\<close>, all in one block and all marked.\<close>

definition block_holds :: "nat \<Rightarrow> nat \<Rightarrow> USBHC_MEM_BLOCK \<Rightarrow> bool" where
  "block_holds m k b \<longleftrightarrow> (\<exists>s. m = BufHost b + 64 * s \<and> s + k \<le> 8 * BitsLen b
      \<and> (\<forall>u \<in> {s..<s + k}. used (Bits b) u))"

lemma block_holds_live:
  assumes "block_wf b" "block_holds m k b"
  shows "chunk m k \<subseteq> block_live b"
proof -
  obtain s where "m = BufHost b + 64 * s" "s + k \<le> 8 * BitsLen b" "\<forall>u \<in> {s..<s + k}. used (Bits b) u"
    using assms(2) by (auto simp: block_holds_def)
  then show ?thesis
    using chunk_range[OF assms(1)] by (auto simp: block_live_def chunk_block)
qed

lemma block_holds_contains:
  assumes "block_wf b" "block_holds m k b" "unat sz = 64 * k"
  shows "block_contains m sz b"
  using assms by (auto simp: block_holds_def block_contains_def block_wf_def)

lemma contains_range: "block_contains m sz b \<Longrightarrow> {m..<m + unat sz} \<subseteq> block_range b"
  by (auto simp: block_contains_def block_range_def)

lemma free_scan:
  assumes "blocks_wf (xs @ b # ys)" "block_holds m k b" "0 < k" "unat sz = 64 * k"
  shows "\<exists>s bits'. UsbHcFreeScan (xs @ b # ys) m sz = Some (length xs, b\<lparr>Bits := bits'\<rparr>)
     \<and> m = BufHost b + 64 * s \<and> length bits' = BitsLen b
     \<and> (\<forall>u. used bits' u \<longleftrightarrow> used (Bits b) u \<and> u \<notin> {s..<s + k})"
  using assms(1)
proof (induction xs)
  case Nil
  then have wf: "block_wf b" by (simp add: blocks_wf_def)
  obtain s where s: "m = BufHost b + 64 * s" "s + k \<le> 8 * BitsLen b" "\<forall>u \<in> {s..<s + k}. used (Bits b) u"
    using assms(2) by (auto simp: block_holds_def)
  let ?st = "(s div 8, s mod 8)"
  have "\<forall>u \<in> {pos ?st..<pos ?st + k}. u < 8 * length (Bits b) \<and> used (Bits b) u"
    using s wf by (auto simp: block_wf_def)
  from clear_units[OF _ this] obtain bits' where
    "UsbHcClearUnits k (Bits b) ?st = Some bits'" "length bits' = length (Bits b)"
    "\<forall>u. used bits' u \<longleftrightarrow> used (Bits b) u \<and> u \<notin> {s..<s + k}" by auto
  then show ?case
    using s(1) assms(4) wf block_holds_contains[OF wf assms(2,4)]
    by (intro exI[of _ s] exI[of _ bits']) (simp add: block_wf_def)
next
  case (Cons x xs)
  then have wf: "blocks_wf (xs @ b # ys)" "apart x b" "block_wf b" by (auto simp: blocks_wf_def)
  have "chunk m k \<subseteq> block_range b" "chunk m k \<noteq> {}"
    using block_holds_live[OF wf(3) assms(2)] block_live_range[of b] assms(3) by (auto simp: chunk_def)
  then have "\<not> block_contains m sz x"
    using wf(2) contains_range[of m sz x] assms(4) by (fastforce simp: apart_def chunk_def)
  then show ?case using Cons.IH[OF wf(1)] by auto
qed

end
