(* ===== verification/UsbHcPool.thy ===== *)
theory UsbHcPool
  imports UsbHcMem
begin

unbundle bit_operations_syntax

text \<open>
  The pool as its clients see it: what the DMA and pool-memory services promise, the invariant
  of a pool, and what the operations of \<open>UsbHcMem\<close> do to the memory the pool owns and to the
  memory it has handed out.
\<close>

section \<open>Units\<close>

definition units_of :: "u64 \<Rightarrow> nat" where
  "units_of sz = (unat sz + 63) div 64"

lemma unat_ROUND:
  assumes "unat sz \<le> 2 ^ 64 - 64"
  shows "unat (USBHC_MEM_ROUND sz) = 64 * units_of sz"
proof -
  have "unat (sz + 63) = unat sz + 63"
    using assms by (simp add: unat_word_ariths)
  moreover have "USBHC_MEM_ROUND sz = (sz + 63) AND NOT (mask 6)"
    by (simp add: USBHC_MEM_ROUND_def mask_eq_exp_minus_1)
  ultimately show ?thesis
    by (simp only: unat_AND_NOT_mask units_of_def) simp
qed


section \<open>The services\<close>

definition pool_alloc_ok ::
  "('w \<Rightarrow> nat set) \<Rightarrow> ('w \<Rightarrow> nat set) \<Rightarrow> (nat \<Rightarrow> 'w \<Rightarrow> nat \<times> 'w) \<Rightarrow> bool" where
  "pool_alloc_ok inuse pooled f \<longleftrightarrow> (\<forall>n w p w'. f n w = (p, w') \<longrightarrow> inuse w' = inuse w \<and>
     (if p = 0 then pooled w' = pooled w else p \<notin> pooled w \<and> pooled w' = insert p (pooled w)))"

definition dma_alloc_ok ::
  "('w \<Rightarrow> nat set) \<Rightarrow> ('w \<Rightarrow> nat set) \<Rightarrow> (u64 \<Rightarrow> 'w \<Rightarrow> (EFI_STATUS \<times> nat) \<times> 'w) \<Rightarrow> bool" where
  "dma_alloc_ok inuse pooled f \<longleftrightarrow> (\<forall>n w st a w'. f n w = ((st, a), w') \<longrightarrow> pooled w' = pooled w \<and>
     (if EFI_ERROR st then inuse w' = inuse w
      else a \<noteq> 0 \<and> unat n < 2 ^ 52 \<and> {a..<a + 4096 * unat n} \<inter> inuse w = {}
           \<and> inuse w' = inuse w \<union> {a..<a + 4096 * unat n}))"

definition dma_ok :: "'w dma_services \<Rightarrow> ('w \<Rightarrow> nat set) \<Rightarrow> ('w \<Rightarrow> nat set) \<Rightarrow> bool" where
  "dma_ok sv inuse pooled \<longleftrightarrow>
     pool_alloc_ok inuse pooled (AllocateZeroPool sv) \<and> pool_alloc_ok inuse pooled (AllocatePool sv)
   \<and> (\<forall>p w. inuse (FreePool sv p w) = inuse w \<and> pooled (FreePool sv p w) = pooled w - {p})
   \<and> dma_alloc_ok inuse pooled (DmaAllocateBuffer sv)
   \<and> (\<forall>n a w. pooled (DmaFreeBuffer sv n a w) = pooled w
        \<and> inuse (DmaFreeBuffer sv n a w) = inuse w - {a..<a + 4096 * unat n})
   \<and> (\<forall>a n w. inuse (snd (DmaMap sv a n w)) = inuse w \<and> pooled (snd (DmaMap sv a n w)) = pooled w)
   \<and> (\<forall>m w. inuse (DmaUnmap sv m w) = inuse w \<and> pooled (DmaUnmap sv m w) = pooled w)
   \<and> (\<forall>a n w. inuse (ZeroMem sv a n w) = inuse w \<and> pooled (ZeroMem sv a n w) = pooled w)"

lemma pool_allocD:
  assumes "pool_alloc_ok inuse pooled f" "f n w = (p, w')"
  shows "inuse w' = inuse w" "p = 0 \<Longrightarrow> pooled w' = pooled w"
    "p \<noteq> 0 \<Longrightarrow> p \<notin> pooled w" "p \<noteq> 0 \<Longrightarrow> pooled w' = insert p (pooled w)"
  using assms by (auto simp: pool_alloc_ok_def split: if_splits)

lemma dma_allocD:
  assumes "dma_alloc_ok inuse pooled f" "f n w = ((st, a), w')"
  shows "pooled w' = pooled w" "EFI_ERROR st \<Longrightarrow> inuse w' = inuse w"
    "\<not> EFI_ERROR st \<Longrightarrow> a \<noteq> 0" "\<not> EFI_ERROR st \<Longrightarrow> unat n < 2 ^ 52"
    "\<not> EFI_ERROR st \<Longrightarrow> {a..<a + 4096 * unat n} \<inter> inuse w = {}"
    "\<not> EFI_ERROR st \<Longrightarrow> inuse w' = inuse w \<union> {a..<a + 4096 * unat n}"
  using assms(1)[unfolded dma_alloc_ok_def, rule_format, OF assms(2)] by simp_all

lemma dma_okD:
  assumes "dma_ok sv inuse pooled"
  shows dma_zero_pool: "pool_alloc_ok inuse pooled (AllocateZeroPool sv)"
    and dma_pool: "pool_alloc_ok inuse pooled (AllocatePool sv)"
    and dma_free_pool: "inuse (FreePool sv p w) = inuse w" "pooled (FreePool sv p w) = pooled w - {p}"
    and dma_alloc: "dma_alloc_ok inuse pooled (DmaAllocateBuffer sv)"
    and dma_free: "pooled (DmaFreeBuffer sv pg a w) = pooled w"
      "inuse (DmaFreeBuffer sv pg a w) = inuse w - {a..<a + 4096 * unat pg}"
    and dma_map: "inuse (snd (DmaMap sv a pg w)) = inuse w" "pooled (snd (DmaMap sv a pg w)) = pooled w"
    and dma_unmap: "inuse (DmaUnmap sv m w) = inuse w" "pooled (DmaUnmap sv m w) = pooled w"
    and dma_zero: "inuse (ZeroMem sv a pg w) = inuse w" "pooled (ZeroMem sv a pg w) = pooled w"
  using assms unfolding dma_ok_def by simp_all

lemmas dma_frame = dma_free_pool dma_free dma_unmap dma_zero

definition in_4G :: "USBHC_MEM_POOL \<Rightarrow> USBHC_MEM_BLOCK \<Rightarrow> bool" where
  "in_4G p b \<longleftrightarrow> (Check4G p \<longrightarrow> Buf b div 2 ^ 32 = unat (Which4G p))"

definition new_block_ok ::
  "('w \<Rightarrow> nat set) \<Rightarrow> ('w \<Rightarrow> nat set) \<Rightarrow> USBHC_MEM_POOL \<Rightarrow> u64 \<Rightarrow> 'w \<Rightarrow> USBHC_MEM_BLOCK \<Rightarrow> 'w \<Rightarrow> bool" where
  "new_block_ok inuse pooled p pages w b w' \<longleftrightarrow>
     block_wf b \<and> BufLen b = 4096 * unat pages \<and> Bits b = replicate (BitsLen b) 0
   \<and> block_range b \<inter> inuse w = {} \<and> inuse w' = inuse w \<union> block_range b
   \<and> block_ptrs b \<inter> pooled w = {} \<and> pooled w' = pooled w \<union> block_ptrs b \<and> Self b \<noteq> BitsPtr b
   \<and> in_4G p b"

lemma HIGH_32: "unat (USB_HC_HIGH_32BIT a) = unat a div 2 ^ 32"
proof -
  have "unat a < 2 ^ 64" using unsigned_less[where 'a = nat, of a] by simp
  then have "unat a div 2 ^ 32 < 2 ^ 32" by (simp add: div_less_iff_less_mult)
  then show ?thesis
    unfolding USB_HC_HIGH_32BIT_def
    by (simp add: unsigned_ucast_eq drop_bit_eq_div unat_div take_bit_nat_eq_self)
qed

lemma alloc_mem_block:
  assumes ok: "dma_ok sv inuse pooled"
  shows "case UsbHcAllocMemBlock sv p pages w of
      (None, w') \<Rightarrow> inuse w' = inuse w \<and> pooled w' = pooled w
    | (Some b, w') \<Rightarrow> new_block_ok inuse pooled p pages w b w'"
proof -
  obtain blk w1 where 1: "AllocateZeroPool sv 56 w = (blk, w1)" by fastforce
  let ?len = "unat (EFI_PAGES_TO_SIZE pages)"
  obtain bits w2 where 2: "AllocateZeroPool sv (?len div 512) w1 = (bits, w2)" by fastforce
  obtain st a w3 where 3: "DmaAllocateBuffer sv pages w2 = ((st, a), w3)" by (metis prod.exhaust)
  obtain st' by' ma mp w4 where 4: "DmaMap sv a (EFI_PAGES_TO_SIZE pages) w3 = ((st', by', ma, mp), w4)"
    by (metis prod.exhaust)
  note P1 = pool_allocD[OF dma_zero_pool[OF ok] 1] and P2 = pool_allocD[OF dma_zero_pool[OF ok] 2]
  note A = dma_allocD[OF dma_alloc[OF ok] 3] and M = dma_map[OF ok, of a "EFI_PAGES_TO_SIZE pages" w3, unfolded 4 snd_conv]
  note eqs = UsbHcAllocMemBlock_def Let_def 1 2 3 4 dma_frame[OF ok]
  consider (nomem) "blk = 0" | (nobits) "blk \<noteq> 0" "bits = 0"
    | (nobuf) "blk \<noteq> 0" "bits \<noteq> 0" "EFI_ERROR st"
    | (nomap) "blk \<noteq> 0" "bits \<noteq> 0" "\<not> EFI_ERROR st" "EFI_ERROR st' \<or> by' \<noteq> EFI_PAGES_TO_SIZE pages
        \<or> Check4G p \<and> Which4G p \<noteq> USB_HC_HIGH_32BIT ma"
    | (ready) "blk \<noteq> 0" "bits \<noteq> 0" "\<not> EFI_ERROR st" "\<not> EFI_ERROR st'" "by' = EFI_PAGES_TO_SIZE pages"
        "\<not> (Check4G p \<and> Which4G p \<noteq> USB_HC_HIGH_32BIT ma)"
    by blast
  then show ?thesis
  proof cases
    case nomem
    then show ?thesis using P1 by (simp add: eqs)
  next
    case nobits
    then show ?thesis using P1 P2 by (simp add: eqs)
  next
    case nobuf
    then show ?thesis using P1 P2 A by (auto simp: eqs)
  next
    case nomap
    have i: "inuse w4 - {a..<a + 4096 * unat pages} = inuse w" "pooled w4 - {bits} - {blk} = pooled w"
      using P1 P2 A M nomap(1-3) by auto
    then show ?thesis using nomap by (auto simp: eqs)
  next
    case ready
    then have len: "?len = 4096 * unat pages" using A by (simp add: unat_PAGES_TO_SIZE)
    have "?len < 2 ^ 64" using unsigned_less[where 'a = nat, of "EFI_PAGES_TO_SIZE pages"] by simp
    moreover have "UsbHcAllocMemBlock sv p pages w = (Some \<lparr>Self = blk, Bits = replicate (?len div 512) 0,
        BitsPtr = bits, BitsLen = ?len div 512, Buf = unat ma, BufHost = a, BufLen = ?len, Mapping = mp\<rparr>, w4)"
      using ready by (simp add: eqs)
    ultimately show ?thesis
      using ready P1 P2 A M HIGH_32[of ma]
      by (auto simp: len new_block_ok_def in_4G_def block_wf_def block_range_def block_ptrs_def)
  qed
qed

section \<open>The pool\<close>

text \<open>
  \<open>I\<close> and \<open>P\<close> are the DMA memory and the pool memory that others own: together with what the
  pool owns they are all that is allocated.
\<close>

definition ranges_of :: "USBHC_MEM_BLOCK list \<Rightarrow> nat set" where
  "ranges_of bs = (\<Union>b \<in> set bs. block_range b)"

definition ptrs_of :: "USBHC_MEM_BLOCK list \<Rightarrow> nat set" where
  "ptrs_of bs = (\<Union>b \<in> set bs. block_ptrs b)"

definition pool_ok ::
  "'w dma_services \<Rightarrow> ('w \<Rightarrow> nat set) \<Rightarrow> ('w \<Rightarrow> nat set) \<Rightarrow> nat set \<Rightarrow> nat set
    \<Rightarrow> USBHC_MEM_POOL \<Rightarrow> 'w \<Rightarrow> bool" where
  "pool_ok sv inuse pooled I P p w \<longleftrightarrow> dma_ok sv inuse pooled \<and> Blocks p \<noteq> [] \<and> blocks_wf (Blocks p)
     \<and> (\<forall>b \<in> set (Blocks p). in_4G p b)
     \<and> inuse w = I \<union> ranges_of (Blocks p) \<and> I \<inter> ranges_of (Blocks p) = {}
     \<and> pooled w = insert (PoolSelf p) (P \<union> ptrs_of (Blocks p)) \<and> P \<inter> ptrs_of (Blocks p) = {}
     \<and> PoolSelf p \<notin> P \<union> ptrs_of (Blocks p)"

lemma ranges_of_simps [simp]:
  "ranges_of [] = {}" "ranges_of (b # bs) = block_range b \<union> ranges_of bs"
  "ranges_of (xs @ ys) = ranges_of xs \<union> ranges_of ys"
  "ptrs_of [] = {}" "ptrs_of (b # bs) = block_ptrs b \<union> ptrs_of bs"
  "ptrs_of (xs @ ys) = ptrs_of xs \<union> ptrs_of ys"
  by (auto simp: ranges_of_def ptrs_of_def)

lemma block_Bits [simp]:
  "block_range (b\<lparr>Bits := x\<rparr>) = block_range b" "block_ptrs (b\<lparr>Bits := x\<rparr>) = block_ptrs b"
  "in_4G p (b\<lparr>Bits := x\<rparr>) = in_4G p b" "in_4G (p\<lparr>Blocks := bs\<rparr>) b = in_4G p b"
  by (simp_all add: block_range_def block_ptrs_def in_4G_def)

lemma apart_all:
  assumes "\<And>c. c \<in> set bs \<Longrightarrow> apart b c"
  shows "block_range b \<inter> ranges_of bs = {}" "block_ptrs b \<inter> ptrs_of bs = {}"
  using assms by (fastforce simp: apart_def ranges_of_def ptrs_of_def)+

lemma apart_allI:
  assumes "block_range b \<inter> ranges_of bs = {}" "block_ptrs b \<inter> ptrs_of bs = {}"
  shows "\<forall>c \<in> set bs. apart b c \<and> apart c b"
  using assms by (fastforce simp: apart_def ranges_of_def ptrs_of_def)

definition pool_live :: "USBHC_MEM_POOL \<Rightarrow> nat set" where
  "pool_live p = blocks_live (Blocks p)"

definition pool_held :: "USBHC_MEM_POOL \<Rightarrow> nat \<Rightarrow> u64 \<Rightarrow> bool" where
  "pool_held p m sz \<longleftrightarrow> (\<exists>b \<in> set (Blocks p). block_holds m (units_of sz) b)"

definition size_ok :: "u64 \<Rightarrow> bool" where
  "size_ok sz \<longleftrightarrow> 0 < unat sz \<and> unat sz \<le> 2 ^ 64 - 64"

abbreviation footprint :: "nat \<Rightarrow> u64 \<Rightarrow> nat set" where
  "footprint m sz \<equiv> chunk m (units_of sz)"

lemma size_ok_units: "size_ok sz \<Longrightarrow> 0 < units_of sz"
  by (simp add: size_ok_def units_of_def div_greater_zero_iff)

lemma size_ok_round: "size_ok sz \<Longrightarrow> unat (USBHC_MEM_ROUND sz) = 64 * units_of sz"
  by (simp add: size_ok_def unat_ROUND)

lemma footprint_covers: "{m..<m + unat sz} \<subseteq> footprint m sz"
proof -
  have "unat sz \<le> 64 * units_of sz"
    by (simp add: units_of_def)
  then show ?thesis by (auto simp: chunk_def)
qed

lemma marked_holds:
  "marked b k s bits' \<Longrightarrow> s + k \<le> 8 * BitsLen b \<Longrightarrow> block_holds (BufHost b + 64 * s) k (b\<lparr>Bits := bits'\<rparr>)"
  by (auto simp: marked_def block_holds_def)

lemma marked_mono:
  "marked b k s bits' \<Longrightarrow> block_holds m j b \<Longrightarrow> block_holds m j (b\<lparr>Bits := bits'\<rparr>)"
  by (fastforce simp: marked_def block_holds_def)

lemma fresh_no_run: "Bits b = replicate (BitsLen b) 0 \<Longrightarrow> k \<le> 8 * BitsLen b \<Longrightarrow> free_run (Bits b) (8 * BitsLen b) k 0"
  by (auto simp: free_run_def used_def)

lemma fresh_not_live: "block_wf b \<Longrightarrow> Bits b = replicate (BitsLen b) 0 \<Longrightarrow> block_live b = {}"
proof -
  assume "block_wf b" "Bits b = replicate (BitsLen b) 0"
  moreover have "(x - BufHost b) div 64 div 8 < BitsLen b" if "x \<in> block_range b" for x
    using that \<open>block_wf b\<close> by (auto simp: block_range_def block_wf_def div_less_iff_less_mult)
  ultimately show ?thesis
    by (auto simp: block_live_def used_def)
qed

lemma alloc_existing:
  assumes ok: "pool_ok sv inuse pooled I P p w" and sz: "size_ok sz"
    and bs: "Blocks p = xs @ b # ys" and ff: "first_fit (Bits b) (8 * BitsLen b) (units_of sz) s"
    and mk: "marked b (units_of sz) s bits'"
    and p': "p' = p\<lparr>Blocks := xs @ b\<lparr>Bits := bits'\<rparr> # ys\<rparr>" and m: "m = BufHost b + 64 * s"
    and iu: "inuse w' = inuse w" "pooled w' = pooled w"
  shows "pool_ok sv inuse pooled I P p' w'" "m \<noteq> 0" "footprint m sz \<inter> pool_live p = {}"
    "pool_live p' = pool_live p \<union> footprint m sz" "pool_held p' m sz"
    "pool_held p m' sz' \<Longrightarrow> pool_held p' m' sz'"
proof -
  have wf: "blocks_wf (xs @ b # ys)" using ok bs by (simp add: pool_ok_def)
  have le: "s + units_of sz \<le> 8 * BitsLen b" and fr: "free_run (Bits b) (8 * BitsLen b) (units_of sz) s"
    using ff by (auto simp: first_fit_def free_run_def)
  have len: "length bits' = BitsLen b" using mk by (simp add: marked_def)
  show "pool_ok sv inuse pooled I P p' w'"
    using ok bs p' iu blocks_wf_replace[OF wf len] by (simp add: pool_ok_def)
  show "m \<noteq> 0" using blocks_wf_split(1)[OF wf] m by (simp add: block_wf_def)
  show "footprint m sz \<inter> pool_live p = {}"
    using apart_live_chunk[OF wf le] free_run_fresh[OF fr] bs m by (auto simp: pool_live_def)
  show "pool_live p' = pool_live p \<union> footprint m sz"
    using block_live_mark[OF blocks_wf_split(1)[OF wf] le] mk bs m p'
    by (auto simp: pool_live_def marked_def)
  show "pool_held p' m sz" using marked_holds[OF mk le] m p' by (auto simp: pool_held_def)
  show "pool_held p m' sz' \<Longrightarrow> pool_held p' m' sz'"
    using marked_mono[OF mk] bs p' by (auto simp: pool_held_def)
qed

lemma pool_ok_insert:
  assumes ok: "pool_ok sv inuse pooled I P p w" and nb: "new_block_ok inuse pooled p pages w b w'"
    and bs: "Blocks p = h # rest"
  shows "pool_ok sv inuse pooled I P (p\<lparr>Blocks := h # b # rest\<rparr>) w'"
    "pool_live (p\<lparr>Blocks := h # b # rest\<rparr>) = pool_live p"
proof -
  have ap: "block_range b \<inter> ranges_of (h # rest) = {}" "block_ptrs b \<inter> ptrs_of (h # rest) = {}"
    using ok nb bs by (auto simp: pool_ok_def new_block_ok_def)
  have "blocks_wf (h # b # rest)"
    using ok nb bs apart_allI[OF ap] by (simp add: pool_ok_def new_block_ok_def blocks_wf_def)
  moreover have "in_4G p b" using nb by (simp add: new_block_ok_def in_4G_def)
  ultimately show "pool_ok sv inuse pooled I P (p\<lparr>Blocks := h # b # rest\<rparr>) w'"
    using ok nb bs by (auto simp: pool_ok_def new_block_ok_def)
  show "pool_live (p\<lparr>Blocks := h # b # rest\<rparr>) = pool_live p"
    using nb bs fresh_not_live[of b] by (auto simp: pool_live_def new_block_ok_def)
qed

lemma pages_enough:
  assumes "size_ok sz"
    and pg: "pages = (if USBHC_MEM_ROUND sz > EFI_PAGES_TO_SIZE USBHC_MEM_DEFAULT_PAGES
                    then EFI_SIZE_TO_PAGES (USBHC_MEM_ROUND sz) + 1 else USBHC_MEM_DEFAULT_PAGES)"
  shows "64 * units_of sz \<le> 4096 * unat pages"
proof (cases "USBHC_MEM_ROUND sz > EFI_PAGES_TO_SIZE USBHC_MEM_DEFAULT_PAGES")
  case True
  let ?r = "USBHC_MEM_ROUND sz"
  have "(unat ?r + 4095) div 4096 < 2 ^ 64 - 1"
    using unsigned_less[where 'a = nat, of ?r] by simp
  then have "unat pages = (unat ?r + 4095) div 4096 + 1"
    using pg True by (simp add: unat_word_ariths unat_SIZE_TO_PAGES)
  then show ?thesis
    using size_ok_round[OF assms(1)] by linarith
next
  case False
  then have "unat (USBHC_MEM_ROUND sz) \<le> unat (EFI_PAGES_TO_SIZE USBHC_MEM_DEFAULT_PAGES)"
    by (simp only: not_less word_le_nat_alt)
  then show ?thesis
    using False pg size_ok_round[OF assms(1)] by (simp add: unat_PAGES_TO_SIZE)
qed

lemma alloc_from_fresh:
  assumes "new_block_ok inuse pooled q pages w b w'" "0 < k" "64 * k \<le> 4096 * unat pages"
  shows "\<exists>s bits'. first_fit (Bits b) (8 * BitsLen b) k s \<and> marked b k s bits'
    \<and> UsbHcAllocMemFromBlock b k = Some (BufHost b + 64 * s, b\<lparr>Bits := bits'\<rparr>)"
proof -
  have wf: "block_wf b" and bits: "Bits b = replicate (BitsLen b) 0" and "k \<le> 8 * BitsLen b"
    using assms(1,3) by (auto simp: new_block_ok_def block_wf_def)
  then have "free_run (Bits b) (8 * BitsLen b) k 0" by (intro fresh_no_run)
  with wf assms(2) show ?thesis by (cases rule: alloc_from_block') auto
qed

lemma alloc_mem_ok:
  assumes ok: "pool_ok sv inuse pooled I P p w" and sz: "size_ok sz"
  shows "\<exists>m p' w'. UsbHcAllocateMem sv p sz w = Some (m, p', w') \<and> pool_ok sv inuse pooled I P p' w'
    \<and> (m = 0 \<longrightarrow> p' = p)
    \<and> (m \<noteq> 0 \<longrightarrow> footprint m sz \<inter> pool_live p = {} \<and> pool_live p' = pool_live p \<union> footprint m sz
         \<and> pool_held p' m sz)
    \<and> (\<forall>m' sz'. pool_held p m' sz' \<longrightarrow> pool_held p' m' sz')"
proof -
  let ?k = "units_of sz"
  let ?pages = "if USBHC_MEM_ROUND sz > EFI_PAGES_TO_SIZE USBHC_MEM_DEFAULT_PAGES
                then EFI_SIZE_TO_PAGES (USBHC_MEM_ROUND sz) + 1 else USBHC_MEM_DEFAULT_PAGES"
  have dma: "dma_ok sv inuse pooled" and wf: "\<forall>b \<in> set (Blocks p). block_wf b" and ne: "Blocks p \<noteq> []"
    using ok by (auto simp: pool_ok_def blocks_wf_def)
  have k: "0 < ?k" and u: "unat (USBHC_MEM_ROUND sz) div 64 = ?k"
    using size_ok_units[OF sz] size_ok_round[OF sz] by auto
  from alloc_from_blocks[OF wf k] show ?thesis
  proof (elim disjE conjE exE)
    fix xs b ys s bits'
    assume bs: "Blocks p = xs @ b # ys" and ff: "first_fit (Bits b) (8 * BitsLen b) ?k s"
      and mk: "marked b ?k s bits'"
      and eq: "UsbHcAllocFromBlocks (Blocks p) ?k = Some (BufHost b + 64 * s, xs @ b\<lparr>Bits := bits'\<rparr> # ys)"
    let ?w = "ZeroMem sv (BufHost b + 64 * s) sz w" and ?p = "p\<lparr>Blocks := xs @ b\<lparr>Bits := bits'\<rparr> # ys\<rparr>"
    note E = alloc_existing[OF ok sz bs ff mk refl refl, of ?w, OF dma_zero[OF dma]]
    have "UsbHcAllocateMem sv p sz w = Some (BufHost b + 64 * s, ?p, ?w)"
      using E(2) ne eq by (simp add: UsbHcAllocateMem_def Let_def u)
    then show ?thesis
      using E by (intro exI[of _ "BufHost b + 64 * s"] exI[of _ ?p] exI[of _ ?w]) blast
  next
    assume none: "UsbHcAllocFromBlocks (Blocks p) ?k = Some (0, Blocks p)"
    obtain h rest where hr: "Blocks p = h # rest" using ne by (cases "Blocks p") auto
    obtain r w1 where r: "UsbHcAllocMemBlock sv p ?pages w = (r, w1)" by fastforce
    show ?thesis
    proof (cases r)
      case None
      then have "inuse w1 = inuse w" "pooled w1 = pooled w"
        using alloc_mem_block[OF dma, where p = p and pages = ?pages and w = w] r by simp_all
      then have "pool_ok sv inuse pooled I P p w1" using ok by (simp add: pool_ok_def)
      moreover have "UsbHcAllocateMem sv p sz w = Some (0, p, w1)"
        using none ne r None by (simp add: UsbHcAllocateMem_def Let_def u)
      ultimately show ?thesis by simp
    next
      case (Some b)
      then have nb: "new_block_ok inuse pooled p ?pages w b w1"
        using alloc_mem_block[OF dma, where p = p and pages = ?pages and w = w] r by simp
      obtain s bits' where ff: "first_fit (Bits b) (8 * BitsLen b) ?k s" and mk: "marked b ?k s bits'"
        and al: "UsbHcAllocMemFromBlock b ?k = Some (BufHost b + 64 * s, b\<lparr>Bits := bits'\<rparr>)"
        using alloc_from_fresh[OF nb k pages_enough[OF sz refl]] by blast
      let ?q = "p\<lparr>Blocks := h # b # rest\<rparr>" and ?m = "BufHost b + 64 * s"
      let ?p = "p\<lparr>Blocks := h # b\<lparr>Bits := bits'\<rparr> # rest\<rparr>" and ?w = "ZeroMem sv ?m sz w1"
      have ins: "UsbHcInsertMemBlockToPool (Blocks p) (b\<lparr>Bits := bits'\<rparr>) = Some (Blocks ?p)" by (simp add: hr)
      have "Blocks ?q = [h] @ b # rest" "?p = ?q\<lparr>Blocks := [h] @ b\<lparr>Bits := bits'\<rparr> # rest\<rparr>" by simp_all
      note E = alloc_existing[OF pool_ok_insert(1)[OF ok nb hr] sz this(1) ff mk this(2) refl, of ?w,
          OF dma_zero[OF dma]]
      have "UsbHcAllocateMem sv p sz w = Some (?m, ?p, ?w)"
        using E(2) none ne r Some al ins by (simp add: UsbHcAllocateMem_def Let_def u split del: if_split)
      moreover have "pool_held p m' sz' \<Longrightarrow> pool_held ?p m' sz'" for m' sz'
        using E(6)[of m' sz'] hr by (auto simp: pool_held_def)
      ultimately show ?thesis
        using E(1-5) unfolding pool_ok_insert(2)[OF ok nb hr]
        by (intro exI[of _ ?m] exI[of _ ?p] exI[of _ ?w]) blast
    qed
  qed
qed

lemma free_mem_block:
  assumes "dma_ok sv inuse pooled" "block_wf b"
  shows "inuse (UsbHcFreeMemBlock sv b w) = inuse w - block_range b"
    "pooled (UsbHcFreeMemBlock sv b w) = pooled w - block_ptrs b"
proof -
  have "BufLen b < 2 ^ 64" and "4096 dvd BufLen b"
    using assms(2) by (auto simp: block_wf_def)
  then have "unat (of_nat (BufLen b) :: u64) = BufLen b"
    by (simp add: unsigned_of_nat take_bit_nat_eq_self del: of_nat_mult)
  with \<open>4096 dvd BufLen b\<close>
  have "4096 * unat (EFI_SIZE_TO_PAGES (of_nat (BufLen b))) = BufLen b"
    by (auto simp: unat_SIZE_TO_PAGES elim!: dvdE)
  then show "inuse (UsbHcFreeMemBlock sv b w) = inuse w - block_range b"
    "pooled (UsbHcFreeMemBlock sv b w) = pooled w - block_ptrs b"
    by (auto simp: UsbHcFreeMemBlock_def Let_def dma_frame[OF assms(1)] block_range_def block_ptrs_def)
qed

lemma block_empty_iff:
  assumes "block_wf b"
  shows "UsbHcIsMemBlockEmpty b \<longleftrightarrow> (\<forall>u < 8 * BitsLen b. \<not> used (Bits b) u)"
proof -
  have "Bits b ! i = 0 \<longleftrightarrow> (\<forall>j < 8. \<not> used (Bits b) (i * 8 + j))" for i
    by (auto simp: used_def intro: bit_word_eqI)
  then have "UsbHcIsMemBlockEmpty b \<longleftrightarrow> (\<forall>i < BitsLen b. \<forall>j < 8. \<not> used (Bits b) (i * 8 + j))"
    by (auto simp: UsbHcIsMemBlockEmpty_def)
  also have "\<dots> \<longleftrightarrow> (\<forall>u < 8 * BitsLen b. \<not> used (Bits b) u)"
  proof (intro iffI allI impI)
    fix u assume *: "\<forall>i < BitsLen b. \<forall>j < 8. \<not> used (Bits b) (i * 8 + j)" "u < 8 * BitsLen b"
    then have "u div 8 < BitsLen b" "u mod 8 < 8" by auto
    then show "\<not> used (Bits b) u" using *(1) by (metis div_mult_mod_eq)
  qed auto
  finally show ?thesis .
qed

lemma unlink_split:
  assumes "\<forall>x \<in> set xs. Self x \<noteq> Self b"
  shows "UsbHcUnlinkMemBlock (h # xs @ b # ys) (Self b) = h # xs @ ys"
  using assms by (induction xs arbitrary: h) auto

lemma block_holds_empty:
  assumes "block_wf b" "UsbHcIsMemBlockEmpty b" "0 < k"
  shows "\<not> block_holds m k b"
  using assms(3) block_empty_iff[OF assms(1)] assms(2) by (auto simp: block_holds_def)

lemma block_empty_live: "block_wf b \<Longrightarrow> UsbHcIsMemBlockEmpty b \<Longrightarrow> block_live b = {}"
proof -
  assume wf: "block_wf b" and e: "UsbHcIsMemBlockEmpty b"
  have "(x - BufHost b) div 64 < 8 * BitsLen b" if "x \<in> block_range b" for x
    using that wf by (auto simp: block_range_def block_wf_def div_less_iff_less_mult)
  then show ?thesis
    using e by (auto simp: block_empty_iff[OF wf] block_live_def)
qed

lemma cleared_keeps:
  assumes "block_wf b" "block_holds m j b" "chunk m j \<inter> chunk (BufHost b + 64 * s) k = {}"
    and cl: "\<forall>u. used bits' u \<longleftrightarrow> used (Bits b) u \<and> u \<notin> {s..<s + k}"
  shows "block_holds m j (b\<lparr>Bits := bits'\<rparr>)"
proof -
  obtain t where t: "m = BufHost b + 64 * t" "t + j \<le> 8 * BitsLen b" "\<forall>u \<in> {t..<t + j}. used (Bits b) u"
    using assms(2) by (auto simp: block_holds_def)
  have "u \<notin> {s..<s + k}" if "u \<in> {t..<t + j}" for u
  proof
    assume "u \<in> {s..<s + k}"
    then have "BufHost b + 64 * u \<in> chunk m j" "BufHost b + 64 * u \<in> chunk (BufHost b + 64 * s) k"
      using that by (auto simp: t(1) chunk_block)
    then show False using assms(3) by blast
  qed
  then show ?thesis using t cl by (auto simp: block_holds_def)
qed

lemma pool_ok_remove:
  assumes ok: "pool_ok sv inuse pooled I P p w" and bs: "Blocks p = xs @ b # ys" and ne: "xs @ ys \<noteq> []"
    and w': "inuse w' = inuse w - block_range b" "pooled w' = pooled w - block_ptrs b"
  shows "pool_ok sv inuse pooled I P (p\<lparr>Blocks := xs @ ys\<rparr>) w'"
proof -
  have wf: "blocks_wf (xs @ b # ys)" using ok bs by (simp add: pool_ok_def)
  have ap: "block_range b \<inter> ranges_of (xs @ ys) = {}" "block_ptrs b \<inter> ptrs_of (xs @ ys) = {}"
    using apart_all[of "xs @ ys" b] blocks_wf_split(2)[OF wf] by auto
  then have "inuse w' = I \<union> ranges_of (xs @ ys)" "pooled w' = insert (PoolSelf p) (P \<union> ptrs_of (xs @ ys))"
    using ok unfolding w' bs pool_ok_def by auto
  then show ?thesis
    using ok ne blocks_wf_remove[OF wf] bs by (auto simp: pool_ok_def)
qed

lemma free_mem_ok:
  assumes ok: "pool_ok sv inuse pooled I P p w" and sz: "size_ok sz" and held: "pool_held p m sz"
  shows "\<exists>p' w'. UsbHcFreeMem sv p m sz w = Some (p', w') \<and> pool_ok sv inuse pooled I P p' w'
    \<and> pool_live p' = pool_live p - footprint m sz
    \<and> (\<forall>m' sz'. pool_held p m' sz' \<longrightarrow> size_ok sz' \<longrightarrow> footprint m' sz' \<inter> footprint m sz = {}
         \<longrightarrow> pool_held p' m' sz')"
proof -
  let ?k = "units_of sz"
  have dma: "dma_ok sv inuse pooled" using ok by (simp add: pool_ok_def)
  obtain xs b ys where bs: "Blocks p = xs @ b # ys" and hb: "block_holds m ?k b"
    using held by (auto simp: pool_held_def dest: split_list)
  have wf: "blocks_wf (xs @ b # ys)" using ok bs by (simp add: pool_ok_def)
  obtain s bits' where sc: "UsbHcFreeScan (Blocks p) m (USBHC_MEM_ROUND sz) = Some (length xs, b\<lparr>Bits := bits'\<rparr>)"
    and m: "m = BufHost b + 64 * s" and len: "length bits' = BitsLen b"
    and cl: "\<forall>u. used bits' u \<longleftrightarrow> used (Bits b) u \<and> u \<notin> {s..<s + ?k}"
    using free_scan[OF wf hb size_ok_units[OF sz] size_ok_round[OF sz]] bs by auto
  let ?b = "b\<lparr>Bits := bits'\<rparr>"
  have wfb: "block_wf b" "block_wf ?b" using blocks_wf_split(1)[OF wf] len by (auto intro: block_wf_Bits)
  have wf': "blocks_wf (xs @ ?b # ys)" by (rule blocks_wf_replace[OF wf len])
  have le: "s + ?k \<le> 8 * BitsLen b" using hb m by (auto simp: block_holds_def)
  have live: "blocks_live (xs @ ?b # ys) = pool_live p - footprint m sz"
    using apart_live_chunk[OF wf le] block_live_clear[OF cl] bs m by (auto simp: pool_live_def)
  have keep: "\<exists>c \<in> set (xs @ ?b # ys). block_holds m' (units_of sz') c"
    if "pool_held p m' sz'" "footprint m' sz' \<inter> footprint m sz = {}" for m' sz'
    using that cleared_keeps[OF wfb(1) _ _ cl] by (auto simp: pool_held_def bs m)
  show ?thesis
  proof (cases "xs \<noteq> [] \<and> UsbHcIsMemBlockEmpty ?b")
    case False
    let ?p = "p\<lparr>Blocks := xs @ ?b # ys\<rparr>"
    have "UsbHcFreeMem sv p m sz w = Some (?p, w)"
      using sc False bs by (auto simp: UsbHcFreeMem_def Let_def)
    moreover have "pool_ok sv inuse pooled I P ?p w"
      using ok bs wf' by (simp add: pool_ok_def)
    ultimately show ?thesis
      using live keep by (intro exI[of _ ?p] exI[of _ w]) (simp add: pool_live_def pool_held_def)
  next
    case True
    then obtain h zs where xs: "xs = h # zs" by (cases xs) auto
    let ?p = "p\<lparr>Blocks := xs @ ys\<rparr>" and ?w = "UsbHcFreeMemBlock sv ?b w"
    have "\<forall>x \<in> set zs. Self x \<noteq> Self ?b"
      using blocks_wf_split(2)[OF wf] xs by (auto simp: apart_def block_ptrs_def)
    then have "UsbHcFreeMem sv p m sz w = Some (?p, ?w)"
      using sc True bs xs unlink_split[of zs ?b h ys] by (auto simp: UsbHcFreeMem_def Let_def)
    moreover have "pool_ok sv inuse pooled I P ?p ?w"
      using pool_ok_remove[OF ok bs] free_mem_block[OF dma wfb(2)] xs by simp
    moreover have "blocks_live (xs @ ys) = pool_live p - footprint m sz"
      using live block_empty_live[OF wfb(2)] True by simp
    moreover have "pool_held ?p m' sz'" if "pool_held p m' sz'" "size_ok sz'"
      "footprint m' sz' \<inter> footprint m sz = {}" for m' sz'
      using keep[OF that(1,3)] block_holds_empty[OF wfb(2) _ size_ok_units[OF that(2)]] True
      by (auto simp: pool_held_def)
    ultimately show ?thesis
      by (intro exI[of _ ?p] exI[of _ ?w]) (simp add: pool_live_def)
  qed
qed

section \<open>Set-up and tear-down\<close>

lemma free_pool_loop:
  assumes "dma_ok sv inuse pooled" "\<forall>b \<in> set bs. block_wf b"
  shows "inuse (UsbHcFreeMemPool_loop sv bs w) = inuse w - ranges_of bs
    \<and> pooled (UsbHcFreeMemPool_loop sv bs w) = pooled w - ptrs_of bs"
  using assms
  by (induction sv bs w rule: UsbHcFreeMemPool_loop.induct) (auto simp: free_mem_block)

lemma free_pool_ok:
  assumes ok: "pool_ok sv inuse pooled I P p w"
  shows "\<exists>w'. UsbHcFreeMemPool sv p w = Some (EFI_SUCCESS, w') \<and> inuse w' = I \<and> pooled w' = P"
proof -
  have dma: "dma_ok sv inuse pooled" and wf: "\<forall>b \<in> set (Blocks p). block_wf b"
    using ok by (auto simp: pool_ok_def blocks_wf_def)
  show ?thesis
    using ok free_pool_loop[OF dma wf, of w]
    by (auto simp: UsbHcFreeMemPool_def dma_free_pool[OF dma] pool_ok_def)
qed

lemma init_pool_ok:
  assumes dma: "dma_ok sv inuse pooled"
  shows "case UsbHcInitMemPool sv chk hi w of
      (None, w') \<Rightarrow> inuse w' = inuse w \<and> pooled w' = pooled w
    | (Some p, w') \<Rightarrow> pool_ok sv inuse pooled (inuse w) (pooled w) p w' \<and> pool_live p = {}
        \<and> Check4G p = chk \<and> Which4G p = hi"
proof -
  obtain a w1 where 1: "AllocatePool sv 16 w = (a, w1)" by fastforce
  note A = pool_allocD[OF dma_pool[OF dma] 1]
  let ?q = "\<lparr>PoolSelf = a, Check4G = chk, Which4G = hi, Blocks = []\<rparr>"
  obtain r w2 where 2: "UsbHcAllocMemBlock sv ?q USBHC_MEM_DEFAULT_PAGES w1 = (r, w2)" by fastforce
  note B = alloc_mem_block[OF dma, where p = ?q and pages = USBHC_MEM_DEFAULT_PAGES and w = w1, unfolded 2]
  note eq = UsbHcInitMemPool_def Let_def 1 2
  show ?thesis
  proof (cases "a = 0 \<or> r = None")
    case True
    then show ?thesis using A B by (auto simp: eq dma_free_pool[OF dma])
  next
    case False
    then obtain b where r: "r = Some b" and a: "a \<noteq> 0" by auto
    have nb: "new_block_ok inuse pooled ?q USBHC_MEM_DEFAULT_PAGES w1 b w2" using B r by simp
    then have "pool_live (?q\<lparr>Blocks := [b]\<rparr>) = {}"
      using fresh_not_live[of b] by (simp add: pool_live_def new_block_ok_def)
    moreover have "pool_ok sv inuse pooled (inuse w) (pooled w) (?q\<lparr>Blocks := [b]\<rparr>) w2"
      using nb A a dma by (auto simp: pool_ok_def new_block_ok_def blocks_wf_def in_4G_def)
    ultimately show ?thesis using r a by (simp add: eq)
  qed
qed

section \<open>Device addresses\<close>

lemma find_first_apart:
  assumes "blocks_wf (xs @ b # ys)" "block_contains m sz b" "0 < unat sz"
  shows "find (block_contains m sz) (xs @ b # ys) = Some b"
  using assms(1)
proof (induction xs)
  case Nil
  then show ?case using assms(2) by simp
next
  case (Cons x xs)
  then have "blocks_wf (xs @ b # ys)" "apart x b" by (auto simp: blocks_wf_def)
  moreover have "m \<in> block_range b" "block_contains m sz x \<Longrightarrow> m \<in> block_range x"
    using contains_range[OF assms(2)] contains_range[of m sz x] assms(3) by fastforce+
  ultimately show ?case using Cons.IH by (auto simp: apart_def)
qed

lemma address_ok:
  assumes ok: "pool_ok sv inuse pooled I P p w" and sz: "size_ok sz" and held: "pool_held p m sz"
  shows "\<exists>b \<in> set (Blocks p). footprint m sz \<subseteq> block_range b
    \<and> UsbHcGetAddressForHostMem p m sz = Some (Buf b + (m - BufHost b))"
proof -
  obtain b where b: "b \<in> set (Blocks p)" "block_holds m (units_of sz) b"
    using held by (auto simp: pool_held_def)
  then obtain xs ys where bs: "Blocks p = xs @ b # ys" by (auto dest: split_list)
  have wf: "blocks_wf (xs @ b # ys)" using ok bs by (simp add: pool_ok_def)
  note wfb = blocks_wf_split(1)[OF wf] and r = size_ok_round[OF sz]
  have c: "block_contains m (USBHC_MEM_ROUND sz) b" by (rule block_holds_contains[OF wfb b(2) r])
  have "m \<noteq> 0" using c wfb by (auto simp: block_contains_def block_wf_def)
  moreover have "0 < unat (USBHC_MEM_ROUND sz)" using r size_ok_units[OF sz] by simp
  ultimately have "UsbHcGetAddressForHostMem p m sz = Some (Buf b + (m - BufHost b))"
    using find_first_apart[OF wf c] bs by (simp add: UsbHcGetAddressForHostMem_def)
  then show ?thesis
    using b block_holds_live[OF wfb b(2)] block_live_range[of b] by blast
qed

section \<open>The allocator interface\<close>

text \<open>
  \<open>owned\<close>: every region of the list is handed out by \<open>p\<close>, and no two of them overlap.
  \<open>alloc_step\<close>: one request of a client that keeps the list of the regions it owns.
\<close>

definition owned ::
  "('s \<Rightarrow> bool) \<Rightarrow> ('p \<Rightarrow> nat \<Rightarrow> 's \<Rightarrow> bool) \<Rightarrow> (nat \<Rightarrow> 's \<Rightarrow> nat set) \<Rightarrow> (nat \<times> 's) list \<Rightarrow> 'p \<Rightarrow> bool" where
  "owned fits held foot out p \<longleftrightarrow> (\<forall>(m, n) \<in> set out. fits n \<and> held p m n)
     \<and> sorted_wrt (\<lambda>(m, n) (m', n'). foot m n \<inter> foot m' n' = {}) out"

definition feet :: "(nat \<Rightarrow> 's \<Rightarrow> nat set) \<Rightarrow> (nat \<times> 's) list \<Rightarrow> nat set" where
  "feet foot out = (\<Union>(m, n) \<in> set out. foot m n)"

fun free_all ::
  "('p \<Rightarrow> nat \<Rightarrow> 's \<Rightarrow> 'w \<Rightarrow> ('p \<times> 'w) option) \<Rightarrow> (nat \<times> 's) list \<Rightarrow> 'p \<Rightarrow> 'w \<Rightarrow> ('p \<times> 'w) option" where
  "free_all free [] p w = Some (p, w)"
| "free_all free ((m, n) # out) p w =
    (case free p m n w of None \<Rightarrow> None | Some (p', w') \<Rightarrow> free_all free out p' w')"

inductive alloc_step ::
  "('s \<Rightarrow> bool) \<Rightarrow> ('p \<Rightarrow> 's \<Rightarrow> 'w \<Rightarrow> (nat \<times> 'p \<times> 'w) option) \<Rightarrow> ('p \<Rightarrow> nat \<Rightarrow> 's \<Rightarrow> 'w \<Rightarrow> ('p \<times> 'w) option)
    \<Rightarrow> 'p \<times> 'w \<times> (nat \<times> 's) list \<Rightarrow> 'p \<times> 'w \<times> (nat \<times> 's) list \<Rightarrow> bool"
  for fits alloc free where
  step_alloc: "fits n \<Longrightarrow> alloc p n w = Some (m, p', w') \<Longrightarrow> m \<noteq> 0
    \<Longrightarrow> alloc_step fits alloc free (p, w, out) (p', w', (m, n) # out)"
| step_fail: "fits n \<Longrightarrow> alloc p n w = Some (0, p', w')
    \<Longrightarrow> alloc_step fits alloc free (p, w, out) (p', w', out)"
| step_free: "free p m n w = Some (p', w')
    \<Longrightarrow> alloc_step fits alloc free (p, w, xs @ (m, n) # ys) (p', w', xs @ ys)"

lemma feet_simps [simp]:
  "feet foot [] = {}" "feet foot ((m, n) # out) = foot m n \<union> feet foot out"
  "feet foot (xs @ ys) = feet foot xs \<union> feet foot ys"
  by (auto simp: feet_def)

lemma owned_simps [simp]:
  "owned fits held foot [] p"
  "owned fits held foot ((m, n) # out) p \<longleftrightarrow>
     fits n \<and> held p m n \<and> foot m n \<inter> feet foot out = {} \<and> owned fits held foot out p"
  by (auto simp: owned_def feet_def)

lemma owned_append [simp]:
  "owned fits held foot (xs @ ys) p \<longleftrightarrow>
     owned fits held foot xs p \<and> owned fits held foot ys p \<and> feet foot xs \<inter> feet foot ys = {}"
  by (induction xs) auto

lemma owned_mono:
  assumes "owned fits held foot out p"
    and "\<And>m n. held p m n \<Longrightarrow> fits n \<Longrightarrow> foot m n \<subseteq> feet foot out \<Longrightarrow> held p' m n"
  shows "owned fits held foot out p'"
  using assms by (fastforce simp: owned_def feet_def)

lemma feet_subset:
  "(\<And>m n. (m, n) \<in> set out \<Longrightarrow> foot m n \<subseteq> X) \<Longrightarrow> feet foot out \<subseteq> X"
  by (auto simp: feet_def)

locale region_allocator =
  fixes ok :: "'p \<Rightarrow> 'w \<Rightarrow> bool"
    and alloc :: "'p \<Rightarrow> 's \<Rightarrow> 'w \<Rightarrow> (nat \<times> 'p \<times> 'w) option"
    and free :: "'p \<Rightarrow> nat \<Rightarrow> 's \<Rightarrow> 'w \<Rightarrow> ('p \<times> 'w) option"
    and fits :: "'s \<Rightarrow> bool"
    and held :: "'p \<Rightarrow> nat \<Rightarrow> 's \<Rightarrow> bool"
    and foot :: "nat \<Rightarrow> 's \<Rightarrow> nat set"
    and live :: "'p \<Rightarrow> nat set"
  assumes alloc_law: "ok p w \<Longrightarrow> fits n \<Longrightarrow> \<exists>m p' w'. alloc p n w = Some (m, p', w') \<and> ok p' w'
      \<and> (m = 0 \<longrightarrow> p' = p)
      \<and> (m \<noteq> 0 \<longrightarrow> foot m n \<inter> live p = {} \<and> live p' = live p \<union> foot m n \<and> held p' m n)
      \<and> (\<forall>m' n'. held p m' n' \<longrightarrow> held p' m' n')"
    and free_law: "ok p w \<Longrightarrow> fits n \<Longrightarrow> held p m n \<Longrightarrow> \<exists>p' w'. free p m n w = Some (p', w') \<and> ok p' w'
      \<and> live p' = live p - foot m n
      \<and> (\<forall>m' n'. held p m' n' \<longrightarrow> fits n' \<longrightarrow> foot m' n' \<inter> foot m n = {} \<longrightarrow> held p' m' n')"
    and held_live: "ok p w \<Longrightarrow> held p m n \<Longrightarrow> foot m n \<subseteq> live p"
begin

abbreviation own :: "(nat \<times> 's) list \<Rightarrow> 'p \<Rightarrow> bool" where
  "own \<equiv> owned fits held foot"

abbreviation exact :: "'p \<times> 'w \<times> (nat \<times> 's) list \<Rightarrow> bool" where
  "exact \<equiv> \<lambda>(p, w, out). ok p w \<and> own out p \<and> live p = feet foot out"

lemma owned_live: "ok p w \<Longrightarrow> own out p \<Longrightarrow> feet foot out \<subseteq> live p"
  by (rule feet_subset) (auto simp: owned_def dest: held_live)

lemma alloc_owned:
  assumes "ok p w" "own out p" "fits n" "alloc p n w = Some (m, p', w')"
  shows "ok p' w'" "m = 0 \<Longrightarrow> p' = p" "m \<noteq> 0 \<Longrightarrow> own ((m, n) # out) p'" "own out p'"
    "m \<noteq> 0 \<Longrightarrow> live p' = live p \<union> foot m n" "m \<noteq> 0 \<Longrightarrow> foot m n \<inter> live p = {}"
proof -
  note L = alloc_law[OF assms(1,3), unfolded assms(4)]
  show "ok p' w'" "m = 0 \<Longrightarrow> p' = p" "m \<noteq> 0 \<Longrightarrow> live p' = live p \<union> foot m n"
    and fr: "m \<noteq> 0 \<Longrightarrow> foot m n \<inter> live p = {}"
    using L by auto
  have h: "m \<noteq> 0 \<Longrightarrow> held p' m n"
    using L by auto
  show o: "own out p'"
    by (rule owned_mono[OF assms(2)]) (use L in auto)
  show "m \<noteq> 0 \<Longrightarrow> own ((m, n) # out) p'"
    using owned_live[OF assms(1,2)] fr o h assms(3) by auto
qed

lemma free_owned:
  assumes "ok p w" "own (xs @ (m, n) # ys) p"
  shows "\<exists>p' w'. free p m n w = Some (p', w') \<and> ok p' w' \<and> own (xs @ ys) p' \<and> live p' = live p - foot m n"
proof -
  have h: "fits n" "held p m n" and d: "feet foot (xs @ ys) \<inter> foot m n = {}" "own (xs @ ys) p"
    using assms(2) by auto
  obtain p' w' where F: "free p m n w = Some (p', w')" "ok p' w'" "live p' = live p - foot m n"
    "\<And>m' n'. held p m' n' \<Longrightarrow> fits n' \<Longrightarrow> foot m' n' \<inter> foot m n = {} \<Longrightarrow> held p' m' n'"
    using free_law[OF assms(1) h] by blast
  have "own (xs @ ys) p'"
    by (rule owned_mono[OF d(2)]) (use F(4) d(1) in blast)
  then show ?thesis using F by blast
qed

lemma free_all_owned:
  assumes "ok p w" "own (xs @ ys) p"
  shows "\<exists>p' w'. free_all free xs p w = Some (p', w') \<and> ok p' w' \<and> own ys p' \<and> live p' = live p - feet foot xs"
  using assms
proof (induction xs arbitrary: p w)
  case Nil
  then show ?case by simp
next
  case (Cons x xs)
  obtain m n where x: "x = (m, n)" by (cases x)
  obtain p1 w1 where 1: "free p m n w = Some (p1, w1)" "ok p1 w1" "own (xs @ ys) p1" "live p1 = live p - foot m n"
    using free_owned[of p w "[]" m n "xs @ ys"] Cons.prems x by auto
  then show ?case
    using Cons.IH[OF 1(2,3)] x by auto
qed

lemma step_exact: "alloc_step fits alloc free s t \<Longrightarrow> exact s \<Longrightarrow> exact t"
proof (induction rule: alloc_step.induct)
  case (step_alloc n p w m p' w' out)
  then have o: "ok p w" "own out p" "live p = feet foot out" by auto
  show ?case
    using alloc_owned[OF o(1,2) step_alloc(1,2)] step_alloc(3) o(3) by auto
next
  case (step_fail n p w p' w' out)
  then have o: "ok p w" "own out p" "live p = feet foot out" by auto
  show ?case
    using alloc_owned[OF o(1,2) step_fail(1,2)] o by auto
next
  case (step_free p m n w p' w' xs ys)
  then have o: "ok p w" "own (xs @ (m, n) # ys) p" "live p = feet foot (xs @ (m, n) # ys)" by auto
  then show ?case
    using free_owned[OF o(1,2)] step_free(1) by auto
qed

end

interpretation pool: region_allocator "pool_ok sv inuse pooled I P" "UsbHcAllocateMem sv"
  "UsbHcFreeMem sv" size_ok pool_held footprint pool_live
  for sv inuse pooled I P
proof unfold_locales
  fix p w n m
  show "pool_ok sv inuse pooled I P p w \<Longrightarrow> pool_held p m n \<Longrightarrow> footprint m n \<subseteq> pool_live p"
    by (auto simp: pool_ok_def pool_held_def blocks_wf_def pool_live_def blocks_live_def
        dest: block_holds_live)
qed (rule alloc_mem_ok free_mem_ok; assumption)+

section \<open>Services that meet the hypotheses\<close>

text \<open>
  A bump allocator, used at the concrete inputs below: two cursors, the DMA memory and the pool
  memory in use. A request that would hit memory in use fails.
\<close>

record bump =
  dma_next :: nat
  pool_next :: nat
  dma_used :: "nat set"
  pool_used :: "nat set"

definition bump_pool :: "nat \<Rightarrow> bump \<Rightarrow> nat \<times> bump" where
  "bump_pool n w = (if pool_next w = 0 \<or> pool_next w \<in> pool_used w then (0, w)
     else (pool_next w, w\<lparr>pool_next := pool_next w + n + 1, pool_used := insert (pool_next w) (pool_used w)\<rparr>))"

definition bump_dma :: "u64 \<Rightarrow> bump \<Rightarrow> (EFI_STATUS \<times> nat) \<times> bump" where
  "bump_dma n w =
    (let r = {dma_next w..<dma_next w + 4096 * unat n} in
     if dma_next w = 0 \<or> unat n \<ge> 2 ^ 52 \<or> r \<inter> dma_used w \<noteq> {} then ((EFI_OUT_OF_RESOURCES, 0), w)
     else ((EFI_SUCCESS, dma_next w),
           w\<lparr>dma_next := dma_next w + 4096 * unat n, dma_used := dma_used w \<union> r\<rparr>))"

definition bump_services :: "bump dma_services" where
  "bump_services = \<lparr>AllocateZeroPool = bump_pool, AllocatePool = bump_pool,
     FreePool = (\<lambda>p w. w\<lparr>pool_used := pool_used w - {p}\<rparr>), DmaAllocateBuffer = bump_dma,
     DmaFreeBuffer = (\<lambda>n a w. w\<lparr>dma_used := dma_used w - {a..<a + 4096 * unat n}\<rparr>),
     DmaMap = (\<lambda>a n w. ((EFI_SUCCESS, n, of_nat a, a), w)), DmaUnmap = (\<lambda>m w. w),
     ZeroMem = (\<lambda>a n w. w)\<rparr>"

definition bump_start :: bump where
  "bump_start = \<lparr>dma_next = 65536, pool_next = 8, dma_used = {}, pool_used = {}\<rparr>"

lemma bump_pool_ok: "pool_alloc_ok dma_used pool_used bump_pool"
  by (auto simp: pool_alloc_ok_def bump_pool_def split: if_splits)

lemma bump_dma_ok: "dma_alloc_ok dma_used pool_used bump_dma"
  by (auto simp: dma_alloc_ok_def bump_dma_def Let_def split: if_splits)

lemma bump_ok: "dma_ok bump_services dma_used pool_used"
  by (simp add: dma_ok_def bump_services_def bump_pool_ok bump_dma_ok)

definition bump_head :: "u8 list \<Rightarrow> USBHC_MEM_BLOCK" where
  "bump_head bits = \<lparr>Self = 25, Bits = bits, BitsPtr = 82, BitsLen = 128, Buf = 65536, BufHost = 65536,
     BufLen = 65536, Mapping = 65536\<rparr>"

definition bump_p :: "u8 list \<Rightarrow> USBHC_MEM_POOL" where
  "bump_p bits = \<lparr>PoolSelf = 8, Check4G = True, Which4G = 0, Blocks = [bump_head bits]\<rparr>"

definition bump_w :: bump where
  "bump_w = \<lparr>dma_next = 131072, pool_next = 211, dma_used = {65536..<131072}, pool_used = {8, 25, 82}\<rparr>"

lemma bump_init:
  "UsbHcInitMemPool bump_services True 0 bump_start = (Some (bump_p (replicate 128 0)), bump_w)"
proof -
  have pg: "EFI_PAGES_TO_SIZE 16 = 65536" by (simp add: EFI_PAGES_TO_SIZE_def)
  have h: "USB_HC_HIGH_32BIT 65536 = 0" by (simp add: USB_HC_HIGH_32BIT_def drop_bit_eq_div)
  show ?thesis
    by (simp add: UsbHcInitMemPool_def UsbHcAllocMemBlock_def Let_def bump_services_def bump_pool_def
        bump_dma_def bump_start_def pg h bump_p_def bump_head_def bump_w_def insert_commute)
qed

lemma bump_pool_ok_start: "pool_ok bump_services dma_used pool_used {} {} (bump_p (replicate 128 0)) bump_w"
  using init_pool_ok[OF bump_ok, where chk = True and hi = 0 and w = bump_start]
  by (simp add: bump_init) (simp add: bump_start_def)

lemma round_64: "USBHC_MEM_ROUND 64 = 64" "unat (64::u64) = 64" "size_ok 64" "units_of 64 = 1"
  by (simp_all add: USBHC_MEM_ROUND_def size_ok_def units_of_def)

lemma bump_alloc:
  "UsbHcAllocateMem bump_services (bump_p (replicate 128 0)) 64 bump_w
    = Some (65536, bump_p (1 # replicate 127 0), bump_w)"
proof -
  have r: "replicate 128 (0::u8) = 0 # replicate 127 0"
    using replicate_Suc[of 127 "0::u8"] by (simp del: replicate_Suc)
  show ?thesis
    unfolding r by (simp add: UsbHcAllocateMem_def bump_p_def bump_head_def UsbHcAllocMemFromBlock_def Let_def
        round_64 UsbHcScan.simps USB_HC_BIT_IS_SET_def USB_HC_BIT_def bump_services_def)
qed

lemma bump_pool_ok_64: "pool_ok bump_services dma_used pool_used {} {} (bump_p (1 # replicate 127 0)) bump_w"
  and bump_held_64: "pool_held (bump_p (1 # replicate 127 0)) 65536 64"
  using alloc_mem_ok[OF bump_pool_ok_start round_64(3)] unfolding bump_alloc by auto

interpretation pool_sys: step_invariant "\<lambda>(p, w, out). pool_ok sv inuse pooled I P p w \<and> pool_live p = {} \<and> out = []"
  "alloc_step size_ok (UsbHcAllocateMem sv) (UsbHcFreeMem sv)"
  "\<lambda>(p, w, out). pool_ok sv inuse pooled I P p w \<and> owned size_ok pool_held footprint out p
     \<and> pool_live p = feet footprint out"
  for sv inuse pooled I P
proof unfold_locales
  fix s t
  show "alloc_step size_ok (UsbHcAllocateMem sv) (UsbHcFreeMem sv) s t
    \<Longrightarrow> (case s of (p, w, out) \<Rightarrow> pool_ok sv inuse pooled I P p w \<and> owned size_ok pool_held footprint out p
          \<and> pool_live p = feet footprint out)
    \<Longrightarrow> (case t of (p, w, out) \<Rightarrow> pool_ok sv inuse pooled I P p w \<and> owned size_ok pool_held footprint out p
          \<and> pool_live p = feet footprint out)"
    by (rule pool.step_exact)
qed (auto split: prod.splits)

section \<open>Properties\<close>

text \<open>C1: Set a pool up, run any sequence of \<open>UsbHcAllocateMem\<close> and \<open>UsbHcFreeMem\<close> requests of a
  client that frees only regions it owns: no two regions it owns overlap, the units marked in the
  bit arrays are exactly theirs, and \<open>UsbHcFreeMemPool\<close> gives back all DMA and pool memory the pool
  took and nothing else.\<close>

theorem UsbHcPool_run:
  assumes "dma_ok sv inuse pooled"
    and "UsbHcInitMemPool sv check4g which4g w0 = (Some p0, w1)"
    and "(alloc_step size_ok (UsbHcAllocateMem sv) (UsbHcFreeMem sv))\<^sup>*\<^sup>* (p0, w1, []) (p, w, out)"
  shows "owned size_ok pool_held footprint out p \<and> pool_live p = feet footprint out
    \<and> (\<exists>w'. UsbHcFreeMemPool sv p w = Some (EFI_SUCCESS, w') \<and> inuse w' = inuse w0 \<and> pooled w' = pooled w0)"
proof -
  have "pool_ok sv inuse pooled (inuse w0) (pooled w0) p0 w1" "pool_live p0 = {}"
    using init_pool_ok[OF assms(1), where chk = check4g and hi = which4g and w = w0] assms(2) by simp_all
  then have R: "pool_ok sv inuse pooled (inuse w0) (pooled w0) p w \<and> owned size_ok pool_held footprint out p
      \<and> pool_live p = feet footprint out"
    using pool_sys.run_inv[OF assms(3), of inuse pooled "inuse w0" "pooled w0"] by simp
  from free_pool_ok[OF conjunct1[OF R]] R show ?thesis by simp
qed

theorem UsbHcPool_run_witness:
  "owned size_ok pool_held footprint [(65536, 64)] (bump_p (1 # replicate 127 0))
    \<and> (\<exists>w'. UsbHcFreeMemPool bump_services (bump_p (1 # replicate 127 0)) bump_w = Some (EFI_SUCCESS, w')
        \<and> dma_used w' = {} \<and> pool_used w' = {})"
proof -
  have "(alloc_step size_ok (UsbHcAllocateMem bump_services) (UsbHcFreeMem bump_services))\<^sup>*\<^sup>*
      (bump_p (replicate 128 0), bump_w, []) (bump_p (1 # replicate 127 0), bump_w, [(65536, 64)])"
    using bump_alloc round_64(3) by (intro r_into_rtranclp step_alloc) simp_all
  from UsbHcPool_run[OF bump_ok bump_init this] show ?thesis by (simp add: bump_start_def)
qed

text \<open>\<open>UsbHcAllocateMem\<close> always returns. A non-null result is a fresh region that covers the
  request, disjoint from everything handed out before; a null one leaves the pool as it was. The
  pool invariant holds after either, and what was handed out stays handed out.\<close>

theorem UsbHcAllocateMem_fresh:
  assumes "pool_ok sv inuse pooled I P p w" "size_ok sz"
  shows "\<exists>m p' w'. UsbHcAllocateMem sv p sz w = Some (m, p', w') \<and> pool_ok sv inuse pooled I P p' w'
    \<and> (m = 0 \<longrightarrow> p' = p)
    \<and> (m \<noteq> 0 \<longrightarrow> {m..<m + unat sz} \<subseteq> pool_live p' - pool_live p
         \<and> pool_live p' = pool_live p \<union> footprint m sz \<and> pool_held p' m sz)
    \<and> (\<forall>m' sz'. pool_held p m' sz' \<longrightarrow> pool_held p' m' sz')"
proof -
  obtain m p' w' where A: "UsbHcAllocateMem sv p sz w = Some (m, p', w')" "pool_ok sv inuse pooled I P p' w'"
    "m = 0 \<longrightarrow> p' = p" "m \<noteq> 0 \<longrightarrow> footprint m sz \<inter> pool_live p = {} \<and>
       pool_live p' = pool_live p \<union> footprint m sz \<and> pool_held p' m sz"
    "\<forall>m' sz'. pool_held p m' sz' \<longrightarrow> pool_held p' m' sz'"
    using alloc_mem_ok[OF assms] by blast
  moreover have "m \<noteq> 0 \<longrightarrow> {m..<m + unat sz} \<subseteq> pool_live p' - pool_live p"
    using A(4) footprint_covers[of m sz] by blast
  ultimately show ?thesis by blast
qed

theorem UsbHcAllocateMem_fresh_witness:
  "\<exists>p' w'. UsbHcAllocateMem bump_services (bump_p (replicate 128 0)) 64 bump_w = Some (65536, p', w')
     \<and> pool_held p' 65536 64"
  using UsbHcAllocateMem_fresh[OF bump_pool_ok_start round_64(3)] by (simp add: bump_alloc)

text \<open>C18: \<open>UsbHcFreeMem\<close> of a region that is handed out returns, gives back exactly that region,
  and keeps the invariant and every other region.\<close>

theorem UsbHcFreeMem_exact:
  assumes "pool_ok sv inuse pooled I P p w" "size_ok sz" "pool_held p m sz"
  shows "\<exists>p' w'. UsbHcFreeMem sv p m sz w = Some (p', w') \<and> pool_ok sv inuse pooled I P p' w'
    \<and> pool_live p' = pool_live p - footprint m sz
    \<and> (\<forall>m' sz'. pool_held p m' sz' \<longrightarrow> size_ok sz' \<longrightarrow> footprint m' sz' \<inter> footprint m sz = {}
         \<longrightarrow> pool_held p' m' sz')"
  by (rule free_mem_ok[OF assms])

theorem UsbHcFreeMem_exact_witness:
  "\<exists>p' w'. UsbHcFreeMem bump_services (bump_p (1 # replicate 127 0)) 65536 64 bump_w = Some (p', w')
     \<and> pool_ok bump_services dma_used pool_used {} {} p' w'"
  using UsbHcFreeMem_exact[OF bump_pool_ok_64 round_64(3) bump_held_64] by blast

text \<open>C20: The search of \<open>UsbHcAllocMemFromBlock\<close> agrees with the reference search that tries the
  units in order: it returns the lowest run of \<open>Units\<close> free units, and \<open>NULL\<close> only if there is none.\<close>

theorem UsbHcAllocMemFromBlock_first_fit:
  assumes "block_wf b" "0 < Units"
  shows "map_option fst (UsbHcAllocMemFromBlock b Units) =
    Some (case find (free_run (Bits b) (8 * BitsLen b) Units) [0..<8 * BitsLen b] of
            None \<Rightarrow> 0 | Some s \<Rightarrow> BufHost b + 64 * s)"
  using assms
proof (cases rule: alloc_from_block')
  case none
  then have "find (free_run (Bits b) (8 * BitsLen b) Units) [0..<8 * BitsLen b] = None"
    by (simp add: find_None_iff)
  then show ?thesis using none by simp
next
  case (fit s bits')
  then have "s < 8 * BitsLen b" using assms(2) by (auto simp: first_fit_def free_run_def)
  then have "find (free_run (Bits b) (8 * BitsLen b) Units) [0..<8 * BitsLen b] = Some s"
    using fit by (auto simp: find_Some_iff first_fit_def intro!: exI[of _ s])
  then show ?thesis using fit by simp
qed

theorem UsbHcAllocMemFromBlock_first_fit_witness:
  "map_option fst (UsbHcAllocMemFromBlock (bump_head (replicate 128 0)) 3) =
    Some (case find (free_run (replicate 128 0) 1024 3) [0..<1024] of
            None \<Rightarrow> 0 | Some s \<Rightarrow> 65536 + 64 * s)"
  using UsbHcAllocMemFromBlock_first_fit[of "bump_head (replicate 128 0)" 3]
  by (simp add: bump_head_def block_wf_def split: option.splits)

text \<open>C21: A region allocated and freed again leaves the same memory handed out as before.\<close>

theorem UsbHc_alloc_free_roundtrip:
  assumes "pool_ok sv inuse pooled I P p w" "size_ok sz"
    and "UsbHcAllocateMem sv p sz w = Some (m, p1, w1)" "m \<noteq> 0"
  shows "\<exists>p2 w2. UsbHcFreeMem sv p1 m sz w1 = Some (p2, w2) \<and> pool_live p2 = pool_live p
    \<and> pool_ok sv inuse pooled I P p2 w2"
proof -
  note A = pool.alloc_owned[OF assms(1) owned_simps(1) assms(2,3)]
  have "owned size_ok pool_held footprint ([] @ (m, sz) # []) p1" using A(3)[OF assms(4)] by simp
  from pool.free_owned[OF A(1) this] show ?thesis using A(5,6)[OF assms(4)] by fastforce
qed

theorem UsbHc_alloc_free_roundtrip_witness:
  "\<exists>p2 w2. UsbHcFreeMem bump_services (bump_p (1 # replicate 127 0)) 65536 64 bump_w = Some (p2, w2)
    \<and> pool_live p2 = pool_live (bump_p (replicate 128 0))"
  using UsbHc_alloc_free_roundtrip[OF bump_pool_ok_start round_64(3) bump_alloc] by auto

text \<open>\<open>UsbHcGetAddressForHostMem\<close> of a region that is handed out succeeds, and the device
  address has the same offset in the mapped buffer as the host address in the host buffer; when
  the pool restricts itself to 4 GB, the mapping starts in that 4 GB.\<close>

theorem UsbHcGetAddressForHostMem_held:
  assumes "pool_ok sv inuse pooled I P p w" "size_ok sz" "pool_held p m sz"
  shows "\<exists>b \<in> set (Blocks p). footprint m sz \<subseteq> block_range b
    \<and> UsbHcGetAddressForHostMem p m sz = Some (Buf b + (m - BufHost b))
    \<and> (Check4G p \<longrightarrow> Buf b div 2 ^ 32 = unat (Which4G p))"
  using address_ok[OF assms] assms(1) by (auto simp: pool_ok_def in_4G_def)

theorem UsbHcGetAddressForHostMem_held_witness:
  "UsbHcGetAddressForHostMem (bump_p (1 # replicate 127 0)) 65536 64 = Some 65536"
  using UsbHcGetAddressForHostMem_held[OF bump_pool_ok_64 round_64(3) bump_held_64]
  by (auto simp: bump_p_def bump_head_def)

text \<open>C22: \<open>UsbHcAllocMemBlock\<close> leaks nothing: on each of its error paths the memory in use is what
  it was, and on success it has grown by the new block, which is disjoint from all memory in use,
  is zeroed in its bit array and, under \<open>Check4G\<close>, is mapped in the right 4 GB.\<close>

theorem UsbHcAllocMemBlock_no_leak:
  assumes "dma_ok sv inuse pooled" "UsbHcAllocMemBlock sv p pages w = (r, w')"
  shows "case r of
      None \<Rightarrow> inuse w' = inuse w \<and> pooled w' = pooled w
    | Some b \<Rightarrow> block_wf b \<and> BufLen b = 4096 * unat pages \<and> Bits b = replicate (BitsLen b) 0
        \<and> block_range b \<inter> inuse w = {} \<and> inuse w' = inuse w \<union> block_range b
        \<and> block_ptrs b \<inter> pooled w = {} \<and> pooled w' = pooled w \<union> block_ptrs b
        \<and> (Check4G p \<longrightarrow> Buf b div 2 ^ 32 = unat (Which4G p))"
  using alloc_mem_block[OF assms(1), where p = p and pages = pages and w = w] assms(2)
  by (auto simp: new_block_ok_def in_4G_def split: option.splits)

theorem UsbHcAllocMemBlock_no_leak_witness:
  "(case fst (UsbHcAllocMemBlock bump_services (bump_p []) 1 bump_w) of
      None \<Rightarrow> True | Some b \<Rightarrow> BufLen b = 4096 \<and> block_range b \<inter> dma_used bump_w = {})"
  using UsbHcAllocMemBlock_no_leak[OF bump_ok surjective_pairing, where p = "bump_p []" and pages = 1 and w = bump_w]
  by (simp split: option.splits)

end
