(* ===== verification/OhciReg.thy ===== *)
theory OhciReg
  imports Prelude
begin

unbundle bit_operations_syntax

text \<open>
  The register routines of the OHCI driver, \<open>src/Silicon/Rockchip/Rk356xPkg/Drivers/OhciDxe/OhciReg.c\<close>
  and \<open>OhciReg.h\<close>. A register structure is the 32-bit word it overlays and a member the pair of its
  offset and width; a \<open>Set\<close> routine is a chain of guarded member assignments and a \<open>Get\<close> routine a
  switch, and both run over the same table of (selector, member). The MMIO accesses go to a device of
  type \<open>'d\<close>; \<open>MmioWrite32\<close> of the I/O library returns the value it has written.
\<close>

section \<open>Selectors, offsets and members\<close>

text \<open>HcControl\<close>

abbreviation (input) PERIODIC_ENABLE :: u64 where "PERIODIC_ENABLE \<equiv> 0x01"
abbreviation (input) ISOCHRONOUS_ENABLE :: u64 where "ISOCHRONOUS_ENABLE \<equiv> 0x02"
abbreviation (input) CONTROL_ENABLE :: u64 where "CONTROL_ENABLE \<equiv> 0x04"
abbreviation (input) BULK_ENABLE :: u64 where "BULK_ENABLE \<equiv> 0x08"
abbreviation (input) CONTROL_BULK_RATIO :: u64 where "CONTROL_BULK_RATIO \<equiv> 0x10"
abbreviation (input) HC_FUNCTIONAL_STATE :: u64 where "HC_FUNCTIONAL_STATE \<equiv> 0x20"
abbreviation (input) INTERRUPT_ROUTING :: u64 where "INTERRUPT_ROUTING \<equiv> 0x40"

text \<open>HcCommandStatus\<close>

abbreviation (input) HC_RESET :: u64 where "HC_RESET \<equiv> 0x01"
abbreviation (input) CONTROL_LIST_FILLED :: u64 where "CONTROL_LIST_FILLED \<equiv> 0x02"
abbreviation (input) BULK_LIST_FILLED :: u64 where "BULK_LIST_FILLED \<equiv> 0x04"
abbreviation (input) CHANGE_OWNER_REQUEST :: u64 where "CHANGE_OWNER_REQUEST \<equiv> 0x08"
abbreviation (input) SCHEDULE_OVERRUN_COUNT :: u64 where "SCHEDULE_OVERRUN_COUNT \<equiv> 0x10"

text \<open>HcInterruptStatus, HcInterruptEnable and HcInterruptDisable\<close>

abbreviation (input) SCHEDULE_OVERRUN :: u64 where "SCHEDULE_OVERRUN \<equiv> 0x00001"
abbreviation (input) WRITEBACK_DONE_HEAD :: u64 where "WRITEBACK_DONE_HEAD \<equiv> 0x00002"
abbreviation (input) START_OF_FRAME :: u64 where "START_OF_FRAME \<equiv> 0x00004"
abbreviation (input) RESUME_DETECT :: u64 where "RESUME_DETECT \<equiv> 0x00008"
abbreviation (input) UNRECOVERABLE_ERROR :: u64 where "UNRECOVERABLE_ERROR \<equiv> 0x00010"
abbreviation (input) FRAME_NUMBER_OVERFLOW :: u64 where "FRAME_NUMBER_OVERFLOW \<equiv> 0x00020"
abbreviation (input) ROOTHUB_STATUS_CHANGE :: u64 where "ROOTHUB_STATUS_CHANGE \<equiv> 0x00040"
abbreviation (input) OWNERSHIP_CHANGE :: u64 where "OWNERSHIP_CHANGE \<equiv> 0x00080"
abbreviation (input) MASTER_INTERRUPT :: u64 where "MASTER_INTERRUPT \<equiv> 0x00400"

text \<open>The frame registers\<close>

abbreviation (input) FRAME_INTERVAL :: u64 where "FRAME_INTERVAL \<equiv> 0x008"
abbreviation (input) FS_LARGEST_DATA_PACKET :: u64 where "FS_LARGEST_DATA_PACKET \<equiv> 0x010"
abbreviation (input) FRMINT_TOGGLE :: u64 where "FRMINT_TOGGLE \<equiv> 0x020"
abbreviation (input) FRAME_REMAINING :: u64 where "FRAME_REMAINING \<equiv> 0x040"
abbreviation (input) FRAME_REMAIN_TOGGLE :: u64 where "FRAME_REMAIN_TOGGLE \<equiv> 0x080"

text \<open>The root hub registers\<close>

abbreviation (input) RH_NUM_DS_PORTS :: u64 where "RH_NUM_DS_PORTS \<equiv> 0x00004"
abbreviation (input) RH_NO_PSWITCH :: u64 where "RH_NO_PSWITCH \<equiv> 0x00008"
abbreviation (input) RH_PSWITCH_MODE :: u64 where "RH_PSWITCH_MODE \<equiv> 0x00010"
abbreviation (input) RH_DEVICE_TYPE :: u64 where "RH_DEVICE_TYPE \<equiv> 0x00020"
abbreviation (input) RH_OC_PROT_MODE :: u64 where "RH_OC_PROT_MODE \<equiv> 0x00040"
abbreviation (input) RH_NOC_PROT :: u64 where "RH_NOC_PROT \<equiv> 0x00080"
abbreviation (input) RH_NO_POTPGT :: u64 where "RH_NO_POTPGT \<equiv> 0x00200"
abbreviation (input) RH_DEV_REMOVABLE :: u64 where "RH_DEV_REMOVABLE \<equiv> 0x00400"
abbreviation (input) RH_PORT_PWR_CTRL_MASK :: u64 where "RH_PORT_PWR_CTRL_MASK \<equiv> 0x00800"

abbreviation (input) RH_LOCAL_PSTAT :: u64 where "RH_LOCAL_PSTAT \<equiv> 0x00001"
abbreviation (input) RH_OC_ID :: u64 where "RH_OC_ID \<equiv> 0x00002"
abbreviation (input) RH_REMOTE_WK_ENABLE :: u64 where "RH_REMOTE_WK_ENABLE \<equiv> 0x00004"
abbreviation (input) RH_LOCAL_PSTAT_CHANGE :: u64 where "RH_LOCAL_PSTAT_CHANGE \<equiv> 0x00008"
abbreviation (input) RH_OC_ID_CHANGE :: u64 where "RH_OC_ID_CHANGE \<equiv> 0x00010"
abbreviation (input) RH_CLR_RMT_WK_ENABLE :: u64 where "RH_CLR_RMT_WK_ENABLE \<equiv> 0x00020"

abbreviation (input) RH_CLEAR_PORT_ENABLE :: u64 where "RH_CLEAR_PORT_ENABLE \<equiv> 0x0001"
abbreviation (input) RH_SET_PORT_ENABLE :: u64 where "RH_SET_PORT_ENABLE \<equiv> 0x0002"
abbreviation (input) RH_SET_PORT_SUSPEND :: u64 where "RH_SET_PORT_SUSPEND \<equiv> 0x0004"
abbreviation (input) RH_CLEAR_SUSPEND_STATUS :: u64 where "RH_CLEAR_SUSPEND_STATUS \<equiv> 0x0008"
abbreviation (input) RH_SET_PORT_RESET :: u64 where "RH_SET_PORT_RESET \<equiv> 0x0010"
abbreviation (input) RH_SET_PORT_POWER :: u64 where "RH_SET_PORT_POWER \<equiv> 0x0020"
abbreviation (input) RH_CLEAR_PORT_POWER :: u64 where "RH_CLEAR_PORT_POWER \<equiv> 0x0040"
abbreviation (input) RH_CONNECT_STATUS_CHANGE :: u64 where "RH_CONNECT_STATUS_CHANGE \<equiv> 0x10000"
abbreviation (input) RH_PORT_ENABLE_STAT_CHANGE :: u64 where "RH_PORT_ENABLE_STAT_CHANGE \<equiv> 0x20000"
abbreviation (input) RH_PORT_SUSPEND_STAT_CHANGE :: u64 where "RH_PORT_SUSPEND_STAT_CHANGE \<equiv> 0x40000"
abbreviation (input) RH_OC_INDICATOR_CHANGE :: u64 where "RH_OC_INDICATOR_CHANGE \<equiv> 0x80000"
abbreviation (input) RH_PORT_RESET_STAT_CHANGE :: u64 where "RH_PORT_RESET_STAT_CHANGE \<equiv> 0x100000"

abbreviation (input) RH_CURR_CONNECT_STAT :: u64 where "RH_CURR_CONNECT_STAT \<equiv> 0x0001"
abbreviation (input) RH_PORT_ENABLE_STAT :: u64 where "RH_PORT_ENABLE_STAT \<equiv> 0x0002"
abbreviation (input) RH_PORT_SUSPEND_STAT :: u64 where "RH_PORT_SUSPEND_STAT \<equiv> 0x0004"
abbreviation (input) RH_PORT_OC_INDICATOR :: u64 where "RH_PORT_OC_INDICATOR \<equiv> 0x0008"
abbreviation (input) RH_PORT_RESET_STAT :: u64 where "RH_PORT_RESET_STAT \<equiv> 0x0010"
abbreviation (input) RH_PORT_POWER_STAT :: u64 where "RH_PORT_POWER_STAT \<equiv> 0x0020"
abbreviation (input) RH_LSDEVICE_ATTACHED :: u64 where "RH_LSDEVICE_ATTACHED \<equiv> 0x0040"

text \<open>The reset register\<close>

abbreviation (input) RESET_SYSTEM_BUS :: u64 where "RESET_SYSTEM_BUS \<equiv> 0x001"
abbreviation (input) RESET_HOST_CONTROLLER :: u64 where "RESET_HOST_CONTROLLER \<equiv> 0x002"
abbreviation (input) RESET_CLOCK_GENERATION :: u64 where "RESET_CLOCK_GENERATION \<equiv> 0x004"
abbreviation (input) RESET_SSE_GLOBAL :: u64 where "RESET_SSE_GLOBAL \<equiv> 0x020"
abbreviation (input) RESET_PSPL :: u64 where "RESET_PSPL \<equiv> 0x040"
abbreviation (input) RESET_PCPL :: u64 where "RESET_PCPL \<equiv> 0x080"
abbreviation (input) RESET_SSEP1 :: u64 where "RESET_SSEP1 \<equiv> 0x200"
abbreviation (input) RESET_SSEP2 :: u64 where "RESET_SSEP2 \<equiv> 0x400"
abbreviation (input) RESET_SSEP3 :: u64 where "RESET_SSEP3 \<equiv> 0x800"

text \<open>Register offsets\<close>

abbreviation (input) HC_REVISION :: u32 where "HC_REVISION \<equiv> 0x00"
abbreviation (input) HC_CONTROL :: u32 where "HC_CONTROL \<equiv> 0x04"
abbreviation (input) HC_COMMAND_STATUS :: u32 where "HC_COMMAND_STATUS \<equiv> 0x08"
abbreviation (input) HC_INTERRUPT_STATUS :: u32 where "HC_INTERRUPT_STATUS \<equiv> 0x0C"
abbreviation (input) HC_INTERRUPT_ENABLE :: u32 where "HC_INTERRUPT_ENABLE \<equiv> 0x10"
abbreviation (input) HC_INTERRUPT_DISABLE :: u32 where "HC_INTERRUPT_DISABLE \<equiv> 0x14"
abbreviation (input) HC_HCCA :: u32 where "HC_HCCA \<equiv> 0x18"
abbreviation (input) HC_CONTROL_HEAD :: u32 where "HC_CONTROL_HEAD \<equiv> 0x20"
abbreviation (input) HC_BULK_HEAD :: u32 where "HC_BULK_HEAD \<equiv> 0x28"
abbreviation (input) HC_FRM_INTERVAL :: u32 where "HC_FRM_INTERVAL \<equiv> 0x34"
abbreviation (input) HC_FRM_REMAINING :: u32 where "HC_FRM_REMAINING \<equiv> 0x38"
abbreviation (input) HC_FRM_NUMBER :: u32 where "HC_FRM_NUMBER \<equiv> 0x3C"
abbreviation (input) HC_PERIODIC_START :: u32 where "HC_PERIODIC_START \<equiv> 0x40"
abbreviation (input) HC_LS_THREASHOLD :: u32 where "HC_LS_THREASHOLD \<equiv> 0x44"
abbreviation (input) HC_RH_DESC_A :: u32 where "HC_RH_DESC_A \<equiv> 0x48"
abbreviation (input) HC_RH_DESC_B :: u32 where "HC_RH_DESC_B \<equiv> 0x4C"
abbreviation (input) HC_RH_STATUS :: u32 where "HC_RH_STATUS \<equiv> 0x50"
abbreviation (input) HC_RH_PORT_STATUS :: u32 where "HC_RH_PORT_STATUS \<equiv> 0x54"
abbreviation (input) USBHOST_OFFSET_UHCHR :: u32 where "USBHOST_OFFSET_UHCHR \<equiv> 0x64"

text \<open>
  The structures: offset and width of each member, with the selector under which the routines
  reach it, in the order in which the \<open>Set\<close> routine tests the selectors.
\<close>

type_synonym field_table = "(u64 \<times> nat \<times> nat) list"

definition HcCONTROL :: field_table where
  "HcCONTROL =
    [(CONTROL_BULK_RATIO, 0, 2), (HC_FUNCTIONAL_STATE, 6, 2), (PERIODIC_ENABLE, 2, 1),
     (CONTROL_ENABLE, 4, 1), (ISOCHRONOUS_ENABLE, 3, 1), (BULK_ENABLE, 5, 1),
     (INTERRUPT_ROUTING, 8, 1)]"

definition HcCOMMAND_STATUS :: field_table where
  "HcCOMMAND_STATUS =
    [(HC_RESET, 0, 1), (CONTROL_LIST_FILLED, 1, 1), (BULK_LIST_FILLED, 2, 1),
     (CHANGE_OWNER_REQUEST, 3, 1), (SCHEDULE_OVERRUN_COUNT, 16, 2)]"

definition HcINTERRUPT_STATUS :: field_table where
  "HcINTERRUPT_STATUS =
    [(SCHEDULE_OVERRUN, 0, 1), (WRITEBACK_DONE_HEAD, 1, 1), (START_OF_FRAME, 2, 1),
     (RESUME_DETECT, 3, 1), (UNRECOVERABLE_ERROR, 4, 1), (FRAME_NUMBER_OVERFLOW, 5, 1),
     (ROOTHUB_STATUS_CHANGE, 6, 1), (OWNERSHIP_CHANGE, 30, 1)]"

definition HcINTERRUPT_CONTROL :: field_table where
  "HcINTERRUPT_CONTROL =
    [(SCHEDULE_OVERRUN, 0, 1), (WRITEBACK_DONE_HEAD, 1, 1), (START_OF_FRAME, 2, 1),
     (RESUME_DETECT, 3, 1), (UNRECOVERABLE_ERROR, 4, 1), (FRAME_NUMBER_OVERFLOW, 5, 1),
     (ROOTHUB_STATUS_CHANGE, 6, 1), (OWNERSHIP_CHANGE, 30, 1), (MASTER_INTERRUPT, 31, 1)]"

definition HcFRM_INTERVAL :: field_table where
  "HcFRM_INTERVAL =
    [(FRAME_INTERVAL, 0, 14), (FS_LARGEST_DATA_PACKET, 16, 15), (FRMINT_TOGGLE, 31, 1)]"

definition HcFRAME_REMAINING :: field_table where
  "HcFRAME_REMAINING = [(FRAME_REMAINING, 0, 14), (FRAME_REMAIN_TOGGLE, 31, 1)]"

definition HcRH_DESC_A :: field_table where
  "HcRH_DESC_A =
    [(RH_NUM_DS_PORTS, 0, 8), (RH_NO_PSWITCH, 9, 1), (RH_PSWITCH_MODE, 8, 1), (RH_DEVICE_TYPE, 10, 1),
     (RH_OC_PROT_MODE, 11, 1), (RH_NOC_PROT, 12, 1), (RH_NO_POTPGT, 24, 8)]"

definition HcRH_DESC_B :: field_table where
  "HcRH_DESC_B = [(RH_DEV_REMOVABLE, 0, 16), (RH_PORT_PWR_CTRL_MASK, 16, 16)]"

definition HcRH_STATUS :: field_table where
  "HcRH_STATUS =
    [(RH_LOCAL_PSTAT, 0, 1), (RH_OC_ID, 1, 1), (RH_REMOTE_WK_ENABLE, 15, 1),
     (RH_LOCAL_PSTAT_CHANGE, 16, 1), (RH_OC_ID_CHANGE, 17, 1), (RH_CLR_RMT_WK_ENABLE, 31, 1)]"

text \<open>
  \<open>HcRHPORT_STATUS\<close> has two tables: a write of a status bit is a command to the port, so the
  routine that sets and the one that reads use different selectors.
\<close>

definition HcRHPORT_STATUS_set :: field_table where
  "HcRHPORT_STATUS_set =
    [(RH_CLEAR_PORT_ENABLE, 0, 1), (RH_SET_PORT_ENABLE, 1, 1), (RH_SET_PORT_SUSPEND, 2, 1),
     (RH_CLEAR_SUSPEND_STATUS, 3, 1), (RH_SET_PORT_RESET, 4, 1), (RH_SET_PORT_POWER, 8, 1),
     (RH_CLEAR_PORT_POWER, 9, 1), (RH_CONNECT_STATUS_CHANGE, 16, 1),
     (RH_PORT_ENABLE_STAT_CHANGE, 17, 1), (RH_PORT_SUSPEND_STAT_CHANGE, 18, 1),
     (RH_OC_INDICATOR_CHANGE, 19, 1), (RH_PORT_RESET_STAT_CHANGE, 20, 1)]"

definition HcRHPORT_STATUS_get :: field_table where
  "HcRHPORT_STATUS_get =
    [(RH_CURR_CONNECT_STAT, 0, 1), (RH_PORT_ENABLE_STAT, 1, 1), (RH_PORT_SUSPEND_STAT, 2, 1),
     (RH_PORT_OC_INDICATOR, 3, 1), (RH_PORT_RESET_STAT, 4, 1), (RH_PORT_POWER_STAT, 8, 1),
     (RH_LSDEVICE_ATTACHED, 9, 1), (RH_CONNECT_STATUS_CHANGE, 16, 1),
     (RH_PORT_ENABLE_STAT_CHANGE, 17, 1), (RH_PORT_SUSPEND_STAT_CHANGE, 18, 1),
     (RH_OC_INDICATOR_CHANGE, 19, 1), (RH_PORT_RESET_STAT_CHANGE, 20, 1)]"

definition HcRESET :: field_table where
  "HcRESET =
    [(RESET_SYSTEM_BUS, 0, 1), (RESET_HOST_CONTROLLER, 1, 1), (RESET_CLOCK_GENERATION, 2, 1),
     (RESET_SSE_GLOBAL, 5, 1), (RESET_PSPL, 6, 1), (RESET_PCPL, 7, 1), (RESET_SSEP1, 9, 1),
     (RESET_SSEP2, 10, 1), (RESET_SSEP3, 11, 1)]"

section \<open>Routines\<close>

text \<open>
  \<open>set_fields\<close>: \<open>if (Field & X) Reg.M = Value;\<close> for each entry in turn. \<open>get_field\<close>: the switch;
  a selector that no case names runs into \<open>ASSERT (FALSE)\<close>.
\<close>

fun set_fields :: "u64 \<Rightarrow> u32 \<Rightarrow> field_table \<Rightarrow> u32 \<Rightarrow> u32" where
  "set_fields Fld Value [] w = w"
| "set_fields Fld Value ((X, off, n) # tab) w =
    set_fields Fld Value tab (if Fld AND X \<noteq> 0 then bf_set off n Value w else w)"

fun get_field :: "u64 \<Rightarrow> field_table \<Rightarrow> u32 \<Rightarrow> u32 option" where
  "get_field Fld [] w = None"
| "get_field Fld ((X, off, n) # tab) w =
    (if Fld = X then Some (bf_get off n w) else get_field Fld tab w)"

record 'd mmio =
  MmioRead32 :: "u64 \<Rightarrow> 'd \<Rightarrow> u32 \<times> 'd"
  MmioWrite32 :: "u64 \<Rightarrow> u32 \<Rightarrow> 'd \<Rightarrow> 'd"
  Stall :: "nat \<Rightarrow> 'd \<Rightarrow> 'd"

text \<open>\<open>Ohc->UsbHcBaseAddress\<close>, a \<open>UINT32\<close>, is all the routines use of the device structure; the sum with
  the offset is taken in 32 bits.\<close>

definition OhciGetOperationalReg :: "'d mmio \<Rightarrow> u32 \<Rightarrow> u32 \<Rightarrow> 'd \<Rightarrow> u32 \<times> 'd" where
  "OhciGetOperationalReg io Ohc Offset d = MmioRead32 io (ucast (Ohc + Offset)) d"

definition OhciSetOperationalReg :: "'d mmio \<Rightarrow> u32 \<Rightarrow> u32 \<Rightarrow> u32 \<Rightarrow> 'd \<Rightarrow> EFI_STATUS \<times> 'd" where
  "OhciSetOperationalReg io Ohc Offset Value d =
    (status_of_u32 Value, MmioWrite32 io (ucast (Ohc + Offset)) Value d)"

definition OhciGetHcRevision :: "'d mmio \<Rightarrow> u32 \<Rightarrow> 'd \<Rightarrow> u32 \<times> 'd" where
  "OhciGetHcRevision io Ohc d = OhciGetOperationalReg io Ohc HC_REVISION d"

definition OhciSetHcReset :: "'d mmio \<Rightarrow> u32 \<Rightarrow> u32 \<Rightarrow> u32 \<Rightarrow> 'd \<Rightarrow> EFI_STATUS \<times> 'd" where
  "OhciSetHcReset io Ohc Fld Value d =
    (let (Reset, d1) = OhciGetOperationalReg io Ohc USBHOST_OFFSET_UHCHR d;
         (Status, d2) = OhciSetOperationalReg io Ohc USBHOST_OFFSET_UHCHR
                          (set_fields (ucast Fld) Value HcRESET Reset) d1 in
     (EFI_SUCCESS, d2))"

definition OhciGetHcReset :: "'d mmio \<Rightarrow> u32 \<Rightarrow> u32 \<Rightarrow> 'd \<Rightarrow> u32 option \<times> 'd" where
  "OhciGetHcReset io Ohc Fld d =
    (let (Reset, d1) = OhciGetOperationalReg io Ohc USBHOST_OFFSET_UHCHR d in
     (get_field (ucast Fld) HcRESET Reset, d1))"

definition OhciSetHcControl :: "'d mmio \<Rightarrow> u32 \<Rightarrow> u64 \<Rightarrow> u32 \<Rightarrow> 'd \<Rightarrow> EFI_STATUS \<times> 'd" where
  "OhciSetHcControl io Ohc Fld Value d =
    (let (Control, d1) = OhciGetOperationalReg io Ohc HC_CONTROL d in
     OhciSetOperationalReg io Ohc HC_CONTROL (set_fields Fld Value HcCONTROL Control) d1)"

definition OhciGetHcControl :: "'d mmio \<Rightarrow> u32 \<Rightarrow> u64 \<Rightarrow> 'd \<Rightarrow> u32 option \<times> 'd" where
  "OhciGetHcControl io Ohc Fld d =
    (let (Control, d1) = OhciGetOperationalReg io Ohc HC_CONTROL d in
     (get_field Fld HcCONTROL Control, d1))"

definition OhciSetHcCommandStatus :: "'d mmio \<Rightarrow> u32 \<Rightarrow> u64 \<Rightarrow> u32 \<Rightarrow> 'd \<Rightarrow> EFI_STATUS \<times> 'd" where
  "OhciSetHcCommandStatus io Ohc Fld Value d =
    OhciSetOperationalReg io Ohc HC_COMMAND_STATUS (set_fields Fld Value HcCOMMAND_STATUS 0) d"

definition OhciGetHcCommandStatus :: "'d mmio \<Rightarrow> u32 \<Rightarrow> u64 \<Rightarrow> 'd \<Rightarrow> u32 option \<times> 'd" where
  "OhciGetHcCommandStatus io Ohc Fld d =
    (let (CommandStatus, d1) = OhciGetOperationalReg io Ohc HC_COMMAND_STATUS d in
     (get_field Fld HcCOMMAND_STATUS CommandStatus, d1))"

definition OhciClearInterruptStatus :: "'d mmio \<Rightarrow> u32 \<Rightarrow> u64 \<Rightarrow> 'd \<Rightarrow> EFI_STATUS \<times> 'd" where
  "OhciClearInterruptStatus io Ohc Fld d =
    OhciSetOperationalReg io Ohc HC_INTERRUPT_STATUS (set_fields Fld 1 HcINTERRUPT_STATUS 0) d"

definition OhciGetHcInterruptStatus :: "'d mmio \<Rightarrow> u32 \<Rightarrow> u64 \<Rightarrow> 'd \<Rightarrow> u32 option \<times> 'd" where
  "OhciGetHcInterruptStatus io Ohc Fld d =
    (let (InterruptStatus, d1) = OhciGetOperationalReg io Ohc HC_INTERRUPT_STATUS d in
     (get_field Fld HcINTERRUPT_STATUS InterruptStatus, d1))"

definition OhciSetInterruptControl ::
  "'d mmio \<Rightarrow> u32 \<Rightarrow> bool \<Rightarrow> u64 \<Rightarrow> u32 \<Rightarrow> 'd \<Rightarrow> EFI_STATUS \<times> 'd" where
  "OhciSetInterruptControl io Ohc StatEnable Fld Value d =
    (let InterruptState = set_fields Fld Value HcINTERRUPT_CONTROL 0 in
     if StatEnable then OhciSetOperationalReg io Ohc HC_INTERRUPT_ENABLE InterruptState d
     else OhciSetOperationalReg io Ohc HC_INTERRUPT_DISABLE InterruptState d)"

definition OhciGetHcInterruptControl :: "'d mmio \<Rightarrow> u32 \<Rightarrow> u64 \<Rightarrow> 'd \<Rightarrow> u32 option \<times> 'd" where
  "OhciGetHcInterruptControl io Ohc Fld d =
    (let (InterruptState, d1) = OhciGetOperationalReg io Ohc HC_INTERRUPT_ENABLE d in
     (get_field Fld HcINTERRUPT_CONTROL InterruptState, d1))"

text \<open>
  The polling loop of \<open>OhciSetMemoryPointer\<close> ends only when the register reads back the value.
  The pointer is cut to 32 bits.
\<close>

partial_function (option) OhciPollPointer ::
  "'d mmio \<Rightarrow> u32 \<Rightarrow> u32 \<Rightarrow> u32 \<Rightarrow> u32 \<Rightarrow> 'd \<Rightarrow> 'd option" where
  "OhciPollPointer io Ohc PointerType Value Verify d =
    (if Verify \<noteq> Value then
       (let (Verify', d1) = OhciGetOperationalReg io Ohc PointerType (Stall io 1000 d) in
        OhciPollPointer io Ohc PointerType Value Verify' d1)
     else Some d)"

definition OhciSetMemoryPointer ::
  "'d mmio \<Rightarrow> u32 \<Rightarrow> u32 \<Rightarrow> nat \<Rightarrow> 'd \<Rightarrow> (EFI_STATUS \<times> 'd) option" where
  "OhciSetMemoryPointer io Ohc PointerType Ptr d =
    (let Value = word_of_nat Ptr;
         (Status, d1) = OhciSetOperationalReg io Ohc PointerType Value d in
     if EFI_ERROR Status then Some (Status, d1) else
     let (Verify, d2) = OhciGetOperationalReg io Ohc PointerType d1 in
     map_option (\<lambda>d3. (Status, d3)) (OhciPollPointer io Ohc PointerType Value Verify d2))"

definition OhciGetMemoryPointer :: "'d mmio \<Rightarrow> u32 \<Rightarrow> u32 \<Rightarrow> 'd \<Rightarrow> nat \<times> 'd" where
  "OhciGetMemoryPointer io Ohc PointerType d =
    (let (v, d1) = OhciGetOperationalReg io Ohc PointerType d in (unat v, d1))"

text \<open>The logical negation of a one-bit member.\<close>

definition flip_bit1 :: "nat \<Rightarrow> u32 \<Rightarrow> u32" where
  "flip_bit1 off w = bf_set off 1 (if bf_get off 1 w = 0 then 1 else 0) w"

definition OhciSetFrameInterval :: "'d mmio \<Rightarrow> u32 \<Rightarrow> u64 \<Rightarrow> u32 \<Rightarrow> 'd \<Rightarrow> EFI_STATUS \<times> 'd" where
  "OhciSetFrameInterval io Ohc Fld Value d =
    (let (w0, d1) = OhciGetOperationalReg io Ohc HC_FRM_INTERVAL d;
         w1 = (if Fld AND FRAME_INTERVAL \<noteq> 0 then bf_set 0 14 Value (flip_bit1 31 w0) else w0);
         w2 = (if Fld AND FS_LARGEST_DATA_PACKET \<noteq> 0 then bf_set 16 15 Value w1 else w1);
         w3 = (if Fld AND FRMINT_TOGGLE \<noteq> 0 then bf_set 31 1 Value w2 else w2) in
     OhciSetOperationalReg io Ohc HC_FRM_INTERVAL w3 d1)"

definition OhciGetFrameInterval :: "'d mmio \<Rightarrow> u32 \<Rightarrow> u64 \<Rightarrow> 'd \<Rightarrow> u32 option \<times> 'd" where
  "OhciGetFrameInterval io Ohc Fld d =
    (let (FrameInterval, d1) = OhciGetOperationalReg io Ohc HC_FRM_INTERVAL d in
     (get_field Fld HcFRM_INTERVAL FrameInterval, d1))"

definition OhciSetFrameRemaining :: "'d mmio \<Rightarrow> u32 \<Rightarrow> u32 \<Rightarrow> 'd \<Rightarrow> EFI_STATUS \<times> 'd" where
  "OhciSetFrameRemaining io Ohc Value d =
    (let (FrameRemaining, d1) = OhciGetOperationalReg io Ohc HC_FRM_REMAINING d in
     OhciSetOperationalReg io Ohc HC_FRM_REMAINING (flip_bit1 31 (bf_set 0 14 Value FrameRemaining)) d1)"

definition OhciGetFrameRemaining :: "'d mmio \<Rightarrow> u32 \<Rightarrow> u64 \<Rightarrow> 'd \<Rightarrow> u32 option \<times> 'd" where
  "OhciGetFrameRemaining io Ohc Fld d =
    (let (FrameRemaining, d1) = OhciGetOperationalReg io Ohc HC_FRM_REMAINING d in
     (get_field Fld HcFRAME_REMAINING FrameRemaining, d1))"

definition OhciSetFrameNumber :: "'d mmio \<Rightarrow> u32 \<Rightarrow> u32 \<Rightarrow> 'd \<Rightarrow> EFI_STATUS \<times> 'd" where
  "OhciSetFrameNumber io Ohc Value d = OhciSetOperationalReg io Ohc HC_FRM_NUMBER Value d"

definition OhciGetFrameNumber :: "'d mmio \<Rightarrow> u32 \<Rightarrow> 'd \<Rightarrow> u32 \<times> 'd" where
  "OhciGetFrameNumber io Ohc d = OhciGetOperationalReg io Ohc HC_FRM_NUMBER d"

definition OhciSetPeriodicStart :: "'d mmio \<Rightarrow> u32 \<Rightarrow> u32 \<Rightarrow> 'd \<Rightarrow> EFI_STATUS \<times> 'd" where
  "OhciSetPeriodicStart io Ohc Value d = OhciSetOperationalReg io Ohc HC_PERIODIC_START Value d"

definition OhciGetPeriodicStart :: "'d mmio \<Rightarrow> u32 \<Rightarrow> 'd \<Rightarrow> u32 \<times> 'd" where
  "OhciGetPeriodicStart io Ohc d = OhciGetOperationalReg io Ohc HC_PERIODIC_START d"

definition OhciSetLsThreshold :: "'d mmio \<Rightarrow> u32 \<Rightarrow> u32 \<Rightarrow> 'd \<Rightarrow> EFI_STATUS \<times> 'd" where
  "OhciSetLsThreshold io Ohc Value d = OhciSetOperationalReg io Ohc HC_LS_THREASHOLD Value d"

definition OhciGetLsThreshold :: "'d mmio \<Rightarrow> u32 \<Rightarrow> 'd \<Rightarrow> u32 \<times> 'd" where
  "OhciGetLsThreshold io Ohc d = OhciGetOperationalReg io Ohc HC_LS_THREASHOLD d"

definition OhciSetRootHubDescriptor :: "'d mmio \<Rightarrow> u32 \<Rightarrow> u64 \<Rightarrow> u32 \<Rightarrow> 'd \<Rightarrow> EFI_STATUS \<times> 'd" where
  "OhciSetRootHubDescriptor io Ohc Fld Value d =
    (if Fld AND (RH_DEV_REMOVABLE OR RH_PORT_PWR_CTRL_MASK) \<noteq> 0 then
       (let (DescriptorB, d1) = OhciGetOperationalReg io Ohc HC_RH_DESC_B d in
        OhciSetOperationalReg io Ohc HC_RH_DESC_B (set_fields Fld Value HcRH_DESC_B DescriptorB) d1)
     else
       (let (DescriptorA, d1) = OhciGetOperationalReg io Ohc HC_RH_DESC_A d in
        OhciSetOperationalReg io Ohc HC_RH_DESC_A (set_fields Fld Value HcRH_DESC_A DescriptorA) d1))"

definition OhciGetRootHubDescriptor :: "'d mmio \<Rightarrow> u32 \<Rightarrow> u64 \<Rightarrow> 'd \<Rightarrow> u32 option \<times> 'd" where
  "OhciGetRootHubDescriptor io Ohc Fld d =
    (let (DescriptorA, d1) = OhciGetOperationalReg io Ohc HC_RH_DESC_A d;
         (DescriptorB, d2) = OhciGetOperationalReg io Ohc HC_RH_DESC_B d1 in
     (case get_field Fld HcRH_DESC_B DescriptorB of
        Some v \<Rightarrow> Some v
      | None \<Rightarrow> get_field Fld HcRH_DESC_A DescriptorA, d2))"

definition OhciSetRootHubStatus :: "'d mmio \<Rightarrow> u32 \<Rightarrow> u64 \<Rightarrow> 'd \<Rightarrow> EFI_STATUS \<times> 'd" where
  "OhciSetRootHubStatus io Ohc Fld d =
    OhciSetOperationalReg io Ohc HC_RH_STATUS (set_fields Fld 1 HcRH_STATUS 0) d"

definition OhciGetRootHubStatus :: "'d mmio \<Rightarrow> u32 \<Rightarrow> u64 \<Rightarrow> 'd \<Rightarrow> u32 option \<times> 'd" where
  "OhciGetRootHubStatus io Ohc Fld d =
    (let (RootHubStatus, d1) = OhciGetOperationalReg io Ohc HC_RH_STATUS d in
     (get_field Fld HcRH_STATUS RootHubStatus, d1))"

definition OhciSetRootHubPortStatus :: "'d mmio \<Rightarrow> u32 \<Rightarrow> u32 \<Rightarrow> u64 \<Rightarrow> 'd \<Rightarrow> EFI_STATUS \<times> 'd" where
  "OhciSetRootHubPortStatus io Ohc Index Fld d =
    OhciSetOperationalReg io Ohc (HC_RH_PORT_STATUS + Index * 4)
      (set_fields Fld 1 HcRHPORT_STATUS_set 0) d"

definition OhciReadRootHubPortStatus :: "'d mmio \<Rightarrow> u32 \<Rightarrow> u32 \<Rightarrow> u64 \<Rightarrow> 'd \<Rightarrow> u32 option \<times> 'd" where
  "OhciReadRootHubPortStatus io Ohc Index Fld d =
    (let (PortStatus, d1) = OhciGetOperationalReg io Ohc (HC_RH_PORT_STATUS + Index * 4) d in
     (get_field Fld HcRHPORT_STATUS_get PortStatus, d1))"

section \<open>Field tables\<close>

text \<open>
  What the routines rely on in a structure and its selectors: the members are disjoint parts of
  the word, and no two cases of a switch have the same selector.
\<close>

locale members =
  fixes tab :: field_table
  assumes in_word: "(X, off, n) \<in> set tab \<Longrightarrow> off + n \<le> 32"
    and selectors: "distinct (map fst tab)"
    and disjoint: "sorted_wrt (\<lambda>(X, o1, n1) (Y, o2, n2). o1 + n1 \<le> o2 \<or> o2 + n2 \<le> o1) tab"
begin

lemma get_member: "(X, off, n) \<in> set tab \<Longrightarrow> get_field X tab w = Some (bf_get off n w)"
  using selectors by (induction tab) (auto simp: image_iff)

lemma get_none: "X \<notin> fst ` set tab \<Longrightarrow> get_field X tab w = None"
  by (induction tab) auto

lemma set_apart:
  "\<forall>(X, o2, n2) \<in> set t. o1 + n1 \<le> o2 \<or> o2 + n2 \<le> o1 \<Longrightarrow>
    bf_get o1 n1 (set_fields F v t w) = bf_get o1 n1 w"
  by (induction t arbitrary: w) (auto simp: bf_laws)

lemma set_member:
  assumes "(X, off, n) \<in> set tab"
  shows "bf_get off n (set_fields F v tab w) = (if F AND X \<noteq> 0 then take_bit n v else bf_get off n w)"
  using assms in_word disjoint
proof (induction tab arbitrary: w)
  case Nil
  then show ?case by simp
next
  case (Cons e t)
  obtain Y o2 n2 where e: "e = (Y, o2, n2)" by (cases e)
  show ?case
  proof (cases "e = (X, off, n)")
    case True
    then have "\<forall>(Z, o3, n3) \<in> set t. off + n \<le> o3 \<or> o3 + n3 \<le> off" "off + n \<le> 32"
      using Cons.prems by auto
    then show ?thesis
      using True set_apart[of t off n F v] by (simp add: bf_get_set_same)
  next
    case False
    then have m: "(X, off, n) \<in> set t" "off + n \<le> o2 \<or> o2 + n2 \<le> off"
      using Cons.prems e by fastforce+
    have "bf_get off n (set_fields F v t w') = (if F AND X \<noteq> 0 then take_bit n v else bf_get off n w')" for w'
      by (rule Cons.IH) (use Cons.prems m e in auto)
    then show ?thesis
      using m(2) e by (simp add: bf_get_set_other)
  qed
qed

lemma set_get:
  "(X, off, n) \<in> set tab \<Longrightarrow>
    get_field X tab (set_fields F v tab w) = Some (if F AND X \<noteq> 0 then take_bit n v else bf_get off n w)"
  by (simp add: get_member set_member)

lemma reserved_kept:
  assumes "\<forall>(X, off, n) \<in> set tab. F AND X = 0 \<or> i < off \<or> off + n \<le> i"
  shows "bit (set_fields F v tab w) i = bit w i"
  using assms by (induction tab arbitrary: w) (auto simp: bit_bf_set split: if_splits)

lemma commands:
  assumes "\<forall>(X, off, n) \<in> set tab. n = 1"
  shows "bit (set_fields F 1 tab 0) i \<longleftrightarrow> (\<exists>X. (X, i, 1) \<in> set tab \<and> F AND X \<noteq> 0)"
proof (cases "\<exists>X. (X, i, 1) \<in> set tab \<and> F AND X \<noteq> 0")
  case True
  then obtain X where X: "(X, i, 1) \<in> set tab" "F AND X \<noteq> 0" by blast
  then have "bf_get i 1 (set_fields F 1 tab 0) = take_bit 1 1"
    using set_member[OF X(1), of F 1 0] by simp
  then have "bit (bf_get i 1 (set_fields F 1 tab 0)) 0" by simp
  then show ?thesis using X by (auto simp only: bit_bf_get add_0_right)
next
  case False
  have "F AND X = 0 \<or> i < off \<or> off + n \<le> i" if "(X, off, n) \<in> set tab" for X off n
    using that False assms by (cases "i = off") auto
  then have "bit (set_fields F 1 tab 0) i = bit (0 :: u32) i"
    by (intro reserved_kept) blast
  then show ?thesis using False by simp
qed

end

interpretation control: members HcCONTROL
  by unfold_locales (auto simp: HcCONTROL_def)
interpretation command: members HcCOMMAND_STATUS
  by unfold_locales (auto simp: HcCOMMAND_STATUS_def)
interpretation int_status: members HcINTERRUPT_STATUS
  by unfold_locales (auto simp: HcINTERRUPT_STATUS_def)
interpretation int_control: members HcINTERRUPT_CONTROL
  by unfold_locales (auto simp: HcINTERRUPT_CONTROL_def)
interpretation frm_interval: members HcFRM_INTERVAL
  by unfold_locales (auto simp: HcFRM_INTERVAL_def)
interpretation frm_remaining: members HcFRAME_REMAINING
  by unfold_locales (auto simp: HcFRAME_REMAINING_def)
interpretation desc_a: members HcRH_DESC_A
  by unfold_locales (auto simp: HcRH_DESC_A_def)
interpretation desc_b: members HcRH_DESC_B
  by unfold_locales (auto simp: HcRH_DESC_B_def)
interpretation rh_status: members HcRH_STATUS
  by unfold_locales (auto simp: HcRH_STATUS_def)
interpretation port_set: members HcRHPORT_STATUS_set
  by unfold_locales (auto simp: HcRHPORT_STATUS_set_def)
interpretation port_get: members HcRHPORT_STATUS_get
  by unfold_locales (auto simp: HcRHPORT_STATUS_get_def)
interpretation reset: members HcRESET
  by unfold_locales (auto simp: HcRESET_def)

section \<open>Plain registers\<close>

text \<open>
  The addresses \<open>A\<close> are plain read-write registers of the device: a read gives what was last
  written, and accesses to one do not change another. \<open>regs\<close> is their contents.
\<close>

definition plain_registers :: "'d mmio \<Rightarrow> ('d \<Rightarrow> u64 \<Rightarrow> u32) \<Rightarrow> u64 set \<Rightarrow> bool" where
  "plain_registers io regs A \<longleftrightarrow>
    (\<forall>a \<in> A. \<forall>d. fst (MmioRead32 io a d) = regs d a)
  \<and> (\<forall>a \<in> A. \<forall>b \<in> A. \<forall>d. regs (snd (MmioRead32 io a d)) b = regs d b)
  \<and> (\<forall>a \<in> A. \<forall>b \<in> A. \<forall>v d. regs (MmioWrite32 io a v d) b = (if b = a then v else regs d b))"

lemma plainD:
  assumes "plain_registers io regs A" "a \<in> A"
  shows "fst (MmioRead32 io a d) = regs d a"
    "b \<in> A \<Longrightarrow> regs (snd (MmioRead32 io a d)) b = regs d b"
    "b \<in> A \<Longrightarrow> regs (MmioWrite32 io a v d) b = (if b = a then v else regs d b)"
  using assms by (auto simp: plain_registers_def)

text \<open>A read-modify-write of one register.\<close>

lemma modify_register:
  assumes P: "plain_registers io regs A" "ucast (Ohc + off) \<in> A"
    and eq: "(let (w, d1) = OhciGetOperationalReg io Ohc off d in
       OhciSetOperationalReg io Ohc off (f w) d1) = (st, d')"
  shows "st = status_of_u32 (f (regs d (ucast (Ohc + off))))"
    "regs d' (ucast (Ohc + off)) = f (regs d (ucast (Ohc + off)))"
    "b \<in> A \<Longrightarrow> b \<noteq> ucast (Ohc + off) \<Longrightarrow> regs d' b = regs d b"
proof -
  let ?a = "ucast (Ohc + off) :: u64"
  obtain w d1 where r: "MmioRead32 io ?a d = (w, d1)" by fastforce
  have "w = regs d ?a" "\<And>b. b \<in> A \<Longrightarrow> regs d1 b = regs d b"
    using plainD(1,2)[OF P, where d = d] r by auto
  moreover have "st = status_of_u32 (f w)" "d' = MmioWrite32 io ?a (f w) d1"
    using eq r by (simp_all add: OhciGetOperationalReg_def OhciSetOperationalReg_def)
  ultimately show "st = status_of_u32 (f (regs d ?a))" "regs d' ?a = f (regs d ?a)"
    "b \<in> A \<Longrightarrow> b \<noteq> ?a \<Longrightarrow> regs d' b = regs d b"
    using plainD(3)[OF P, where v = "f w" and d = d1] P(2) by auto
qed

lemma read_register:
  assumes "plain_registers io regs A" "ucast (Ohc + off) \<in> A"
  shows "fst (OhciGetOperationalReg io Ohc off d) = regs d (ucast (Ohc + off))"
  using plainD(1)[OF assms] by (simp add: OhciGetOperationalReg_def)

section \<open>The polling loop\<close>

text \<open>What the \<open>k\<close>-th read of the register gives, after \<open>k\<close> stalls.\<close>

fun poll :: "'d mmio \<Rightarrow> u32 \<Rightarrow> u32 \<Rightarrow> 'd \<Rightarrow> nat \<Rightarrow> u32 \<times> 'd" where
  "poll io Ohc T d 0 = OhciGetOperationalReg io Ohc T d"
| "poll io Ohc T d (Suc k) = OhciGetOperationalReg io Ohc T (Stall io 1000 (snd (poll io Ohc T d k)))"

lemma poll_shift:
  "poll io Ohc T (Stall io 1000 (snd (poll io Ohc T d 0))) k = poll io Ohc T d (Suc k)"
  by (induction k) simp_all

lemma poll_returns:
  assumes "fst (poll io Ohc T d k) = v" "\<forall>j < k. fst (poll io Ohc T d j) \<noteq> v"
  shows "(let (w, d1) = OhciGetOperationalReg io Ohc T d in OhciPollPointer io Ohc T v w d1)
    = Some (snd (poll io Ohc T d k))"
  using assms
proof (induction k arbitrary: d)
  case 0
  then show ?case by (subst OhciPollPointer.simps) (auto simp: Let_def split_beta)
next
  case (Suc k)
  let ?d = "Stall io 1000 (snd (poll io Ohc T d 0))"
  have "(let (w, d1) = OhciGetOperationalReg io Ohc T ?d in OhciPollPointer io Ohc T v w d1)
      = Some (snd (poll io Ohc T ?d k))"
    using Suc.prems by (intro Suc.IH) (auto simp only: poll_shift)
  moreover have "fst (poll io Ohc T d 0) \<noteq> v" using Suc.prems(2) by blast
  ultimately show ?case
    unfolding poll_shift
    by (simp add: OhciPollPointer.simps[of io Ohc T v "fst (OhciGetOperationalReg io Ohc T d)"] split_beta Let_def)
qed

lemma poll_only:
  assumes "OhciPollPointer io Ohc T v w d1 = Some d'" "(w, d1) = poll io Ohc T d 0"
  shows "\<exists>k. fst (poll io Ohc T d k) = v"
proof -
  let ?P = "\<lambda>io Ohc T v w d1 d'. \<forall>d. (w, d1) = poll io Ohc T d 0 \<longrightarrow> (\<exists>k. fst (poll io Ohc T d k) = v)"
  have "?P io Ohc T v w d1 d'"
  proof (rule OhciPollPointer.raw_induct[where P = ?P, OF _ assms(1)], intro allI impI)
    fix f :: "'a mmio \<Rightarrow> u32 \<Rightarrow> u32 \<Rightarrow> u32 \<Rightarrow> u32 \<Rightarrow> 'a \<Rightarrow> 'a option" and io Ohc T v w d1 d' d
    assume IH: "\<And>io Ohc T v w d1 d'. f io Ohc T v w d1 = Some d' \<Longrightarrow> ?P io Ohc T v w d1 d'"
      and eq: "(if w \<noteq> v then let (w2, d2) = OhciGetOperationalReg io Ohc T (Stall io 1000 d1) in f io Ohc T v w2 d2
         else Some d1) = Some d'" and r: "(w, d1) = poll io Ohc T d 0"
    show "\<exists>k. fst (poll io Ohc T d k) = v"
    proof (cases "w = v")
      case True
      then show ?thesis using r by (metis fst_conv)
    next
      case False
      let ?d = "Stall io 1000 (snd (poll io Ohc T d 0))"
      obtain w2 d2 where g: "OhciGetOperationalReg io Ohc T (Stall io 1000 d1) = (w2, d2)" by fastforce
      then have "(w2, d2) = poll io Ohc T ?d 0" using r by (metis poll.simps(1) snd_conv)
      moreover have "f io Ohc T v w2 d2 = Some d'" using eq False g by simp
      ultimately obtain k where "fst (poll io Ohc T ?d k) = v" using IH by blast
      then show ?thesis unfolding poll_shift by blast
    qed
  qed
  then show ?thesis using assms(2) by blast
qed

text \<open>A device all of whose registers are plain, used at the concrete inputs below.\<close>

definition memory_device :: "(u64 \<Rightarrow> u32) mmio" where
  "memory_device = \<lparr>MmioRead32 = (\<lambda>a d. (d a, d)), MmioWrite32 = (\<lambda>a v d. d(a := v)), Stall = (\<lambda>n d. d)\<rparr>"

lemma memory_device_plain: "plain_registers memory_device (\<lambda>d. d) A"
  by (simp add: plain_registers_def memory_device_def)

section \<open>Properties\<close>

text \<open>A selector list written to HcControl by \<open>OhciSetHcControl\<close> is read back by
  \<open>OhciGetHcControl\<close>: every selected member holds the value cut to its width, every other member
  is what it was, no other register has changed, and neither have the reserved bits.\<close>

theorem OhciHcControl_set_get:
  assumes "plain_registers io regs A" "ucast (Ohc + 4) \<in> A"
    and "OhciSetHcControl io Ohc Fld Value d = (Status, d')"
  shows "(\<forall>(X, off, n) \<in> set HcCONTROL. fst (OhciGetHcControl io Ohc X d') =
        Some (if Fld AND X \<noteq> 0 then take_bit n Value else bf_get off n (regs d (ucast (Ohc + 4)))))
    \<and> (\<forall>i \<ge> 9. bit (regs d' (ucast (Ohc + 4))) i = bit (regs d (ucast (Ohc + 4))) i)
    \<and> (\<forall>b \<in> A. b \<noteq> ucast (Ohc + 4) \<longrightarrow> regs d' b = regs d b)"
proof (intro conjI)
  have A: "ucast (Ohc + HC_CONTROL) \<in> A" using assms(2) by simp
  note M = modify_register[OF assms(1) A assms(3)[unfolded OhciSetHcControl_def]]
  have w: "regs d' (ucast (Ohc + 4)) = set_fields Fld Value HcCONTROL (regs d (ucast (Ohc + 4)))"
    using M(2) by simp
  have r: "fst (OhciGetHcControl io Ohc X d') = get_field X HcCONTROL (regs d' (ucast (Ohc + 4)))" for X
    using read_register[OF assms(1) A, where d = d'] by (simp add: OhciGetHcControl_def split_beta)
  show "\<forall>(X, off, n) \<in> set HcCONTROL. fst (OhciGetHcControl io Ohc X d') =
        Some (if Fld AND X \<noteq> 0 then take_bit n Value else bf_get off n (regs d (ucast (Ohc + 4))))"
    unfolding r w using control.set_get by blast
  show "\<forall>i \<ge> 9. bit (regs d' (ucast (Ohc + 4))) i = bit (regs d (ucast (Ohc + 4))) i"
    unfolding w by (auto intro!: control.reserved_kept) (auto simp: HcCONTROL_def)
  show "\<forall>b \<in> A. b \<noteq> ucast (Ohc + 4) \<longrightarrow> regs d' b = regs d b"
    using M(3) by simp
qed

theorem OhciHcControl_set_get_witness:
  "fst (OhciGetHcControl memory_device 0x1000 HC_FUNCTIONAL_STATE
      (snd (OhciSetHcControl memory_device 0x1000 HC_FUNCTIONAL_STATE 2 (\<lambda>a. 0)))) = Some 2"
  using OhciHcControl_set_get[OF memory_device_plain UNIV_I surjective_pairing,
      where Ohc = "0x1000" and Fld = HC_FUNCTIONAL_STATE and Value = 2 and d = "\<lambda>a. 0"]
  by (simp add: HcCONTROL_def take_bit_eq_mod)

text \<open>\<open>OhciClearInterruptStatus\<close> and \<open>OhciSetRootHubPortStatus\<close>, whose registers take a written
  one as a command, write the ones their selectors name and nothing else: no status bit is cleared
  and no port command given that was not asked for.\<close>

lemma OhciCommands_exact:
  "(\<exists>v. OhciClearInterruptStatus io Ohc Fld d = (status_of_u32 v, MmioWrite32 io (ucast (Ohc + 0xC)) v d)
     \<and> (\<forall>i. bit v i \<longleftrightarrow> (\<exists>X. (X, i, 1) \<in> set HcINTERRUPT_STATUS \<and> Fld AND X \<noteq> 0)))
  \<and> (\<exists>v. OhciSetRootHubPortStatus io Ohc Index Fld d =
       (status_of_u32 v, MmioWrite32 io (ucast (Ohc + (0x54 + Index * 4))) v d)
     \<and> (\<forall>i. bit v i \<longleftrightarrow> (\<exists>X. (X, i, 1) \<in> set HcRHPORT_STATUS_set \<and> Fld AND X \<noteq> 0)))"
proof (intro conjI exI)
  show "OhciClearInterruptStatus io Ohc Fld d =
      (status_of_u32 (set_fields Fld 1 HcINTERRUPT_STATUS 0), MmioWrite32 io (ucast (Ohc + 0xC)) (set_fields Fld 1 HcINTERRUPT_STATUS 0) d)"
    by (simp add: OhciClearInterruptStatus_def OhciSetOperationalReg_def)
  show "OhciSetRootHubPortStatus io Ohc Index Fld d =
      (status_of_u32 (set_fields Fld 1 HcRHPORT_STATUS_set 0),
       MmioWrite32 io (ucast (Ohc + (0x54 + Index * 4))) (set_fields Fld 1 HcRHPORT_STATUS_set 0) d)"
    by (simp add: OhciSetRootHubPortStatus_def OhciSetOperationalReg_def)
qed (intro allI int_status.commands port_set.commands; simp add: HcINTERRUPT_STATUS_def HcRHPORT_STATUS_set_def)+

text \<open>C23: \<open>OhciSetMemoryPointer\<close> returns exactly when some read of the polling loop gives the
  pointer it has written, and then at the first such read; its status is then the value written,
  which no caller's \<open>EFI_ERROR\<close> test takes for an error. When no read gives it, the call never returns.\<close>

theorem OhciSetMemoryPointer_returns:
  "case OhciSetMemoryPointer io Ohc T Ptr d of
     None \<Rightarrow> \<forall>k. fst (poll io Ohc T (MmioWrite32 io (ucast (Ohc + T)) (word_of_nat Ptr) d) k) \<noteq> word_of_nat Ptr
   | Some (Status, d') \<Rightarrow> Status = status_of_u32 (word_of_nat Ptr)
       \<and> (\<exists>k. fst (poll io Ohc T (MmioWrite32 io (ucast (Ohc + T)) (word_of_nat Ptr) d) k) = word_of_nat Ptr
          \<and> (\<forall>j < k. fst (poll io Ohc T (MmioWrite32 io (ucast (Ohc + T)) (word_of_nat Ptr) d) j) \<noteq> word_of_nat Ptr)
          \<and> d' = snd (poll io Ohc T (MmioWrite32 io (ucast (Ohc + T)) (word_of_nat Ptr) d) k))"
proof -
  let ?v = "word_of_nat Ptr :: u32"
  let ?d = "MmioWrite32 io (ucast (Ohc + T)) ?v d"
  let ?loop = "let (w, d1) = OhciGetOperationalReg io Ohc T ?d in OhciPollPointer io Ohc T ?v w d1"
  have eq: "OhciSetMemoryPointer io Ohc T Ptr d = map_option (\<lambda>d3. (status_of_u32 ?v, d3)) ?loop"
    by (simp add: OhciSetMemoryPointer_def OhciSetOperationalReg_def Let_def split_beta)
  show ?thesis
  proof (cases "\<exists>k. fst (poll io Ohc T ?d k) = ?v")
    case True
    define k where "k = (LEAST k. fst (poll io Ohc T ?d k) = ?v)"
    have k: "fst (poll io Ohc T ?d k) = ?v" "\<forall>j < k. fst (poll io Ohc T ?d j) \<noteq> ?v"
      using LeastI_ex[OF True] not_less_Least unfolding k_def by blast+
    then show ?thesis unfolding eq poll_returns[OF k] by auto
  next
    case False
    obtain w d1 where g: "OhciGetOperationalReg io Ohc T ?d = (w, d1)" by fastforce
    then have "?loop = None"
      using poll_only[of io Ohc T ?v w d1 _ ?d] False
      by (cases "OhciPollPointer io Ohc T ?v w d1") auto
    then show ?thesis using False by (simp add: eq)
  qed
qed

theorem OhciSetMemoryPointer_returns_witness:
  "\<exists>d'. OhciSetMemoryPointer memory_device 0x1000 HC_CONTROL_HEAD 0x4000 (\<lambda>a. 0) = Some (EFI_STATUS_RAW 0x4000, d')"
proof (cases "OhciSetMemoryPointer memory_device 0x1000 HC_CONTROL_HEAD 0x4000 (\<lambda>a. 0)")
  case None
  have "fst (poll memory_device 0x1000 0x20 ((\<lambda>a. 0)(0x1020 := 0x4000)) 0) = 0x4000"
    by (simp add: OhciGetOperationalReg_def memory_device_def)
  with None show ?thesis
    using OhciSetMemoryPointer_returns[of memory_device "0x1000" "0x20" "0x4000" "\<lambda>a. 0"]
    by (auto simp: memory_device_def simp del: poll.simps)
next
  case (Some r)
  then show ?thesis
    using OhciSetMemoryPointer_returns[of memory_device "0x1000" "0x20" "0x4000" "\<lambda>a. 0"]
    by (cases r) (simp add: status_of_u32_def)
qed

text \<open>\<open>OhciSetFrameInterval\<close> with the selector \<open>FRAME_INTERVAL\<close> stores the interval and inverts
  the toggle bit, which tells the controller to load it, and leaves the largest data packet as it is.\<close>

theorem OhciSetFrameInterval_toggles:
  assumes "plain_registers io regs A" "ucast (Ohc + 0x34) \<in> A"
    and "OhciSetFrameInterval io Ohc FRAME_INTERVAL Value d = (Status, d')"
  shows "fst (OhciGetFrameInterval io Ohc FRAME_INTERVAL d') = Some (take_bit 14 Value)
    \<and> fst (OhciGetFrameInterval io Ohc FRMINT_TOGGLE d') \<noteq> fst (OhciGetFrameInterval io Ohc FRMINT_TOGGLE d)
    \<and> fst (OhciGetFrameInterval io Ohc FS_LARGEST_DATA_PACKET d')
        = fst (OhciGetFrameInterval io Ohc FS_LARGEST_DATA_PACKET d)"
proof -
  have A: "ucast (Ohc + HC_FRM_INTERVAL) \<in> A" using assms(2) by simp
  let ?f = "\<lambda>w. bf_set 0 14 Value (flip_bit1 31 w)"
  have "(let (w, d1) = OhciGetOperationalReg io Ohc HC_FRM_INTERVAL d in
      OhciSetOperationalReg io Ohc HC_FRM_INTERVAL (?f w) d1) = (Status, d')"
    using assms(3) by (simp add: OhciSetFrameInterval_def Let_def split_beta)
  note M = modify_register(2)[OF assms(1) A this]
  have r: "fst (OhciGetFrameInterval io Ohc X d) = get_field X HcFRM_INTERVAL (regs d (ucast (Ohc + 0x34)))" for X d
    using read_register[OF assms(1) A, where d = d] by (simp add: OhciGetFrameInterval_def split_beta)
  show ?thesis
    unfolding r using M by (simp add: HcFRM_INTERVAL_def flip_bit1_def bf_laws)
qed

theorem OhciSetFrameInterval_toggles_witness:
  "fst (OhciGetFrameInterval memory_device 0x1000 FRAME_INTERVAL
      (snd (OhciSetFrameInterval memory_device 0x1000 FRAME_INTERVAL 0x2EDF (\<lambda>a. 0)))) = Some 0x2EDF"
  using OhciSetFrameInterval_toggles[OF memory_device_plain UNIV_I surjective_pairing,
      where Ohc = "0x1000" and Value = "0x2EDF" and d = "\<lambda>a. 0"]
  by (simp add: take_bit_eq_mod)

end
