(* ===== verification/OhciUrb.thy ===== *)
theory OhciUrb
  imports UsbHcPool OhciReg Chains
begin

unbundle bit_operations_syntax

text \<open>
  The endpoint and transfer descriptors of the OHCI driver: \<open>Descriptor.h\<close>, \<open>OhciUrb.c\<close> and the
  device structure of \<open>Ohci.h\<close>, all under \<open>src/Silicon/Rockchip/Rk356xPkg/Drivers/OhciDxe/\<close>.

  The descriptors live in memory of the pool and point to each other. They are the stores \<open>Eds\<close>
  and \<open>Tds\<close> of the device state, maps from addresses to descriptors; a store has no entry at \<open>NULL\<close>
  and none at an address that has been freed, so a routine that follows such a pointer is \<open>None\<close>.
  A link is a \<open>UINT32\<close>: storing a pointer cuts it to 32 bits.
\<close>

section \<open>Data\<close>

record TD_DESCRIPTOR =
  TdWord0 :: u32
  CurrBufferPointer :: u32
  NextTD :: u32
  BufferEndPointer :: u32
  NextTDPointer :: u32
  DataBuffer :: u32
  ActualSendLength :: u32
  TdReserved :: u32

record ED_DESCRIPTOR =
  EdWord0 :: u32
  TdTailPointer :: u32
  EdWord2 :: u32
  NextED :: u32

text \<open>The members of \<open>ED_DESCRIPTOR_WORD0\<close>, \<open>ED_DESCRIPTOR_WORD2\<close> and \<open>TD_DESCRIPTOR_WORD0\<close>.\<close>

definition FunctionAddress :: "ED_DESCRIPTOR \<Rightarrow> u32" where "FunctionAddress Ed = bf_get 0 7 (EdWord0 Ed)"
definition EndPointNum :: "ED_DESCRIPTOR \<Rightarrow> u32" where "EndPointNum Ed = bf_get 7 4 (EdWord0 Ed)"
definition Direction :: "ED_DESCRIPTOR \<Rightarrow> u32" where "Direction Ed = bf_get 11 2 (EdWord0 Ed)"
definition Skip :: "ED_DESCRIPTOR \<Rightarrow> u32" where "Skip Ed = bf_get 14 1 (EdWord0 Ed)"
definition Halted :: "ED_DESCRIPTOR \<Rightarrow> u32" where "Halted Ed = bf_get 0 1 (EdWord2 Ed)"
definition TdHeadPointer :: "ED_DESCRIPTOR \<Rightarrow> u32" where "TdHeadPointer Ed = bf_get 4 28 (EdWord2 Ed)"
definition set_Skip :: "u32 \<Rightarrow> ED_DESCRIPTOR \<Rightarrow> ED_DESCRIPTOR" where
  "set_Skip v Ed = Ed\<lparr>EdWord0 := bf_set 14 1 v (EdWord0 Ed)\<rparr>"
definition set_TdHeadPointer :: "u32 \<Rightarrow> ED_DESCRIPTOR \<Rightarrow> ED_DESCRIPTOR" where
  "set_TdHeadPointer v Ed = Ed\<lparr>EdWord2 := bf_set 4 28 v (EdWord2 Ed)\<rparr>"
definition DataToggle :: "TD_DESCRIPTOR \<Rightarrow> u32" where "DataToggle Td = bf_get 24 2 (TdWord0 Td)"
definition ConditionCode :: "TD_DESCRIPTOR \<Rightarrow> u32" where "ConditionCode Td = bf_get 28 4 (TdWord0 Td)"
definition set_DataToggle :: "u32 \<Rightarrow> TD_DESCRIPTOR \<Rightarrow> TD_DESCRIPTOR" where
  "set_DataToggle v Td = Td\<lparr>TdWord0 := bf_set 24 2 v (TdWord0 Td)\<rparr>"

text \<open>
  \<open>TD_PTR (p)\<close> shifts a 28-bit member: the member is promoted to \<open>int\<close>, and the conversion of the
  shifted \<open>int\<close> to \<open>UINTN\<close> extends its sign.
\<close>

definition TD_PTR :: "u32 \<Rightarrow> nat" where
  "TD_PTR p = unat (scast (push_bit 4 p) :: u64)"

definition RIGHT_SHIFT_4 :: "u32 \<Rightarrow> u32" where
  "RIGHT_SHIFT_4 p = drop_bit 4 p"

datatype DESCRIPTOR_LIST_TYPE = CONTROL_LIST | BULK_LIST | INTERRUPT_LIST | ISOCHRONOUS_LIST

record INTERRUPT_CONTEXT_ENTRY =
  DeviceAddress :: u8
  EndPointAddress :: u8
  Entry_Ed :: nat
  Entry_DataTd :: nat
  IsSlowDevice :: bool
  MaxPacketLength :: u8
  PollingInterval :: u64
  CallBackFunction :: nat
  Context :: nat
  IsPeriodic :: bool
  Buffer :: nat
  DataLength :: u64
  UCBuffer :: nat
  UCBufferMapping :: nat
  Entry_Toggle :: nat
  NextEntry :: nat

text \<open>
  The device structure, with the stores of the objects its pointers reach: endpoint descriptors,
  transfer descriptors and interrupt context entries. \<open>HccaInterruptTable\<close>, a member of
  \<open>*HccaMemoryBlock\<close>, has 32 entries and \<open>IntervalList\<close> 6 rows of 32. \<open>Tpl\<close> is the task priority level; \<open>World\<close> is what the services act on.
\<close>

record 'w USB_OHCI_HC_DEV =
  UsbHcBaseAddress :: u32
  HccaMemoryBlock :: nat
  HccaMemoryBuf :: nat
  HccaMemoryMapping :: nat
  HccaMemoryPages :: u64
  HccaInterruptTable :: "u32 list"
  IntervalList :: "nat list list"
  InterruptContextList :: nat
  MemPool :: USBHC_MEM_POOL
  Eds :: "nat \<rightharpoonup> ED_DESCRIPTOR"
  Tds :: "nat \<rightharpoonup> TD_DESCRIPTOR"
  Ents :: "nat \<rightharpoonup> INTERRUPT_CONTEXT_ENTRY"
  Tpl :: nat
  World :: 'w

text \<open>Memory that \<open>UsbHcAllocateMem\<close> returns is zeroed; a \<open>TD_DESCRIPTOR\<close> has 32 bytes, an
  \<open>ED_DESCRIPTOR\<close> 16.\<close>

definition td_zero :: TD_DESCRIPTOR where
  "td_zero = \<lparr>TdWord0 = 0, CurrBufferPointer = 0, NextTD = 0, BufferEndPointer = 0, NextTDPointer = 0,
     DataBuffer = 0, ActualSendLength = 0, TdReserved = 0\<rparr>"

definition ed_zero :: ED_DESCRIPTOR where
  "ed_zero = \<lparr>EdWord0 = 0, TdTailPointer = 0, EdWord2 = 0, NextED = 0\<rparr>"

abbreviation (input) sizeof_TD :: u64 where "sizeof_TD \<equiv> 32"
abbreviation (input) sizeof_ED :: u64 where "sizeof_ED \<equiv> 16"

section \<open>Creation and release\<close>

definition OhciCreateTD ::
  "'w dma_services \<Rightarrow> 'w USB_OHCI_HC_DEV \<Rightarrow> (nat \<times> 'w USB_OHCI_HC_DEV) option" where
  "OhciCreateTD sv Ohc =
    do {
      (Td, pool, w) \<leftarrow> UsbHcAllocateMem sv (MemPool Ohc) sizeof_TD (World Ohc);
      let Ohc = Ohc\<lparr>MemPool := pool, World := w\<rparr>;
      if Td = 0 then Some (0, Ohc)
      else Some (Td, Ohc\<lparr>Tds := (Tds Ohc)(Td \<mapsto>
             td_zero\<lparr>CurrBufferPointer := 0, NextTD := 0, BufferEndPointer := 0, NextTDPointer := 0\<rparr>)\<rparr>)
    }"

definition OhciFreeTD ::
  "'w dma_services \<Rightarrow> 'w USB_OHCI_HC_DEV \<Rightarrow> nat \<Rightarrow> (EFI_STATUS \<times> 'w USB_OHCI_HC_DEV) option" where
  "OhciFreeTD sv Ohc Td =
    (if Td = 0 then Some (EFI_SUCCESS, Ohc) else
     do {
       (pool, w) \<leftarrow> UsbHcFreeMem sv (MemPool Ohc) Td sizeof_TD (World Ohc);
       Some (EFI_SUCCESS, Ohc\<lparr>MemPool := pool, World := w, Tds := (Tds Ohc)(Td := None)\<rparr>)
     })"

definition OhciCreateED ::
  "'w dma_services \<Rightarrow> 'w USB_OHCI_HC_DEV \<Rightarrow> (nat \<times> 'w USB_OHCI_HC_DEV) option" where
  "OhciCreateED sv Ohc =
    do {
      (Ed, pool, w) \<leftarrow> UsbHcAllocateMem sv (MemPool Ohc) sizeof_ED (World Ohc);
      let Ohc = Ohc\<lparr>MemPool := pool, World := w\<rparr>;
      if Ed = 0 then Some (0, Ohc)
      else Some (Ed, Ohc\<lparr>Eds := (Eds Ohc)(Ed \<mapsto>
             set_TdHeadPointer 0 (set_Skip 1 ed_zero)\<lparr>TdTailPointer := 0, NextED := 0\<rparr>)\<rparr>)
    }"

definition OhciFreeED ::
  "'w dma_services \<Rightarrow> 'w USB_OHCI_HC_DEV \<Rightarrow> nat \<Rightarrow> (EFI_STATUS \<times> 'w USB_OHCI_HC_DEV) option" where
  "OhciFreeED sv Ohc Ed =
    (if Ed = 0 then Some (EFI_SUCCESS, Ohc) else
     do {
       (pool, w) \<leftarrow> UsbHcFreeMem sv (MemPool Ohc) Ed sizeof_ED (World Ohc);
       Some (EFI_SUCCESS, Ohc\<lparr>MemPool := pool, World := w, Eds := (Eds Ohc)(Ed := None)\<rparr>)
     })"

text \<open>The loop frees a descriptor after it has read its link.\<close>

partial_function (option) OhciFreeTDs ::
  "'w dma_services \<Rightarrow> nat \<Rightarrow> nat \<Rightarrow> 'w USB_OHCI_HC_DEV \<Rightarrow> 'w USB_OHCI_HC_DEV option" where
  "OhciFreeTDs sv TailTd Td Ohc =
    (if Td = TailTd then Some Ohc else
     do {
       td \<leftarrow> Tds Ohc Td;
       (_, Ohc) \<leftarrow> OhciFreeTD sv Ohc Td;
       OhciFreeTDs sv TailTd (unat (NextTDPointer td)) Ohc
     })"

definition OhciFreeAllTDFromED ::
  "'w dma_services \<Rightarrow> 'w USB_OHCI_HC_DEV \<Rightarrow> nat \<Rightarrow> (EFI_STATUS \<times> 'w USB_OHCI_HC_DEV) option" where
  "OhciFreeAllTDFromED sv Ohc Ed =
    (if Ed = 0 then Some (EFI_SUCCESS, Ohc) else
     do {
       ed \<leftarrow> Eds Ohc Ed;
       Ohc \<leftarrow> OhciFreeTDs sv (unat (TdTailPointer ed)) (TD_PTR (TdHeadPointer ed)) Ohc;
       Some (EFI_SUCCESS, Ohc)
     })"

section \<open>Endpoint lists\<close>

text \<open>The loops over \<open>NextED\<close> end only on a list that ends; on a cyclic one they do not return.\<close>

partial_function (option) OhciFindWorkingEd ::
  "(nat \<rightharpoonup> ED_DESCRIPTOR) \<Rightarrow> nat \<Rightarrow> u8 \<Rightarrow> u8 \<Rightarrow> u8 \<Rightarrow> nat option" where
  "OhciFindWorkingEd eds Ed Addr EndPt EdDir =
    (if Ed = 0 then Some 0 else
     do {
       ed \<leftarrow> eds Ed;
       if Halted ed = 0 \<and> Skip ed = 0 \<and> FunctionAddress ed = ucast Addr
          \<and> EndPointNum ed = ucast EndPt \<and> Direction ed = ucast EdDir
       then Some Ed
       else OhciFindWorkingEd eds (unat (NextED ed)) Addr EndPt EdDir
     })"

definition set_NextED ::
  "nat \<Rightarrow> u32 \<Rightarrow> (nat \<rightharpoonup> ED_DESCRIPTOR) \<Rightarrow> (nat \<rightharpoonup> ED_DESCRIPTOR) option" where
  "set_NextED p v eds = map_option (\<lambda>ed. eds(p \<mapsto> ed\<lparr>NextED := v\<rparr>)) (eds p)"

text \<open>The bit-reversal permutation of five bits, as the code tabulates it.\<close>

definition Leaf :: "nat list" where
  "Leaf = [0, 16, 8, 24, 4, 20, 12, 28, 2, 18, 10, 26, 6, 22, 14, 30, 1, 17,
           9, 25, 5, 21, 13, 29, 3, 19, 11, 27, 7, 23, 15, 31]"

fun OhciInitTable ::
  "'w dma_services \<Rightarrow> nat list \<Rightarrow> 'w USB_OHCI_HC_DEV \<Rightarrow> (EFI_STATUS \<times> 'w USB_OHCI_HC_DEV) option" where
  "OhciInitTable sv [] Ohc = Some (EFI_SUCCESS, Ohc)"
| "OhciInitTable sv (Index # rest) Ohc =
    do {
      (NewEd, Ohc) \<leftarrow> OhciCreateED sv Ohc;
      if NewEd = 0 then Some (EFI_OUT_OF_RESOURCES, Ohc)
      else OhciInitTable sv rest
             (Ohc\<lparr>HccaInterruptTable := (HccaInterruptTable Ohc)[Index := word_of_nat NewEd]\<rparr>)
    }"

text \<open>
  The inner loop of a level. The test after \<open>OhciCreateED\<close> is on \<open>HccaInterruptTable[Index]\<close>, as in
  the code, and not on the new descriptor.
\<close>

fun OhciInitLevel ::
  "'w dma_services \<Rightarrow> nat \<Rightarrow> nat list \<Rightarrow> 'w USB_OHCI_HC_DEV \<Rightarrow> (EFI_STATUS \<times> 'w USB_OHCI_HC_DEV) option" where
  "OhciInitLevel sv Level [] Ohc = Some (EFI_SUCCESS, Ohc)"
| "OhciInitLevel sv Level (Index # rest) Ohc =
    do {
      (NewEd, Ohc) \<leftarrow> OhciCreateED sv Ohc;
      let Ohc = Ohc\<lparr>IntervalList := (IntervalList Ohc)[Level := (IntervalList Ohc ! Level)[Index := NewEd]]\<rparr>;
      if HccaInterruptTable Ohc ! Index = 0 then Some (EFI_OUT_OF_RESOURCES, Ohc) else
      do {
        eds \<leftarrow> set_NextED (IntervalList Ohc ! (Level - 1) ! (Index * 2)) (word_of_nat NewEd) (Eds Ohc);
        eds \<leftarrow> set_NextED (IntervalList Ohc ! (Level - 1) ! (Index * 2 + 1)) (word_of_nat NewEd) eds;
        OhciInitLevel sv Level rest (Ohc\<lparr>Eds := eds\<rparr>)
      }
    }"

fun OhciInitLevels ::
  "'w dma_services \<Rightarrow> (nat \<times> nat) list \<Rightarrow> 'w USB_OHCI_HC_DEV \<Rightarrow> (EFI_STATUS \<times> 'w USB_OHCI_HC_DEV) option" where
  "OhciInitLevels sv [] Ohc = Some (EFI_SUCCESS, Ohc)"
| "OhciInitLevels sv ((Level, Count) # rest) Ohc =
    do {
      (Status, Ohc) \<leftarrow> OhciInitLevel sv Level [0..<Count] Ohc;
      if Status \<noteq> EFI_SUCCESS then Some (Status, Ohc) else OhciInitLevels sv rest Ohc
    }"

definition OhciInitializeInterruptList ::
  "'w dma_services \<Rightarrow> 'w USB_OHCI_HC_DEV \<Rightarrow> (EFI_STATUS \<times> 'w USB_OHCI_HC_DEV) option" where
  "OhciInitializeInterruptList sv Ohc =
    do {
      (Status, Ohc) \<leftarrow> OhciInitTable sv [0..<32] Ohc;
      if Status \<noteq> EFI_SUCCESS then Some (Status, Ohc) else
      let row0 = map (\<lambda>i. unat (HccaInterruptTable Ohc ! (Leaf ! i))) [0..<32] in
      OhciInitLevels sv [(1, 16), (2, 8), (3, 4), (4, 2), (5, 1)]
        (Ohc\<lparr>IntervalList := (IntervalList Ohc)[0 := row0]\<rparr>)
    }"

definition OhciAttachED ::
  "nat \<Rightarrow> nat \<Rightarrow> (nat \<rightharpoonup> ED_DESCRIPTOR) \<Rightarrow> (EFI_STATUS \<times> (nat \<rightharpoonup> ED_DESCRIPTOR)) option" where
  "OhciAttachED Ed NewEd eds =
    (if Ed = 0 then Some (EFI_INVALID_PARAMETER, eds) else
     do {
       ed \<leftarrow> eds Ed;
       if NextED ed = 0 then map_option (Pair EFI_SUCCESS) (set_NextED Ed (word_of_nat NewEd) eds)
       else do {
         let Temp = NextED ed;
         eds \<leftarrow> set_NextED Ed (word_of_nat NewEd) eds;
         map_option (Pair EFI_SUCCESS) (set_NextED NewEd Temp eds)
       }
     })"

partial_function (option) CountEdNum :: "(nat \<rightharpoonup> ED_DESCRIPTOR) \<Rightarrow> nat \<Rightarrow> nat \<Rightarrow> nat option" where
  "CountEdNum eds Ed Count =
    (if Ed = 0 then Some Count else
     do { ed \<leftarrow> eds Ed; CountEdNum eds (unat (NextED ed)) (Count + 1) })"

fun OhciFindMin ::
  "(nat \<rightharpoonup> ED_DESCRIPTOR) \<Rightarrow> nat list \<Rightarrow> nat \<Rightarrow> nat \<Rightarrow> nat option" where
  "OhciFindMin eds [] MinEdNum TempEd = Some TempEd"
| "OhciFindMin eds (HeadEd # rest) MinEdNum TempEd =
    do {
      EdNum \<leftarrow> CountEdNum eds HeadEd 0;
      if EdNum < MinEdNum then OhciFindMin eds rest EdNum HeadEd
      else OhciFindMin eds rest MinEdNum TempEd
    }"

definition OhciFindMinInterruptEDList :: "'w USB_OHCI_HC_DEV \<Rightarrow> nat \<Rightarrow> nat option" where
  "OhciFindMinInterruptEDList Ohc Depth =
    (if Depth > 5 then Some 0 else
     do {
       TempEd \<leftarrow> OhciFindMin (Eds Ohc) (map (\<lambda>i. IntervalList Ohc ! Depth ! i) [0..<32 div 2 ^ Depth])
                   0xFFFFFFFF 0;
       if TempEd = 0 then None else Some TempEd
     })"

text \<open>
  For the control and bulk lists the head is a register of the controller; the result is the head.
\<close>

definition OhciAttachToRegister ::
  "'w mmio \<Rightarrow> 'w USB_OHCI_HC_DEV \<Rightarrow> u32 \<Rightarrow> nat \<Rightarrow> (nat \<times> 'w USB_OHCI_HC_DEV) option" where
  "OhciAttachToRegister io Ohc Reg NewEd =
    (let (HeadEd, w) = OhciGetMemoryPointer io (UsbHcBaseAddress Ohc) Reg (World Ohc) in
     if HeadEd = 0 then
       do {
         (_, w) \<leftarrow> OhciSetMemoryPointer io (UsbHcBaseAddress Ohc) Reg NewEd w;
         Some (NewEd, Ohc\<lparr>World := w\<rparr>)
       }
     else
       do {
         (_, eds) \<leftarrow> OhciAttachED HeadEd NewEd (Eds Ohc);
         Some (HeadEd, Ohc\<lparr>World := w, Eds := eds\<rparr>)
       })"

definition OhciAttachEDToList ::
  "'w mmio \<Rightarrow> 'w USB_OHCI_HC_DEV \<Rightarrow> DESCRIPTOR_LIST_TYPE \<Rightarrow> nat \<Rightarrow> nat
    \<Rightarrow> (nat \<times> 'w USB_OHCI_HC_DEV) option" where
  "OhciAttachEDToList io Ohc ListType NewEd EdList =
    (case ListType of
       CONTROL_LIST \<Rightarrow> OhciAttachToRegister io Ohc HC_CONTROL_HEAD NewEd
     | BULK_LIST \<Rightarrow> OhciAttachToRegister io Ohc HC_BULK_HEAD NewEd
     | INTERRUPT_LIST \<Rightarrow>
         do {
           (_, eds) \<leftarrow> OhciAttachED EdList NewEd (Eds Ohc);
           Some (0, Ohc\<lparr>Eds := eds\<rparr>)
         }
     | ISOCHRONOUS_LIST \<Rightarrow> None)"

text \<open>
  The inner loops of the two removal routines: \<open>hit\<close> is the test on the address and the contents of
  the next descriptor. \<open>OhciFreeInterruptEdByEd\<close> compares addresses as 32-bit values and reads the
  next descriptor only when it unlinks it; \<open>OhciFreeInterruptEdByAddr\<close> always reads it.
\<close>

partial_function (option) OhciUnlinkByEd ::
  "'w dma_services \<Rightarrow> nat \<Rightarrow> nat \<Rightarrow> 'w USB_OHCI_HC_DEV \<Rightarrow> 'w USB_OHCI_HC_DEV option" where
  "OhciUnlinkByEd sv IntEd Ed Ohc =
    do {
      ed \<leftarrow> Eds Ohc Ed;
      if NextED ed = 0 then Some Ohc
      else if NextED ed = word_of_nat IntEd then
        do {
          let TempEd = unat (NextED ed);
          temp \<leftarrow> Eds Ohc TempEd;
          (_, Ohc) \<leftarrow> OhciFreeED sv (Ohc\<lparr>Eds := (Eds Ohc)(Ed \<mapsto> ed\<lparr>NextED := NextED temp\<rparr>)\<rparr>) TempEd;
          OhciUnlinkByEd sv IntEd Ed Ohc
        }
      else OhciUnlinkByEd sv IntEd (unat (NextED ed)) Ohc
    }"

partial_function (option) OhciUnlinkByAddr ::
  "'w dma_services \<Rightarrow> u8 \<Rightarrow> u8 \<Rightarrow> nat \<Rightarrow> 'w USB_OHCI_HC_DEV \<Rightarrow> 'w USB_OHCI_HC_DEV option" where
  "OhciUnlinkByAddr sv Addr EndPt Ed Ohc =
    do {
      ed \<leftarrow> Eds Ohc Ed;
      if NextED ed = 0 then Some Ohc else
      do {
        let TempEd = unat (NextED ed);
        temp \<leftarrow> Eds Ohc TempEd;
        if FunctionAddress temp = ucast Addr \<and> EndPointNum temp = ucast EndPt then
          do {
            (_, Ohc) \<leftarrow> OhciFreeED sv (Ohc\<lparr>Eds := (Eds Ohc)(Ed \<mapsto> ed\<lparr>NextED := NextED temp\<rparr>)\<rparr>) TempEd;
            OhciUnlinkByAddr sv Addr EndPt Ed Ohc
          }
        else OhciUnlinkByAddr sv Addr EndPt TempEd Ohc
      }
    }"

fun for_heads :: "(nat \<Rightarrow> 's \<Rightarrow> 's option) \<Rightarrow> u32 list \<Rightarrow> 's \<Rightarrow> 's option" where
  "for_heads f [] s = Some s"
| "for_heads f (h # hs) s = (if h = 0 then for_heads f hs s else do { s \<leftarrow> f (unat h) s; for_heads f hs s })"

definition OhciFreeInterruptEdByEd ::
  "'w dma_services \<Rightarrow> 'w USB_OHCI_HC_DEV \<Rightarrow> nat \<Rightarrow> (EFI_STATUS \<times> 'w USB_OHCI_HC_DEV) option" where
  "OhciFreeInterruptEdByEd sv Ohc IntEd =
    (if IntEd = 0 then Some (EFI_SUCCESS, Ohc)
     else map_option (Pair EFI_SUCCESS)
       (for_heads (OhciUnlinkByEd sv IntEd) (take 32 (HccaInterruptTable Ohc)) Ohc))"

definition OhciFreeInterruptEdByAddr ::
  "'w dma_services \<Rightarrow> 'w USB_OHCI_HC_DEV \<Rightarrow> u8 \<Rightarrow> u8 \<Rightarrow> (EFI_STATUS \<times> 'w USB_OHCI_HC_DEV) option" where
  "OhciFreeInterruptEdByAddr sv Ohc Addr EndPt =
    map_option (Pair EFI_SUCCESS)
      (for_heads (OhciUnlinkByAddr sv Addr EndPt) (take 32 (HccaInterruptTable Ohc)) Ohc)"

section \<open>Transfer lists\<close>

text \<open>The last descriptor of a \<open>NextTD\<close> list.\<close>

partial_function (option) OhciLastTD :: "(nat \<rightharpoonup> TD_DESCRIPTOR) \<Rightarrow> nat \<Rightarrow> nat option" where
  "OhciLastTD tds TempTd =
    do { td \<leftarrow> tds TempTd; if NextTD td = 0 then Some TempTd else OhciLastTD tds (unat (NextTD td)) }"

definition OhciAppendTD ::
  "(nat \<rightharpoonup> TD_DESCRIPTOR) \<Rightarrow> nat \<Rightarrow> nat \<Rightarrow> (nat \<rightharpoonup> TD_DESCRIPTOR) option" where
  "OhciAppendTD tds Td1 Td2 =
    do {
      last \<leftarrow> OhciLastTD tds Td1;
      td \<leftarrow> tds last;
      Some (tds(last \<mapsto> td\<lparr>NextTD := word_of_nat Td2, NextTDPointer := word_of_nat Td2\<rparr>))
    }"

definition OhciLinkTD ::
  "(nat \<rightharpoonup> TD_DESCRIPTOR) \<Rightarrow> nat \<Rightarrow> nat \<Rightarrow> (EFI_STATUS \<times> (nat \<rightharpoonup> TD_DESCRIPTOR)) option" where
  "OhciLinkTD tds Td1 Td2 =
    (if Td1 = 0 then Some (EFI_INVALID_PARAMETER, tds)
     else if Td1 = Td2 then Some (EFI_SUCCESS, tds)
     else map_option (Pair EFI_SUCCESS) (OhciAppendTD tds Td1 Td2))"

definition OhciAttachTDListToED ::
  "nat \<Rightarrow> nat \<Rightarrow> 'w USB_OHCI_HC_DEV \<Rightarrow> (EFI_STATUS \<times> 'w USB_OHCI_HC_DEV) option" where
  "OhciAttachTDListToED Ed HeadTd Ohc =
    do {
      ed \<leftarrow> Eds Ohc Ed;
      let TempTd = TD_PTR (TdHeadPointer ed);
      if TempTd \<noteq> 0 then
        do {
          tds \<leftarrow> OhciAppendTD (Tds Ohc) TempTd HeadTd;
          Some (EFI_SUCCESS, Ohc\<lparr>Tds := tds\<rparr>)
        }
      else Some (EFI_SUCCESS,
             Ohc\<lparr>Eds := (Eds Ohc)(Ed \<mapsto> set_TdHeadPointer (RIGHT_SHIFT_4 (word_of_nat HeadTd)) ed)\<rparr>)
    }"

section \<open>Fields of descriptors\<close>

abbreviation (input) ED_FUNC_ADD :: u32 where "ED_FUNC_ADD \<equiv> 0x0001"
abbreviation (input) ED_ENDPT_NUM :: u32 where "ED_ENDPT_NUM \<equiv> 0x0002"
abbreviation (input) ED_DIR :: u32 where "ED_DIR \<equiv> 0x0004"
abbreviation (input) ED_SPEED :: u32 where "ED_SPEED \<equiv> 0x0008"
abbreviation (input) ED_SKIP :: u32 where "ED_SKIP \<equiv> 0x0010"
abbreviation (input) ED_FORMAT :: u32 where "ED_FORMAT \<equiv> 0x0020"
abbreviation (input) ED_MAX_PACKET :: u32 where "ED_MAX_PACKET \<equiv> 0x0040"
abbreviation (input) ED_TDTAIL_PTR :: u32 where "ED_TDTAIL_PTR \<equiv> 0x0080"
abbreviation (input) ED_HALTED :: u32 where "ED_HALTED \<equiv> 0x0100"
abbreviation (input) ED_DTTOGGLE :: u32 where "ED_DTTOGGLE \<equiv> 0x0200"
abbreviation (input) ED_TDHEAD_PTR :: u32 where "ED_TDHEAD_PTR \<equiv> 0x0400"
abbreviation (input) ED_NEXT_EDPTR :: u32 where "ED_NEXT_EDPTR \<equiv> 0x0800"
abbreviation (input) ED_PDATA :: u32 where "ED_PDATA \<equiv> 0x1000"
abbreviation (input) ED_ZERO :: u32 where "ED_ZERO \<equiv> 0x2000"
abbreviation (input) TD_BUFFER_ROUND :: u32 where "TD_BUFFER_ROUND \<equiv> 0x0001"
abbreviation (input) TD_DIR_PID :: u32 where "TD_DIR_PID \<equiv> 0x0002"
abbreviation (input) TD_DELAY_INT :: u32 where "TD_DELAY_INT \<equiv> 0x0004"
abbreviation (input) TD_DT_TOGGLE :: u32 where "TD_DT_TOGGLE \<equiv> 0x0008"
abbreviation (input) TD_ERROR_CNT :: u32 where "TD_ERROR_CNT \<equiv> 0x0010"
abbreviation (input) TD_COND_CODE :: u32 where "TD_COND_CODE \<equiv> 0x0020"
abbreviation (input) TD_CURR_BUFFER_PTR :: u32 where "TD_CURR_BUFFER_PTR \<equiv> 0x0040"
abbreviation (input) TD_NEXT_PTR :: u32 where "TD_NEXT_PTR \<equiv> 0x0080"
abbreviation (input) TD_BUFFER_END_PTR :: u32 where "TD_BUFFER_END_PTR \<equiv> 0x0100"
abbreviation (input) TD_PDATA :: u32 where "TD_PDATA \<equiv> 0x0200"

text \<open>
  The members that both a set and a get routine reach; \<open>ED_PDATA\<close>, \<open>ED_ZERO\<close> and \<open>TD_PDATA\<close> can be
  set only, and the data toggle and the pointers are set in their own way. No two members overlap, so
  the groups can be taken in turn.
\<close>

definition ED_DESCRIPTOR_WORD0 :: field_table where
  "ED_DESCRIPTOR_WORD0 =
    [(0x0001, 0, 7), (0x0002, 7, 4), (0x0004, 11, 2), (0x0008, 13, 1), (0x0010, 14, 1), (0x0020, 15, 1),
     (0x0040, 16, 11)]"

definition ED_DESCRIPTOR_WORD2 :: field_table where
  "ED_DESCRIPTOR_WORD2 = [(0x0100, 0, 1), (0x0200, 1, 1)]"

definition TD_DESCRIPTOR_WORD0 :: field_table where
  "TD_DESCRIPTOR_WORD0 =
    [(0x0001, 18, 1), (0x0002, 19, 2), (0x0004, 21, 3), (0x0010, 26, 2), (0x0020, 28, 4)]"

definition OhciSetEDField :: "ED_DESCRIPTOR \<Rightarrow> u32 \<Rightarrow> u32 \<Rightarrow> ED_DESCRIPTOR" where
  "OhciSetEDField ed Fld Value =
    (let w0 = set_fields (ucast Fld) Value (ED_DESCRIPTOR_WORD0 @ [(0x1000, 27, 5)]) (EdWord0 ed);
         w2 = set_fields (ucast Fld) Value ((0x2000, 2, 2) # ED_DESCRIPTOR_WORD2) (EdWord2 ed) in
     ed\<lparr>EdWord0 := w0,
        TdTailPointer := (if Fld AND ED_TDTAIL_PTR \<noteq> 0 then Value else TdTailPointer ed),
        EdWord2 := (if Fld AND ED_TDHEAD_PTR \<noteq> 0 then bf_set 4 28 (RIGHT_SHIFT_4 Value) w2 else w2),
        NextED := (if Fld AND ED_NEXT_EDPTR \<noteq> 0 then Value else NextED ed)\<rparr>)"

definition OhciGetEDField :: "ED_DESCRIPTOR \<Rightarrow> u32 \<Rightarrow> u32 option" where
  "OhciGetEDField ed Fld =
    (if Fld = ED_TDTAIL_PTR then Some (TdTailPointer ed)
     else if Fld = ED_TDHEAD_PTR then Some (push_bit 4 (TdHeadPointer ed))
     else if Fld = ED_NEXT_EDPTR then Some (NextED ed)
     else case get_field (ucast Fld) ED_DESCRIPTOR_WORD0 (EdWord0 ed) of
            Some v \<Rightarrow> Some v
          | None \<Rightarrow> get_field (ucast Fld) ED_DESCRIPTOR_WORD2 (EdWord2 ed))"

text \<open>The data toggle is set with \<open>Value | 0x2\<close>: the toggle then comes from the descriptor.\<close>

definition OhciSetTDField :: "TD_DESCRIPTOR \<Rightarrow> u32 \<Rightarrow> u32 \<Rightarrow> TD_DESCRIPTOR" where
  "OhciSetTDField td Fld Value =
    (let w0 = set_fields (ucast Fld) Value ((0x0200, 0, 18) # TD_DESCRIPTOR_WORD0) (TdWord0 td) in
     td\<lparr>TdWord0 := (if Fld AND TD_DT_TOGGLE \<noteq> 0 then bf_set 24 2 (Value OR 2) w0 else w0),
        CurrBufferPointer := (if Fld AND TD_CURR_BUFFER_PTR \<noteq> 0 then Value else CurrBufferPointer td),
        NextTD := (if Fld AND TD_NEXT_PTR \<noteq> 0 then Value else NextTD td),
        BufferEndPointer := (if Fld AND TD_BUFFER_END_PTR \<noteq> 0 then Value else BufferEndPointer td)\<rparr>)"

definition OhciGetTDField :: "TD_DESCRIPTOR \<Rightarrow> u32 \<Rightarrow> u32 option" where
  "OhciGetTDField td Fld =
    (if Fld = TD_CURR_BUFFER_PTR then Some (CurrBufferPointer td)
     else if Fld = TD_NEXT_PTR then Some (NextTD td)
     else if Fld = TD_BUFFER_END_PTR then Some (BufferEndPointer td)
     else if Fld = TD_DT_TOGGLE then Some (DataToggle td)
     else get_field (ucast Fld) TD_DESCRIPTOR_WORD0 (TdWord0 td))"

section \<open>Chains of descriptors\<close>

abbreviation ed_chain :: "(nat \<rightharpoonup> ED_DESCRIPTOR) \<Rightarrow> nat \<Rightarrow> nat list \<Rightarrow> nat \<Rightarrow> bool" where
  "ed_chain \<equiv> chain (\<lambda>ed. unat (NextED ed))"

abbreviation td_chain :: "(nat \<rightharpoonup> TD_DESCRIPTOR) \<Rightarrow> nat \<Rightarrow> nat list \<Rightarrow> nat \<Rightarrow> bool" where
  "td_chain \<equiv> chain (\<lambda>td. unat (NextTD td))"

abbreviation tdp_chain :: "(nat \<rightharpoonup> TD_DESCRIPTOR) \<Rightarrow> nat \<Rightarrow> nat list \<Rightarrow> nat \<Rightarrow> bool" where
  "tdp_chain \<equiv> chain (\<lambda>td. unat (NextTDPointer td))"

lemma unat_word_of_nat32 [simp]: "p < 2 ^ 32 \<Longrightarrow> unat (word_of_nat p :: u32) = p"
  by (simp add: unsigned_of_nat take_bit_nat_eq_self)

lemma count_eds:
  "ed_chain eds p xs 0 \<Longrightarrow> CountEdNum eds p n = Some (n + length xs)"
proof (induction xs arbitrary: p n)
  case Nil
  then show ?case by (simp add: CountEdNum.simps)
next
  case (Cons x xs)
  then obtain ed where "p = x" "x \<noteq> 0" "eds x = Some ed" "ed_chain eds (unat (NextED ed)) xs 0"
    by (auto split: option.splits)
  then show ?case using Cons.IH by (subst CountEdNum.simps) simp
qed

definition ed_works :: "u8 \<Rightarrow> u8 \<Rightarrow> u8 \<Rightarrow> ED_DESCRIPTOR \<Rightarrow> bool" where
  "ed_works Addr EndPt EdDir ed \<longleftrightarrow> Halted ed = 0 \<and> Skip ed = 0 \<and> FunctionAddress ed = ucast Addr
     \<and> EndPointNum ed = ucast EndPt \<and> Direction ed = ucast EdDir"

lemma find_working:
  "ed_chain eds p xs 0 \<Longrightarrow> OhciFindWorkingEd eds p Addr EndPt EdDir =
    Some (case find (\<lambda>x. ed_works Addr EndPt EdDir (the (eds x))) xs of None \<Rightarrow> 0 | Some x \<Rightarrow> x)"
proof (induction xs arbitrary: p)
  case Nil
  then show ?case by (simp add: OhciFindWorkingEd.simps)
next
  case (Cons x xs)
  then obtain ed where "p = x" "x \<noteq> 0" "eds x = Some ed" "ed_chain eds (unat (NextED ed)) xs 0"
    by (auto split: option.splits)
  then show ?case using Cons.IH by (subst OhciFindWorkingEd.simps) (simp add: ed_works_def)
qed

lemma find_min:
  assumes "\<forall>h \<in> set hs. \<exists>xs. ed_chain eds h xs 0 \<and> len h = length xs"
  shows "\<exists>r. OhciFindMin eds hs m t = Some r \<and>
    (if \<exists>h \<in> set hs. len h < m then r \<in> set hs \<and> len r < m \<and> (\<forall>h \<in> set hs. len r \<le> len h) else r = t)"
  using assms
proof (induction hs arbitrary: m t)
  case Nil
  then show ?case by simp
next
  case (Cons h hs)
  then obtain xs where "ed_chain eds h xs 0" "len h = length xs" by auto
  then have c: "CountEdNum eds h 0 = Some (len h)" using count_eds by fastforce
  obtain r where r: "OhciFindMin eds hs (if len h < m then len h else m) (if len h < m then h else t) = Some r"
    "if \<exists>g \<in> set hs. len g < (if len h < m then len h else m)
     then r \<in> set hs \<and> len r < (if len h < m then len h else m) \<and> (\<forall>g \<in> set hs. len r \<le> len g)
     else r = (if len h < m then h else t)"
    using Cons.IH[of "if len h < m then len h else m" "if len h < m then h else t"] Cons.prems by auto
  then show ?case
    by (intro exI[of _ r]) (auto simp: c split: if_splits intro: order.strict_trans)
qed

lemma find_min_list:
  assumes "Depth \<le> 5" "\<forall>i < 32 div 2 ^ Depth. IntervalList Ohc ! Depth ! i \<noteq> 0
      \<and> ed_chain (Eds Ohc) (IntervalList Ohc ! Depth ! i) (lst i) 0 \<and> length (lst i) < 0xFFFFFFFF"
  shows "\<exists>i < 32 div 2 ^ Depth. OhciFindMinInterruptEDList Ohc Depth = Some (IntervalList Ohc ! Depth ! i)
    \<and> (\<forall>j < 32 div 2 ^ Depth. length (lst i) \<le> length (lst j))"
proof -
  let ?n = "32 div 2 ^ Depth :: nat" and ?h = "\<lambda>i. IntervalList Ohc ! Depth ! i"
  let ?hs = "map ?h [0..<?n]"
  define len where "len h = length (THE xs. ed_chain (Eds Ohc) h xs 0)" for h
  have l: "len (?h i) = length (lst i)" if "i < ?n" for i
    using assms(2) that chain_unique by (fastforce simp: len_def intro!: arg_cong[where f = length] the_equality)
  have "2 ^ Depth \<le> (2 :: nat) ^ 5" using assms(1) by (intro power_increasing) auto
  then have pos: "0 < ?n" by (simp add: div_greater_zero_iff)
  have "\<forall>h \<in> set ?hs. \<exists>xs. ed_chain (Eds Ohc) h xs 0 \<and> len h = length xs"
    using assms(2) l by auto
  from find_min[OF this, of "0xFFFFFFFF" 0] obtain r where r: "OhciFindMin (Eds Ohc) ?hs 0xFFFFFFFF 0 = Some r"
    and m: "if \<exists>h \<in> set ?hs. len h < 0xFFFFFFFF then r \<in> set ?hs \<and> len r < 0xFFFFFFFF \<and> (\<forall>h \<in> set ?hs. len r \<le> len h) else r = 0"
    by blast
  have "\<exists>h \<in> set ?hs. len h < 0xFFFFFFFF" using pos l assms(2) by (intro bexI[of _ "?h 0"]) auto
  then obtain i where i: "i < ?n" "r = ?h i" "\<forall>h \<in> set ?hs. len r \<le> len h" using m by auto
  then have "\<forall>j < ?n. length (lst i) \<le> length (lst j)" using l by auto
  moreover have "OhciFindMinInterruptEDList Ohc Depth = Some (?h i)"
    using r i assms by (simp add: OhciFindMinInterruptEDList_def)
  ultimately show ?thesis using i(1) by blast
qed

lemma last_td:
  "td_chain tds p (xs @ [y]) 0 \<Longrightarrow> OhciLastTD tds p = Some y"
proof (induction xs arbitrary: p)
  case Nil
  then obtain td where "p = y" "tds y = Some td" "NextTD td = 0"
    by (auto split: option.splits simp: unat_eq_0)
  then show ?case by (subst OhciLastTD.simps) simp
next
  case (Cons x xs)
  then obtain td where td: "p = x" "tds x = Some td" "td_chain tds (unat (NextTD td)) (xs @ [y]) 0"
    by (auto split: option.splits)
  moreover have "NextTD td \<noteq> 0" using td(3) by (auto simp: chain_end)
  ultimately show ?case using Cons.IH by (subst OhciLastTD.simps) simp
qed

lemma append_td:
  assumes "td_chain tds p xs 0" "xs \<noteq> []" "td_chain tds r ys 0" "set xs \<inter> set ys = {}" "r < 2 ^ 32"
  shows "\<exists>td. tds (last xs) = Some td \<and> OhciAppendTD tds p r =
      Some (tds(last xs \<mapsto> td\<lparr>NextTD := word_of_nat r, NextTDPointer := word_of_nat r\<rparr>))
    \<and> td_chain (tds(last xs \<mapsto> td\<lparr>NextTD := word_of_nat r, NextTDPointer := word_of_nat r\<rparr>)) p (xs @ ys) 0"
proof -
  obtain as a where as: "xs = as @ [a]" using assms(2) by (cases xs rule: rev_cases) auto
  obtain td where td: "tds a = Some td" using chain_last[OF assms(1,2)] as by auto
  have "OhciLastTD tds p = Some a" using last_td assms(1) as by blast
  then show ?thesis
    using td as chain_link[OF assms(1-4), of "td\<lparr>NextTD := word_of_nat r, NextTDPointer := word_of_nat r\<rparr>"] assms(5)
    by (auto simp: OhciAppendTD_def)
qed

section \<open>Release of transfer descriptors\<close>

abbreviation dev_ok where
  "dev_ok sv inuse pooled I P Ohc \<equiv> pool_ok sv inuse pooled I P (MemPool Ohc) (World Ohc)"

abbreviation dev_owned where
  "dev_owned out Ohc \<equiv> owned size_ok pool_held footprint out (MemPool Ohc)"

abbreviation td_region :: "nat \<Rightarrow> nat \<times> u64" where
  "td_region p \<equiv> (p, sizeof_TD)"

lemma held_nonzero: "pool_ok sv inuse pooled I P p w \<Longrightarrow> pool_held p m sz \<Longrightarrow> m \<noteq> 0"
  by (auto simp: pool_ok_def blocks_wf_def block_wf_def pool_held_def block_holds_def)

text \<open>Freeing a list of regions, with what it does to the two stores.\<close>

lemma free_tds:
  assumes "dev_ok sv inuse pooled I P Ohc" "tdp_chain (Tds Ohc) p xs q"
    and "dev_owned (map td_region xs @ out) Ohc"
  shows "\<exists>pool w. OhciFreeTDs sv q p Ohc = Some (Ohc\<lparr>MemPool := pool, World := w, Tds := Tds Ohc |` (- set xs)\<rparr>)
    \<and> pool_ok sv inuse pooled I P pool w \<and> owned size_ok pool_held footprint out pool
    \<and> pool_live pool = pool_live (MemPool Ohc) - feet footprint (map td_region xs)"
  using assms
proof (induction xs arbitrary: p Ohc)
  case Nil
  then show ?case by (intro exI[of _ "MemPool Ohc"] exI[of _ "World Ohc"]) (simp add: OhciFreeTDs.simps)
next
  case (Cons x xs)
  obtain td where td: "p = x" "x \<noteq> q" "Tds Ohc x = Some td" "tdp_chain (Tds Ohc) (unat (NextTDPointer td)) xs q"
    using Cons.prems(2) by (auto split: option.splits)
  have d: "x \<notin> set xs" using chain_distinct[OF Cons.prems(2)] by simp
  obtain pool w where f: "UsbHcFreeMem sv (MemPool Ohc) x sizeof_TD (World Ohc) = Some (pool, w)"
    "pool_ok sv inuse pooled I P pool w" "owned size_ok pool_held footprint (map td_region xs @ out) pool"
    "pool_live pool = pool_live (MemPool Ohc) - footprint x sizeof_TD"
    using pool.free_owned[OF Cons.prems(1), of "[]" x sizeof_TD "map td_region xs @ out"] Cons.prems(3)
    by auto
  let ?O = "Ohc\<lparr>MemPool := pool, World := w, Tds := (Tds Ohc)(x := None)\<rparr>"
  have x0: "x \<noteq> 0" using held_nonzero[OF Cons.prems(1), of x sizeof_TD] Cons.prems(3) by simp
  have "OhciFreeTD sv Ohc x = Some (EFI_SUCCESS, ?O)" using f(1) x0 by (simp add: OhciFreeTD_def)
  then have step: "OhciFreeTDs sv q p Ohc = OhciFreeTDs sv q (unat (NextTDPointer td)) ?O"
    using td by (subst OhciFreeTDs.simps) simp
  have r: "(\<lambda>a. if a = x then None else Tds Ohc a) |` (- set xs) = Tds Ohc |` (- insert x (set xs))"
    by (auto simp: restrict_map_def)
  have "tdp_chain (Tds ?O) (unat (NextTDPointer td)) xs q" using td(4) d by (simp add: chain_frame)
  from Cons.IH[of ?O, OF _ this] f show ?case
    unfolding step by (simp add: r Diff_eq Int_assoc) 
qed

section \<open>Pointers in 28 bits\<close>

lemma TD_PTR_shift:
  assumes "p < 2 ^ 32" "16 dvd p"
  shows "TD_PTR (RIGHT_SHIFT_4 (word_of_nat p)) = p \<longleftrightarrow> p < 2 ^ 31"
proof -
  have u: "unat (word_of_nat p :: u32) = p" using assms by (simp add: unsigned_of_nat take_bit_nat_eq_self)
  have "push_bit 4 (drop_bit 4 (word_of_nat p :: u32)) = word_of_nat p"
    using assms(2) u by (intro push_drop_id) simp
  then have "TD_PTR (RIGHT_SHIFT_4 (word_of_nat p)) = unat (scast (word_of_nat p :: u32) :: u64)"
    by (simp add: TD_PTR_def RIGHT_SHIFT_4_def)
  then show ?thesis
    using scast_low[of "word_of_nat p"] scast_high[of "word_of_nat p"] u assms(1) by (cases "p < 2 ^ 31") auto
qed

section \<open>Insertion and removal in endpoint lists\<close>

lemma attach_ed:
  assumes c: "ed_chain eds p (xs @ h # ys) 0" and n: "eds n = Some new" "NextED new = 0" "n \<notin> set (xs @ h # ys)"
    "n \<noteq> 0" "n < 2 ^ 32"
  shows "\<exists>eds'. OhciAttachED h n eds = Some (EFI_SUCCESS, eds') \<and> ed_chain eds' p (xs @ h # n # ys) 0"
proof -
  obtain ed where ed: "eds h = Some ed" "h \<noteq> 0" "ed_chain eds (unat (NextED ed)) ys 0"
    using chain_suffix[OF c] by (auto split: option.splits)
  let ?ed = "ed\<lparr>NextED := word_of_nat n\<rparr>"
  have hn: "h \<noteq> n" using n(3) by auto
  have r: "chain (\<lambda>ed. unat (NextED ed)) (eds(h \<mapsto> ?ed, n \<mapsto> new\<lparr>NextED := NextED ed\<rparr>)) p (xs @ h # n # ys) 0"
    by (rule chain_insert[OF c _ _ ed(3)]) (use n in auto)
  show ?thesis
  proof (cases "NextED ed = 0")
    case True
    then have "new\<lparr>NextED := NextED ed\<rparr> = new" using n(2) by simp
    then have "eds(h \<mapsto> ?ed, n \<mapsto> new\<lparr>NextED := NextED ed\<rparr>) = eds(h \<mapsto> ?ed)" using n(1) hn by auto
    then show ?thesis using r True ed by (simp add: OhciAttachED_def set_NextED_def)
  next
    case False
    then show ?thesis using r ed n(1) hn by (simp add: OhciAttachED_def set_NextED_def)
  qed
qed

lemma unlink_absent:
  assumes "ed_chain (Eds Ohc) h (h # xs) 0" "IntEd \<notin> set xs" "IntEd < 2 ^ 32"
  shows "OhciUnlinkByEd sv IntEd h Ohc = Some Ohc"
  using assms
proof (induction xs arbitrary: h)
  case Nil
  then show ?case by (subst OhciUnlinkByEd.simps) (auto split: option.splits simp: unat_eq_0)
next
  case (Cons x xs)
  then obtain ed where ed: "Eds Ohc h = Some ed" "unat (NextED ed) = x" "x \<noteq> 0" "ed_chain (Eds Ohc) x (x # xs) 0"
    by (auto split: option.splits)
  have "NextED ed \<noteq> 0" "NextED ed \<noteq> word_of_nat IntEd"
    using ed Cons.prems(2,3) by auto
  moreover have "OhciUnlinkByEd sv IntEd x Ohc = Some Ohc"
    by (rule Cons.IH[OF ed(4)]) (use Cons.prems in auto)
  ultimately show ?case using ed by (subst OhciUnlinkByEd.simps) simp
qed

lemma unlink_walk:
  assumes "ed_chain (Eds Ohc) h (xs @ x # ys) 0" "IntEd \<notin> set (xs @ [x])" "IntEd < 2 ^ 32"
  shows "OhciUnlinkByEd sv IntEd h Ohc = OhciUnlinkByEd sv IntEd x Ohc"
  using assms
proof (induction xs arbitrary: h)
  case Nil
  then show ?case by simp
next
  case (Cons a xs)
  then obtain ed where ed: "h = a" "Eds Ohc a = Some ed" "ed_chain (Eds Ohc) (unat (NextED ed)) (xs @ x # ys) 0"
    by (auto split: option.splits)
  then have n: "unat (NextED ed) = hd (xs @ [x])" by (cases xs) auto
  have "NextED ed \<noteq> word_of_nat IntEd" "NextED ed \<noteq> 0"
    using n Cons.prems(2,3) ed(3) by (auto simp: chain_end) (cases xs; auto)+
  then show ?case using ed Cons.IH Cons.prems by (subst OhciUnlinkByEd.simps) simp
qed

text \<open>The state after the descriptor \<open>n\<close> behind \<open>x\<close> has been unlinked and freed.\<close>

definition unlinked ::
  "nat \<Rightarrow> nat \<Rightarrow> USBHC_MEM_POOL \<Rightarrow> 'w \<Rightarrow> 'w USB_OHCI_HC_DEV \<Rightarrow> 'w USB_OHCI_HC_DEV" where
  "unlinked x n pool w Ohc = Ohc\<lparr>MemPool := pool, World := w,
     Eds := (Eds Ohc)(x \<mapsto> the (Eds Ohc x)\<lparr>NextED := NextED (the (Eds Ohc n))\<rparr>, n := None)\<rparr>"

lemma unlinked_chain:
  assumes c: "ed_chain (Eds Ohc) p (xs @ x # n # ys) 0"
  shows "ed_chain (Eds (unlinked x n pool w Ohc)) p (xs @ x # ys) 0"
proof -
  have d: "distinct (xs @ x # n # ys)" by (rule chain_distinct[OF c])
  obtain nd where nd: "Eds Ohc n = Some nd" using chain_dom[OF c] by auto
  have "ed_chain ((Eds Ohc)(x \<mapsto> the (Eds Ohc x)\<lparr>NextED := NextED (the (Eds Ohc n))\<rparr>)) p (xs @ x # ys) 0"
    by (rule chain_remove[OF c nd]) (simp add: nd)
  then show ?thesis using d by (simp add: unlinked_def chain_frame)
qed

lemma unlink_present:
  assumes ok: "dev_ok sv inuse pooled I P Ohc" and c: "ed_chain (Eds Ohc) h (xs @ x # n # ys) 0"
    and own: "dev_owned ((n, sizeof_ED) # out) Ohc" and n: "n < 2 ^ 32"
  shows "\<exists>pool w. OhciUnlinkByEd sv n h Ohc = Some (unlinked x n pool w Ohc) \<and> pool_ok sv inuse pooled I P pool w
    \<and> owned size_ok pool_held footprint out pool
    \<and> pool_live pool = pool_live (MemPool Ohc) - footprint n sizeof_ED"
proof -
  have d: "distinct (xs @ x # n # ys)" by (rule chain_distinct[OF c])
  have n0: "n \<noteq> 0" using chain_no_end[OF c] by auto
  obtain ed nd where ed: "Eds Ohc x = Some ed" "unat (NextED ed) = n" and nd: "Eds Ohc n = Some nd"
    using chain_suffix[OF c] by (auto split: option.splits)
  obtain pool w where f: "UsbHcFreeMem sv (MemPool Ohc) n sizeof_ED (World Ohc) = Some (pool, w)"
    "pool_ok sv inuse pooled I P pool w" "owned size_ok pool_held footprint out pool"
    "pool_live pool = pool_live (MemPool Ohc) - footprint n sizeof_ED"
    using pool.free_owned[OF ok, of "[]" n sizeof_ED out] own by auto
  let ?O = "unlinked x n pool w Ohc"
  have "ed_chain (Eds ?O) h (xs @ x # ys) 0" by (rule unlinked_chain[OF c])
  then have "ed_chain (Eds ?O) x (x # ys) 0" by (rule chain_suffix)
  from unlink_absent[OF this _ n] d have rest: "OhciUnlinkByEd sv n x ?O = Some ?O" by auto
  have "NextED ed = word_of_nat n" using ed(2) by auto
  moreover have "NextED ed \<noteq> 0" using ed(2) n0 by auto
  ultimately have "OhciUnlinkByEd sv n x Ohc = OhciUnlinkByEd sv n x ?O"
    using ed nd f(1) n0 by (subst OhciUnlinkByEd.simps) (simp add: OhciFreeED_def unlinked_def)
  then show ?thesis
    using unlink_walk[OF c _ n] d rest f by (intro exI[of _ pool] exI[of _ w]) auto
qed

lemma unlinked_all:
  assumes c: "ed_chain (Eds Ohc) h (h # xs) 0" and hn: "h \<noteq> n"
    and x: "Eds Ohc x = Some ed" "unat (NextED ed) = n" "n \<noteq> 0"
    and one: "\<And>q e. Eds Ohc q = Some e \<Longrightarrow> unat (NextED e) = n \<Longrightarrow> q = x"
  shows "ed_chain (Eds (unlinked x n pool w Ohc)) h (h # removeAll n xs) 0"
proof (cases "n \<in> set xs")
  case True
  then obtain as bs where xs: "h # xs = as @ n # bs" "as \<noteq> []" "xs = tl as @ n # bs"
    using hn by (metis append_Cons list.sel(3) list.simps(3) split_list)
  then obtain cs y where as: "as = cs @ [y]" by (cases as rule: rev_cases) auto
  have "h # xs = cs @ y # n # bs" using xs(1) as by simp
  then have c': "ed_chain (Eds Ohc) h (cs @ y # n # bs) 0" using c by metis
  obtain e where "Eds Ohc y = Some e" "unat (NextED e) = n"
    using chain_suffix[OF c'] by (auto split: option.splits)
  then have "y = x" using one by blast
  have "distinct (h # xs)" by (rule chain_distinct[OF c])
  then have "removeAll n xs = tl as @ bs" using xs by auto
  moreover have "cs @ x # bs = h # (tl as @ bs)" using as xs \<open>y = x\<close> by (cases cs) auto
  ultimately show ?thesis using unlinked_chain[OF c'[unfolded \<open>y = x\<close>], of pool w] by (metis (no_types))
next
  case False
  have "x \<notin> set (h # xs)"
  proof
    assume "x \<in> set (h # xs)"
    then obtain as bs where "h # xs = as @ x # bs" by (metis split_list)
    then have "ed_chain (Eds Ohc) x (x # bs) 0" using chain_suffix c by metis
    then have "ed_chain (Eds Ohc) n bs 0" using x by simp
    then have "n \<in> set bs" using x(3) by (auto simp: chain_step)
    then show False using \<open>h # xs = as @ x # bs\<close> False hn by (metis UnCI list.set_intros(2) set_ConsD set_append)
  qed
  then show ?thesis using c False hn by (auto simp: unlinked_def chain_frame split: option.splits)
qed

lemma for_heads_id: "(\<And>h. h \<in> set hs \<Longrightarrow> h \<noteq> 0 \<Longrightarrow> f (unat h) s = Some s) \<Longrightarrow> for_heads f hs s = Some s"
  by (induction hs) auto

lemma for_heads_append:
  "for_heads f (xs @ ys) s = do { s \<leftarrow> for_heads f xs s; for_heads f ys s }"
  by (induction xs arbitrary: s) (auto split: Option.bind_splits)

lemma free_by_ed:
  assumes ok: "dev_ok sv inuse pooled I P Ohc" and own: "dev_owned ((n, sizeof_ED) # out) Ohc"
    and n: "n < 2 ^ 32" "n \<noteq> 0"
    and hs: "\<And>h. h \<in> set hs \<Longrightarrow> h \<noteq> 0 \<Longrightarrow> ed_chain (Eds Ohc) (unat h) (unat h # path h) 0 \<and> unat h \<noteq> n"
    and one: "\<And>q e q' e'. Eds Ohc q = Some e \<Longrightarrow> unat (NextED e) = n \<Longrightarrow> Eds Ohc q' = Some e' \<Longrightarrow>
      unat (NextED e') = n \<Longrightarrow> q = q'"
    and mem: "h0 \<in> set hs" "h0 \<noteq> 0" "n \<in> set (path h0)"
  shows "\<exists>Ohc'. for_heads (OhciUnlinkByEd sv n) hs Ohc = Some Ohc' \<and> dev_ok sv inuse pooled I P Ohc'
    \<and> dev_owned out Ohc' \<and> pool_live (MemPool Ohc') = pool_live (MemPool Ohc) - footprint n sizeof_ED
    \<and> Eds Ohc' n = None
    \<and> (\<forall>h \<in> set hs. h \<noteq> 0 \<longrightarrow> ed_chain (Eds Ohc') (unat h) (unat h # removeAll n (path h)) 0)"
proof -
  obtain hs1 h hs2 where split: "hs = hs1 @ h # hs2" "h \<noteq> 0" "n \<in> set (path h)"
    and pre: "\<forall>g \<in> set hs1. \<not> (g \<noteq> 0 \<and> n \<in> set (path g))"
    using split_list_first_prop[of hs "\<lambda>g. g \<noteq> 0 \<and> n \<in> set (path g)"] mem by blast
  have ch: "ed_chain (Eds Ohc) (unat h) (unat h # path h) 0" "unat h \<noteq> n" using hs[of h] split by auto
  obtain as bs where "path h = as @ n # bs" using split(3) by (meson split_list)
  then obtain cs x where cs: "unat h # path h = cs @ x # n # bs"
    by (cases as rule: rev_cases) (auto intro: that[of "[]"] that[of "unat h # _"])
  have c: "ed_chain (Eds Ohc) (unat h) (cs @ x # n # bs) 0" using ch(1) cs by metis
  obtain ed where ed: "Eds Ohc x = Some ed" "unat (NextED ed) = n"
    using chain_suffix[OF c] by (auto split: option.splits)
  obtain pool w where u: "OhciUnlinkByEd sv n (unat h) Ohc = Some (unlinked x n pool w Ohc)"
    "pool_ok sv inuse pooled I P pool w" "owned size_ok pool_held footprint out pool"
    "pool_live pool = pool_live (MemPool Ohc) - footprint n sizeof_ED"
    using unlink_present[OF ok c own n(1)] by blast
  let ?O = "unlinked x n pool w Ohc"
  have all: "ed_chain (Eds ?O) (unat g) (unat g # removeAll n (path g)) 0" if "g \<in> set hs" "g \<noteq> 0" for g
    by (rule unlinked_all[OF conjunct1[OF hs[OF that]] conjunct2[OF hs[OF that]] ed n(2) one[OF _ _ ed]])
  have "for_heads (OhciUnlinkByEd sv n) hs1 Ohc = Some Ohc"
    using pre hs split(1) n(1) by (intro for_heads_id unlink_absent) auto
  moreover have "for_heads (OhciUnlinkByEd sv n) hs2 ?O = Some ?O"
    using all split(1) n(1) by (intro for_heads_id unlink_absent[where xs = "removeAll n (path _)"]) auto
  ultimately have "for_heads (OhciUnlinkByEd sv n) hs Ohc = Some ?O"
    using u(1) split(1,2) by (simp add: for_heads_append)
  then show ?thesis using u all by (intro exI[of _ ?O]) (auto simp: unlinked_def)
qed

section \<open>Fields\<close>

interpretation ed_word0: members "ED_DESCRIPTOR_WORD0 @ [(0x1000, 27, 5)]"
  by unfold_locales (auto simp: ED_DESCRIPTOR_WORD0_def)
interpretation ed_word2: members "(0x2000, 2, 2) # ED_DESCRIPTOR_WORD2"
  by unfold_locales (auto simp: ED_DESCRIPTOR_WORD2_def)

lemma shift_4: "push_bit 4 (take_bit 28 (drop_bit 4 v)) = v AND NOT 0xF" for v :: u32
proof -
  have "take_bit 28 (drop_bit 4 v) = drop_bit 4 v"
    by (intro bit_word_eqI) (auto simp: bit_simps dest: bit_imp_le_length)
  then show ?thesis
    using AND_NOT_mask_eq[of v 4] by (simp add: mask_eq_exp_minus_1)
qed

lemma ed_get_word0:
  "(X, off, n) \<in> set ED_DESCRIPTOR_WORD0 \<Longrightarrow> OhciGetEDField ed (ucast X) = Some (bf_get off n (EdWord0 ed))"
  by (auto simp: ED_DESCRIPTOR_WORD0_def OhciGetEDField_def)

lemma ed_get_word2:
  "(X, off, n) \<in> set ED_DESCRIPTOR_WORD2 \<Longrightarrow> OhciGetEDField ed (ucast X) = Some (bf_get off n (EdWord2 ed))"
  by (auto simp: ED_DESCRIPTOR_WORD0_def ED_DESCRIPTOR_WORD2_def OhciGetEDField_def)

lemma ed_set_word0:
  "(X, off, n) \<in> set ED_DESCRIPTOR_WORD0 \<Longrightarrow> bf_get off n (EdWord0 (OhciSetEDField ed F v)) =
    (if ucast F AND X \<noteq> 0 then take_bit n v else bf_get off n (EdWord0 ed))"
  using ed_word0.set_member[of X off n "ucast F" v "EdWord0 ed"] by (simp add: OhciSetEDField_def Let_def)

lemma ed_set_word2:
  assumes m: "(X, off, n) \<in> set ED_DESCRIPTOR_WORD2"
  shows "bf_get off n (EdWord2 (OhciSetEDField ed F v)) =
    (if ucast F AND X \<noteq> 0 then take_bit n v else bf_get off n (EdWord2 ed))"
proof -
  let ?w = "set_fields (ucast F) v ((0x2000, 2, 2) # ED_DESCRIPTOR_WORD2) (EdWord2 ed)"
  have "off + n \<le> 4" using m by (auto simp: ED_DESCRIPTOR_WORD2_def)
  then have "bf_get off n (bf_set 4 28 u ?w) = bf_get off n ?w" for u by (intro bf_get_set_other) simp
  then show ?thesis
    using ed_word2.set_member[of X off n "ucast F" v "EdWord2 ed"] m
    by (simp add: OhciSetEDField_def Let_def del: set_fields.simps)
qed

lemma ed_set_head:
  "TdHeadPointer (OhciSetEDField ed F v) =
    (if F AND ED_TDHEAD_PTR \<noteq> 0 then take_bit 28 (RIGHT_SHIFT_4 v) else TdHeadPointer ed)"
proof -
  have "bf_get 4 28 (set_fields (ucast F) v ((0x2000, 2, 2) # ED_DESCRIPTOR_WORD2) (EdWord2 ed)) = bf_get 4 28 (EdWord2 ed)"
    by (rule ed_word2.set_apart) (simp add: ED_DESCRIPTOR_WORD2_def)
  then show ?thesis
    by (simp add: OhciSetEDField_def Let_def TdHeadPointer_def bf_get_set_same del: set_fields.simps)
qed

section \<open>Properties\<close>

text \<open>\<open>OhciSetEDField\<close> and \<open>OhciGetEDField\<close> agree on every field that can be read: a field that is
  selected reads back the value cut to its width, pointers to transfer descriptors lose their low
  four bits, and a field that is not selected is what it was.\<close>

lemma OhciEDField_set_get:
  "(\<forall>(X, off, n) \<in> set (ED_DESCRIPTOR_WORD0 @ ED_DESCRIPTOR_WORD2).
      OhciGetEDField (OhciSetEDField ed Fld Value) (ucast X) =
        (if ucast Fld AND X \<noteq> 0 then Some (take_bit n Value) else OhciGetEDField ed (ucast X)))
   \<and> OhciGetEDField (OhciSetEDField ed Fld Value) ED_TDHEAD_PTR =
        (if Fld AND ED_TDHEAD_PTR \<noteq> 0 then Some (Value AND NOT 0xF) else OhciGetEDField ed ED_TDHEAD_PTR)
   \<and> OhciGetEDField (OhciSetEDField ed Fld Value) ED_TDTAIL_PTR =
        (if Fld AND ED_TDTAIL_PTR \<noteq> 0 then Some Value else OhciGetEDField ed ED_TDTAIL_PTR)
   \<and> OhciGetEDField (OhciSetEDField ed Fld Value) ED_NEXT_EDPTR =
        (if Fld AND ED_NEXT_EDPTR \<noteq> 0 then Some Value else OhciGetEDField ed ED_NEXT_EDPTR)"
proof (intro conjI)
  show "\<forall>(X, off, n) \<in> set (ED_DESCRIPTOR_WORD0 @ ED_DESCRIPTOR_WORD2).
      OhciGetEDField (OhciSetEDField ed Fld Value) (ucast X) =
        (if ucast Fld AND X \<noteq> 0 then Some (take_bit n Value) else OhciGetEDField ed (ucast X))"
    by (auto simp: ed_get_word0 ed_get_word2 ed_set_word0 ed_set_word2)
  show "OhciGetEDField (OhciSetEDField ed Fld Value) ED_TDHEAD_PTR =
        (if Fld AND ED_TDHEAD_PTR \<noteq> 0 then Some (Value AND NOT 0xF) else OhciGetEDField ed ED_TDHEAD_PTR)"
    using shift_4[of Value] by (simp add: OhciGetEDField_def ed_set_head RIGHT_SHIFT_4_def)
qed (simp_all add: OhciGetEDField_def OhciSetEDField_def Let_def)

text \<open>\<open>OhciLinkTD\<close> appends the list of \<open>Td2\<close> to the list of \<open>Td1\<close>: the loop ends, the last
  descriptor gets both links, and no other descriptor is changed.\<close>

theorem OhciLinkTD_appends:
  assumes "td_chain tds Td1 xs 0" "xs \<noteq> []" "td_chain tds Td2 ys 0" "set xs \<inter> set ys = {}" "Td1 \<noteq> Td2"
    and "Td2 < 2 ^ 32"
  shows "\<exists>tds'. OhciLinkTD tds Td1 Td2 = Some (EFI_SUCCESS, tds') \<and> td_chain tds' Td1 (xs @ ys) 0
    \<and> map_option NextTDPointer (tds' (last xs)) = Some (word_of_nat Td2)
    \<and> (\<forall>p. p \<noteq> last xs \<longrightarrow> tds' p = tds p)"
proof -
  have "Td1 \<noteq> 0" using assms(1,2) by (cases xs) auto
  then show ?thesis
    using append_td[OF assms(1-4,6)] assms(5) by (auto simp: OhciLinkTD_def)
qed

theorem OhciLinkTD_appends_witness:
  "\<exists>tds'. OhciLinkTD [64 \<mapsto> td_zero, 128 \<mapsto> td_zero] 64 128 = Some (EFI_SUCCESS, tds')
     \<and> td_chain tds' 64 [64, 128] 0"
  using OhciLinkTD_appends[of "[64 \<mapsto> td_zero, 128 \<mapsto> td_zero]" 64 "[64]" 128 "[128]"]
  by (auto simp: td_zero_def)

text \<open>A list attached to an endpoint without one is found again through the head pointer exactly
  when its address is below 2 GB: from there on \<open>TD_PTR\<close>, which shifts a promoted 28-bit member,
  extends the sign and yields another address.\<close>

theorem OhciAttachTDListToED_head:
  assumes "Eds Ohc Ed = Some ed" "TdHeadPointer ed = 0" "16 dvd HeadTd" "HeadTd < 2 ^ 32"
    and "OhciAttachTDListToED Ed HeadTd Ohc = Some (Status, Ohc')"
  shows "\<exists>ed'. Eds Ohc' Ed = Some ed' \<and> Tds Ohc' = Tds Ohc
    \<and> (TD_PTR (TdHeadPointer ed') = HeadTd \<longleftrightarrow> HeadTd < 2 ^ 31)"
proof -
  have "TD_PTR (TdHeadPointer ed) = 0" using assms(2) by (simp add: TD_PTR_def)
  then have e: "Eds Ohc' Ed = Some (set_TdHeadPointer (RIGHT_SHIFT_4 (word_of_nat HeadTd)) ed)" "Tds Ohc' = Tds Ohc"
    using assms(1,5) by (auto simp: OhciAttachTDListToED_def)
  have "take_bit 28 (drop_bit 4 v) = drop_bit 4 v" for v :: u32
    by (intro bit_word_eqI) (auto simp: bit_simps dest: bit_imp_le_length)
  then have "TdHeadPointer (set_TdHeadPointer (RIGHT_SHIFT_4 (word_of_nat HeadTd)) ed) = RIGHT_SHIFT_4 (word_of_nat HeadTd)"
    by (simp add: TdHeadPointer_def set_TdHeadPointer_def bf_get_set_same RIGHT_SHIFT_4_def)
  then show ?thesis using e TD_PTR_shift[OF assms(4,3)] by simp
qed

definition device_at ::
  "(nat \<rightharpoonup> ED_DESCRIPTOR) \<Rightarrow> (nat \<rightharpoonup> TD_DESCRIPTOR) \<Rightarrow> USBHC_MEM_POOL \<Rightarrow> 'w \<Rightarrow> 'w USB_OHCI_HC_DEV" where
  "device_at eds tds pool w = \<lparr>UsbHcBaseAddress = 0, HccaMemoryBlock = 0, HccaMemoryBuf = 0,
     HccaMemoryMapping = 0, HccaMemoryPages = 0, HccaInterruptTable = replicate 32 0,
     IntervalList = replicate 6 (replicate 32 0), InterruptContextList = 0, MemPool = pool, Eds = eds, Tds = tds,
     Ents = Map.empty, Tpl = 4, World = w\<rparr>"

theorem OhciAttachTDListToED_head_witness:
  "\<exists>Ohc' ed'. OhciAttachTDListToED 64 0x80000000 (device_at [64 \<mapsto> ed_zero] Map.empty (bump_p []) bump_w)
      = Some (EFI_SUCCESS, Ohc') \<and> Eds Ohc' 64 = Some ed' \<and> TD_PTR (TdHeadPointer ed') \<noteq> 0x80000000"
proof -
  let ?O = "device_at [64 \<mapsto> ed_zero] Map.empty (bump_p []) bump_w"
  obtain Ohc' where r: "OhciAttachTDListToED 64 0x80000000 ?O = Some (EFI_SUCCESS, Ohc')"
    by (simp add: OhciAttachTDListToED_def device_at_def ed_zero_def TdHeadPointer_def TD_PTR_def)
  have "Eds ?O 64 = Some ed_zero" "TdHeadPointer ed_zero = 0"
    by (simp_all add: device_at_def ed_zero_def TdHeadPointer_def)
  from OhciAttachTDListToED_head[OF this _ _ r] r show ?thesis by auto
qed

text \<open>\<open>OhciFreeAllTDFromED\<close> frees every descriptor between the head and the tail of the endpoint
  and nothing else: the loop ends, exactly those descriptors are gone, the pool has exactly their
  memory back, and the rest of what the caller owns is untouched.\<close>

theorem OhciFreeAllTDFromED_exact:
  assumes "dev_ok sv inuse pooled I P Ohc" "Ed \<noteq> 0" "Eds Ohc Ed = Some ed"
    and "tdp_chain (Tds Ohc) (TD_PTR (TdHeadPointer ed)) xs (unat (TdTailPointer ed))"
    and "dev_owned (map td_region xs @ out) Ohc"
  shows "\<exists>Ohc'. OhciFreeAllTDFromED sv Ohc Ed = Some (EFI_SUCCESS, Ohc') \<and> dev_ok sv inuse pooled I P Ohc'
    \<and> dev_owned out Ohc' \<and> Tds Ohc' = Tds Ohc |` (- set xs) \<and> Eds Ohc' = Eds Ohc
    \<and> pool_live (MemPool Ohc') = pool_live (MemPool Ohc) - feet footprint (map td_region xs)"
proof -
  obtain pool w where "OhciFreeTDs sv (unat (TdTailPointer ed)) (TD_PTR (TdHeadPointer ed)) Ohc =
      Some (Ohc\<lparr>MemPool := pool, World := w, Tds := Tds Ohc |` (- set xs)\<rparr>)"
    "pool_ok sv inuse pooled I P pool w" "owned size_ok pool_held footprint out pool"
    "pool_live pool = pool_live (MemPool Ohc) - feet footprint (map td_region xs)"
    using free_tds[OF assms(1,4,5)] by blast
  then show ?thesis using assms(2,3) by (simp add: OhciFreeAllTDFromED_def)
qed

theorem OhciFreeAllTDFromED_exact_witness:
  "\<exists>Ohc'. OhciFreeAllTDFromED bump_services (device_at [64 \<mapsto> OhciSetEDField ed_zero ED_TDHEAD_PTR 65536]
      [65536 \<mapsto> td_zero] (bump_p (1 # replicate 127 0)) bump_w) 64 = Some (EFI_SUCCESS, Ohc')
     \<and> Tds Ohc' = Map.empty"
proof -
  let ?ed = "OhciSetEDField ed_zero ED_TDHEAD_PTR 65536"
  let ?O = "device_at [64 \<mapsto> ?ed] [65536 \<mapsto> td_zero] (bump_p (1 # replicate 127 0)) bump_w"
  have h: "TD_PTR (TdHeadPointer ?ed) = 65536" "unat (TdTailPointer ?ed) = 0"
    by (simp add: ed_set_head RIGHT_SHIFT_4_def drop_bit_eq_div take_bit_eq_mod TD_PTR_def push_bit_eq_mult)
       (simp add: OhciSetEDField_def ed_zero_def Let_def)
  have "units_of sizeof_TD = 1" "size_ok sizeof_TD" by (simp_all add: units_of_def size_ok_def)
  then have o: "dev_owned (map td_region [65536] @ []) ?O"
    using bump_held_64 by (simp add: device_at_def pool_held_def round_64)
  have "dev_ok bump_services dma_used pool_used {} {} ?O" using bump_pool_ok_64 by (simp add: device_at_def)
  from OhciFreeAllTDFromED_exact[OF this _ _ _ o, of 64 ?ed] h
  show ?thesis by (auto simp: device_at_def td_zero_def)
qed

text \<open>\<open>OhciFindWorkingEd\<close> returns on every list that ends, with the first endpoint that is neither
  halted nor skipped and has the address, number and direction asked for, or \<open>NULL\<close>.\<close>

theorem OhciFindWorkingEd_first:
  assumes "ed_chain eds EdHead xs 0"
  shows "OhciFindWorkingEd eds EdHead Addr EndPt EdDir =
    Some (case find (\<lambda>p. \<exists>ed. eds p = Some ed \<and> Halted ed = 0 \<and> Skip ed = 0 \<and> FunctionAddress ed = ucast Addr
                     \<and> EndPointNum ed = ucast EndPt \<and> Direction ed = ucast EdDir) xs of
            None \<Rightarrow> 0 | Some p \<Rightarrow> p)"
proof -
  have "find (\<lambda>x. ed_works Addr EndPt EdDir (the (eds x))) xs =
      find (\<lambda>p. \<exists>ed. eds p = Some ed \<and> ed_works Addr EndPt EdDir ed) xs"
    using chain_dom[OF assms] by (intro find_cong) (auto simp: subset_iff dom_def)
  then show ?thesis using find_working[OF assms] by (simp add: ed_works_def)
qed

theorem OhciFindWorkingEd_first_witness:
  "OhciFindWorkingEd [64 \<mapsto> set_Skip 1 ed_zero\<lparr>NextED := 128\<rparr>, 128 \<mapsto> ed_zero] 64 0 0 0 = Some 128"
proof -
  let ?eds = "[64 \<mapsto> set_Skip 1 ed_zero\<lparr>NextED := 128\<rparr>, 128 \<mapsto> ed_zero]"
  have "ed_chain ?eds 64 [64, 128] 0" by (simp add: set_Skip_def ed_zero_def)
  from OhciFindWorkingEd_first[OF this, of 0 0 0] show ?thesis
    by (simp add: set_Skip_def ed_zero_def Halted_def Skip_def FunctionAddress_def EndPointNum_def Direction_def
        bf_laws take_bit_eq_mod)
qed

text \<open>\<open>OhciFindMinInterruptEDList\<close> returns, for the lists of a depth, the head of one that no
  other list of that depth is shorter than.\<close>

theorem OhciFindMinInterruptEDList_min:
  assumes "Depth \<le> 5" "\<forall>i < 32 div 2 ^ Depth. IntervalList Ohc ! Depth ! i \<noteq> 0
      \<and> ed_chain (Eds Ohc) (IntervalList Ohc ! Depth ! i) (lst i) 0 \<and> length (lst i) < 0xFFFFFFFF"
  shows "\<exists>i < 32 div 2 ^ Depth. OhciFindMinInterruptEDList Ohc Depth = Some (IntervalList Ohc ! Depth ! i)
    \<and> (\<forall>j < 32 div 2 ^ Depth. length (lst i) \<le> length (lst j))"
  by (rule find_min_list[OF assms])

theorem OhciFindMinInterruptEDList_min_witness:
  "OhciFindMinInterruptEDList (device_at [64 \<mapsto> ed_zero] Map.empty (bump_p []) bump_w
      \<lparr>IntervalList := replicate 6 (replicate 32 64)\<rparr>) 5 = Some 64"
proof -
  let ?O = "device_at [64 \<mapsto> ed_zero] Map.empty (bump_p []) bump_w \<lparr>IntervalList := replicate 6 (replicate 32 64)\<rparr>"
  have "\<forall>i < 32 div 2 ^ 5. IntervalList ?O ! 5 ! i \<noteq> 0 \<and> ed_chain (Eds ?O) (IntervalList ?O ! 5 ! i) [64] 0
      \<and> length [64 :: nat] < 0xFFFFFFFF"
    by (simp add: device_at_def ed_zero_def)
  from OhciFindMinInterruptEDList_min[OF _ this] show ?thesis by simp
qed

text \<open>\<open>OhciAttachED\<close> inserts a new endpoint right behind the given one in every list that runs
  through it, so all polling intervals that share the list see it.\<close>

theorem OhciAttachED_inserts:
  assumes "ed_chain eds p (xs @ Ed # ys) 0" "eds NewEd = Some new" "NextED new = 0" "NewEd \<notin> set (xs @ Ed # ys)"
    and "NewEd \<noteq> 0" "NewEd < 2 ^ 32"
  shows "\<exists>eds'. OhciAttachED Ed NewEd eds = Some (EFI_SUCCESS, eds') \<and> ed_chain eds' p (xs @ Ed # NewEd # ys) 0"
  by (rule attach_ed[OF assms])

theorem OhciAttachED_inserts_witness:
  "\<exists>eds'. OhciAttachED 64 128 [64 \<mapsto> ed_zero, 128 \<mapsto> ed_zero] = Some (EFI_SUCCESS, eds')
     \<and> ed_chain eds' 64 [64, 128] 0"
  using OhciAttachED_inserts[of "[64 \<mapsto> ed_zero, 128 \<mapsto> ed_zero]" 64 "[]" 64 "[]" 128 ed_zero]
  by (simp add: ed_zero_def)

text \<open>\<open>OhciFreeInterruptEdByEd\<close>, with an endpoint that lies on some of the 32 interrupt lists and
  has one predecessor, ends, takes it off every list and frees it once: the pool gets back exactly
  its memory and every list is what it was without it.\<close>

theorem OhciFreeInterruptEdByEd_exact:
  assumes "dev_ok sv inuse pooled I P Ohc" "dev_owned ((IntEd, sizeof_ED) # out) Ohc"
    and "IntEd < 2 ^ 32" "IntEd \<noteq> 0" "length (HccaInterruptTable Ohc) = 32"
    and "\<forall>h \<in> set (HccaInterruptTable Ohc). h \<noteq> 0 \<longrightarrow>
      ed_chain (Eds Ohc) (unat h) (unat h # path h) 0 \<and> unat h \<noteq> IntEd"
    and "\<forall>q e q' e'. Eds Ohc q = Some e \<and> unat (NextED e) = IntEd \<and> Eds Ohc q' = Some e' \<and> unat (NextED e') = IntEd
      \<longrightarrow> q = q'"
    and "\<exists>h \<in> set (HccaInterruptTable Ohc). h \<noteq> 0 \<and> IntEd \<in> set (path h)"
  shows "\<exists>Ohc'. OhciFreeInterruptEdByEd sv Ohc IntEd = Some (EFI_SUCCESS, Ohc') \<and> dev_ok sv inuse pooled I P Ohc'
    \<and> dev_owned out Ohc' \<and> pool_live (MemPool Ohc') = pool_live (MemPool Ohc) - footprint IntEd sizeof_ED
    \<and> Eds Ohc' IntEd = None
    \<and> (\<forall>h \<in> set (HccaInterruptTable Ohc). h \<noteq> 0 \<longrightarrow>
        ed_chain (Eds Ohc') (unat h) (unat h # removeAll IntEd (path h)) 0)"
proof -
  obtain h0 where h0: "h0 \<in> set (HccaInterruptTable Ohc)" "h0 \<noteq> 0" "IntEd \<in> set (path h0)" using assms(8) by blast
  have hs: "\<And>h. h \<in> set (HccaInterruptTable Ohc) \<Longrightarrow> h \<noteq> 0 \<Longrightarrow>
      ed_chain (Eds Ohc) (unat h) (unat h # path h) 0 \<and> unat h \<noteq> IntEd" using assms(6) by blast
  have one: "\<And>q e q' e'. Eds Ohc q = Some e \<Longrightarrow> unat (NextED e) = IntEd \<Longrightarrow> Eds Ohc q' = Some e' \<Longrightarrow>
      unat (NextED e') = IntEd \<Longrightarrow> q = q'" using assms(7) by blast
  have t: "take 32 (HccaInterruptTable Ohc) = HccaInterruptTable Ohc" using assms(5) by simp
  show ?thesis
    using free_by_ed[OF assms(1-4) hs one h0] assms(4) by (auto simp: OhciFreeInterruptEdByEd_def t)
qed

theorem OhciFreeInterruptEdByEd_exact_witness:
  "\<exists>Ohc'. OhciFreeInterruptEdByEd bump_services (device_at [64 \<mapsto> ed_zero\<lparr>NextED := 65536\<rparr>, 65536 \<mapsto> ed_zero]
      Map.empty (bump_p (1 # replicate 127 0)) bump_w\<lparr>HccaInterruptTable := replicate 32 64\<rparr>) 65536
    = Some (EFI_SUCCESS, Ohc') \<and> ed_chain (Eds Ohc') 64 [64] 0"
proof -
  let ?O = "device_at [64 \<mapsto> ed_zero\<lparr>NextED := 65536\<rparr>, 65536 \<mapsto> ed_zero]
      Map.empty (bump_p (1 # replicate 127 0)) bump_w\<lparr>HccaInterruptTable := replicate 32 64\<rparr>"
  have "units_of sizeof_ED = 1" "size_ok sizeof_ED" by (simp_all add: units_of_def size_ok_def)
  then have o: "dev_owned ((65536, sizeof_ED) # []) ?O"
    using bump_held_64 by (simp add: device_at_def pool_held_def round_64)
  have ok: "dev_ok bump_services dma_used pool_used {} {} ?O" using bump_pool_ok_64 by (simp add: device_at_def)
  have "q = 64" if "Eds ?O q = Some e" "unat (NextED e) = 65536" for q e
    using that by (auto simp: device_at_def ed_zero_def split: if_splits)
  then have one: "\<forall>q e q' e'. Eds ?O q = Some e \<and> unat (NextED e) = 65536 \<and> Eds ?O q' = Some e'
      \<and> unat (NextED e') = 65536 \<longrightarrow> q = q'" by metis
  have hs: "\<forall>h \<in> set (HccaInterruptTable ?O). h \<noteq> 0 \<longrightarrow> ed_chain (Eds ?O) (unat h) (unat h # [65536]) 0 \<and> unat h \<noteq> 65536"
    "\<exists>h \<in> set (HccaInterruptTable ?O). h \<noteq> 0 \<and> 65536 \<in> set [65536 :: nat]"
    "length (HccaInterruptTable ?O) = 32"
    by (simp_all add: device_at_def ed_zero_def)
  from OhciFreeInterruptEdByEd_exact[OF ok o _ _ hs(3,1) one hs(2)]
  obtain Ohc' where "OhciFreeInterruptEdByEd bump_services ?O 65536 = Some (EFI_SUCCESS, Ohc')"
    "\<forall>h \<in> set (HccaInterruptTable ?O). h \<noteq> 0 \<longrightarrow> ed_chain (Eds Ohc') (unat h) (unat h # removeAll 65536 [65536]) 0"
    by auto
  then show ?thesis by (intro exI[of _ Ohc']) (simp add: device_at_def)
qed

end
