(* ===== verification/OhciTree.thy ===== *)
theory OhciTree
  imports OhciUrb
begin

unbundle bit_operations_syntax

text \<open>
  The tree of interrupt lists that \<open>OhciInitializeInterruptList\<close> of \<open>OhciUrb.c\<close> builds, and its meaning
  for the schedule: the controller follows the list of table entry \<open>f mod 32\<close> in frame \<open>f\<close>.
\<close>

section \<open>Creation of endpoint descriptors\<close>

text \<open>The next \<open>n\<close> requests for an endpoint descriptor give memory below 4 GB.\<close>

fun enough :: "'w dma_services \<Rightarrow> nat \<Rightarrow> USBHC_MEM_POOL \<Rightarrow> 'w \<Rightarrow> bool" where
  "enough sv 0 pool w = True"
| "enough sv (Suc n) pool w =
    (case UsbHcAllocateMem sv pool sizeof_ED w of
       None \<Rightarrow> False
     | Some (m, pool', w') \<Rightarrow> m \<noteq> 0 \<and> m < 2 ^ 32 \<and> enough sv n pool' w')"

definition new_ed :: ED_DESCRIPTOR where
  "new_ed = set_TdHeadPointer 0 (set_Skip 1 ed_zero)\<lparr>TdTailPointer := 0, NextED := 0\<rparr>"

abbreviation ed_region :: "nat \<Rightarrow> nat \<times> u64" where
  "ed_region p \<equiv> (p, sizeof_ED)"

lemma start_in_foot: "size_ok sz \<Longrightarrow> m \<in> footprint m sz"
  using size_ok_units[of sz] by (simp add: chunk_def)

lemma region_fresh:
  assumes "owned size_ok pool_held footprint ((m, n) # out) p"
  shows "m \<notin> fst ` set out"
proof
  assume "m \<in> fst ` set out"
  then obtain k where k: "(m, k) \<in> set out" by auto
  then have "size_ok k" using assms by (auto simp: owned_def)
  then have "m \<in> feet footprint out" using start_in_foot k by (fastforce simp: feet_def)
  moreover have "m \<in> footprint m n" using assms by (auto intro: start_in_foot)
  ultimately show False using assms by auto
qed

lemma create_ED_ok:
  assumes ok: "dev_ok sv inuse pooled I P Ohc" and own: "dev_owned out Ohc"
    and en: "enough sv (Suc n) (MemPool Ohc) (World Ohc)"
  shows "\<exists>m pool w. OhciCreateED sv Ohc = Some (m, Ohc\<lparr>MemPool := pool, World := w, Eds := (Eds Ohc)(m \<mapsto> new_ed)\<rparr>)
    \<and> 0 < m \<and> m < 2 ^ 32 \<and> m \<notin> fst ` set out \<and> pool_ok sv inuse pooled I P pool w
    \<and> owned size_ok pool_held footprint (ed_region m # out) pool \<and> enough sv n pool w"
proof -
  obtain m pool w where a: "UsbHcAllocateMem sv (MemPool Ohc) sizeof_ED (World Ohc) = Some (m, pool, w)"
    and m: "m \<noteq> 0" "m < 2 ^ 32" "enough sv n pool w"
    using en by (auto split: option.splits)
  have sz: "size_ok sizeof_ED" by (simp add: size_ok_def)
  note A = pool.alloc_owned[OF ok own sz a]
  have o: "owned size_ok pool_held footprint (ed_region m # out) pool" by (rule A(3)[OF m(1)])
  have "m \<notin> fst ` set out" by (rule region_fresh[OF o])
  moreover have "OhciCreateED sv Ohc = Some (m, Ohc\<lparr>MemPool := pool, World := w, Eds := (Eds Ohc)(m \<mapsto> new_ed)\<rparr>)"
    using a m(1) by (simp add: OhciCreateED_def new_ed_def)
  ultimately show ?thesis using m o A(1) by blast
qed

section \<open>The table\<close>

lemma init_table:
  assumes "dev_ok sv inuse pooled I P Ohc" "dev_owned out Ohc"
    and "enough sv (N - k + n) (MemPool Ohc) (World Ohc)" "length (HccaInterruptTable Ohc) = N" "k \<le> N"
  shows "\<exists>ms pool w. OhciInitTable sv [k..<N] Ohc = Some (EFI_SUCCESS, Ohc\<lparr>MemPool := pool, World := w,
        Eds := (\<lambda>p. if p \<in> set ms then Some new_ed else Eds Ohc p),
        HccaInterruptTable := take k (HccaInterruptTable Ohc) @ map word_of_nat ms\<rparr>)
    \<and> length ms = N - k \<and> distinct ms \<and> (\<forall>m \<in> set ms. 0 < m \<and> m < 2 ^ 32 \<and> m \<notin> fst ` set out)
    \<and> pool_ok sv inuse pooled I P pool w \<and> owned size_ok pool_held footprint (map ed_region (rev ms) @ out) pool
    \<and> enough sv n pool w"
  using assms
proof (induction "N - k" arbitrary: k Ohc out)
  case 0
  then have "[k..<N] = []" "take k (HccaInterruptTable Ohc) = HccaInterruptTable Ohc" "N = k" by simp_all
  then show ?case using 0 by (intro exI[of _ "[]"] exI[of _ "MemPool Ohc"] exI[of _ "World Ohc"]) simp
next
  case (Suc j)
  then have k: "k < N" "[k..<N] = k # [Suc k..<N]" by (simp_all add: upt_rec)
  have n: "N - k + n = Suc (N - Suc k + n)" using k by simp
  obtain m pool w where c: "OhciCreateED sv Ohc = Some (m, Ohc\<lparr>MemPool := pool, World := w, Eds := (Eds Ohc)(m \<mapsto> new_ed)\<rparr>)"
    and m: "0 < m" "m < 2 ^ 32" "m \<notin> fst ` set out" "pool_ok sv inuse pooled I P pool w"
      "owned size_ok pool_held footprint (ed_region m # out) pool" "enough sv (N - Suc k + n) pool w"
    using create_ED_ok[OF Suc.prems(1,2) Suc.prems(3)[unfolded n]] by blast
  let ?O = "Ohc\<lparr>MemPool := pool, World := w, Eds := (Eds Ohc)(m \<mapsto> new_ed),
      HccaInterruptTable := (HccaInterruptTable Ohc)[k := word_of_nat m]\<rparr>"
  have "j = N - Suc k" "dev_ok sv inuse pooled I P ?O" "dev_owned (ed_region m # out) ?O" "enough sv (N - Suc k + n) (MemPool ?O) (World ?O)"
    "length (HccaInterruptTable ?O) = N" "Suc k \<le> N"
    using Suc.hyps(2) Suc.prems(4) m k by simp_all
  from Suc.hyps(1)[OF this] obtain ms pool' w' where r: "OhciInitTable sv [Suc k..<N] ?O = Some (EFI_SUCCESS, ?O\<lparr>MemPool := pool', World := w',
        Eds := (\<lambda>p. if p \<in> set ms then Some new_ed else Eds ?O p),
        HccaInterruptTable := take (Suc k) (HccaInterruptTable ?O) @ map word_of_nat ms\<rparr>)"
    and ms: "length ms = N - Suc k" "distinct ms" "\<forall>x \<in> set ms. 0 < x \<and> x < 2 ^ 32 \<and> x \<notin> fst ` set (ed_region m # out)"
      "pool_ok sv inuse pooled I P pool' w'" "owned size_ok pool_held footprint (map ed_region (rev ms) @ ed_region m # out) pool'"
      "enough sv n pool' w'"
    by blast
  have t: "take (Suc k) ((HccaInterruptTable Ohc)[k := word_of_nat m]) = take k (HccaInterruptTable Ohc) @ [word_of_nat m]"
    using k(1) Suc.prems(4) by (simp add: take_Suc_conv_app_nth)
  have e: "(\<lambda>p. if p \<in> set ms then Some new_ed else ((Eds Ohc)(m \<mapsto> new_ed)) p) =
      (\<lambda>p. if p \<in> set (m # ms) then Some new_ed else Eds Ohc p)" by auto
  have "OhciInitTable sv [k..<N] Ohc = Some (EFI_SUCCESS, Ohc\<lparr>MemPool := pool', World := w',
        Eds := (\<lambda>p. if p \<in> set (m # ms) then Some new_ed else Eds Ohc p),
        HccaInterruptTable := take k (HccaInterruptTable Ohc) @ map word_of_nat (m # ms)\<rparr>)"
    unfolding k(2) using c m(1) r unfolding e[symmetric] by (simp add: t cong: if_cong)
  moreover have "length (m # ms) = N - k" "distinct (m # ms)" "\<forall>x \<in> set (m # ms). 0 < x \<and> x < 2 ^ 32 \<and> x \<notin> fst ` set out"
    "owned size_ok pool_held footprint (map ed_region (rev (m # ms)) @ out) pool'"
    using ms(1-3,5) m k by auto
  ultimately show ?case using ms(4,6) by blast
qed

section \<open>The levels\<close>

text \<open>
  One level from index \<open>k\<close> on: \<open>prev\<close> are the descriptors of the level below, in pairs that are to be linked
  to the descriptors of the new level.
\<close>

lemma init_level:
  assumes "dev_ok sv inuse pooled I P Ohc" "dev_owned out Ohc"
    and "enough sv (c - k + n) (MemPool Ohc) (World Ohc)" "k \<le> c"
    and "length prev = 2 * c" "\<And>i. i < 2 * c \<Longrightarrow> IntervalList Ohc ! (Level - 1) ! i = prev ! i"
    and "distinct prev" "set prev \<subseteq> fst ` set out" "\<And>i. i < 2 * c \<Longrightarrow> 2 * k \<le> i \<Longrightarrow> Eds Ohc (prev ! i) = Some new_ed"
    and "0 < Level" "Level < length (IntervalList Ohc)" "c \<le> length (IntervalList Ohc ! Level)"
    and "\<And>i. i < c \<Longrightarrow> HccaInterruptTable Ohc ! i \<noteq> 0"
  shows "\<exists>cs pool w eds. OhciInitLevel sv Level [k..<c] Ohc = Some (EFI_SUCCESS, Ohc\<lparr>MemPool := pool, World := w, 
        IntervalList := (IntervalList Ohc)[Level := take k (IntervalList Ohc ! Level) @ cs @ drop c (IntervalList Ohc ! Level)], Eds := eds\<rparr>)
    \<and> length cs = c - k \<and> distinct cs \<and> (\<forall>m \<in> set cs. 0 < m \<and> m < 2 ^ 32 \<and> m \<notin> fst ` set out)
    \<and> pool_ok sv inuse pooled I P pool w \<and> owned size_ok pool_held footprint (map ed_region (rev cs) @ out) pool
    \<and> enough sv n pool w \<and> (\<forall>m \<in> set cs. eds m = Some new_ed)
    \<and> (\<forall>i < 2 * c. 2 * k \<le> i \<longrightarrow> eds (prev ! i) = Some (new_ed\<lparr>NextED := word_of_nat (cs ! (i div 2 - k))\<rparr>))
    \<and> (\<forall>p. p \<notin> set cs \<longrightarrow> p \<notin> set (drop (2 * k) prev) \<longrightarrow> eds p = Eds Ohc p)"
  using assms
proof (induction "c - k" arbitrary: k Ohc out)
  case 0
  then have k: "c = k" by simp
  have "(IntervalList Ohc)[Level := take k (IntervalList Ohc ! Level) @ drop k (IntervalList Ohc ! Level)] = IntervalList Ohc" by simp
  then show ?case using 0 unfolding k
    by (intro exI[of _ "[]"] exI[of _ "MemPool Ohc"] exI[of _ "World Ohc"] exI[of _ "Eds Ohc"]) simp
next
  case (Suc j)
  have k: "k < c" "[k..<c] = k # [Suc k..<c]" using Suc.hyps(2) by (simp_all add: upt_rec)
  have n: "c - k + n = Suc (c - Suc k + n)" using k by simp
  obtain m pool w where cr: "OhciCreateED sv Ohc = Some (m, Ohc\<lparr>MemPool := pool, World := w, Eds := (Eds Ohc)(m \<mapsto> new_ed)\<rparr>)"
    and m: "0 < m" "m < 2 ^ 32" "m \<notin> fst ` set out" "pool_ok sv inuse pooled I P pool w"
      "owned size_ok pool_held footprint (ed_region m # out) pool" "enough sv (c - Suc k + n) pool w"
    using create_ED_ok[OF Suc.prems(1,2) Suc.prems(3)[unfolded n]] by blast
  let ?IL = "(IntervalList Ohc)[Level := (IntervalList Ohc ! Level)[k := m]]"
  let ?a = "prev ! (2 * k)" and ?b = "prev ! (2 * k + 1)"
  let ?linked = "new_ed\<lparr>NextED := word_of_nat m\<rparr>"
  let ?eds = "(Eds Ohc)(m \<mapsto> new_ed, ?a \<mapsto> ?linked, ?b \<mapsto> ?linked)"
  let ?O = "Ohc\<lparr>MemPool := pool, World := w, IntervalList := ?IL, Eds := ?eds\<rparr>"
  have i: "2 * k < 2 * c" "2 * k + 1 < 2 * c" using k by simp_all
  have in_prev: "?a \<in> set prev" "?b \<in> set prev" using i Suc.prems(5) by (simp_all add: nth_mem)
  then have "?a \<noteq> m" "?b \<noteq> m" using Suc.prems(8) m(3) by blast+
  moreover have "?a \<noteq> ?b" using i Suc.prems(5,7) by (simp add: nth_eq_iff_index_eq)
  ultimately have ab: "?a \<in> set prev" "?b \<in> set prev" "?a \<noteq> ?b" "?a \<noteq> m" "?b \<noteq> m" using in_prev by simp_all
  have L: "Level - 1 \<noteq> Level" using Suc.prems(10) by simp
  have il: "?IL ! (Level - 1) ! (k * 2) = ?a" "?IL ! (Level - 1) ! (k * 2 + 1) = ?b"
    using Suc.prems(6) i L by (simp_all add: mult.commute)
  have "Eds Ohc ?a = Some new_ed" "Eds Ohc ?b = Some new_ed" using Suc.prems(9) i by simp_all
  then have step: "OhciInitLevel sv Level [k..<c] Ohc = OhciInitLevel sv Level [Suc k..<c] ?O"
    unfolding k(2) using cr il ab Suc.prems(13)[OF k(1)]
    by (simp add: Let_def set_NextED_def)
  have pr: "j = c - Suc k" "dev_ok sv inuse pooled I P ?O" "dev_owned (ed_region m # out) ?O" "enough sv (c - Suc k + n) (MemPool ?O) (World ?O)"
    "Suc k \<le> c" "length prev = 2 * c" "\<And>i. i < 2 * c \<Longrightarrow> IntervalList ?O ! (Level - 1) ! i = prev ! i"
    "distinct prev" "set prev \<subseteq> fst ` set (ed_region m # out)"
    "0 < Level" "Level < length (IntervalList ?O)" "c \<le> length (IntervalList ?O ! Level)"
    "\<And>i. i < c \<Longrightarrow> HccaInterruptTable ?O ! i \<noteq> 0"
    using Suc.hyps(2) Suc.prems(5-8,10-13) m(4-6) k L by auto
  have un: "Eds ?O (prev ! i) = Some new_ed" if "i < 2 * c" "2 * Suc k \<le> i" for i
  proof -
    have "prev ! i \<noteq> ?a" "prev ! i \<noteq> ?b" using that i Suc.prems(5,7) by (simp_all add: nth_eq_iff_index_eq)
    moreover have "prev ! i \<in> set prev" using that Suc.prems(5) by simp
    then have "prev ! i \<noteq> m" using m(3) Suc.prems(8) by auto
    ultimately show ?thesis using Suc.prems(9) that by simp
  qed
  obtain cs pool' w' eds where r: "OhciInitLevel sv Level [Suc k..<c] ?O = Some (EFI_SUCCESS, ?O\<lparr>MemPool := pool', World := w', 
        IntervalList := ?IL[Level := take (Suc k) (?IL ! Level) @ cs @ drop c (?IL ! Level)], Eds := eds\<rparr>)"
    and cs: "length cs = c - Suc k" "distinct cs" "\<forall>x \<in> set cs. 0 < x \<and> x < 2 ^ 32 \<and> x \<notin> fst ` set (ed_region m # out)"
      "pool_ok sv inuse pooled I P pool' w'" "owned size_ok pool_held footprint (map ed_region (rev cs) @ ed_region m # out) pool'"
      "enough sv n pool' w'" "\<forall>x \<in> set cs. eds x = Some new_ed"
      "\<forall>i < 2 * c. 2 * Suc k \<le> i \<longrightarrow> eds (prev ! i) = Some (new_ed\<lparr>NextED := word_of_nat (cs ! (i div 2 - Suc k))\<rparr>)"
      "\<forall>p. p \<notin> set cs \<longrightarrow> p \<notin> set (drop (2 * Suc k) prev) \<longrightarrow> eds p = Eds ?O p"
    using Suc.hyps(1)[OF pr(1-9) un pr(10-13)] by auto
  have row: "take (Suc k) (?IL ! Level) @ cs @ drop c (?IL ! Level) =
      take k (IntervalList Ohc ! Level) @ (m # cs) @ drop c (IntervalList Ohc ! Level)"
    using k(1) Suc.prems(11,12) by (simp add: take_Suc_conv_app_nth)
  have res: "OhciInitLevel sv Level [k..<c] Ohc = Some (EFI_SUCCESS, Ohc\<lparr>MemPool := pool', World := w', 
        IntervalList := (IntervalList Ohc)[Level := take k (IntervalList Ohc ! Level) @ (m # cs) @ drop c (IntervalList Ohc ! Level)], Eds := eds\<rparr>)"
    unfolding step r row by simp
  have dr: "drop (2 * k) prev = ?a # ?b # drop (2 * Suc k) prev"
    using i Suc.prems(5) by (simp add: Cons_nth_drop_Suc)
  have nd: "?a \<notin> set (drop (2 * Suc k) prev)" "?b \<notin> set (drop (2 * Suc k) prev)" 
    using distinct_drop[OF Suc.prems(7), of "2 * k"] unfolding dr by simp_all
  have out: "x \<notin> set cs" if "x \<in> set prev" for x using cs(3) Suc.prems(8) that by auto
  have mp: "m \<notin> set prev" using m(3) Suc.prems(8) by auto
  have mc: "m \<notin> set cs" "m \<notin> set (drop (2 * Suc k) prev)" using cs(3) mp by (auto dest: in_set_dropD)
  have e: "eds ?a = Some ?linked" "eds ?b = Some ?linked" "eds m = Some new_ed"
    using cs(9) nd out ab mc mp by (auto simp: fun_upd_def)
  have "eds (prev ! i) = Some (new_ed\<lparr>NextED := word_of_nat ((m # cs) ! (i div 2 - k))\<rparr>)" if "i < 2 * c" "2 * k \<le> i" for i
  proof (cases "2 * Suc k \<le> i")
    case True
    then have "i div 2 - k = Suc (i div 2 - Suc k)" by simp
    then show ?thesis using cs(8) that True by simp
  next
    case False
    then have "i = 2 * k \<or> i = 2 * k + 1" using that by presburger
    then show ?thesis using e by auto
  qed
  moreover have "eds p = Eds Ohc p" if "p \<notin> set (m # cs)" "p \<notin> set (drop (2 * k) prev)" for p
    using cs(9) that unfolding dr by simp
  moreover have "length (m # cs) = c - k" "distinct (m # cs)" "\<forall>x \<in> set (m # cs). 0 < x \<and> x < 2 ^ 32 \<and> x \<notin> fst ` set out"
    "owned size_ok pool_held footprint (map ed_region (rev (m # cs)) @ out) pool'" "\<forall>x \<in> set (m # cs). eds x = Some new_ed"
    using cs(1-3,5,7) m k e(3) mc by auto
  ultimately show ?case using res cs(4,6) by blast
qed

text \<open>
  The first \<open>length rows\<close> levels are built: level \<open>j\<close> has \<open>32 div 2 ^ j\<close> descriptors, all different, and each
  is linked to the one that it shares with its neighbour on the next level.
\<close>

definition tree :: "nat list list \<Rightarrow> 'w USB_OHCI_HC_DEV \<Rightarrow> bool" where
  "tree rows Ohc \<longleftrightarrow> distinct (concat rows) \<and> (\<forall>m \<in> set (concat rows). 0 < m \<and> m < 2 ^ 32)
   \<and> (\<forall>j < length rows. length (rows ! j) = 32 div 2 ^ j
        \<and> (\<forall>i < 32 div 2 ^ j. IntervalList Ohc ! j ! i = rows ! j ! i
             \<and> Eds Ohc (rows ! j ! i) = Some (new_ed\<lparr>NextED :=
                 if Suc j < length rows then word_of_nat (rows ! Suc j ! (i div 2)) else 0\<rparr>)))"

definition shape :: "'w USB_OHCI_HC_DEV \<Rightarrow> bool" where
  "shape Ohc \<longleftrightarrow> length (IntervalList Ohc) = 6 \<and> (\<forall>row \<in> set (IntervalList Ohc). length row = 32)
     \<and> length (HccaInterruptTable Ohc) = 32"

lemma half_row: "l < 5 \<Longrightarrow> 2 * (32 div 2 ^ Suc l) = 32 div (2 :: nat) ^ l"
proof -
  assume "l < 5"
  then have "l = 0 \<or> l = 1 \<or> l = 2 \<or> l = 3 \<or> l = 4" by arith
  then show ?thesis by (elim disjE) simp_all
qed

lemma row_sub: "j < length rows \<Longrightarrow> i < length (rows ! j) \<Longrightarrow> rows ! j ! i \<in> set (concat rows)"
  by (auto intro: nth_mem)

lemma distinct_concat_nth:
  assumes "distinct (concat rows)" "i < j" "j < length rows"
  shows "set (rows ! i) \<inter> set (rows ! j) = {}"
proof -
  have "rows = take j rows @ rows ! j # drop (Suc j) rows" using assms(3) by (simp add: id_take_nth_drop)
  then have "distinct (concat (take j rows @ rows ! j # drop (Suc j) rows))" using assms(1) by simp
  then have d: "set (concat (take j rows)) \<inter> set (rows ! j) = {}" by auto
  have "rows ! i \<in> set (take j rows)" using assms by (auto simp: in_set_conv_nth)
  then show ?thesis using d by auto
qed

lemma new_ed_link: "new_ed\<lparr>NextED := 0\<rparr> = new_ed"
  by (simp add: new_ed_def)

lemma add_level:
  assumes ok: "dev_ok sv inuse pooled I P Ohc" and own: "dev_owned out Ohc" and t: "tree rows Ohc" and l: "length rows = Suc l" "l < 5"
    and en: "enough sv (32 div 2 ^ Suc l + n) (MemPool Ohc) (World Ohc)" and sub: "set (concat rows) \<subseteq> fst ` set out"
    and sh: "shape Ohc" and tab: "\<And>i. i < 32 \<Longrightarrow> HccaInterruptTable Ohc ! i \<noteq> 0"
  shows "\<exists>cs Ohc'. OhciInitLevel sv (Suc l) [0..<32 div 2 ^ Suc l] Ohc = Some (EFI_SUCCESS, Ohc')
    \<and> tree (rows @ [cs]) Ohc' \<and> dev_ok sv inuse pooled I P Ohc' \<and> dev_owned (map ed_region (rev cs) @ out) Ohc'
    \<and> enough sv n (MemPool Ohc') (World Ohc') \<and> shape Ohc' \<and> HccaInterruptTable Ohc' = HccaInterruptTable Ohc
    \<and> (\<forall>p \<in> fst ` set out - set (concat rows). Eds Ohc' p = Eds Ohc p) \<and> set cs \<inter> fst ` set out = {}"
proof -
  let ?c = "32 div 2 ^ Suc l :: nat" and ?prev = "rows ! l"
  have c: "2 * ?c = 32 div 2 ^ l" "?c \<le> 32" by (rule half_row[OF l(2)]) (rule div_le_dividend)
  have lr: "l < length rows" using l by simp
  have prev: "length ?prev = 2 * ?c" "\<And>i. i < 2 * ?c \<Longrightarrow> IntervalList Ohc ! l ! i = ?prev ! i"
    "\<And>i. i < 2 * ?c \<Longrightarrow> Eds Ohc (?prev ! i) = Some new_ed"
    using t l unfolding c tree_def by (simp_all add: new_ed_link)
  have psub: "set ?prev \<subseteq> set (concat rows)" using nth_mem[OF lr] by auto
  have dp: "distinct ?prev" using t lr by (simp add: tree_def distinct_concat_iff)
  have sh1: "Suc l < length (IntervalList Ohc)" "length (IntervalList Ohc ! Suc l) = 32"
    using sh l by (simp_all add: shape_def)
  have A: "\<exists>cs pool w eds. OhciInitLevel sv (Suc l) [0..<?c] Ohc = Some (EFI_SUCCESS, Ohc\<lparr>MemPool := pool, World := w, 
        IntervalList := (IntervalList Ohc)[Suc l := take 0 (IntervalList Ohc ! Suc l) @ cs @ drop ?c (IntervalList Ohc ! Suc l)], Eds := eds\<rparr>)
    \<and> length cs = ?c - 0 \<and> distinct cs \<and> (\<forall>m \<in> set cs. 0 < m \<and> m < 2 ^ 32 \<and> m \<notin> fst ` set out)
    \<and> pool_ok sv inuse pooled I P pool w \<and> owned size_ok pool_held footprint (map ed_region (rev cs) @ out) pool
    \<and> enough sv n pool w \<and> (\<forall>m \<in> set cs. eds m = Some new_ed)
    \<and> (\<forall>i < 2 * ?c. 2 * 0 \<le> i \<longrightarrow> eds (?prev ! i) = Some (new_ed\<lparr>NextED := word_of_nat (cs ! (i div 2 - 0))\<rparr>))
    \<and> (\<forall>p. p \<notin> set cs \<longrightarrow> p \<notin> set (drop (2 * 0) ?prev) \<longrightarrow> eds p = Eds Ohc p)"
    by (rule init_level[OF ok own]) (use en prev dp psub sub sh1 tab c in auto)
  then obtain cs pool w eds where r: "OhciInitLevel sv (Suc l) [0..<?c] Ohc = Some (EFI_SUCCESS, Ohc\<lparr>MemPool := pool, World := w, 
        IntervalList := (IntervalList Ohc)[Suc l := cs @ drop ?c (IntervalList Ohc ! Suc l)], Eds := eds\<rparr>)"
    and cs: "length cs = ?c" "distinct cs" "\<forall>m \<in> set cs. 0 < m \<and> m < 2 ^ 32 \<and> m \<notin> fst ` set out"
      "pool_ok sv inuse pooled I P pool w" "owned size_ok pool_held footprint (map ed_region (rev cs) @ out) pool"
      "enough sv n pool w" "\<forall>m \<in> set cs. eds m = Some new_ed"
      "\<forall>i < 2 * ?c. eds (?prev ! i) = Some (new_ed\<lparr>NextED := word_of_nat (cs ! (i div 2))\<rparr>)"
      "\<forall>p. p \<notin> set cs \<longrightarrow> p \<notin> set ?prev \<longrightarrow> eds p = Eds Ohc p"
    by auto
  let ?O = "Ohc\<lparr>MemPool := pool, World := w, 
        IntervalList := (IntervalList Ohc)[Suc l := cs @ drop ?c (IntervalList Ohc ! Suc l)], Eds := eds\<rparr>"
  have dj: "set cs \<inter> set (concat rows) = {}" using cs(3) sub by auto
  have "tree (rows @ [cs]) ?O"
    unfolding tree_def
  proof (intro conjI allI impI)
    show "distinct (concat (rows @ [cs]))" using t cs(2) dj by (auto simp: tree_def)
    show "\<forall>m \<in> set (concat (rows @ [cs])). 0 < m \<and> m < 2 ^ 32" using t cs(3) by (auto simp: tree_def)
    fix j assume j: "j < length (rows @ [cs])"
    show "length ((rows @ [cs]) ! j) = 32 div 2 ^ j" using t j l cs(1) by (cases "j = Suc l") (auto simp: tree_def nth_append)
    fix i :: nat assume i: "i < 32 div 2 ^ j"
    consider "j = Suc l" | "j = l" | "j < l" using j l by (auto simp: less_Suc_eq)
    note cases = this
    show "IntervalList ?O ! j ! i = (rows @ [cs]) ! j ! i"
      using cases
      by cases (use i cs(1) l sh1(1) t in \<open>auto simp: nth_append tree_def\<close>)
    show "Eds ?O ((rows @ [cs]) ! j ! i) = Some (new_ed\<lparr>NextED :=
        if Suc j < length (rows @ [cs]) then word_of_nat ((rows @ [cs]) ! Suc j ! (i div 2)) else 0\<rparr>)"
      using cases
    proof cases
      case 1
      then show ?thesis using i cs(1,7) l by (simp add: nth_append new_ed_link)
    next
      case 2
      then show ?thesis using i cs(8) c l by (simp add: nth_append)
    next
      case 3
      have x: "rows ! j ! i \<in> set (concat rows)" using 3 i l t by (intro row_sub) (auto simp: tree_def)
      have "rows ! j ! i \<notin> set ?prev"
      proof
        assume a: "rows ! j ! i \<in> set ?prev"
        have "rows ! j ! i \<in> set (rows ! j)" using 3 i l t by (auto simp: tree_def)
        moreover have "set (rows ! j) \<inter> set ?prev = {}"
          using t 3 lr by (intro distinct_concat_nth) (auto simp: tree_def)
        ultimately show False using a by auto
      qed
      then have "eds (rows ! j ! i) = Eds Ohc (rows ! j ! i)" using cs(9) x dj by auto
      then show ?thesis using t 3 i l by (simp add: tree_def nth_append)
    qed
  qed
  moreover have "shape ?O"
    using sh cs(1) sh1(2) c by (auto simp: shape_def dest!: set_update_subset_insert[THEN subsetD])
  moreover have "\<forall>p \<in> fst ` set out - set (concat rows). eds p = Eds Ohc p" using cs(3,9) psub by blast
  ultimately show ?thesis using r cs(3-6) by (intro exI[of _ cs] exI[of _ ?O]) auto
qed

lemma add_levels:
  assumes "dev_ok sv inuse pooled I P Ohc" "dev_owned out Ohc" "tree rows Ohc" "length rows = Suc l" "l \<le> 5"
    and "enough sv (sum_list (map (\<lambda>l. 32 div 2 ^ l) [Suc l..<6]) + n) (MemPool Ohc) (World Ohc)" "set (concat rows) \<subseteq> fst ` set out"
    and "shape Ohc" "\<And>i. i < 32 \<Longrightarrow> HccaInterruptTable Ohc ! i \<noteq> 0"
  shows "\<exists>rows' Ohc'. OhciInitLevels sv (map (\<lambda>l. (l, 32 div 2 ^ l)) [Suc l..<6]) Ohc = Some (EFI_SUCCESS, Ohc')
    \<and> tree (rows @ rows') Ohc' \<and> length (rows @ rows') = 6 \<and> dev_ok sv inuse pooled I P Ohc'
    \<and> dev_owned (map ed_region (rev (concat rows')) @ out) Ohc'
    \<and> enough sv n (MemPool Ohc') (World Ohc') \<and> shape Ohc' \<and> HccaInterruptTable Ohc' = HccaInterruptTable Ohc
    \<and> (\<forall>p \<in> fst ` set out - set (concat rows). Eds Ohc' p = Eds Ohc p)"
  using assms
proof (induction "5 - l" arbitrary: l Ohc out rows)
  case 0
  then have "l = 5" by simp
  then show ?case using 0 by (intro exI[of _ "[]"] exI[of _ Ohc]) simp
next
  case (Suc j)
  then have l: "l < 5" "[Suc l..<6] = Suc l # [Suc (Suc l)..<6]" by (simp_all add: upt_rec)
  have en: "enough sv (32 div 2 ^ Suc l + (sum_list (map (\<lambda>l. 32 div 2 ^ l) [Suc (Suc l)..<6]) + n)) (MemPool Ohc) (World Ohc)"
    using Suc.prems(6) unfolding l(2) by (simp add: add.assoc)
  obtain cs Ohc1 where c: "OhciInitLevel sv (Suc l) [0..<32 div 2 ^ Suc l] Ohc = Some (EFI_SUCCESS, Ohc1)"
    "tree (rows @ [cs]) Ohc1" "dev_ok sv inuse pooled I P Ohc1" "dev_owned (map ed_region (rev cs) @ out) Ohc1"
    "enough sv (sum_list (map (\<lambda>l. 32 div 2 ^ l) [Suc (Suc l)..<6]) + n) (MemPool Ohc1) (World Ohc1)" "shape Ohc1"
    "HccaInterruptTable Ohc1 = HccaInterruptTable Ohc" "\<forall>p \<in> fst ` set out - set (concat rows). Eds Ohc1 p = Eds Ohc p"
    "set cs \<inter> fst ` set out = {}"
    using add_level[OF Suc.prems(1-4) l(1) en Suc.prems(7-9)] by blast
  have "set (concat (rows @ [cs])) \<subseteq> fst ` set (map ed_region (rev cs) @ out)" using Suc.prems(7) by force
  moreover have "j = 5 - Suc l" "length (rows @ [cs]) = Suc (Suc l)" "Suc l \<le> 5" "\<And>i. i < 32 \<Longrightarrow> HccaInterruptTable Ohc1 ! i \<noteq> 0"
    using Suc.hyps(2) Suc.prems(4,9) l(1) c(7) by simp_all
  ultimately obtain rows' Ohc' where r: "OhciInitLevels sv (map (\<lambda>l. (l, 32 div 2 ^ l)) [Suc (Suc l)..<6]) Ohc1 = Some (EFI_SUCCESS, Ohc')"
    "tree ((rows @ [cs]) @ rows') Ohc'" "length ((rows @ [cs]) @ rows') = 6" "dev_ok sv inuse pooled I P Ohc'"
    "dev_owned (map ed_region (rev (concat rows')) @ map ed_region (rev cs) @ out) Ohc'"
    "enough sv n (MemPool Ohc') (World Ohc')" "shape Ohc'" "HccaInterruptTable Ohc' = HccaInterruptTable Ohc1"
    "\<forall>p \<in> fst ` set (map ed_region (rev cs) @ out) - set (concat (rows @ [cs])). Eds Ohc' p = Eds Ohc1 p"
    using Suc.hyps(1)[of "Suc l" Ohc1 "map ed_region (rev cs) @ out" "rows @ [cs]"] c(2-6) by blast
  have "OhciInitLevels sv (map (\<lambda>l. (l, 32 div 2 ^ l)) [Suc l..<6]) Ohc = Some (EFI_SUCCESS, Ohc')"
    unfolding l(2) using c(1) r(1) by simp
  moreover have "Eds Ohc' p = Eds Ohc p" if p: "p \<in> fst ` set out - set (concat rows)" for p
  proof -
    have "p \<notin> set cs" using c(9) p by blast
    then have "p \<in> fst ` set (map ed_region (rev cs) @ out) - set (concat (rows @ [cs]))" using p by (simp add: image_Un)
    then show ?thesis using c(8) r(9) p by simp
  qed
  ultimately show ?case using r(2-8) c(7) by (intro exI[of _ "cs # rows'"] exI[of _ Ohc']) simp
qed

section \<open>The schedule\<close>

text \<open>
  \<open>Leaf\<close> is a permutation, and the entries below a descriptor of level \<open>l\<close> are spread evenly: they are
  the ones that leave one and the same rest modulo \<open>2 ^ (5 - l)\<close>.
\<close>

definition leaf_spread :: "nat \<Rightarrow> nat \<Rightarrow> bool" where
  "leaf_spread l k = (let m = 2 ^ (5 - l); r = Leaf ! (k * 2 ^ l) mod m in
     list_all2 (\<lambda>i x. (i div 2 ^ l = k) = (x mod m = r)) [0..<32] Leaf)"

lemma leaf_spread_all: "list_all (\<lambda>l. list_all (leaf_spread l) [0..<32 div 2 ^ l]) [0..<6]"
  by code_simp

lemma leaf_perm: "distinct Leaf" "set Leaf = {..<32}" "length Leaf = 32"
  by (simp_all add: Leaf_def lessThan_def set_eq_iff) presburger

lemma leaf_spreadD:
  assumes "l < 6" "k < 32 div 2 ^ l"
  shows "\<exists>r < 2 ^ (5 - l). \<forall>i < 32. (i div 2 ^ l = k) = (Leaf ! i mod 2 ^ (5 - l) = r)"
proof -
  have "leaf_spread l k" using leaf_spread_all assms by (simp add: list_all_iff)
  then show ?thesis
    by (intro exI[of _ "Leaf ! (k * 2 ^ l) mod 2 ^ (5 - l)"]) (auto simp: leaf_spread_def Let_def list_all2_conv_all_nth)
qed

lemma div_row: "i < 32 \<Longrightarrow> j \<le> 5 \<Longrightarrow> i div 2 ^ j < 32 div (2 :: nat) ^ j"
proof -
  assume a: "i < 32" "j \<le> 5"
  have e: "(32 :: nat) = 2 ^ (5 - j) * 2 ^ j" using a(2) by (simp flip: power_add)
  have "(2 ^ (5 - j) * 2 ^ j) div 2 ^ j = (2 :: nat) ^ (5 - j)" by simp
  then have "32 div 2 ^ j = (2 :: nat) ^ (5 - j)" by (simp only: e[symmetric])
  moreover have "i div 2 ^ j < 2 ^ (5 - j)" using a(1) e by (intro less_mult_imp_div_less) linarith
  ultimately show ?thesis by simp
qed

lemma tree_chain:
  assumes t: "tree rows Ohc" "length rows = 6" and i: "i < 32" and j: "j \<le> 5"
  shows "ed_chain (Eds Ohc) (rows ! j ! (i div 2 ^ j)) (map (\<lambda>l. rows ! l ! (i div 2 ^ l)) [j..<6]) 0"
  using j
proof (induction "5 - j" arbitrary: j)
  case 0
  then have j: "j = 5" by simp
  have i0: "i div 32 = 0" using i by simp
  have "0 < rows ! 5 ! 0" "Eds Ohc (rows ! 5 ! 0) = Some (new_ed\<lparr>NextED := 0\<rparr>)"
    using t row_sub[of 5 rows 0] by (auto simp: tree_def)
  then show ?case unfolding j by (simp add: i0 upt_rec)
next
  case (Suc n)
  have l: "j < 5" "[j..<6] = j # [Suc j..<6]" using Suc.hyps(2) by (simp_all add: upt_rec)
  let ?m = "rows ! Suc j ! (i div 2 ^ Suc j)"
  have b: "i div 2 ^ j < 32 div 2 ^ j" "i div 2 ^ Suc j < 32 div 2 ^ Suc j"
    by (rule div_row[OF i]; use l(1) in simp)+
  have "rows ! j ! (i div 2 ^ j) \<in> set (concat rows)" "?m \<in> set (concat rows)"
    by (rule row_sub; use t b l(1) in \<open>auto simp: tree_def simp del: power_Suc\<close>)+
  then have m: "0 < rows ! j ! (i div 2 ^ j)" "?m < 2 ^ 32" using t(1) by (auto simp: tree_def)
  have "i div 2 ^ j div 2 = i div 2 ^ Suc j" by (simp only: power_Suc2 div_mult2_eq)
  then have "Eds Ohc (rows ! j ! (i div 2 ^ j)) = Some (new_ed\<lparr>NextED := word_of_nat ?m\<rparr>)"
    using t b(1) l(1) by (simp add: tree_def del: power_Suc)
  then show ?case
    unfolding l(2) using m Suc.hyps(1)[of "Suc j"] Suc.hyps(2) l(1) by simp
qed

lemma init_list_tree:
  assumes ok: "dev_ok sv inuse pooled I P Ohc" and own: "dev_owned out Ohc" and en: "enough sv 63 (MemPool Ohc) (World Ohc)"
    and sh: "shape Ohc"
  shows "\<exists>Ohc' rows. OhciInitializeInterruptList sv Ohc = Some (EFI_SUCCESS, Ohc') \<and> tree rows Ohc' \<and> length rows = 6
    \<and> (\<forall>i < 32. HccaInterruptTable Ohc' ! (Leaf ! i) = word_of_nat (rows ! 0 ! i)) \<and> dev_ok sv inuse pooled I P Ohc'
    \<and> (\<exists>new. distinct new \<and> set new = set (concat rows) \<and> dev_owned (map ed_region new @ out) Ohc')
    \<and> (\<forall>p \<in> fst ` set out. Eds Ohc' p = Eds Ohc p)"
proof -
  have L: "length (HccaInterruptTable Ohc) = 32" using sh by (simp add: shape_def)
  have lv: "sum_list (map (\<lambda>l. 32 div 2 ^ l) [Suc 0..<6]) = (31 :: nat)" by code_simp
  have "enough sv (32 - 0 + 31) (MemPool Ohc) (World Ohc)" using en by simp
  then obtain ms pool w where r: "OhciInitTable sv [0..<32] Ohc = Some (EFI_SUCCESS, Ohc\<lparr>MemPool := pool, World := w,
        Eds := (\<lambda>p. if p \<in> set ms then Some new_ed else Eds Ohc p), HccaInterruptTable := map word_of_nat ms\<rparr>)"
    and ms: "length ms = 32" "distinct ms" "\<forall>m \<in> set ms. 0 < m \<and> m < 2 ^ 32 \<and> m \<notin> fst ` set out"
    "pool_ok sv inuse pooled I P pool w" "owned size_ok pool_held footprint (map ed_region (rev ms) @ out) pool"
    "enough sv 31 pool w"
    using init_table[OF ok own _ L, of 0 31] by auto
  let ?row = "map (\<lambda>i. unat (map word_of_nat ms ! (Leaf ! i) :: u32)) [0..<32]"
  let ?O = "Ohc\<lparr>MemPool := pool, World := w, Eds := (\<lambda>p. if p \<in> set ms then Some new_ed else Eds Ohc p),
      HccaInterruptTable := map word_of_nat ms, IntervalList := (IntervalList Ohc)[0 := ?row]\<rparr>"
  have leaf: "Leaf ! i < 32" if "i < 32" for i using leaf_perm that nth_mem[of i Leaf] by auto
  have row: "?row = map (\<lambda>i. ms ! (Leaf ! i)) [0..<32]"
    using leaf ms(1,3) by (intro map_cong) (auto simp: unat_word_of_nat32)
  have rl: "?row = map ((!) ms) Leaf"
    unfolding row by (rule nth_equalityI) (auto simp: leaf_perm(3))
  have "inj_on ((!) ms) (set Leaf)" unfolding leaf_perm(2) using ms(1,2) by (auto simp: inj_on_def nth_eq_iff_index_eq)
  moreover have "(!) ms ` {..<32} = set ms" using ms(1) by (auto simp: set_conv_nth)
  ultimately have rows: "distinct ?row" "set ?row = set ms" "length ?row = 32"
    unfolding rl using leaf_perm by (simp_all add: distinct_map)
  have t: "tree [?row] ?O"
    using rows ms(3) sh unfolding tree_def by (auto simp: shape_def new_ed_link simp del: map_map)
  moreover have "dev_ok sv inuse pooled I P ?O" "dev_owned (map ed_region (rev ms) @ out) ?O"
    "enough sv (sum_list (map (\<lambda>l. 32 div 2 ^ l) [Suc 0..<6]) + 0) (MemPool ?O) (World ?O)"
    "set (concat [?row]) \<subseteq> fst ` set (map ed_region (rev ms) @ out)"
    using ms(4-6) rows(2) unfolding lv by (auto simp: image_Un image_image)
  moreover have "shape ?O"
    using sh rows(3) ms(1) by (auto simp: shape_def dest!: set_update_subset_insert[THEN subsetD])
  moreover have "HccaInterruptTable ?O ! i \<noteq> 0" if "i < 32" for i
    using ms(1,3) that by (auto simp: word_of_nat_eq_0_iff nat_dvd_not_less)
  ultimately have "\<exists>rows' Ohc'. OhciInitLevels sv (map (\<lambda>l. (l, 32 div 2 ^ l)) [Suc 0..<6]) ?O = Some (EFI_SUCCESS, Ohc')
    \<and> tree ([?row] @ rows') Ohc' \<and> length ([?row] @ rows') = 6 \<and> dev_ok sv inuse pooled I P Ohc'
    \<and> dev_owned (map ed_region (rev (concat rows')) @ (map ed_region (rev ms) @ out)) Ohc'
    \<and> enough sv 0 (MemPool Ohc') (World Ohc') \<and> shape Ohc' \<and> HccaInterruptTable Ohc' = HccaInterruptTable ?O
    \<and> (\<forall>p \<in> fst ` set (map ed_region (rev ms) @ out) - set (concat [?row]). Eds Ohc' p = Eds ?O p)"
    by (intro add_levels) simp_all
  then obtain rows' Ohc' where l: "OhciInitLevels sv (map (\<lambda>l. (l, 32 div 2 ^ l)) [Suc 0..<6]) ?O = Some (EFI_SUCCESS, Ohc')"
    "tree (?row # rows') Ohc'" "length (?row # rows') = 6" "dev_ok sv inuse pooled I P Ohc'"
    "dev_owned (map ed_region (rev (concat rows') @ rev ms) @ out) Ohc'" "HccaInterruptTable Ohc' = map word_of_nat ms"
    "\<forall>p \<in> fst ` set (map ed_region (rev ms) @ out) - set ms. Eds Ohc' p = Eds ?O p"
    using rows(2) by auto
  have lev: "map (\<lambda>l. (l, 32 div 2 ^ l)) [Suc 0..<6] = [(1, 16), (2, 8), (3, 4), (4, 2), (5, 1 :: nat)]" by code_simp
  have "OhciInitializeInterruptList sv Ohc = Some (EFI_SUCCESS, Ohc')"
    using l(1) unfolding lev OhciInitializeInterruptList_def r by (simp del: OhciInitLevels.simps upt_rec_numeral map_map)
  moreover have "HccaInterruptTable Ohc' ! (Leaf ! i) = word_of_nat ((?row # rows') ! 0 ! i)" if "i < 32" for i
    using that leaf ms(1) by (simp add: l(6) row del: upt_rec_numeral)
  moreover have "distinct (rev (concat rows') @ rev ms)" "set (rev (concat rows') @ rev ms) = set (concat (?row # rows'))"
    using l(2) rows(2) ms(2) by (auto simp: tree_def)
  moreover have "Eds Ohc' p = Eds Ohc p" if "p \<in> fst ` set out" for p
  proof -
    have "p \<notin> set ms" using ms(3) that by blast
    moreover from this have "p \<in> fst ` set (map ed_region (rev ms) @ out) - set ms" using that by (simp add: image_Un)
    ultimately show ?thesis using l(7) by simp
  qed
  ultimately show ?thesis using l(2-5) by blast
qed

text \<open>A pool of one block, of which the first \<open>s\<close> units are handed out, has room for as many descriptors as
  there are units left.\<close>

lemma block_room:
  assumes "pool_ok sv inuse pooled I P p w" "Blocks p = [b]"
    and "\<And>u. u < 8 * BitsLen b \<Longrightarrow> used (Bits b) u = (u < s)" "s + n \<le> 8 * BitsLen b" "BufHost b + 64 * (s + n) \<le> 2 ^ 32"
  shows "enough sv n p w"
  using assms
proof (induction n arbitrary: p w b s)
  case (Suc n)
  have wf: "block_wf b" using Suc.prems(1,2) by (simp add: pool_ok_def blocks_wf_def)
  have u: "units_of 16 = 1" by (simp add: units_of_def)
  have sz: "size_ok 16" by (simp add: size_ok_def)
  have fr: "free_run (Bits b) (8 * BitsLen b) 1 t = (s \<le> t \<and> t < 8 * BitsLen b)" for t
    using Suc.prems(3)[of t] by (auto simp: free_run_def)
  have ff: "first_fit (Bits b) (8 * BitsLen b) 1 t = (t = s)" for t
    using Suc.prems(4) unfolding first_fit_def fr by (auto simp: order_le_less)
  obtain t bits' where a: "UsbHcAllocMemFromBlock b 1 = Some (BufHost b + 64 * t, b\<lparr>Bits := bits'\<rparr>)"
    and f: "first_fit (Bits b) (8 * BitsLen b) 1 t" and mk: "marked b 1 t bits'"
  proof (rule alloc_from_block'[OF wf, of 1])
    assume "no_room b 1"
    then show thesis using fr[of s] Suc.prems(4) by simp
  qed (simp, rule that)
  have t: "t = s" using f ff by simp
  let ?m = "BufHost b + 64 * s" and ?b = "b\<lparr>Bits := bits'\<rparr>"
  let ?p = "p\<lparr>Blocks := [] @ ?b # []\<rparr>" and ?w = "ZeroMem sv ?m 16 w"
  have dma: "dma_ok sv inuse pooled" using Suc.prems(1) by (simp add: pool_ok_def)
  have iu: "inuse ?w = inuse w" "pooled ?w = pooled w" by (rule dma_zero[OF dma])+
  have bs: "Blocks p = [] @ b # []" using Suc.prems(2) by simp
  note E = alloc_existing[OF Suc.prems(1) sz bs f[folded u] mk[folded u] refl, unfolded t, OF refl iu]
  have "UsbHcAllocateMem sv p 16 w = Some (?m, ?p, ?w)"
    using a E(2) Suc.prems(2) size_ok_round[OF sz] u by (simp add: UsbHcAllocateMem_def Let_def t)
  moreover have "enough sv n ?p ?w"
  proof (rule Suc.IH[OF E(1)])
    show "Blocks ?p = [?b]" by simp
    show "used (Bits ?b) v = (v < Suc s)" if "v < 8 * BitsLen ?b" for v
    proof -
      have "used bits' v = (used (Bits b) v \<or> v = s)" using mk by (simp add: marked_def t)
      moreover have "used (Bits b) v = (v < s)" by (rule Suc.prems(3)) (use that in simp)
      ultimately show ?thesis by auto
    qed
    have "BitsLen ?b = BitsLen b" "BufHost ?b = BufHost b" "Suc s + n = s + Suc n" by simp_all
    then show "Suc s + n \<le> 8 * BitsLen ?b" "BufHost ?b + 64 * (Suc s + n) \<le> 2 ^ 32"
      using Suc.prems(4,5) by (simp_all only:)
  qed
  moreover have "?m < BufHost b + 64 * (s + Suc n)" by simp
  then have "?m < 2 ^ 32" using Suc.prems(5) by (rule less_le_trans)
  ultimately show ?case using E(2) by (simp only: enough.simps option.case prod.case simp_thms)
qed simp

lemma bump_p_room:
  assumes "pool_ok sv inuse pooled I P (bump_p (replicate 128 0)) bump_w"
  shows "enough sv 63 (bump_p (replicate 128 0)) bump_w"
proof (rule block_room[OF assms])
  show "Blocks (bump_p (replicate 128 0)) = [bump_head (replicate 128 0)]"
    unfolding bump_p_def by (simp only: USBHC_MEM_POOL.select_convs)
  have b: "BitsLen (bump_head bits) = 128" "Bits (bump_head bits) = bits" "BufHost (bump_head bits) = 65536" for bits
    unfolding bump_head_def by simp_all
  show "used (Bits (bump_head (replicate 128 0))) u = (u < 0)" if "u < 8 * BitsLen (bump_head (replicate 128 0))" for u
  proof -
    have "u div 8 < 128" using that unfolding b by (simp add: less_mult_imp_div_less)
    then show ?thesis unfolding b used_def by (simp only: nth_replicate) simp
  qed
qed (simp_all add: bump_head_def)

lemmas bump_room = bump_p_room[OF bump_pool_ok_start]

lemma tree_member:
  assumes t: "tree rows Ohc" "length rows = 6" and i: "i < 32" and l: "l < 6" "k < 32 div 2 ^ l"
  shows "rows ! l ! k \<in> set (map (\<lambda>l. rows ! l ! (i div 2 ^ l)) [0..<6]) \<longleftrightarrow> i div 2 ^ l = k"
proof
  assume "rows ! l ! k \<in> set (map (\<lambda>l. rows ! l ! (i div 2 ^ l)) [0..<6])"
  then obtain j where j: "j < 6" "rows ! l ! k = rows ! j ! (i div 2 ^ j)" by auto
  have b: "i div 2 ^ j < length (rows ! j)" "k < length (rows ! l)" using div_row[OF i, of j] t l j by (auto simp: tree_def)
  then have in_row: "rows ! l ! k \<in> set (rows ! j)" "rows ! l ! k \<in> set (rows ! l)" using nth_mem[OF b(1)] nth_mem[OF b(2)] j(2) by simp_all
  have "j = l"
  proof (rule ccontr)
    assume "j \<noteq> l"
    then have "set (rows ! min j l) \<inter> set (rows ! max j l) = {}"
      using t j l by (intro distinct_concat_nth) (auto simp: tree_def min_def max_def)
    then show False using in_row by (auto simp: min_def max_def split: if_splits)
  qed
  moreover have "distinct (rows ! l)" using t l by (simp add: tree_def distinct_concat_iff)
  ultimately show "i div 2 ^ l = k" using j b by (simp add: nth_eq_iff_index_eq)
qed (use l in force)

text \<open>The lists of the table: each ends, and a descriptor of level \<open>l\<close> is on every \<open>2 ^ (5 - l)\<close>-th of them.\<close>

lemma tree_lists:
  assumes t: "tree rows Ohc" "length rows = 6" and tab: "\<forall>i < 32. HccaInterruptTable Ohc ! (Leaf ! i) = word_of_nat (rows ! 0 ! i)"
  shows "\<exists>lst. (\<forall>s < 32. ed_chain (Eds Ohc) (unat (HccaInterruptTable Ohc ! s)) (lst s) 0 \<and> length (lst s) = 6
        \<and> set (lst s) \<subseteq> set (concat rows))
    \<and> (\<forall>l < 6. \<forall>k < 32 div 2 ^ l. \<exists>r < 2 ^ (5 - l). \<forall>s < 32. rows ! l ! k \<in> set (lst s) \<longleftrightarrow> s mod 2 ^ (5 - l) = r)"
proof -
  have "\<exists>i < 32. Leaf ! i = s" if "s < 32" for s
    using that leaf_perm(2,3) by (metis in_set_conv_nth lessThan_iff)
  then obtain ix where ix: "ix s < 32 \<and> Leaf ! ix s = s" if "s < 32" for s by metis
  let ?lst = "\<lambda>s. map (\<lambda>l. rows ! l ! (ix s div 2 ^ l)) [0..<6]"
  have "ed_chain (Eds Ohc) (unat (HccaInterruptTable Ohc ! s)) (?lst s) 0 \<and> set (?lst s) \<subseteq> set (concat rows)" if s: "s < 32" for s
  proof -
    have r: "rows ! l ! (ix s div 2 ^ l) \<in> set (concat rows)" if "l < 6" for l
      using div_row[of "ix s" l] ix[OF s] t that by (intro row_sub) (auto simp: tree_def)
    then have "rows ! 0 ! ix s < 2 ^ 32" using t r[of 0] by (auto simp: tree_def simp del: set_concat)
    then have "unat (HccaInterruptTable Ohc ! s) = rows ! 0 ! ix s" using tab ix[OF s] by auto
    then show ?thesis using tree_chain[OF t, of "ix s" 0] ix[OF s] r by (auto simp del: set_concat)
  qed
  moreover have "\<exists>r < 2 ^ (5 - l). \<forall>s < 32. rows ! l ! k \<in> set (?lst s) \<longleftrightarrow> s mod 2 ^ (5 - l) = r"
    if l: "l < 6" "k < 32 div 2 ^ l" for l k
  proof -
    obtain r where "r < 2 ^ (5 - l)" "\<forall>i < 32. (i div 2 ^ l = k) = (Leaf ! i mod 2 ^ (5 - l) = r)"
      using leaf_spreadD[OF l] by blast
    then show ?thesis using tree_member[OF t _ l] ix by (intro exI[of _ r]) auto
  qed
  ultimately show ?thesis by (intro exI[of _ ?lst]) auto
qed

text \<open>C12: When memory for 63 descriptors is there, \<open>OhciInitializeInterruptList\<close> builds the interrupt schedule:
  all 32 table entries head lists of six descriptors, one per level, that end; a descriptor of level
  \<open>l\<close> is on the lists of exactly those table entries that leave one rest modulo \<open>2 ^ (5 - l)\<close>, so an endpoint
  attached behind it is served in every \<open>2 ^ (5 - l)\<close>-th frame; and all descriptors of the schedule are
  skipped by the controller. Everything else the driver owns is untouched.\<close>

theorem OhciInitializeInterruptList_tree:
  assumes "dev_ok sv inuse pooled I P Ohc" "dev_owned out Ohc" "enough sv 63 (MemPool Ohc) (World Ohc)" "shape Ohc"
  shows "\<exists>Ohc'. OhciInitializeInterruptList sv Ohc = Some (EFI_SUCCESS, Ohc')
    \<and> (\<forall>l < 6. \<forall>k < 32 div 2 ^ l. \<exists>r < 2 ^ (5 - l). \<forall>s < 32. \<exists>xs.
         ed_chain (Eds Ohc') (unat (HccaInterruptTable Ohc' ! s)) xs 0 \<and> length xs = 6
       \<and> (IntervalList Ohc' ! l ! k \<in> set xs \<longleftrightarrow> s mod 2 ^ (5 - l) = r))
    \<and> (\<forall>l < 6. \<forall>k < 32 div 2 ^ l. \<exists>ed. Eds Ohc' (IntervalList Ohc' ! l ! k) = Some ed \<and> Skip ed = 1)
    \<and> dev_ok sv inuse pooled I P Ohc' \<and> (\<exists>new. distinct new \<and> length new = 63 \<and> dev_owned (map ed_region new @ out) Ohc')
    \<and> (\<forall>p \<in> fst ` set out. Eds Ohc' p = Eds Ohc p)"
proof -
  obtain Ohc' rows new where r: "OhciInitializeInterruptList sv Ohc = Some (EFI_SUCCESS, Ohc')" and t: "tree rows Ohc'" "length rows = 6"
    and tab: "\<forall>i < 32. HccaInterruptTable Ohc' ! (Leaf ! i) = word_of_nat (rows ! 0 ! i)" and ok: "dev_ok sv inuse pooled I P Ohc'"
    and new: "distinct new" "set new = set (concat rows)" "dev_owned (map ed_region new @ out) Ohc'"
    and fr: "\<forall>p \<in> fst ` set out. Eds Ohc' p = Eds Ohc p"
    using init_list_tree[OF assms] by blast
  have il: "IntervalList Ohc' ! l ! k = rows ! l ! k" if "l < 6" "k < 32 div 2 ^ l" for l k
    using t that by (simp add: tree_def)
  obtain lst where lst: "\<forall>s < 32. ed_chain (Eds Ohc') (unat (HccaInterruptTable Ohc' ! s)) (lst s) 0 \<and> length (lst s) = 6"
    "\<forall>l < 6. \<forall>k < 32 div 2 ^ l. \<exists>r < 2 ^ (5 - l). \<forall>s < 32. rows ! l ! k \<in> set (lst s) \<longleftrightarrow> s mod 2 ^ (5 - l) = r"
    using tree_lists[OF t tab] by blast
  have "\<exists>r < 2 ^ (5 - l). \<forall>s < 32. \<exists>xs. ed_chain (Eds Ohc') (unat (HccaInterruptTable Ohc' ! s)) xs 0 \<and> length xs = 6
       \<and> (IntervalList Ohc' ! l ! k \<in> set xs \<longleftrightarrow> s mod 2 ^ (5 - l) = r)" if l: "l < 6" "k < 32 div 2 ^ l" for l k
  proof -
    obtain r where "r < 2 ^ (5 - l)" "\<forall>s < 32. rows ! l ! k \<in> set (lst s) \<longleftrightarrow> s mod 2 ^ (5 - l) = r" using lst(2) l by blast
    then show ?thesis unfolding il[OF l] using lst(1) by (intro exI[of _ r]) blast
  qed
  moreover have "\<exists>ed. Eds Ohc' (IntervalList Ohc' ! l ! k) = Some ed \<and> Skip ed = 1" if "l < 6" "k < 32 div 2 ^ l" for l k
    using t that by (auto simp: tree_def Skip_def new_ed_def set_Skip_def set_TdHeadPointer_def bf_get_set_same)
  moreover have "length new = 63"
  proof -
    have "length new = length (concat rows)" using new(1,2) t(1) by (simp add: tree_def distinct_card[symmetric])
    also have "\<dots> = sum_list (map length rows)" by (rule length_concat)
    also have "map length rows = map (\<lambda>j. 32 div 2 ^ j) [0..<6]" using t by (intro nth_equalityI) (simp_all add: tree_def)
    also have "sum_list (map (\<lambda>j. 32 div 2 ^ j) [0..<6]) = (63 :: nat)" by code_simp
    finally show ?thesis .
  qed
  ultimately show ?thesis using r ok new(1,3) fr by blast
qed

theorem OhciInitializeInterruptList_tree_witness:
  "\<exists>Ohc'. OhciInitializeInterruptList bump_services (device_at Map.empty Map.empty (bump_p (replicate 128 0)) bump_w)
      = Some (EFI_SUCCESS, Ohc') \<and> (\<exists>new. length new = 63 \<and> dev_owned (map ed_region new) Ohc')"
proof -
  let ?O = "device_at Map.empty Map.empty (bump_p (replicate 128 0)) bump_w"
  have "dev_ok bump_services dma_used pool_used {} {} ?O" "dev_owned [] ?O" "enough bump_services 63 (MemPool ?O) (World ?O)" "shape ?O"
    using bump_pool_ok_start bump_room by (simp_all add: device_at_def shape_def)
  from OhciInitializeInterruptList_tree[OF this] show ?thesis by auto
qed

end
