(* ===== verification/OhciSched.thy ===== *)
theory OhciSched
  imports OhciUrb
begin

unbundle bit_operations_syntax

text \<open>
  The scheduling routines of the OHCI driver, \<open>OhciSched.c\<close> under
  \<open>src/Silicon/Rockchip/Rk356xPkg/Drivers/OhciDxe/\<close>, with the release routines at the end of
  \<open>OhciUrb.c\<close> that call them: the list of interrupt contexts, the results of transfers, and the timer
  routine that completes and re-submits interrupt transfers. \<open>RaiseTPL (TPL_NOTIFY)\<close> and \<open>RestoreTPL\<close>
  act on the field \<open>Tpl\<close>.
\<close>

section \<open>The list of interrupt contexts\<close>

abbreviation (input) TPL_NOTIFY :: nat where "TPL_NOTIFY \<equiv> 16"

partial_function (option) OhciLastEntry :: "(nat \<rightharpoonup> INTERRUPT_CONTEXT_ENTRY) \<Rightarrow> nat \<Rightarrow> nat option" where
  "OhciLastEntry ents Entry =
    do { e \<leftarrow> ents Entry; if NextEntry e = 0 then Some Entry else OhciLastEntry ents (NextEntry e) }"

definition OhciAddInterruptContextEntry ::
  "'w USB_OHCI_HC_DEV \<Rightarrow> nat \<Rightarrow> (EFI_STATUS \<times> 'w USB_OHCI_HC_DEV) option" where
  "OhciAddInterruptContextEntry Ohc NewEntry =
    (let OriginalTPL = Tpl Ohc;
         Ohc1 = Ohc\<lparr>Tpl := TPL_NOTIFY\<rparr> in
     if InterruptContextList Ohc1 = 0
     then Some (EFI_SUCCESS, Ohc1\<lparr>InterruptContextList := NewEntry, Tpl := OriginalTPL\<rparr>)
     else do {
       Entry \<leftarrow> OhciLastEntry (Ents Ohc1) (InterruptContextList Ohc1);
       e \<leftarrow> Ents Ohc1 Entry;
       Some (EFI_SUCCESS,
         Ohc1\<lparr>Ents := (Ents Ohc1)(Entry \<mapsto> e\<lparr>NextEntry := NewEntry\<rparr>), Tpl := OriginalTPL\<rparr>)
     })"

text \<open>
  The loop over \<open>Entry->DataTd\<close> frees each descriptor after it has read its link, until the link is
  \<open>NULL\<close>: it is \<open>OhciFreeTDs\<close> with the tail \<open>NULL\<close>.
\<close>

definition OhciFreeInterruptContextEntry ::
  "'w dma_services \<Rightarrow> 'w USB_OHCI_HC_DEV \<Rightarrow> nat \<Rightarrow> (EFI_STATUS \<times> 'w USB_OHCI_HC_DEV) option" where
  "OhciFreeInterruptContextEntry sv Ohc Entry =
    (if Entry = 0 then Some (EFI_INVALID_PARAMETER, Ohc) else
     do {
       e \<leftarrow> Ents Ohc Entry;
       let w1 = (if UCBufferMapping e \<noteq> 0 then DmaUnmap sv (UCBufferMapping e) (World Ohc) else World Ohc);
       let w2 = (if UCBuffer e \<noteq> 0 then DmaFreeBuffer sv (EFI_SIZE_TO_PAGES (DataLength e)) (UCBuffer e) w1
                 else w1);
       Ohc \<leftarrow> OhciFreeTDs sv 0 (Entry_DataTd e) (Ohc\<lparr>World := w2\<rparr>);
       Some (EFI_SUCCESS, Ohc\<lparr>World := FreePool sv Entry (World Ohc), Ents := (Ents Ohc)(Entry := None)\<rparr>)
     })"

definition entry_matches :: "u8 \<Rightarrow> u8 \<Rightarrow> INTERRUPT_CONTEXT_ENTRY \<Rightarrow> bool" where
  "entry_matches Addr EndPt e = (DeviceAddress e = Addr \<and> EndPointAddress e = EndPt)"

text \<open>
  What both loops of \<open>OhciFreeInterruptContext\<close> do with an entry they have unlinked: report its data
  toggle when the caller has asked for it (\<open>Want\<close>), and free it.
\<close>

definition OhciDropEntry ::
  "'w dma_services \<Rightarrow> bool \<Rightarrow> nat \<Rightarrow> INTERRUPT_CONTEXT_ENTRY \<Rightarrow> u8 \<Rightarrow> 'w USB_OHCI_HC_DEV
    \<Rightarrow> (u8 \<times> 'w USB_OHCI_HC_DEV) option" where
  "OhciDropEntry sv Want TempEntry e DT Ohc =
    do {
      DT \<leftarrow> (if Want then map_option (\<lambda>td. ucast (DataToggle td AND 1)) (Tds Ohc (Entry_DataTd e)) else Some DT);
      (_, Ohc) \<leftarrow> OhciFreeInterruptContextEntry sv Ohc TempEntry;
      Some (DT, Ohc)
    }"

partial_function (option) OhciFreeHeadEntries ::
  "'w dma_services \<Rightarrow> u8 \<Rightarrow> u8 \<Rightarrow> bool \<Rightarrow> u8 \<Rightarrow> 'w USB_OHCI_HC_DEV \<Rightarrow> (u8 \<times> 'w USB_OHCI_HC_DEV) option" where
  "OhciFreeHeadEntries sv Addr EndPt Want DT Ohc =
    (if InterruptContextList Ohc = 0 then Some (DT, Ohc) else
     do {
       e \<leftarrow> Ents Ohc (InterruptContextList Ohc);
       if entry_matches Addr EndPt e then
         do {
           (DT, Ohc) \<leftarrow> OhciDropEntry sv Want (InterruptContextList Ohc) e DT
                         (Ohc\<lparr>InterruptContextList := NextEntry e\<rparr>);
           OhciFreeHeadEntries sv Addr EndPt Want DT Ohc
         }
       else Some (DT, Ohc)
     })"

partial_function (option) OhciFreeNextEntries ::
  "'w dma_services \<Rightarrow> u8 \<Rightarrow> u8 \<Rightarrow> bool \<Rightarrow> nat \<Rightarrow> u8 \<Rightarrow> 'w USB_OHCI_HC_DEV
    \<Rightarrow> (u8 \<times> 'w USB_OHCI_HC_DEV) option" where
  "OhciFreeNextEntries sv Addr EndPt Want Entry DT Ohc =
    do {
      e \<leftarrow> Ents Ohc Entry;
      if NextEntry e = 0 then Some (DT, Ohc) else
      do {
        n \<leftarrow> Ents Ohc (NextEntry e);
        if entry_matches Addr EndPt n then
          do {
            (DT, Ohc) \<leftarrow> OhciDropEntry sv Want (NextEntry e) n DT
                          (Ohc\<lparr>Ents := (Ents Ohc)(Entry \<mapsto> e\<lparr>NextEntry := NextEntry n\<rparr>)\<rparr>);
            OhciFreeNextEntries sv Addr EndPt Want Entry DT Ohc
          }
        else OhciFreeNextEntries sv Addr EndPt Want (NextEntry e) DT Ohc
      }
    }"

text \<open>\<open>Want\<close> is \<open>DataToggle != NULL\<close>; the toggle reported is part of the result.\<close>

definition OhciFreeInterruptContext ::
  "'w dma_services \<Rightarrow> 'w USB_OHCI_HC_DEV \<Rightarrow> u8 \<Rightarrow> u8 \<Rightarrow> bool \<Rightarrow> u8
    \<Rightarrow> (EFI_STATUS \<times> u8 \<times> 'w USB_OHCI_HC_DEV) option" where
  "OhciFreeInterruptContext sv Ohc Addr EndPt Want DT =
    (let OriginalTPL = Tpl Ohc in
     do {
       (DT, Ohc) \<leftarrow> OhciFreeHeadEntries sv Addr EndPt Want DT (Ohc\<lparr>Tpl := TPL_NOTIFY\<rparr>);
       if InterruptContextList Ohc = 0 then Some (EFI_SUCCESS, DT, Ohc\<lparr>Tpl := OriginalTPL\<rparr>) else
       do {
         (DT, Ohc) \<leftarrow> OhciFreeNextEntries sv Addr EndPt Want (InterruptContextList Ohc) DT Ohc;
         Some (EFI_SUCCESS, DT, Ohc\<lparr>Tpl := OriginalTPL\<rparr>)
       }
     })"

section \<open>Results of transfers\<close>

abbreviation (input) TD_NO_ERROR :: u32 where "TD_NO_ERROR \<equiv> 0x00"
abbreviation (input) TD_CRC_ERROR :: u32 where "TD_CRC_ERROR \<equiv> 0x01"
abbreviation (input) TD_BITSTUFFING_ERROR :: u32 where "TD_BITSTUFFING_ERROR \<equiv> 0x02"
abbreviation (input) TD_DEVICE_STALL :: u32 where "TD_DEVICE_STALL \<equiv> 0x04"
abbreviation (input) TD_NO_RESPONSE :: u32 where "TD_NO_RESPONSE \<equiv> 0x05"
abbreviation (input) TD_BUFFER_OVERRUN :: u32 where "TD_BUFFER_OVERRUN \<equiv> 0x0C"
abbreviation (input) TD_BUFFER_UNDERRUN :: u32 where "TD_BUFFER_UNDERRUN \<equiv> 0x0D"
abbreviation (input) TD_TOBE_PROCESSED :: u32 where "TD_TOBE_PROCESSED \<equiv> 0x0E"
abbreviation (input) TD_TOBE_PROCESSED_2 :: u32 where "TD_TOBE_PROCESSED_2 \<equiv> 0x0F"

abbreviation (input) EFI_USB_NOERROR :: u32 where "EFI_USB_NOERROR \<equiv> 0x00"
abbreviation (input) EFI_USB_ERR_NOTEXECUTE :: u32 where "EFI_USB_ERR_NOTEXECUTE \<equiv> 0x01"
abbreviation (input) EFI_USB_ERR_STALL :: u32 where "EFI_USB_ERR_STALL \<equiv> 0x02"
abbreviation (input) EFI_USB_ERR_BUFFER :: u32 where "EFI_USB_ERR_BUFFER \<equiv> 0x04"
abbreviation (input) EFI_USB_ERR_CRC :: u32 where "EFI_USB_ERR_CRC \<equiv> 0x20"
abbreviation (input) EFI_USB_ERR_TIMEOUT :: u32 where "EFI_USB_ERR_TIMEOUT \<equiv> 0x40"
abbreviation (input) EFI_USB_ERR_BITSTUFF :: u32 where "EFI_USB_ERR_BITSTUFF \<equiv> 0x80"
abbreviation (input) EFI_USB_ERR_SYSTEM :: u32 where "EFI_USB_ERR_SYSTEM \<equiv> 0x100"

definition ConvertErrorCode :: "u32 \<Rightarrow> u32" where
  "ConvertErrorCode ErrorCode =
    (if ErrorCode = TD_NO_ERROR then EFI_USB_NOERROR
     else if ErrorCode = TD_TOBE_PROCESSED \<or> ErrorCode = TD_TOBE_PROCESSED_2 then EFI_USB_ERR_NOTEXECUTE
     else if ErrorCode = TD_DEVICE_STALL then EFI_USB_ERR_STALL
     else if ErrorCode = TD_BUFFER_OVERRUN \<or> ErrorCode = TD_BUFFER_UNDERRUN then EFI_USB_ERR_BUFFER
     else if ErrorCode = TD_CRC_ERROR then EFI_USB_ERR_CRC
     else if ErrorCode = TD_NO_RESPONSE then EFI_USB_ERR_TIMEOUT
     else if ErrorCode = TD_BITSTUFFING_ERROR then EFI_USB_ERR_BITSTUFF
     else EFI_USB_ERR_SYSTEM)"

text \<open>The result is the return value and \<open>*Result\<close>; \<open>Result\<close> is the value accumulated so far.\<close>

partial_function (option) OhciCheckTDs :: "(nat \<rightharpoonup> TD_DESCRIPTOR) \<Rightarrow> nat \<Rightarrow> u32 \<Rightarrow> (bool \<times> u32) option" where
  "OhciCheckTDs tds Td Result =
    (if Td = 0 then Some (True, Result) else
     do {
       td \<leftarrow> tds Td;
       let Result = Result OR ConvertErrorCode (ConditionCode td);
       if Result \<noteq> 0 then Some (False, Result) else OhciCheckTDs tds (unat (NextTDPointer td)) Result
     })"

definition OhciCheckTDsResults :: "(nat \<rightharpoonup> TD_DESCRIPTOR) \<Rightarrow> nat \<Rightarrow> (bool \<times> u32) option" where
  "OhciCheckTDsResults tds Td = OhciCheckTDs tds Td EFI_USB_NOERROR"

record OHCI_ED_RESULT =
  ErrorCode :: u32
  NextToggle :: u8

partial_function (option) CheckEDStatus ::
  "(nat \<rightharpoonup> ED_DESCRIPTOR) \<Rightarrow> (nat \<rightharpoonup> TD_DESCRIPTOR) \<Rightarrow> nat \<Rightarrow> nat \<Rightarrow> OHCI_ED_RESULT
    \<Rightarrow> (u32 \<times> OHCI_ED_RESULT) option" where
  "CheckEDStatus eds tds EdPtr HeadTd EdResult =
    (if HeadTd \<noteq> 0 then
       do {
         td \<leftarrow> tds HeadTd;
         if NextTDPointer td = 0 then Some (TD_NO_ERROR, EdResult)
         else if ConditionCode td \<noteq> 0 then Some (ConditionCode td, EdResult)
         else CheckEDStatus eds tds EdPtr (unat (NextTDPointer td))
                (EdResult\<lparr>NextToggle := (ucast (DataToggle td) AND 1) XOR 1\<rparr>)
       }
     else
       do {
         ed \<leftarrow> eds EdPtr;
         if OhciGetEDField ed ED_TDHEAD_PTR \<noteq> OhciGetEDField ed ED_TDTAIL_PTR
         then Some (TD_TOBE_PROCESSED, EdResult)
         else Some (TD_NO_ERROR, EdResult)
       })"

definition OhciTDConditionCodeToStatus :: "u32 \<Rightarrow> EFI_STATUS" where
  "OhciTDConditionCodeToStatus Code =
    (if Code = TD_NO_ERROR then EFI_SUCCESS
     else if Code = TD_TOBE_PROCESSED then EFI_NOT_READY
     else EFI_DEVICE_ERROR)"

text \<open>Is the list still marked as filled in HcCommandStatus? Only the control and bulk lists are.\<close>

definition list_filled ::
  "'w mmio \<Rightarrow> u32 \<Rightarrow> DESCRIPTOR_LIST_TYPE \<Rightarrow> 'w \<Rightarrow> (bool \<times> 'w) option" where
  "list_filled io base ListType w =
    (let test = (\<lambda>sel. case OhciGetHcCommandStatus io base sel w of
                         (None, w1) \<Rightarrow> None | (Some v, w1) \<Rightarrow> Some (v \<noteq> 0, w1)) in
     case ListType of
       CONTROL_LIST \<Rightarrow> test CONTROL_LIST_FILLED
     | BULK_LIST \<Rightarrow> test BULK_LIST_FILLED
     | _ \<Rightarrow> Some (False, w))"

definition CheckIfDone ::
  "'w mmio \<Rightarrow> 'w USB_OHCI_HC_DEV \<Rightarrow> DESCRIPTOR_LIST_TYPE \<Rightarrow> nat \<Rightarrow> nat \<Rightarrow> OHCI_ED_RESULT
    \<Rightarrow> (EFI_STATUS \<times> OHCI_ED_RESULT \<times> 'w USB_OHCI_HC_DEV) option" where
  "CheckIfDone io Ohc ListType EdPtr HeadTd EdResult =
    do {
      let EdResult = EdResult\<lparr>ErrorCode := TD_TOBE_PROCESSED\<rparr>;
      (filled, w) \<leftarrow> list_filled io (UsbHcBaseAddress Ohc) ListType (World Ohc);
      let Ohc = Ohc\<lparr>World := w\<rparr>;
      if filled then Some (EFI_NOT_READY, EdResult, Ohc) else
      do {
        (code, EdResult) \<leftarrow> CheckEDStatus (Eds Ohc) (Tds Ohc) EdPtr HeadTd EdResult;
        let EdResult = EdResult\<lparr>ErrorCode := code\<rparr>;
        if ErrorCode EdResult = TD_NO_ERROR then Some (EFI_SUCCESS, EdResult, Ohc)
        else if ErrorCode EdResult = TD_TOBE_PROCESSED then Some (EFI_NOT_READY, EdResult, Ohc)
        else Some (EFI_DEVICE_ERROR, EdResult, Ohc)
      }
    }"

section \<open>The timer routine\<close>

text \<open>
  A call-back is code of the USB drivers above: \<open>cb f data length context result\<close> is the call of the
  function at address \<open>f\<close>, and it may change the state of the controller (cancel transfers, submit
  new ones).
\<close>

type_synonym 'w callback =
  "nat \<Rightarrow> nat \<Rightarrow> u32 \<Rightarrow> nat \<Rightarrow> u32 \<Rightarrow> 'w USB_OHCI_HC_DEV \<Rightarrow> 'w USB_OHCI_HC_DEV"

definition OhciInvokeInterruptCallBack ::
  "'w callback \<Rightarrow> INTERRUPT_CONTEXT_ENTRY \<Rightarrow> u32 \<Rightarrow> 'w USB_OHCI_HC_DEV \<Rightarrow> 'w USB_OHCI_HC_DEV option" where
  "OhciInvokeInterruptCallBack cb e Result Ohc =
    (if Result \<noteq> 0 then Some (cb (CallBackFunction e) 0 0 (Context e) Result Ohc)
     else map_option (\<lambda>td. cb (CallBackFunction e) (unat (DataBuffer td)) (ActualSendLength td) (Context e) Result Ohc)
            (Tds Ohc (Entry_DataTd e)))"

text \<open>The loop that gives the descriptors alternating toggles; the last one gets 0.\<close>

partial_function (option) OhciToggleTDs ::
  "(nat \<rightharpoonup> TD_DESCRIPTOR) \<Rightarrow> nat \<Rightarrow> u8 \<Rightarrow> (nat \<rightharpoonup> TD_DESCRIPTOR) option" where
  "OhciToggleTDs tds Td Tog =
    (if Td = 0 then Some tds else
     do {
       td \<leftarrow> tds Td;
       if NextTDPointer td = 0 then Some (tds(Td \<mapsto> set_DataToggle 0 td))
       else OhciToggleTDs (tds(Td \<mapsto> OhciSetTDField td TD_DT_TOGGLE (ucast Tog)))
              (unat (NextTDPointer td)) (Tog XOR 1)
     })"

text \<open>The loop that makes the descriptors ready again; its result has the value of \<open>DataTd\<close> at the end.\<close>

partial_function (option) OhciRearmTDs ::
  "(nat \<rightharpoonup> TD_DESCRIPTOR) \<Rightarrow> nat \<Rightarrow> (nat \<times> (nat \<rightharpoonup> TD_DESCRIPTOR)) option" where
  "OhciRearmTDs tds Td =
    (if Td = 0 then Some (0, tds) else
     do {
       td \<leftarrow> tds Td;
       if NextTDPointer td = 0 then
         Some (Td, tds(Td \<mapsto> OhciSetTDField td (TD_ERROR_CNT OR TD_COND_CODE OR TD_CURR_BUFFER_PTR OR TD_NEXT_PTR) 0))
       else
         let td1 = OhciSetTDField (OhciSetTDField td TD_ERROR_CNT 0) TD_COND_CODE TD_TOBE_PROCESSED in
         OhciRearmTDs (tds(Td \<mapsto> td1\<lparr>NextTD := NextTDPointer td1, CurrBufferPointer := DataBuffer td1\<rparr>))
           (unat (NextTDPointer td))
     })"

definition OhciResubmit :: "nat \<Rightarrow> nat \<Rightarrow> 'w USB_OHCI_HC_DEV \<Rightarrow> 'w USB_OHCI_HC_DEV option" where
  "OhciResubmit EdPtr HeadTd Ohc =
    do {
      ed \<leftarrow> Eds Ohc EdPtr;
      let ed = (if HeadTd \<noteq> 0 then set_Skip 1 ed else ed);
      Tog \<leftarrow> OhciGetEDField ed ED_DTTOGGLE;
      tds \<leftarrow> OhciToggleTDs (Tds Ohc) HeadTd (ucast Tog);
      (DataTd, tds) \<leftarrow> OhciRearmTDs tds HeadTd;
      let ed = (if DataTd \<noteq> 0
                then set_Skip 0 (OhciSetEDField (set_TdHeadPointer (word_of_nat (HeadTd div 16)) ed)
                                  (ED_HALTED OR ED_DTTOGGLE) 0)
                else ed);
      Some (Ohc\<lparr>Eds := (Eds Ohc)(EdPtr \<mapsto> ed), Tds := tds\<rparr>)
    }"

text \<open>
  The loop of \<open>OhciHouseKeeper\<close>, with its early returns. A transfer that is not periodic is taken off
  the list and freed: the code sets \<open>PreEntry\<close> to \<open>Entry\<close> before it stores the link through it, and
  frees \<open>PreEntry\<close>. Two of the returns do not restore the task priority level.
\<close>

partial_function (option) OhciHouseKeeperLoop ::
  "'w callback \<Rightarrow> 'w dma_services \<Rightarrow> nat \<Rightarrow> nat \<Rightarrow> nat \<Rightarrow> 'w USB_OHCI_HC_DEV \<Rightarrow> 'w USB_OHCI_HC_DEV option" where
  "OhciHouseKeeperLoop cb sv OriginalTPL PreEntry Entry Ohc =
    (if Entry = 0 then Some (Ohc\<lparr>Tpl := OriginalTPL\<rparr>) else
     do {
       e \<leftarrow> Ents Ohc Entry;
       (_, Result) \<leftarrow> OhciCheckTDsResults (Tds Ohc) (Entry_DataTd e);
       if Result AND EFI_USB_ERR_STALL = EFI_USB_ERR_STALL
          \<or> Result AND EFI_USB_ERR_NOTEXECUTE = EFI_USB_ERR_NOTEXECUTE
       then OhciHouseKeeperLoop cb sv OriginalTPL Entry (NextEntry e) Ohc
       else do {
         Ohc \<leftarrow> (if CallBackFunction e \<noteq> 0 then OhciInvokeInterruptCallBack cb e Result Ohc else Some Ohc);
         if CallBackFunction e \<noteq> 0 \<and> InterruptContextList Ohc = 0 then Some (Ohc\<lparr>Tpl := OriginalTPL\<rparr>) else
         do {
           e \<leftarrow> Ents Ohc Entry;
           if IsPeriodic e then
             if Result = EFI_USB_NOERROR \<and> Entry_Ed e \<noteq> 0 then
               do {
                 Ohc \<leftarrow> OhciResubmit (Entry_Ed e) (Entry_DataTd e) Ohc;
                 OhciHouseKeeperLoop cb sv OriginalTPL Entry (NextEntry e) Ohc
               }
             else Some Ohc
           else
             do {
               (_, Ohc) \<leftarrow> (if PreEntry = 0
                  then OhciFreeInterruptContextEntry sv (Ohc\<lparr>InterruptContextList := NextEntry e\<rparr>) 0
                  else OhciFreeInterruptContextEntry sv Ohc Entry);
               Some (Ohc\<lparr>Tpl := OriginalTPL\<rparr>)
             }
         }
       }
     })"

definition OhciHouseKeeper ::
  "'w callback \<Rightarrow> 'w dma_services \<Rightarrow> 'w USB_OHCI_HC_DEV \<Rightarrow> 'w USB_OHCI_HC_DEV option" where
  "OhciHouseKeeper cb sv Ohc =
    OhciHouseKeeperLoop cb sv (Tpl Ohc) 0 (InterruptContextList Ohc) (Ohc\<lparr>Tpl := TPL_NOTIFY\<rparr>)"

section \<open>Release of the interrupt transfer memory\<close>

partial_function (option) OhciFreeDynamicIntMemory ::
  "'w dma_services \<Rightarrow> 'w USB_OHCI_HC_DEV \<Rightarrow> 'w USB_OHCI_HC_DEV option" where
  "OhciFreeDynamicIntMemory sv Ohc =
    (if InterruptContextList Ohc = 0 then Some Ohc else
     do {
       let Entry = InterruptContextList Ohc;
       e \<leftarrow> Ents Ohc Entry;
       (_, Ohc) \<leftarrow> OhciFreeInterruptEdByEd sv (Ohc\<lparr>InterruptContextList := NextEntry e\<rparr>) (Entry_Ed e);
       (_, Ohc) \<leftarrow> OhciFreeInterruptContextEntry sv Ohc Entry;
       OhciFreeDynamicIntMemory sv Ohc
     })"

fun OhciFreeEds :: "'w dma_services \<Rightarrow> nat list \<Rightarrow> 'w USB_OHCI_HC_DEV \<Rightarrow> 'w USB_OHCI_HC_DEV option" where
  "OhciFreeEds sv [] Ohc = Some Ohc"
| "OhciFreeEds sv (p # ps) Ohc =
    do { (_, Ohc) \<leftarrow> OhciFreeED sv Ohc p; OhciFreeEds sv ps Ohc }"

definition OhciFreeFixedIntMemory ::
  "'w dma_services \<Rightarrow> 'w USB_OHCI_HC_DEV \<Rightarrow> 'w USB_OHCI_HC_DEV option" where
  "OhciFreeFixedIntMemory sv Ohc =
    OhciFreeEds sv (concat (map (\<lambda>(Level, Count). take Count (IntervalList Ohc ! Level))
      [(0, 32), (1, 16), (2, 8), (3, 4), (4, 2), (5, 1)])) Ohc"

definition OhciFreeIntTransferMemory ::
  "'w dma_services \<Rightarrow> 'w USB_OHCI_HC_DEV \<Rightarrow> (EFI_STATUS \<times> 'w USB_OHCI_HC_DEV) option" where
  "OhciFreeIntTransferMemory sv Ohc =
    do {
      Ohc \<leftarrow> OhciFreeDynamicIntMemory sv Ohc;
      Ohc \<leftarrow> OhciFreeFixedIntMemory sv Ohc;
      Some (EFI_SUCCESS, Ohc)
    }"

section \<open>Results\<close>

lemma convert_zero: "ConvertErrorCode c = 0 \<longleftrightarrow> c = 0"
  by (auto simp: ConvertErrorCode_def)

lemma convert_0 [simp]: "ConvertErrorCode 0 = 0"
  by (simp add: convert_zero)

lemma check_tds:
  "tdp_chain tds Td xs 0 \<Longrightarrow> OhciCheckTDs tds Td 0 =
    Some (case find (\<lambda>p. ConditionCode (the (tds p)) \<noteq> 0) xs of
            None \<Rightarrow> (True, 0) | Some p \<Rightarrow> (False, ConvertErrorCode (ConditionCode (the (tds p)))))"
proof (induction xs arbitrary: Td)
  case Nil
  then show ?case by (simp add: OhciCheckTDs.simps)
next
  case (Cons x xs)
  then obtain td where "Td = x" "x \<noteq> 0" "tds x = Some td" "tdp_chain tds (unat (NextTDPointer td)) xs 0"
    by (auto split: option.splits)
  then show ?case using Cons.IH by (subst OhciCheckTDs.simps) (simp add: convert_zero Let_def)
qed

lemma check_ed:
  "tdp_chain tds Td (xs @ [y]) 0 \<Longrightarrow> \<exists>r. CheckEDStatus eds tds EdPtr Td EdResult =
    Some (case find (\<lambda>p. ConditionCode (the (tds p)) \<noteq> 0) xs of
            None \<Rightarrow> 0 | Some p \<Rightarrow> ConditionCode (the (tds p)), r)"
proof (induction xs arbitrary: Td EdResult)
  case Nil
  then show ?case by (subst CheckEDStatus.simps) (auto split: option.splits simp: unat_eq_0)
next
  case (Cons x xs)
  then obtain td where td: "Td = x" "x \<noteq> 0" "tds x = Some td" "tdp_chain tds (unat (NextTDPointer td)) (xs @ [y]) 0"
    by (auto split: option.splits)
  moreover have "NextTDPointer td \<noteq> 0" using td(4) by (auto simp: chain_end)
  ultimately show ?case using Cons.IH by (subst CheckEDStatus.simps) simp
qed

section \<open>The list of contexts\<close>

abbreviation entry_chain :: "(nat \<rightharpoonup> INTERRUPT_CONTEXT_ENTRY) \<Rightarrow> nat \<Rightarrow> nat list \<Rightarrow> nat \<Rightarrow> bool" where
  "entry_chain \<equiv> chain NextEntry"

lemma last_entry:
  "entry_chain ents p (xs @ [y]) 0 \<Longrightarrow> OhciLastEntry ents p = Some y"
proof (induction xs arbitrary: p)
  case Nil
  then show ?case by (subst OhciLastEntry.simps) (auto split: option.splits)
next
  case (Cons x xs)
  then obtain e where e: "p = x" "ents x = Some e" "entry_chain ents (NextEntry e) (xs @ [y]) 0"
    by (auto split: option.splits)
  moreover have "NextEntry e \<noteq> 0" using chain_nonempty[OF e(3)] by simp
  ultimately show ?case using Cons.IH by (subst OhciLastEntry.simps) simp
qed

lemma add_entry:
  assumes c: "entry_chain (Ents Ohc) (InterruptContextList Ohc) xs 0"
    and new: "Ents Ohc n = Some e" "NextEntry e = 0" "n \<noteq> 0" "n \<notin> set xs"
  shows "\<exists>ents'. OhciAddInterruptContextEntry Ohc n = Some (EFI_SUCCESS, Ohc\<lparr>InterruptContextList := hd (xs @ [n]), Ents := ents'\<rparr>)
    \<and> entry_chain ents' (hd (xs @ [n])) (xs @ [n]) 0"
proof (cases xs rule: rev_cases)
  case Nil
  then have "InterruptContextList Ohc = 0" using c by simp
  then show ?thesis using Nil new by (intro exI[of _ "Ents Ohc"]) (simp add: OhciAddInterruptContextEntry_def)
next
  case (snoc ys y)
  then have ne: "InterruptContextList Ohc = hd (xs @ [n])" "InterruptContextList Ohc \<noteq> 0" using c by (cases ys; auto)+
  obtain v where v: "Ents Ohc y = Some v" using chain_last[OF c] snoc by auto
  have "entry_chain (Ents Ohc) n [n] 0" using new by simp
  from chain_link[OF c _ this, of "v\<lparr>NextEntry := n\<rparr>"] snoc new(4)
  have "entry_chain ((Ents Ohc)(y \<mapsto> v\<lparr>NextEntry := n\<rparr>)) (InterruptContextList Ohc) (xs @ [n]) 0" by auto
  moreover have "OhciLastEntry (Ents Ohc) (InterruptContextList Ohc) = Some y" using last_entry c snoc by blast
  ultimately show ?thesis
    using ne v by (intro exI[of _ "(Ents Ohc)(y \<mapsto> v\<lparr>NextEntry := n\<rparr>)"])
      (simp add: OhciAddInterruptContextEntry_def Let_def)
qed

section \<open>Release of contexts\<close>

text \<open>The DMA buffer of a context.\<close>

definition buf_of :: "INTERRUPT_CONTEXT_ENTRY \<Rightarrow> nat set" where
  "buf_of e = (if UCBuffer e = 0 then {}
     else {UCBuffer e..<UCBuffer e + 4096 * unat (EFI_SIZE_TO_PAGES (DataLength e))})"

lemma pool_ok_frame:
  assumes "pool_ok sv inuse pooled I P p w" "X \<subseteq> I" "Y \<subseteq> P"
    and "inuse w' = inuse w - X" "pooled w' = pooled w - Y"
  shows "pool_ok sv inuse pooled (I - X) (P - Y) p w'"
  using assms unfolding pool_ok_def by blast

lemma free_entry:
  assumes ok: "dev_ok sv inuse pooled I P Ohc" and e: "p \<noteq> 0" "Ents Ohc p = Some e" "p \<in> P" "buf_of e \<subseteq> I"
    and c: "tdp_chain (Tds Ohc) (Entry_DataTd e) xs 0" and own: "dev_owned (map td_region xs @ out) Ohc"
  shows "\<exists>pool w. OhciFreeInterruptContextEntry sv Ohc p = Some (EFI_SUCCESS, Ohc\<lparr>MemPool := pool, World := w,
        Tds := Tds Ohc |` (- set xs), Ents := (Ents Ohc)(p := None)\<rparr>)
    \<and> pool_ok sv inuse pooled (I - buf_of e) (P - {p}) pool w \<and> owned size_ok pool_held footprint out pool
    \<and> pool_live pool = pool_live (MemPool Ohc) - feet footprint (map td_region xs)"
proof -
  have dma: "dma_ok sv inuse pooled" using ok by (simp add: pool_ok_def)
  define w1 where "w1 = (if UCBufferMapping e \<noteq> 0 then DmaUnmap sv (UCBufferMapping e) (World Ohc) else World Ohc)"
  define w2 where "w2 = (if UCBuffer e \<noteq> 0 then DmaFreeBuffer sv (EFI_SIZE_TO_PAGES (DataLength e)) (UCBuffer e) w1 else w1)"
  have w2: "inuse w2 = inuse (World Ohc) - buf_of e" "pooled w2 = pooled (World Ohc)"
    by (auto simp: w1_def w2_def buf_of_def dma_frame[OF dma])
  let ?O = "Ohc\<lparr>World := w2\<rparr>"
  have ok2: "dev_ok sv inuse pooled (I - buf_of e) P ?O"
    using pool_ok_frame[OF ok e(4), of "{}" w2] w2 by simp
  obtain pool w where f: "OhciFreeTDs sv 0 (Entry_DataTd e) ?O = Some (?O\<lparr>MemPool := pool, World := w, Tds := Tds ?O |` (- set xs)\<rparr>)"
    "pool_ok sv inuse pooled (I - buf_of e) P pool w" "owned size_ok pool_held footprint out pool"
    "pool_live pool = pool_live (MemPool ?O) - feet footprint (map td_region xs)"
    using free_tds[OF ok2, of "Entry_DataTd e" xs 0 out] c own by auto
  have "pool_ok sv inuse pooled (I - buf_of e) (P - {p}) pool (FreePool sv p w)"
    using pool_ok_frame[OF f(2), of "{}" "{p}" "FreePool sv p w"] e(3) by (simp add: dma_frame[OF dma])
  moreover have "OhciFreeInterruptContextEntry sv Ohc p = do { O' \<leftarrow> OhciFreeTDs sv 0 (Entry_DataTd e) ?O;
      Some (EFI_SUCCESS, O'\<lparr>World := FreePool sv p (World O'), Ents := (Ents O')(p := None)\<rparr>) }"
    using e(1,2) by (simp add: OhciFreeInterruptContextEntry_def Let_def w1_def w2_def)
  ultimately show ?thesis
    using f by (intro exI[of _ pool] exI[of _ "FreePool sv p w"]) simp
qed

text \<open>
  A list of contexts that owns what its members point to: each has a pool allocation, a DMA buffer
  and a list of transfer descriptors of its own.
\<close>

definition contexts ::
  "nat set \<Rightarrow> nat set \<Rightarrow> (nat \<Rightarrow> nat list) \<Rightarrow> nat list \<Rightarrow> (nat \<rightharpoonup> INTERRUPT_CONTEXT_ENTRY) \<Rightarrow> (nat \<rightharpoonup> TD_DESCRIPTOR) \<Rightarrow> bool" where
  "contexts I P tdl ps ents tds \<longleftrightarrow>
     (\<forall>p \<in> set ps. p \<in> P \<and> (\<exists>e. ents p = Some e \<and> tdl p \<noteq> [] \<and> tdp_chain tds (Entry_DataTd e) (tdl p) 0 \<and> buf_of e \<subseteq> I))
   \<and> sorted_wrt (\<lambda>p q. buf_of (the (ents p)) \<inter> buf_of (the (ents q)) = {} \<and> set (tdl p) \<inter> set (tdl q) = {}) ps"

abbreviation td_regions :: "(nat \<Rightarrow> nat list) \<Rightarrow> nat list \<Rightarrow> (nat \<times> u64) list" where
  "td_regions tdl ps \<equiv> concat (map (\<lambda>p. map td_region (tdl p)) ps)"

lemma contexts_remove:
  assumes c: "contexts I P tdl (xs @ p # ys) ents tds" and d: "p \<notin> set (xs @ ys)" and e: "ents p = Some e"
    and same: "\<And>q. q \<in> set (xs @ ys) \<Longrightarrow> \<exists>f. ents q = Some f \<and> (\<exists>g. ents' q = Some g \<and> Entry_DataTd g = Entry_DataTd f \<and> buf_of g = buf_of f)"
  shows "contexts (I - buf_of e) (P - {p}) tdl (xs @ ys) ents' (tds |` (- set (tdl p)))"
proof -
  have dj: "buf_of e \<inter> buf_of (the (ents q)) = {} \<and> set (tdl p) \<inter> set (tdl q) = {}" if "q \<in> set (xs @ ys)" for q
    using c that e by (auto simp: contexts_def sorted_wrt_append)
  have b: "buf_of (the (ents' q)) = buf_of (the (ents q))" if "q \<in> set (xs @ ys)" for q
    using same[OF that] by auto
  have "q \<in> P - {p} \<and> (\<exists>g. ents' q = Some g \<and> tdl q \<noteq> [] \<and> tdp_chain (tds |` (- set (tdl p))) (Entry_DataTd g) (tdl q) 0 \<and> buf_of g \<subseteq> I - buf_of e)"
    if q: "q \<in> set (xs @ ys)" for q
  proof -
    obtain f g where fg: "ents q = Some f" "ents' q = Some g" "Entry_DataTd g = Entry_DataTd f" "buf_of g = buf_of f"
      using same[OF q] by blast
    have "q \<in> P \<and> (\<exists>e. ents q = Some e \<and> tdl q \<noteq> [] \<and> tdp_chain tds (Entry_DataTd e) (tdl q) 0 \<and> buf_of e \<subseteq> I)"
      using c q unfolding contexts_def by simp
    then have m: "q \<in> P" "tdl q \<noteq> []" "tdp_chain tds (Entry_DataTd f) (tdl q) 0" "buf_of f \<subseteq> I"
      using fg(1) by auto
    have "tdp_chain (tds |` (- set (tdl p))) (Entry_DataTd f) (tdl q) 0 = tdp_chain tds (Entry_DataTd f) (tdl q) 0"
      by (rule chain_cong) (use dj[OF q] in \<open>auto simp: restrict_map_def\<close>)
    then show ?thesis using m fg dj[OF q] d q by auto
  qed
  moreover have "sorted_wrt (\<lambda>p q. buf_of (the (ents' p)) \<inter> buf_of (the (ents' q)) = {} \<and> set (tdl p) \<inter> set (tdl q) = {}) (xs @ ys)"
  proof -
    have "sorted_wrt (\<lambda>p q. buf_of (the (ents p)) \<inter> buf_of (the (ents q)) = {} \<and> set (tdl p) \<inter> set (tdl q) = {}) (xs @ ys)"
      using c by (auto simp: contexts_def sorted_wrt_append)
    then show ?thesis by (rule sorted_wrt_mono_rel[rotated]) (simp add: b)
  qed
  ultimately show ?thesis by (auto simp: contexts_def)
qed

lemma restrict_UNIV [simp]: "m |` UNIV = m"
  by (auto simp: restrict_map_def)

lemma restrict_drop: "m(p := None) |` (- S) = m |` (- insert p S)"
  by (auto simp: restrict_map_def)

lemma buf_of_link [simp]: "buf_of (e\<lparr>NextEntry := n\<rparr>) = buf_of e"
  by (simp add: buf_of_def)

text \<open>The invariant of the two loops of \<open>OhciFreeInterruptContext\<close>.\<close>

definition ctx_inv where
  "ctx_inv sv inuse pooled tdl out I P ps Ohc \<longleftrightarrow> dev_ok sv inuse pooled I P Ohc
     \<and> entry_chain (Ents Ohc) (InterruptContextList Ohc) ps 0
     \<and> contexts I P tdl ps (Ents Ohc) (Tds Ohc) \<and> dev_owned (td_regions tdl ps @ out) Ohc"

text \<open>
  What the release of the contexts \<open>X\<close> takes away, and all that it takes away: their transfer descriptors, from the heap and from the
  memory of the pool that is in use. A context that stays keeps everything but its link.
\<close>

abbreviation unlinked :: "INTERRUPT_CONTEXT_ENTRY \<Rightarrow> INTERRUPT_CONTEXT_ENTRY" where
  "unlinked e \<equiv> e\<lparr>NextEntry := 0\<rparr>"

definition released :: "(nat \<Rightarrow> nat list) \<Rightarrow> nat set \<Rightarrow> 'w USB_OHCI_HC_DEV \<Rightarrow> 'w USB_OHCI_HC_DEV \<Rightarrow> bool" where
  "released tdl X Ohc Ohc' \<longleftrightarrow> Tds Ohc' = Tds Ohc |` (- (\<Union>p \<in> X. set (tdl p)))
     \<and> pool_live (MemPool Ohc') = pool_live (MemPool Ohc) - (\<Union>p \<in> X. feet footprint (map td_region (tdl p)))
     \<and> (\<forall>q. q \<notin> X \<longrightarrow> map_option unlinked (Ents Ohc' q) = map_option unlinked (Ents Ohc q))"

lemma released_none [simp]: "released tdl {} Ohc Ohc"
  by (simp add: released_def)

lemma released_trans: "released tdl X Ohc O1 \<Longrightarrow> released tdl Y O1 O2 \<Longrightarrow> released tdl (X \<union> Y) Ohc O2"
  by (auto simp: released_def restrict_map_def)

text \<open>\<open>OhcU\<close> is \<open>Ohc\<close> with \<open>p\<close> unlinked: the list of the others is right, and nothing else has changed.\<close>

lemma drop_entry:
  assumes inv: "ctx_inv sv inuse pooled tdl out I P (xs @ p # ys) Ohc" and e: "Ents Ohc p = Some e"
    and O1: "OhcU = Ohc\<lparr>InterruptContextList := l, Ents := entsU\<rparr>" "entry_chain entsU l (xs @ ys) 0"
    and same: "entsU p = Some e" "\<And>q. q \<in> set (xs @ ys) \<Longrightarrow> \<exists>f g. Ents Ohc q = Some f \<and> entsU q = Some g
        \<and> Entry_DataTd g = Entry_DataTd f \<and> buf_of g = buf_of f"
    and links: "\<And>q. map_option unlinked (entsU q) = map_option unlinked (Ents Ohc q)"
  shows "\<exists>DT' pool w. OhciDropEntry sv Want p e DT OhcU = Some (DT', OhcU\<lparr>MemPool := pool, World := w,
        Tds := Tds Ohc |` (- set (tdl p)), Ents := entsU(p := None)\<rparr>)
    \<and> ctx_inv sv inuse pooled tdl out (I - buf_of e) (P - {p}) (xs @ ys) (OhcU\<lparr>MemPool := pool, World := w,
        Tds := Tds Ohc |` (- set (tdl p)), Ents := entsU(p := None)\<rparr>)
    \<and> released tdl {p} Ohc (OhcU\<lparr>MemPool := pool, World := w,
        Tds := Tds Ohc |` (- set (tdl p)), Ents := entsU(p := None)\<rparr>)"
proof -
  have ok: "dev_ok sv inuse pooled I P OhcU" and ctx: "contexts I P tdl (xs @ p # ys) (Ents Ohc) (Tds Ohc)"
    and own: "dev_owned (td_regions tdl (xs @ p # ys) @ out) Ohc"
    using inv by (simp_all add: ctx_inv_def O1)
  have d: "distinct (xs @ p # ys)" "p \<noteq> 0"
    using inv chain_distinct chain_no_end unfolding ctx_inv_def by fastforce+
  have m: "p \<in> P" "tdl p \<noteq> []" "tdp_chain (Tds OhcU) (Entry_DataTd e) (tdl p) 0" "buf_of e \<subseteq> I"
    using ctx e unfolding contexts_def by (auto simp: O1(1))
  have own1: "dev_owned (map td_region (tdl p) @ (td_regions tdl (xs @ ys) @ out)) OhcU"
    using own by (auto simp: O1(1))
  obtain pool w where f: "OhciFreeInterruptContextEntry sv OhcU p = Some (EFI_SUCCESS, OhcU\<lparr>MemPool := pool, World := w,
        Tds := Tds OhcU |` (- set (tdl p)), Ents := (Ents OhcU)(p := None)\<rparr>)"
    "pool_ok sv inuse pooled (I - buf_of e) (P - {p}) pool w"
    "owned size_ok pool_held footprint (td_regions tdl (xs @ ys) @ out) pool"
    "pool_live pool = pool_live (MemPool Ohc) - feet footprint (map td_region (tdl p))"
    using free_entry[OF ok d(2) _ m(1,4,3) own1] same(1) O1(1) by auto
  have td: "Tds OhcU (Entry_DataTd e) \<noteq> None" using m(2,3) chain_nonempty[OF m(3)] chain_dom[OF m(3)] by (cases "tdl p") auto
  have "contexts (I - buf_of e) (P - {p}) tdl (xs @ ys) (entsU(p := None)) (Tds Ohc |` (- set (tdl p)))"
    by (rule contexts_remove[OF ctx _ e]) (use d same(2) in auto)
  moreover have "entry_chain (entsU(p := None)) l (xs @ ys) 0" using O1(2) d by (simp add: chain_frame)
  ultimately have "ctx_inv sv inuse pooled tdl out (I - buf_of e) (P - {p}) (xs @ ys) (OhcU\<lparr>MemPool := pool, World := w,
        Tds := Tds Ohc |` (- set (tdl p)), Ents := entsU(p := None)\<rparr>)"
    using f(2,3) by (simp add: O1(1) ctx_inv_def)
  moreover have "\<exists>DT'. OhciDropEntry sv Want p e DT OhcU = Some (DT', OhcU\<lparr>MemPool := pool, World := w,
        Tds := Tds Ohc |` (- set (tdl p)), Ents := entsU(p := None)\<rparr>)"
    using f(1) td by (cases Want) (auto simp: OhciDropEntry_def O1(1))
  moreover have "released tdl {p} Ohc (OhcU\<lparr>MemPool := pool, World := w,
        Tds := Tds Ohc |` (- set (tdl p)), Ents := entsU(p := None)\<rparr>)"
    using links f(4) by (simp add: released_def)
  ultimately show ?thesis by blast
qed

lemma free_heads:
  assumes "ctx_inv sv inuse pooled tdl out I P ps Ohc"
    and "\<And>p. p \<in> set ps \<Longrightarrow> M p = entry_matches A E (the (Ents Ohc p))"
  shows "\<exists>DT' Ohc' I' P'. OhciFreeHeadEntries sv A E Want DT Ohc = Some (DT', Ohc') \<and> Tpl Ohc' = Tpl Ohc
    \<and> ctx_inv sv inuse pooled tdl out I' P' (dropWhile M ps) Ohc'
    \<and> Ents Ohc' = Ents Ohc |` (- set (takeWhile M ps)) \<and> released tdl (set (takeWhile M ps)) Ohc Ohc'
    \<and> I' = I - (\<Union>p \<in> set (takeWhile M ps). buf_of (the (Ents Ohc p))) \<and> P' = P - set (takeWhile M ps)"
  using assms
proof (induction ps arbitrary: I P Ohc DT)
  case Nil
  then have "InterruptContextList Ohc = 0" by (simp add: ctx_inv_def)
  then show ?case using Nil by (subst OhciFreeHeadEntries.simps) simp
next
  case (Cons p ps)
  obtain e where p: "InterruptContextList Ohc = p" "p \<noteq> 0" and e: "Ents Ohc p = Some e" "entry_chain (Ents Ohc) (NextEntry e) ps 0"
    using Cons.prems(1) by (auto simp: ctx_inv_def split: option.splits)
  have "distinct (p # ps)" using Cons.prems(1) chain_distinct unfolding ctx_inv_def by blast
  then have d: "p \<notin> set ps" by simp
  show ?case
  proof (cases "M p")
    case False
    then show ?thesis using Cons.prems p e by (subst OhciFreeHeadEntries.simps) auto
  next
    case True
    let ?O = "Ohc\<lparr>InterruptContextList := NextEntry e\<rparr>"
    have mem: "\<And>q. q \<in> set ([] @ ps) \<Longrightarrow> \<exists>f g. Ents Ohc q = Some f \<and> Ents Ohc q = Some g
        \<and> Entry_DataTd g = Entry_DataTd f \<and> buf_of g = buf_of f"
      using chain_dom[OF e(2)] by (auto simp: dom_def)
    have pre: "ctx_inv sv inuse pooled tdl out I P ([] @ p # ps) Ohc" using Cons.prems(1) by simp
    from drop_entry[OF pre e(1), where OhcU = ?O and l = "NextEntry e" and entsU = "Ents Ohc" and Want = Want and DT = DT,
        OF _ _ e(1) mem] e(2)
    obtain DT1 pool w where dr: "OhciDropEntry sv Want p e DT ?O = Some (DT1, ?O\<lparr>MemPool := pool, World := w,
        Tds := Tds Ohc |` (- set (tdl p)), Ents := (Ents Ohc)(p := None)\<rparr>)"
      and inv: "ctx_inv sv inuse pooled tdl out (I - buf_of e) (P - {p}) ps (?O\<lparr>MemPool := pool, World := w,
        Tds := Tds Ohc |` (- set (tdl p)), Ents := (Ents Ohc)(p := None)\<rparr>)"
      and rel: "released tdl {p} Ohc (?O\<lparr>MemPool := pool, World := w,
        Tds := Tds Ohc |` (- set (tdl p)), Ents := (Ents Ohc)(p := None)\<rparr>)" by auto
    define O2 where "O2 = ?O\<lparr>MemPool := pool, World := w, Tds := Tds Ohc |` (- set (tdl p)), Ents := (Ents Ohc)(p := None)\<rparr>"
    have E2: "Ents O2 = (Ents Ohc)(p := None)" "Tpl O2 = Tpl Ohc" by (simp_all add: O2_def)
    have "\<And>q. q \<in> set ps \<Longrightarrow> M q = entry_matches A E (the (Ents O2 q))"
      using Cons.prems(2) d by (auto simp: E2)
    from Cons.IH[OF inv[folded O2_def] this, of DT1] obtain DT' Ohc' where
      r: "OhciFreeHeadEntries sv A E Want DT1 O2 = Some (DT', Ohc')" "Tpl Ohc' = Tpl Ohc"
      and i: "ctx_inv sv inuse pooled tdl out (I - buf_of e - (\<Union>p \<in> set (takeWhile M ps). buf_of (the (Ents O2 p))))
        (P - {p} - set (takeWhile M ps)) (dropWhile M ps) Ohc'"
      and en: "Ents Ohc' = Ents O2 |` (- set (takeWhile M ps))" and rel': "released tdl (set (takeWhile M ps)) O2 Ohc'"
      unfolding E2(2) by blast
    have u: "(\<Union>q \<in> set (takeWhile M ps). buf_of (the (Ents O2 q))) = (\<Union>q \<in> set (takeWhile M ps). buf_of (the (Ents Ohc q)))"
      using d by (intro SUP_cong) (auto simp: E2 dest: set_takeWhileD)
    have "entry_matches A E e" using True Cons.prems(2)[of p] e by simp
    then have "OhciFreeHeadEntries sv A E Want DT Ohc = Some (DT', Ohc')"
      using p e dr[folded O2_def] r(1) by (subst OhciFreeHeadEntries.simps) simp
    moreover have "I - buf_of e - (\<Union>p \<in> set (takeWhile M ps). buf_of (the (Ents Ohc p)))
        = I - (\<Union>q \<in> set (takeWhile M (p # ps)). buf_of (the (Ents Ohc q)))"
      "P - {p} - set (takeWhile M ps) = P - set (takeWhile M (p # ps))"
      "Ents Ohc' = Ents Ohc |` (- set (takeWhile M (p # ps)))"
      using True e(1) en unfolding E2(1) restrict_drop by auto
    moreover have "released tdl (set (takeWhile M (p # ps))) Ohc Ohc'"
      using released_trans[OF rel[folded O2_def] rel'] True by simp
    ultimately show ?thesis using r(2) i True unfolding u by simp
  qed
qed

lemma free_next:
  assumes "ctx_inv sv inuse pooled tdl out I P (xs @ x # ps) Ohc"
    and "\<And>p. p \<in> set ps \<Longrightarrow> M p = entry_matches A E (the (Ents Ohc p))"
  shows "\<exists>DT' Ohc'. OhciFreeNextEntries sv A E Want x DT Ohc = Some (DT', Ohc') \<and> Tpl Ohc' = Tpl Ohc
    \<and> ctx_inv sv inuse pooled tdl out (I - (\<Union>p \<in> set (filter M ps). buf_of (the (Ents Ohc p)))) (P - set (filter M ps))
        (xs @ x # filter (\<lambda>p. \<not> M p) ps) Ohc'
    \<and> (\<forall>q. q \<in> set (filter M ps) \<or> Ents Ohc q = None \<longrightarrow> Ents Ohc' q = None)
    \<and> released tdl (set (filter M ps)) Ohc Ohc'"
  using assms
proof (induction ps arbitrary: I P Ohc DT xs x)
  case Nil
  then have "entry_chain (Ents Ohc) x (x # []) 0" using chain_suffix by (fastforce simp: ctx_inv_def)
  then show ?case using Nil by (subst OhciFreeNextEntries.simps) (auto split: option.splits)
next
  case (Cons p ps)
  have c: "entry_chain (Ents Ohc) (InterruptContextList Ohc) (xs @ x # p # ps) 0" using Cons.prems(1) by (simp add: ctx_inv_def)
  obtain e f where e: "Ents Ohc x = Some e" "NextEntry e = p" "p \<noteq> 0" and f: "Ents Ohc p = Some f" "entry_chain (Ents Ohc) (NextEntry f) ps 0"
    using chain_suffix[OF c] by (auto split: option.splits)
  have d: "distinct (xs @ x # p # ps)" by (rule chain_distinct[OF c])
  show ?case
  proof (cases "M p")
    case False
    then have nm: "\<not> entry_matches A E f" using Cons.prems(2)[of p] f by simp
    have "ctx_inv sv inuse pooled tdl out I P ((xs @ [x]) @ p # ps) Ohc" using Cons.prems(1) by simp
    from Cons.IH[OF this, of DT] Cons.prems(2) show ?thesis
      using False e f nm by (subst OhciFreeNextEntries.simps) auto
  next
    case True
    then have m: "entry_matches A E f" using Cons.prems(2)[of p] f by simp
    let ?ents = "(Ents Ohc)(x \<mapsto> e\<lparr>NextEntry := NextEntry f\<rparr>)"
    let ?O = "Ohc\<lparr>Ents := ?ents\<rparr>"
    have ch: "entry_chain ?ents (InterruptContextList Ohc) ((xs @ [x]) @ ps) 0"
      using chain_remove[OF c f(1), of "e\<lparr>NextEntry := NextEntry f\<rparr>"] by simp
    have mem: "\<exists>f g. Ents Ohc q = Some f \<and> ?ents q = Some g \<and> Entry_DataTd g = Entry_DataTd f \<and> buf_of g = buf_of f"
      if "q \<in> set ((xs @ [x]) @ ps)" for q
    proof (cases "q = x")
      case False
      then have "q \<in> dom (Ents Ohc)" using that chain_dom[OF c] by auto
      then show ?thesis using False by auto
    qed (simp add: e(1))
    have lk: "map_option unlinked (?ents q) = map_option unlinked (Ents Ohc q)" for q by (simp add: e(1))
    have "ctx_inv sv inuse pooled tdl out I P ((xs @ [x]) @ p # ps) Ohc" using Cons.prems(1) by simp
    from drop_entry[OF this f(1), where OhcU = ?O and l = "InterruptContextList Ohc" and entsU = ?ents and Want = Want and DT = DT,
        OF _ ch _ mem lk] d f
    obtain DT1 pool w where dr: "OhciDropEntry sv Want p f DT ?O = Some (DT1, ?O\<lparr>MemPool := pool, World := w,
        Tds := Tds Ohc |` (- set (tdl p)), Ents := ?ents(p := None)\<rparr>)"
      and inv: "ctx_inv sv inuse pooled tdl out (I - buf_of f) (P - {p}) (xs @ x # ps) (?O\<lparr>MemPool := pool, World := w,
        Tds := Tds Ohc |` (- set (tdl p)), Ents := ?ents(p := None)\<rparr>)"
      and rel: "released tdl {p} Ohc (?O\<lparr>MemPool := pool, World := w,
        Tds := Tds Ohc |` (- set (tdl p)), Ents := ?ents(p := None)\<rparr>)" by auto
    define O2 where "O2 = ?O\<lparr>MemPool := pool, World := w, Tds := Tds Ohc |` (- set (tdl p)), Ents := ?ents(p := None)\<rparr>"
    have E2: "Ents O2 = ?ents(p := None)" "Tpl O2 = Tpl Ohc" by (simp_all add: O2_def)
    have "\<And>q. q \<in> set ps \<Longrightarrow> M q = entry_matches A E (the (Ents O2 q))"
      using Cons.prems(2) d by (auto simp: E2)
    from Cons.IH[OF inv[folded O2_def] this, of DT1] obtain DT' Ohc' where
      r: "OhciFreeNextEntries sv A E Want x DT1 O2 = Some (DT', Ohc')" "Tpl Ohc' = Tpl Ohc"
      and i: "ctx_inv sv inuse pooled tdl out (I - buf_of f - (\<Union>p \<in> set (filter M ps). buf_of (the (Ents O2 p))))
        (P - {p} - set (filter M ps)) (xs @ x # filter (\<lambda>p. \<not> M p) ps) Ohc'"
      and en: "\<forall>q. q \<in> set (filter M ps) \<or> Ents O2 q = None \<longrightarrow> Ents Ohc' q = None"
      and rel': "released tdl (set (filter M ps)) O2 Ohc'" unfolding E2(2) by blast
    have u: "(\<Union>q \<in> set (filter M ps). buf_of (the (Ents O2 q))) = (\<Union>q \<in> set (filter M ps). buf_of (the (Ents Ohc q)))"
      using d by (intro SUP_cong) (auto simp: E2)
    have "OhciFreeNextEntries sv A E Want x DT Ohc = Some (DT', Ohc')"
      using e f m dr[folded O2_def] r(1) by (subst OhciFreeNextEntries.simps) simp
    moreover have "\<forall>q. q \<in> set (filter M (p # ps)) \<or> Ents Ohc q = None \<longrightarrow> Ents Ohc' q = None"
    proof -
      have "Ents O2 q = None" if "q = p \<or> Ents Ohc q = None" for q using that e(1) by (auto simp: E2)
      then show ?thesis using en by auto
    qed
    moreover have "I - buf_of f - (\<Union>q \<in> set (filter M ps). buf_of (the (Ents Ohc q)))
        = I - (\<Union>q \<in> set (filter M (p # ps)). buf_of (the (Ents Ohc q)))"
      "P - {p} - set (filter M ps) = P - set (filter M (p # ps))"
      using True f(1) by auto
    moreover have "filter (\<lambda>p. \<not> M p) (p # ps) = filter (\<lambda>p. \<not> M p) ps" using True by simp
    moreover have "released tdl (set (filter M (p # ps))) Ohc Ohc'"
      using released_trans[OF rel[folded O2_def] rel'] True by simp
    ultimately show ?thesis using r(2) i unfolding u by (intro exI[of _ DT'] exI[of _ Ohc']) simp
  qed
qed

section \<open>Re-submission\<close>

definition rearm :: "TD_DESCRIPTOR \<Rightarrow> TD_DESCRIPTOR" where
  "rearm td = (let td1 = OhciSetTDField (OhciSetTDField td TD_ERROR_CNT 0) TD_COND_CODE TD_TOBE_PROCESSED in
     td1\<lparr>NextTD := NextTDPointer td1, CurrBufferPointer := DataBuffer td1\<rparr>)"

definition rearm_last :: "TD_DESCRIPTOR \<Rightarrow> TD_DESCRIPTOR" where
  "rearm_last td = OhciSetTDField td (TD_ERROR_CNT OR TD_COND_CODE OR TD_CURR_BUFFER_PTR OR TD_NEXT_PTR) 0"

definition toggled :: "u8 \<Rightarrow> nat \<Rightarrow> TD_DESCRIPTOR \<Rightarrow> TD_DESCRIPTOR" where
  "toggled Tog i td = OhciSetTDField td TD_DT_TOGGLE (ucast (if even i then Tog else Tog XOR 1))"

lemma keeps_pointer [simp]:
  "NextTDPointer (OhciSetTDField td F v) = NextTDPointer td" "DataBuffer (OhciSetTDField td F v) = DataBuffer td"
  "NextTDPointer (set_DataToggle v td) = NextTDPointer td" "DataBuffer (set_DataToggle v td) = DataBuffer td"
  "NextTDPointer (rearm td) = NextTDPointer td" "NextTDPointer (rearm_last td) = NextTDPointer td"
  "NextTDPointer (toggled Tog i td) = NextTDPointer td" "DataBuffer (toggled Tog i td) = DataBuffer td"
  by (simp_all add: OhciSetTDField_def set_DataToggle_def rearm_def rearm_last_def toggled_def Let_def)

lemma toggled_XOR: "toggled (Tog XOR 1) i = toggled Tog (Suc i)"
  by (rule ext) (simp add: toggled_def xor.assoc)

lemma toggle_tds:
  "tdp_chain tds p (xs @ [y]) 0 \<Longrightarrow> \<exists>tds'. OhciToggleTDs tds p Tog = Some tds'
    \<and> (\<forall>i < length xs. tds' (xs ! i) = map_option (toggled Tog i) (tds (xs ! i)))
    \<and> tds' y = map_option (set_DataToggle 0) (tds y) \<and> (\<forall>q. q \<notin> set (xs @ [y]) \<longrightarrow> tds' q = tds q)"
proof (induction xs arbitrary: p tds Tog)
  case Nil
  then show ?case by (subst OhciToggleTDs.simps) (auto split: option.splits simp: unat_eq_0)
next
  case (Cons x xs)
  then obtain td where td: "p = x" "x \<noteq> 0" "tds x = Some td" "tdp_chain tds (unat (NextTDPointer td)) (xs @ [y]) 0"
    by (auto split: option.splits)
  have n: "NextTDPointer td \<noteq> 0" using chain_nonempty[OF td(4)] by auto
  have d: "x \<notin> set (xs @ [y])" using chain_distinct[OF Cons.prems] by simp
  let ?tds = "tds(x \<mapsto> OhciSetTDField td TD_DT_TOGGLE (ucast Tog))"
  have "tdp_chain ?tds (unat (NextTDPointer td)) (xs @ [y]) 0" using td(4) d by (simp add: chain_frame)
  from Cons.IH[OF this, of "Tog XOR 1"] obtain tds' where r: "OhciToggleTDs ?tds (unat (NextTDPointer td)) (Tog XOR 1) = Some tds'"
    "\<forall>i < length xs. tds' (xs ! i) = map_option (toggled (Tog XOR 1) i) (?tds (xs ! i))"
    "tds' y = map_option (set_DataToggle 0) (?tds y)" "\<forall>q. q \<notin> set (xs @ [y]) \<longrightarrow> tds' q = ?tds q" by blast
  have "tds' ((x # xs) ! i) = map_option (toggled Tog i) (tds ((x # xs) ! i))" if "i < length (x # xs)" for i
  proof (cases i)
    case 0
    then show ?thesis using r(4) d td(3) by (simp add: toggled_def)
  next
    case (Suc j)
    then have "xs ! j \<noteq> x" using that d by (auto dest: nth_mem)
    then show ?thesis using Suc that r(2) by (simp add: toggled_XOR)
  qed
  moreover have "OhciToggleTDs tds p Tog = Some tds'" using td n r(1) by (subst OhciToggleTDs.simps) simp
  ultimately show ?case using r(3,4) d by (intro exI[of _ tds']) auto
qed

lemma rearm_tds:
  "tdp_chain tds p (xs @ [y]) 0 \<Longrightarrow> \<exists>tds'. OhciRearmTDs tds p = Some (y, tds')
    \<and> (\<forall>q \<in> set xs. tds' q = map_option rearm (tds q)) \<and> tds' y = map_option rearm_last (tds y)
    \<and> (\<forall>q. q \<notin> set (xs @ [y]) \<longrightarrow> tds' q = tds q)"
proof (induction xs arbitrary: p tds)
  case Nil
  then show ?case by (subst OhciRearmTDs.simps) (auto split: option.splits simp: unat_eq_0 rearm_last_def)
next
  case (Cons x xs)
  then obtain td where td: "p = x" "x \<noteq> 0" "tds x = Some td" "tdp_chain tds (unat (NextTDPointer td)) (xs @ [y]) 0"
    by (auto split: option.splits)
  have n: "NextTDPointer td \<noteq> 0" using chain_nonempty[OF td(4)] by auto
  have d: "x \<notin> set (xs @ [y])" using chain_distinct[OF Cons.prems] by simp
  let ?tds = "tds(x \<mapsto> rearm td)"
  have "tdp_chain ?tds (unat (NextTDPointer td)) (xs @ [y]) 0" using td(4) d by (simp add: chain_frame)
  from Cons.IH[OF this] obtain tds' where r: "OhciRearmTDs ?tds (unat (NextTDPointer td)) = Some (y, tds')"
    "\<forall>q \<in> set xs. tds' q = map_option rearm (?tds q)" "tds' y = map_option rearm_last (?tds y)"
    "\<forall>q. q \<notin> set (xs @ [y]) \<longrightarrow> tds' q = ?tds q" by blast
  have "OhciRearmTDs tds p = Some (y, tds')"
    using td n r(1) by (subst OhciRearmTDs.simps) (simp add: rearm_def Let_def)
  then show ?case using r(2-4) d td(3) by (intro exI[of _ tds']) auto
qed

lemma td_bits:
  "ConditionCode (OhciSetTDField td TD_COND_CODE v) = take_bit 4 v"
  "DataToggle (OhciSetTDField td TD_COND_CODE v) = DataToggle td"
  "DataToggle (OhciSetTDField td TD_ERROR_CNT v) = DataToggle td"
  "DataToggle (OhciSetTDField td TD_DT_TOGGLE v) = take_bit 2 (v OR 2)"
  by (simp_all add: OhciSetTDField_def Let_def TD_DESCRIPTOR_WORD0_def ConditionCode_def DataToggle_def bf_laws)

lemma rearm_fields:
  "ConditionCode (rearm td) = TD_TOBE_PROCESSED" "NextTD (rearm td) = NextTDPointer td"
  "CurrBufferPointer (rearm td) = DataBuffer td" "DataToggle (rearm td) = DataToggle td"
  "NextTD (rearm_last td) = 0"
proof -
  have "ConditionCode (t\<lparr>NextTD := a, CurrBufferPointer := b\<rparr>) = ConditionCode t"
    "DataToggle (t\<lparr>NextTD := a, CurrBufferPointer := b\<rparr>) = DataToggle t" for t a b
    by (simp_all add: ConditionCode_def DataToggle_def)
  then show "ConditionCode (rearm td) = TD_TOBE_PROCESSED" "DataToggle (rearm td) = DataToggle td"
    by (simp_all add: rearm_def Let_def td_bits take_bit_eq_mod)
qed (simp_all add: rearm_def rearm_last_def Let_def OhciSetTDField_def)

lemma resubmit:
  assumes ed: "Eds Ohc p = Some ed" and c: "tdp_chain (Tds Ohc) Td (xs @ [y]) 0"
  shows "\<exists>tds1 tds2 ed'. OhciResubmit p Td Ohc = Some (Ohc\<lparr>Eds := (Eds Ohc)(p \<mapsto> ed'), Tds := tds2\<rparr>)
    \<and> OhciToggleTDs (Tds Ohc) Td (ucast (bf_get 1 1 (EdWord2 ed))) = Some tds1 \<and> OhciRearmTDs tds1 Td = Some (y, tds2)
    \<and> ed' = set_Skip 0 (OhciSetEDField (set_TdHeadPointer (word_of_nat (Td div 16)) (set_Skip 1 ed)) (ED_HALTED OR ED_DTTOGGLE) 0)"
proof -
  have Td: "Td \<noteq> 0" and y: "y \<noteq> 0" using chain_nonempty[OF c] chain_no_end[OF c] by auto
  obtain tds1 where t: "OhciToggleTDs (Tds Ohc) Td (ucast (bf_get 1 1 (EdWord2 ed))) = Some tds1"
    "\<forall>i < length xs. tds1 (xs ! i) = map_option (toggled (ucast (bf_get 1 1 (EdWord2 ed))) i) (Tds Ohc (xs ! i))"
    "tds1 y = map_option (set_DataToggle 0) (Tds Ohc y)"
    using toggle_tds[OF c] by blast
  have "tdp_chain tds1 Td (xs @ [y]) 0 = tdp_chain (Tds Ohc) Td (xs @ [y]) 0"
    using t(2,3) by (intro chain_cong) (auto simp: in_set_conv_nth option.map_comp comp_def)
  then obtain tds2 where r: "OhciRearmTDs tds1 Td = Some (y, tds2)" using rearm_tds c by blast
  have g: "OhciGetEDField (set_Skip 1 ed) ED_DTTOGGLE = Some (bf_get 1 1 (EdWord2 ed))"
    by (simp add: OhciGetEDField_def set_Skip_def ED_DESCRIPTOR_WORD0_def ED_DESCRIPTOR_WORD2_def)
  show ?thesis
    using ed Td y t(1) r g by (simp add: OhciResubmit_def Let_def)
qed

lemma resubmit_ed:
  fixes v ed
  defines "ed' \<equiv> set_Skip 0 (OhciSetEDField (set_TdHeadPointer v (set_Skip 1 ed)) (ED_HALTED OR ED_DTTOGGLE) 0)"
  shows "Skip ed' = 0" "Halted ed' = 0" "TdHeadPointer ed' = take_bit 28 v"
proof -
  let ?e = "OhciSetEDField (set_TdHeadPointer v (set_Skip 1 ed)) (ED_HALTED OR ED_DTTOGGLE) 0"
  have "bf_get 0 1 (EdWord2 ?e) = 0"
    using ed_set_word2[of "0x100" 0 1 "set_TdHeadPointer v (set_Skip 1 ed)" "ED_HALTED OR ED_DTTOGGLE" 0]
    by (simp add: ED_DESCRIPTOR_WORD2_def)
  then show "Halted ed' = 0" by (simp add: ed'_def Halted_def set_Skip_def)
  have "TdHeadPointer ?e = take_bit 28 v"
    by (simp add: ed_set_head) (simp add: TdHeadPointer_def set_TdHeadPointer_def bf_laws)
  then show "TdHeadPointer ed' = take_bit 28 v" by (simp add: ed'_def TdHeadPointer_def set_Skip_def)
  show "Skip ed' = 0" by (simp add: ed'_def Skip_def set_Skip_def bf_laws)
qed

section \<open>Properties\<close>

text \<open>C16: \<open>OhciFreeInterruptContext\<close> ends, takes exactly the contexts of the given device and endpoint off the list, and gives back all
  that they own: their DMA buffers, their pool memory, and every transfer descriptor of their lists, which leave the heap and the memory
  of the pool that is in use. Nothing else is released: every other descriptor and context is there as it was, but for the links of the
  list, which keeps the order of the contexts that stay. The task priority level is restored.\<close>

theorem OhciFreeInterruptContext_exact:
  assumes inv: "ctx_inv sv inuse pooled tdl out I P ps Ohc"
    and M: "\<forall>p \<in> set ps. M p = entry_matches A E (the (Ents Ohc p))"
  shows "\<exists>DT' Ohc'. OhciFreeInterruptContext sv Ohc A E Want DT = Some (EFI_SUCCESS, DT', Ohc') \<and> Tpl Ohc' = Tpl Ohc
    \<and> ctx_inv sv inuse pooled tdl out (I - (\<Union>p \<in> set (filter M ps). buf_of (the (Ents Ohc p)))) (P - set (filter M ps))
        (filter (\<lambda>p. \<not> M p) ps) Ohc'
    \<and> (\<forall>p \<in> set ps. M p \<longrightarrow> Ents Ohc' p = None)
    \<and> Tds Ohc' = Tds Ohc |` (- (\<Union>p \<in> set (filter M ps). set (tdl p)))
    \<and> pool_live (MemPool Ohc') = pool_live (MemPool Ohc) - (\<Union>p \<in> set (filter M ps). feet footprint (map td_region (tdl p)))
    \<and> (\<forall>q. q \<notin> set (filter M ps) \<longrightarrow> map_option unlinked (Ents Ohc' q) = map_option unlinked (Ents Ohc q))"
proof -
  define T D where "T = takeWhile M ps" and "D = dropWhile M ps"
  have TD: "ps = T @ D" "\<forall>p \<in> set T. M p" by (auto simp: T_def D_def dest: set_takeWhileD)
  then have split: "filter M ps = T @ filter M D" "filter (\<lambda>p. \<not> M p) ps = filter (\<lambda>p. \<not> M p) D" by auto
  have "ctx_inv sv inuse pooled tdl out I P ps (Ohc\<lparr>Tpl := TPL_NOTIFY\<rparr>)" using inv by (simp add: ctx_inv_def)
  from free_heads[OF this, of M A E Want DT] M obtain DT1 O1 where
    h: "OhciFreeHeadEntries sv A E Want DT (Ohc\<lparr>Tpl := TPL_NOTIFY\<rparr>) = Some (DT1, O1)"
    and i1: "ctx_inv sv inuse pooled tdl out (I - (\<Union>p \<in> set T. buf_of (the (Ents Ohc p)))) (P - set T) D O1"
    and e1: "Ents O1 = Ents Ohc |` (- set T)" and r1: "released tdl (set T) (Ohc\<lparr>Tpl := TPL_NOTIFY\<rparr>) O1"
    unfolding T_def[symmetric] D_def[symmetric] by auto
  have "distinct ps" using inv chain_distinct unfolding ctx_inv_def by blast
  then have d: "distinct (T @ D)" unfolding TD(1) .
  have gone: "\<forall>p \<in> set T. Ents O1 p = None" by (simp add: e1)
  show ?thesis
  proof (cases D)
    case Nil
    then have "InterruptContextList O1 = 0" using i1 by (simp add: ctx_inv_def)
    then have "OhciFreeInterruptContext sv Ohc A E Want DT = Some (EFI_SUCCESS, DT1, O1\<lparr>Tpl := Tpl Ohc\<rparr>)"
      using h by (simp add: OhciFreeInterruptContext_def Let_def)
    moreover have "ctx_inv sv inuse pooled tdl out (I - (\<Union>p \<in> set (filter M ps). buf_of (the (Ents Ohc p)))) (P - set (filter M ps))
        (filter (\<lambda>p. \<not> M p) ps) (O1\<lparr>Tpl := Tpl Ohc\<rparr>)"
      using i1 unfolding split Nil by (simp add: ctx_inv_def)
    moreover have "released tdl (set (filter M ps)) (Ohc\<lparr>Tpl := TPL_NOTIFY\<rparr>) O1" using r1 split(1) Nil by simp
    ultimately show ?thesis using gone TD(1) Nil by (intro exI[of _ DT1] exI[of _ "O1\<lparr>Tpl := Tpl Ohc\<rparr>"]) (simp add: released_def)
  next
    case (Cons x qs)
    have x: "\<not> M x" using Cons hd_dropWhile[of M ps] unfolding D_def by auto
    have l: "InterruptContextList O1 = x" "x \<noteq> 0" using i1 Cons by (auto simp: ctx_inv_def)
    have i1': "ctx_inv sv inuse pooled tdl out (I - (\<Union>p \<in> set T. buf_of (the (Ents Ohc p)))) (P - set T) ([] @ x # qs) O1"
      using i1 Cons by simp
    have eq: "Ents O1 q = Ents Ohc q" if "q \<in> set qs" for q using that d Cons by (auto simp: e1 restrict_map_def)
    then have "\<And>q. q \<in> set qs \<Longrightarrow> M q = entry_matches A E (the (Ents O1 q))" using M TD(1) Cons by auto
    from free_next[OF i1' this, of Want DT1] obtain DT2 O2 where
      n: "OhciFreeNextEntries sv A E Want x DT1 O1 = Some (DT2, O2)"
      and i2: "ctx_inv sv inuse pooled tdl out (I - (\<Union>p \<in> set T. buf_of (the (Ents Ohc p))) -
          (\<Union>p \<in> set (filter M qs). buf_of (the (Ents O1 p)))) (P - set T - set (filter M qs)) ([] @ x # filter (\<lambda>p. \<not> M p) qs) O2"
      and g2: "\<forall>q. q \<in> set (filter M qs) \<or> Ents O1 q = None \<longrightarrow> Ents O2 q = None"
      and r2: "released tdl (set (filter M qs)) O1 O2" by blast
    have u: "(\<Union>q \<in> set (filter M qs). buf_of (the (Ents O1 q))) = (\<Union>q \<in> set (filter M qs). buf_of (the (Ents Ohc q)))"
      using eq by (intro SUP_cong) auto
    have f: "filter M D = filter M qs" "filter (\<lambda>p. \<not> M p) D = x # filter (\<lambda>p. \<not> M p) qs" using x Cons by auto
    have "ctx_inv sv inuse pooled tdl out (I - (\<Union>p \<in> set (filter M ps). buf_of (the (Ents Ohc p)))) (P - set (filter M ps))
        (filter (\<lambda>p. \<not> M p) ps) (O2\<lparr>Tpl := Tpl Ohc\<rparr>)"
      using i2 unfolding split f u by (simp add: ctx_inv_def Diff_eq Int_assoc)
    moreover have "OhciFreeInterruptContext sv Ohc A E Want DT = Some (EFI_SUCCESS, DT2, O2\<lparr>Tpl := Tpl Ohc\<rparr>)"
      using h n l by (simp add: OhciFreeInterruptContext_def Let_def)
    moreover have "released tdl (set (filter M ps)) (Ohc\<lparr>Tpl := TPL_NOTIFY\<rparr>) O2"
      using released_trans[OF r1 r2] unfolding split f by simp
    moreover have "\<forall>p \<in> set ps. M p \<longrightarrow> Ents O2 p = None" using g2 gone TD(1) Cons x by auto
    ultimately show ?thesis
      by (intro exI[of _ DT2] exI[of _ "O2\<lparr>Tpl := Tpl Ohc\<rparr>"]) (simp add: released_def)
  qed
qed

section \<open>Concrete contexts\<close>

definition context_at :: "nat \<Rightarrow> bool \<Rightarrow> nat \<Rightarrow> nat \<Rightarrow> INTERRUPT_CONTEXT_ENTRY" where
  "context_at td periodic cbf nxt = \<lparr>DeviceAddress = 1, EndPointAddress = 0x81, Entry_Ed = 0, Entry_DataTd = td,
     IsSlowDevice = False, MaxPacketLength = 8, PollingInterval = 8, CallBackFunction = cbf, Context = 0,
     IsPeriodic = periodic, Buffer = 0, DataLength = 0, UCBuffer = 0, UCBufferMapping = 0, Entry_Toggle = 0,
     NextEntry = nxt\<rparr>"

lemma pool_ok_more:
  assumes "pool_ok sv inuse pooled I P p w" "inuse w' = inuse w" "pooled w' = pooled w \<union> Y" "Y \<inter> pooled w = {}"
  shows "pool_ok sv inuse pooled I (P \<union> Y) p w'"
  using assms unfolding pool_ok_def by auto

definition bump_w2 :: bump where
  "bump_w2 = bump_w\<lparr>pool_used := {8, 25, 82, 500}\<rparr>"

lemma bump_ok_2: "pool_ok bump_services dma_used pool_used {} {500} (bump_p (1 # replicate 127 0)) bump_w2"
proof -
  have "dma_used bump_w2 = dma_used bump_w" "pool_used bump_w2 = pool_used bump_w \<union> {500}" "{500} \<inter> pool_used bump_w = {}"
    by (auto simp: bump_w2_def bump_w_def)
  from pool_ok_more[OF bump_pool_ok_64 this] show ?thesis by simp
qed

lemma owned_65536: "owned size_ok pool_held footprint [td_region 65536] (bump_p (1 # replicate 127 0))"
proof -
  have "units_of sizeof_TD = 1" "size_ok sizeof_TD" by (simp_all add: units_of_def size_ok_def)
  then show ?thesis using bump_held_64 by (simp add: pool_held_def round_64)
qed

theorem OhciFreeInterruptContext_exact_witness:
  "\<exists>DT' Ohc'. OhciFreeInterruptContext bump_services (device_at Map.empty [65536 \<mapsto> td_zero] (bump_p (1 # replicate 127 0)) bump_w2
      \<lparr>InterruptContextList := 500, Ents := [500 \<mapsto> context_at 65536 True 0 0]\<rparr>) 1 0x81 True 0 = Some (EFI_SUCCESS, DT', Ohc')
    \<and> InterruptContextList Ohc' = 0 \<and> Ents Ohc' 500 = None \<and> Tds Ohc' = Map.empty \<and> Tpl Ohc' = 4"
proof -
  let ?O = "device_at Map.empty [65536 \<mapsto> td_zero] (bump_p (1 # replicate 127 0)) bump_w2
      \<lparr>InterruptContextList := 500, Ents := [500 \<mapsto> context_at 65536 True 0 0]\<rparr>"
  have "ctx_inv bump_services dma_used pool_used (\<lambda>p. [65536]) [] {} {500} [500] ?O"
    using bump_ok_2 owned_65536 by (simp add: ctx_inv_def contexts_def device_at_def context_at_def td_zero_def buf_of_def)
  from OhciFreeInterruptContext_exact[OF this, where M = "\<lambda>p. True" and A = 1 and E = "0x81" and Want = True and DT = 0]
  show ?thesis by (auto simp: entry_matches_def context_at_def ctx_inv_def) (auto simp: device_at_def)
qed

text \<open>\<open>OhciAddInterruptContextEntry\<close> appends the new context at the end of the list, changes
  nothing else and restores the task priority level.\<close>

lemma OhciAddInterruptContextEntry_appends:
  assumes "entry_chain (Ents Ohc) (InterruptContextList Ohc) ps 0"
    and "Ents Ohc NewEntry = Some e" "NextEntry e = 0" "NewEntry \<noteq> 0" "NewEntry \<notin> set ps"
  shows "\<exists>Ohc'. OhciAddInterruptContextEntry Ohc NewEntry = Some (EFI_SUCCESS, Ohc')
    \<and> entry_chain (Ents Ohc') (InterruptContextList Ohc') (ps @ [NewEntry]) 0
    \<and> Tpl Ohc' = Tpl Ohc \<and> Eds Ohc' = Eds Ohc \<and> Tds Ohc' = Tds Ohc \<and> World Ohc' = World Ohc"
  using add_entry[OF assms] by auto

text \<open>\<open>OhciCheckTDsResults\<close> returns on every list of transfer descriptors, with the USB error of
  the first descriptor whose condition code is not zero, and with no error only if there is none.\<close>

theorem OhciCheckTDsResults_first:
  assumes "tdp_chain tds Td xs 0"
  shows "OhciCheckTDsResults tds Td =
    Some (case find (\<lambda>p. ConditionCode (the (tds p)) \<noteq> 0) xs of
            None \<Rightarrow> (True, 0) | Some p \<Rightarrow> (False, ConvertErrorCode (ConditionCode (the (tds p)))))"
  unfolding OhciCheckTDsResults_def by (rule check_tds[OF assms])

theorem OhciCheckTDsResults_first_witness:
  "OhciCheckTDsResults [64 \<mapsto> td_zero\<lparr>NextTDPointer := 128\<rparr>, 128 \<mapsto> OhciSetTDField td_zero 0x20 4] 64 = Some (False, 2)"
proof -
  let ?tds = "[64 \<mapsto> td_zero\<lparr>NextTDPointer := 128\<rparr>, 128 \<mapsto> OhciSetTDField td_zero 0x20 4]"
  have "tdp_chain ?tds 64 [64, 128] 0" by (simp add: td_zero_def OhciSetTDField_def Let_def)
  from OhciCheckTDsResults_first[OF this] show ?thesis
    by (simp add: td_zero_def OhciSetTDField_def Let_def TD_DESCRIPTOR_WORD0_def ConditionCode_def ConvertErrorCode_def
        bf_laws take_bit_eq_mod)
qed

text \<open>\<open>OhciHouseKeeper\<close>'s re-submission of a finished periodic transfer makes the whole list of
  descriptors ready again: each has the condition code \<open>TD_TOBE_PROCESSED\<close>, its buffer pointer at the
  start of its buffer, the alternating data toggle that continues the toggle carry of the endpoint, and
  the link the controller follows restored; the endpoint points to the first one and is not halted.\<close>

theorem OhciResubmit_ready:
  assumes "Eds Ohc p = Some ed" "tdp_chain (Tds Ohc) Td (xs @ [y]) 0" "OhciResubmit p Td Ohc = Some Ohc'"
  shows "td_chain (Tds Ohc') Td (xs @ [y]) 0
    \<and> (\<forall>i < length xs. \<exists>td td'. Tds Ohc (xs ! i) = Some td \<and> Tds Ohc' (xs ! i) = Some td'
         \<and> ConditionCode td' = TD_TOBE_PROCESSED \<and> CurrBufferPointer td' = DataBuffer td
         \<and> DataToggle td' = take_bit 2 ((if even i then ucast (ucast (bf_get 1 1 (EdWord2 ed)) :: u8)
               else ucast ((ucast (bf_get 1 1 (EdWord2 ed)) :: u8) XOR 1)) OR 2))
    \<and> (\<exists>ed'. Eds Ohc' p = Some ed' \<and> Skip ed' = 0 \<and> Halted ed' = 0
         \<and> TdHeadPointer ed' = take_bit 28 (word_of_nat (Td div 16)))"
proof -
  let ?tog = "ucast (bf_get 1 1 (EdWord2 ed)) :: u8"
  obtain tds1 tds2 where O': "Ohc' = Ohc\<lparr>Eds := (Eds Ohc)(p \<mapsto> set_Skip 0 (OhciSetEDField (set_TdHeadPointer (word_of_nat (Td div 16))
        (set_Skip 1 ed)) (ED_HALTED OR ED_DTTOGGLE) 0)), Tds := tds2\<rparr>"
    and 1: "OhciToggleTDs (Tds Ohc) Td ?tog = Some tds1" and 2: "OhciRearmTDs tds1 Td = Some (y, tds2)"
    using resubmit[OF assms(1,2)] assms(3) by auto
  have t: "\<And>i. i < length xs \<Longrightarrow> tds1 (xs ! i) = map_option (toggled ?tog i) (Tds Ohc (xs ! i))"
    "tds1 y = map_option (set_DataToggle 0) (Tds Ohc y)"
    using toggle_tds[OF assms(2), of ?tog] 1 by auto
  have c1: "tdp_chain tds1 Td (xs @ [y]) 0 = tdp_chain (Tds Ohc) Td (xs @ [y]) 0"
    using t by (intro chain_cong) (auto simp: in_set_conv_nth option.map_comp comp_def)
  then have r: "\<forall>q \<in> set xs. tds2 q = map_option rearm (tds1 q)" "tds2 y = map_option rearm_last (tds1 y)"
    using rearm_tds[of tds1 Td xs y] assms(2) 2 by auto
  have dom: "\<exists>td. Tds Ohc (xs ! i) = Some td" if "i < length xs" for i
    using chain_dom[OF assms(2)] that by (auto dest: nth_mem)
  have y: "\<exists>td. Tds Ohc y = Some td \<and> NextTDPointer td = 0" using chain_last[OF assms(2)] by (auto simp: unat_eq_0)
  have "td_chain tds2 Td (xs @ [y]) 0 = tdp_chain (Tds Ohc) Td (xs @ [y]) 0"
  proof (rule chain_cong)
    fix q assume "q \<in> set (xs @ [y])"
    then consider (el) i where "i < length xs" "q = xs ! i" | (final) "q = y" by (auto simp: in_set_conv_nth)
    then show "map_option (\<lambda>td. unat (NextTD td)) (tds2 q) = map_option (\<lambda>td. unat (NextTDPointer td)) (Tds Ohc q)"
    proof cases
      case el
      then show ?thesis using r(1) t(1) by (simp add: option.map_comp comp_def rearm_fields)
    next
      case final
      then show ?thesis using r(2) t(2) y by (auto simp: rearm_fields)
    qed
  qed
  moreover have "\<exists>td td'. Tds Ohc (xs ! i) = Some td \<and> tds2 (xs ! i) = Some td'
         \<and> ConditionCode td' = TD_TOBE_PROCESSED \<and> CurrBufferPointer td' = DataBuffer td
         \<and> DataToggle td' = take_bit 2 ((if even i then ucast ?tog else ucast (?tog XOR 1)) OR 2)" if "i < length xs" for i
    using dom[OF that] t(1)[OF that] r(1) that by (auto simp: rearm_fields toggled_def td_bits)
  ultimately show ?thesis
    using assms(2) resubmit_ed[of "word_of_nat (Td div 16)" ed] unfolding O' by auto
qed

theorem OhciResubmit_ready_witness:
  "td_chain (Tds (the (OhciResubmit 64 128 (device_at [64 \<mapsto> ed_zero] [128 \<mapsto> td_zero\<lparr>NextTDPointer := 192\<rparr>, 192 \<mapsto> td_zero]
      (bump_p []) bump_w)))) 128 [128, 192] 0"
proof -
  let ?O = "device_at [64 \<mapsto> ed_zero] [128 \<mapsto> td_zero\<lparr>NextTDPointer := 192\<rparr>, 192 \<mapsto> td_zero] (bump_p []) bump_w"
  have e: "Eds ?O 64 = Some ed_zero" and c: "tdp_chain (Tds ?O) 128 ([128] @ [192]) 0"
    by (simp_all add: device_at_def td_zero_def)
  obtain O' where r: "OhciResubmit 64 128 ?O = Some O'" using resubmit[OF e c] by blast
  from OhciResubmit_ready[OF e c r] r show ?thesis by simp
qed

section \<open>The timer routine\<close>

definition pending :: "'w USB_OHCI_HC_DEV \<Rightarrow> nat \<Rightarrow> bool" where
  "pending Ohc p \<longleftrightarrow> (\<exists>e r. Ents Ohc p = Some e \<and> map_option snd (OhciCheckTDsResults (Tds Ohc) (Entry_DataTd e)) = Some r
     \<and> (r AND EFI_USB_ERR_STALL = EFI_USB_ERR_STALL \<or> r AND EFI_USB_ERR_NOTEXECUTE = EFI_USB_ERR_NOTEXECUTE))"

lemma keeper_skip:
  assumes "entry_chain (Ents Ohc) p (xs @ ys) 0" "\<forall>q \<in> set xs. pending Ohc q"
  shows "OhciHouseKeeperLoop cb sv T pre p Ohc = OhciHouseKeeperLoop cb sv T (last (pre # xs)) (hd (ys @ [0])) Ohc"
  using assms
proof (induction xs arbitrary: p pre)
  case Nil
  then have "p = hd (ys @ [0])" by (cases ys) auto
  then show ?case by simp
next
  case (Cons x xs)
  then obtain e where e: "p = x" "x \<noteq> 0" "Ents Ohc x = Some e" "entry_chain (Ents Ohc) (NextEntry e) (xs @ ys) 0"
    by (auto split: option.splits)
  have "pending Ohc x" using Cons.prems(2) by simp
  then have "OhciHouseKeeperLoop cb sv T pre p Ohc = OhciHouseKeeperLoop cb sv T x (NextEntry e) Ohc"
    using e by (subst OhciHouseKeeperLoop.simps) (auto simp: pending_def)
  then show ?case using Cons.IH[OF e(4), of x] Cons.prems(2) by simp
qed

lemma pending_Tpl [simp]: "pending (Ohc\<lparr>Tpl := t\<rparr>) p = pending Ohc p"
  by (simp add: pending_def)

lemma not_pending:
  "\<not> pending Ohc p \<Longrightarrow> Ents Ohc p = Some e \<Longrightarrow> OhciCheckTDsResults (Tds Ohc) (Entry_DataTd e) = Some (b, r) \<Longrightarrow>
    r AND EFI_USB_ERR_STALL \<noteq> EFI_USB_ERR_STALL \<and> r AND EFI_USB_ERR_NOTEXECUTE \<noteq> EFI_USB_ERR_NOTEXECUTE"
  by (auto simp: pending_def)

lemma check_one:
  "tds p = Some td \<Longrightarrow> p \<noteq> 0 \<Longrightarrow> ConditionCode td \<noteq> 0 \<Longrightarrow>
    OhciCheckTDsResults tds p = Some (False, ConvertErrorCode (ConditionCode td))"
  unfolding OhciCheckTDsResults_def by (subst OhciCheckTDs.simps) (simp add: convert_zero)

lemma pendingI:
  "Ents Ohc p = Some e \<Longrightarrow> OhciCheckTDsResults (Tds Ohc) (Entry_DataTd e) = Some (b, r) \<Longrightarrow>
    r AND EFI_USB_ERR_STALL = EFI_USB_ERR_STALL \<or> r AND EFI_USB_ERR_NOTEXECUTE = EFI_USB_ERR_NOTEXECUTE \<Longrightarrow> pending Ohc p"
  by (auto simp: pending_def)

text \<open>A periodic transfer of one descriptor with the given condition code.\<close>

definition one_context :: "u32 \<Rightarrow> bump USB_OHCI_HC_DEV" where
  "one_context cc = device_at Map.empty [128 \<mapsto> OhciSetTDField td_zero TD_COND_CODE cc] (bump_p []) bump_w
      \<lparr>InterruptContextList := 500, Ents := [500 \<mapsto> context_at 128 True 0 0]\<rparr>"

lemma one_context_result:
  "take_bit 4 cc \<noteq> 0 \<Longrightarrow> OhciCheckTDsResults (Tds (one_context cc)) 128 = Some (False, ConvertErrorCode (take_bit 4 cc))"
  using check_one[of "Tds (one_context cc)" 128 "OhciSetTDField td_zero TD_COND_CODE cc"]
  by (simp add: one_context_def device_at_def td_bits)

text \<open>While every transfer of the list is still to be executed or stalled, \<open>OhciHouseKeeper\<close>
  returns with the state as it was, the task priority level restored.\<close>

theorem OhciHouseKeeper_idle:
  assumes "entry_chain (Ents Ohc) (InterruptContextList Ohc) ps 0" "\<forall>p \<in> set ps. pending Ohc p"
  shows "OhciHouseKeeper cb sv Ohc = Some Ohc"
proof -
  have "OhciHouseKeeper cb sv Ohc = OhciHouseKeeperLoop cb sv (Tpl Ohc) (last (0 # ps)) 0 (Ohc\<lparr>Tpl := TPL_NOTIFY\<rparr>)"
    using keeper_skip[of "Ohc\<lparr>Tpl := TPL_NOTIFY\<rparr>" "InterruptContextList Ohc" ps "[]" cb sv "Tpl Ohc" 0] assms
    by (simp add: OhciHouseKeeper_def)
  then show ?thesis by (simp add: OhciHouseKeeperLoop.simps)
qed

theorem OhciHouseKeeper_idle_witness:
  "OhciHouseKeeper (\<lambda>f data len c r s. s) bump_services (one_context 0xE) = Some (one_context 0xE)"
proof -
  have "pending (one_context 0xE) 500"
    using one_context_result[of "0xE"] by (intro pendingI[of _ _ "context_at 128 True 0 0" False 1])
      (auto simp: one_context_def context_at_def ConvertErrorCode_def)
  moreover have "entry_chain (Ents (one_context 0xE)) (InterruptContextList (one_context 0xE)) [500] 0"
    by (simp add: one_context_def context_at_def)
  ultimately show ?thesis by (intro OhciHouseKeeper_idle[where ps = "[500]"]) simp_all
qed

text \<open>When a periodic transfer without call-back has failed with anything but a stall,
  \<open>OhciHouseKeeper\<close> returns without restoring the task priority level.\<close>

theorem OhciHouseKeeper_error_level:
  assumes "entry_chain (Ents Ohc) (InterruptContextList Ohc) (xs @ p # ys) 0" "\<forall>q \<in> set xs. pending Ohc q"
    and "Ents Ohc p = Some e" "\<not> pending Ohc p" "IsPeriodic e" "CallBackFunction e = 0"
    and "OhciCheckTDsResults (Tds Ohc) (Entry_DataTd e) = Some (False, r)" "r \<noteq> 0"
  shows "OhciHouseKeeper cb sv Ohc = Some (Ohc\<lparr>Tpl := TPL_NOTIFY\<rparr>)"
proof -
  let ?O = "Ohc\<lparr>Tpl := TPL_NOTIFY\<rparr>"
  have p: "p \<noteq> 0" using chain_no_end[OF assms(1)] by auto
  have "OhciHouseKeeper cb sv Ohc = OhciHouseKeeperLoop cb sv (Tpl Ohc) (last (0 # xs)) p ?O"
    using keeper_skip[of ?O "InterruptContextList Ohc" xs "p # ys" cb sv "Tpl Ohc" 0] assms(1,2)
    by (simp add: OhciHouseKeeper_def)
  also have "\<dots> = Some ?O"
    using p assms(3,5-8) not_pending[OF assms(4,3,7)] by (subst OhciHouseKeeperLoop.simps) simp
  finally show ?thesis .
qed

theorem OhciHouseKeeper_error_level_witness:
  "Tpl (the (OhciHouseKeeper (\<lambda>f data len c r s. s) bump_services (one_context 1))) = TPL_NOTIFY"
proof -
  have r: "OhciCheckTDsResults (Tds (one_context 1)) (Entry_DataTd (context_at 128 True 0 0)) = Some (False, 0x20)"
    using one_context_result[of 1] by (simp add: context_at_def ConvertErrorCode_def)
  have e: "Ents (one_context 1) 500 = Some (context_at 128 True 0 0)" by (simp add: one_context_def)
  have p: "\<not> pending (one_context 1) 500" using r e by (auto simp: pending_def)
  have c: "entry_chain (Ents (one_context 1)) (InterruptContextList (one_context 1)) ([] @ 500 # []) 0"
    by (simp add: one_context_def context_at_def)
  show ?thesis
    using OhciHouseKeeper_error_level[OF c _ e p _ _ r] by (simp add: context_at_def)
qed







text \<open>\<open>CheckIfDone\<close> on a list of interrupt transfers returns, with success when no descriptor before the
  last has a condition code, and otherwise with the first condition code found: not ready if that
  descriptor is still to be processed, a device error for any other code.\<close>

lemma CheckIfDone_status:
  assumes "tdp_chain (Tds Ohc) HeadTd (xs @ [y]) 0"
  shows "\<exists>r. CheckIfDone io Ohc INTERRUPT_LIST EdPtr HeadTd EdResult =
      Some (case find (\<lambda>p. ConditionCode (the (Tds Ohc p)) \<noteq> 0) xs of
              None \<Rightarrow> EFI_SUCCESS
            | Some p \<Rightarrow> if ConditionCode (the (Tds Ohc p)) = TD_TOBE_PROCESSED then EFI_NOT_READY else EFI_DEVICE_ERROR, r, Ohc)
    \<and> ErrorCode r = (case find (\<lambda>p. ConditionCode (the (Tds Ohc p)) \<noteq> 0) xs of
              None \<Rightarrow> 0 | Some p \<Rightarrow> ConditionCode (the (Tds Ohc p)))"
proof -
  obtain r where "CheckEDStatus (Eds Ohc) (Tds Ohc) EdPtr HeadTd (EdResult\<lparr>ErrorCode := TD_TOBE_PROCESSED\<rparr>) =
    Some (case find (\<lambda>p. ConditionCode (the (Tds Ohc p)) \<noteq> 0) xs of
            None \<Rightarrow> 0 | Some p \<Rightarrow> ConditionCode (the (Tds Ohc p)), r)"
    using check_ed[OF assms] by blast
  note c = this
  show ?thesis
  proof (cases "find (\<lambda>p. ConditionCode (the (Tds Ohc p)) \<noteq> 0) xs")
    case None
    then show ?thesis using c by (simp add: CheckIfDone_def list_filled_def Let_def)
  next
    case (Some p)
    then have "ConditionCode (the (Tds Ohc p)) \<noteq> 0" by (auto simp: find_Some_iff)
    then show ?thesis using c Some by (simp add: CheckIfDone_def list_filled_def Let_def)
  qed
qed

end
