(* ===== verification/OhciHub.thy ===== *)
theory OhciHub
  imports OhciSched
begin

unbundle bit_operations_syntax

text \<open>
  The state of the host controller and its root hub: the routines of
  \<open>src/Silicon/Rockchip/Rk356xPkg/Drivers/OhciDxe/Ohci.c\<close> that reset the controller, start it, move
  it between its states, and read, set and clear the features of the root hub ports.

  A pointer argument that is only compared with \<open>NULL\<close> and written through is a \<open>nat\<close>; what is
  written is part of the result. \<open>This\<close> is the device structure.
\<close>

section \<open>Host controller state\<close>

datatype EFI_USB_HC_STATE =
  EfiUsbHcStateHalt | EfiUsbHcStateOperational | EfiUsbHcStateSuspend | EfiUsbHcStateMaximum

abbreviation (input) HC_STATE_RESET :: u32 where "HC_STATE_RESET \<equiv> 0"
abbreviation (input) HC_STATE_RESUME :: u32 where "HC_STATE_RESUME \<equiv> 1"
abbreviation (input) HC_STATE_OPERATIONAL :: u32 where "HC_STATE_OPERATIONAL \<equiv> 2"
abbreviation (input) HC_STATE_SUSPEND :: u32 where "HC_STATE_SUSPEND \<equiv> 3"

definition OhciGetState ::
  "'d mmio \<Rightarrow> u32 \<Rightarrow> nat \<Rightarrow> 'd \<Rightarrow> (EFI_STATUS \<times> EFI_USB_HC_STATE option \<times> 'd) option" where
  "OhciGetState io Ohc State d =
    (if State = 0 then Some (EFI_INVALID_PARAMETER, None, d) else
     let (FuncState, d1) = OhciGetHcControl io Ohc HC_FUNCTIONAL_STATE d in
     do {
       v \<leftarrow> FuncState;
       if v = HC_STATE_RESET \<or> v = HC_STATE_RESUME then Some (EFI_SUCCESS, Some EfiUsbHcStateHalt, d1)
       else if v = HC_STATE_OPERATIONAL then Some (EFI_SUCCESS, Some EfiUsbHcStateOperational, d1)
       else if v = HC_STATE_SUSPEND then Some (EFI_SUCCESS, Some EfiUsbHcStateSuspend, d1)
       else None
     })"

definition OhciSetState :: "'d mmio \<Rightarrow> u32 \<Rightarrow> EFI_USB_HC_STATE \<Rightarrow> 'd \<Rightarrow> EFI_STATUS \<times> 'd" where
  "OhciSetState io Ohc State d =
    (let (Status, d1) =
       (case State of
          EfiUsbHcStateHalt \<Rightarrow> OhciSetHcControl io Ohc HC_FUNCTIONAL_STATE HC_STATE_RESET d
        | EfiUsbHcStateOperational \<Rightarrow> OhciSetHcControl io Ohc HC_FUNCTIONAL_STATE HC_STATE_OPERATIONAL d
        | EfiUsbHcStateSuspend \<Rightarrow> OhciSetHcControl io Ohc HC_FUNCTIONAL_STATE HC_STATE_SUSPEND d
        | EfiUsbHcStateMaximum \<Rightarrow> (EFI_INVALID_PARAMETER, d)) in
     (Status, Stall io 1000 d1))"

section \<open>Root hub ports\<close>

definition OhciGetRootHubNumOfPorts ::
  "'d mmio \<Rightarrow> u32 \<Rightarrow> nat \<Rightarrow> 'd \<Rightarrow> (EFI_STATUS \<times> u8 option \<times> 'd) option" where
  "OhciGetRootHubNumOfPorts io Ohc NumOfPorts d =
    (if NumOfPorts = 0 then Some (EFI_INVALID_PARAMETER, None, d) else
     let (n, d1) = OhciGetRootHubDescriptor io Ohc RH_NUM_DS_PORTS d in
     do { v \<leftarrow> n; Some (EFI_SUCCESS, Some (ucast v), d1) })"

text \<open>The call with the address of a local variable.\<close>

definition NumOfPorts :: "'d mmio \<Rightarrow> u32 \<Rightarrow> 'd \<Rightarrow> (u8 \<times> 'd) option" where
  "NumOfPorts io Ohc d =
    do { (_, n, d1) \<leftarrow> OhciGetRootHubNumOfPorts io Ohc 1 d; n \<leftarrow> n; Some (n, d1) }"

record EFI_USB_PORT_STATUS =
  PortStatus :: u16
  PortChangeStatus :: u16

text \<open>One statement \<open>if (OhciReadRootHubPortStatus (Ohc, PortNumber, X)) acc |= Y;\<close>\<close>

definition or_if_set ::
  "'d mmio \<Rightarrow> u32 \<Rightarrow> u8 \<Rightarrow> u64 \<times> u16 \<Rightarrow> u16 \<times> 'd \<Rightarrow> (u16 \<times> 'd) option" where
  "or_if_set io Ohc PortNumber = (\<lambda>(X, Y) (acc, d).
    (let (r, d1) = OhciReadRootHubPortStatus io Ohc (ucast PortNumber) X d in
     do { v \<leftarrow> r; Some (if v \<noteq> 0 then acc OR Y else acc, d1) }))"

fun or_all_set ::
  "'d mmio \<Rightarrow> u32 \<Rightarrow> u8 \<Rightarrow> (u64 \<times> u16) list \<Rightarrow> u16 \<times> 'd \<Rightarrow> (u16 \<times> 'd) option" where
  "or_all_set io Ohc PortNumber [] s = Some s"
| "or_all_set io Ohc PortNumber (XY # rest) s =
    do { s \<leftarrow> or_if_set io Ohc PortNumber XY s; or_all_set io Ohc PortNumber rest s }"

abbreviation (input) USB_PORT_STAT_CONNECTION :: u16 where "USB_PORT_STAT_CONNECTION \<equiv> 0x0001"
abbreviation (input) USB_PORT_STAT_ENABLE :: u16 where "USB_PORT_STAT_ENABLE \<equiv> 0x0002"
abbreviation (input) USB_PORT_STAT_SUSPEND :: u16 where "USB_PORT_STAT_SUSPEND \<equiv> 0x0004"
abbreviation (input) USB_PORT_STAT_OVERCURRENT :: u16 where "USB_PORT_STAT_OVERCURRENT \<equiv> 0x0008"
abbreviation (input) USB_PORT_STAT_RESET :: u16 where "USB_PORT_STAT_RESET \<equiv> 0x0010"
abbreviation (input) USB_PORT_STAT_POWER :: u16 where "USB_PORT_STAT_POWER \<equiv> 0x0100"
abbreviation (input) USB_PORT_STAT_LOW_SPEED :: u16 where "USB_PORT_STAT_LOW_SPEED \<equiv> 0x0200"
abbreviation (input) USB_PORT_STAT_C_CONNECTION :: u16 where "USB_PORT_STAT_C_CONNECTION \<equiv> 0x0001"
abbreviation (input) USB_PORT_STAT_C_ENABLE :: u16 where "USB_PORT_STAT_C_ENABLE \<equiv> 0x0002"
abbreviation (input) USB_PORT_STAT_C_SUSPEND :: u16 where "USB_PORT_STAT_C_SUSPEND \<equiv> 0x0004"
abbreviation (input) USB_PORT_STAT_C_OVERCURRENT :: u16 where "USB_PORT_STAT_C_OVERCURRENT \<equiv> 0x0008"
abbreviation (input) USB_PORT_STAT_C_RESET :: u16 where "USB_PORT_STAT_C_RESET \<equiv> 0x0010"

definition OhciGetRootHubPortStatus ::
  "'d mmio \<Rightarrow> u32 \<Rightarrow> u8 \<Rightarrow> 'd \<Rightarrow> (EFI_STATUS \<times> EFI_USB_PORT_STATUS option \<times> 'd) option" where
  "OhciGetRootHubPortStatus io Ohc PortNumber d =
    do {
      (n, d) \<leftarrow> NumOfPorts io Ohc d;
      if PortNumber \<ge> n then Some (EFI_INVALID_PARAMETER, None, d) else
      do {
        (st, d) \<leftarrow> or_all_set io Ohc PortNumber
          [(RH_CURR_CONNECT_STAT, USB_PORT_STAT_CONNECTION),
           (RH_PORT_ENABLE_STAT, USB_PORT_STAT_ENABLE),
           (RH_PORT_SUSPEND_STAT, USB_PORT_STAT_SUSPEND),
           (RH_PORT_OC_INDICATOR, USB_PORT_STAT_OVERCURRENT),
           (RH_PORT_RESET_STAT, USB_PORT_STAT_RESET),
           (RH_PORT_POWER_STAT, USB_PORT_STAT_POWER),
           (RH_LSDEVICE_ATTACHED, USB_PORT_STAT_LOW_SPEED)] (0, d);
        (ch, d) \<leftarrow> or_all_set io Ohc PortNumber
          [(RH_PORT_ENABLE_STAT_CHANGE, USB_PORT_STAT_C_ENABLE),
           (RH_CONNECT_STATUS_CHANGE, USB_PORT_STAT_C_CONNECTION),
           (RH_PORT_SUSPEND_STAT_CHANGE, USB_PORT_STAT_C_SUSPEND),
           (RH_OC_INDICATOR_CHANGE, USB_PORT_STAT_C_OVERCURRENT),
           (RH_PORT_RESET_STAT_CHANGE, USB_PORT_STAT_C_RESET)] (0, d);
        Some (EFI_SUCCESS, Some \<lparr>PortStatus = st, PortChangeStatus = ch\<rparr>, d)
      }
    }"

text \<open>
  The features the two routines name; \<open>EfiUsbPortOther\<close> stands for every other value of the
  enumeration.
\<close>

datatype EFI_USB_PORT_FEATURE =
    EfiUsbPortEnable | EfiUsbPortSuspend | EfiUsbPortReset | EfiUsbPortPower
  | EfiUsbPortConnectChange | EfiUsbPortEnableChange | EfiUsbPortSuspendChange
  | EfiUsbPortOverCurrentChange | EfiUsbPortResetChange | EfiUsbPortOther nat

abbreviation (input) MAX_RETRY_TIMES :: nat where "MAX_RETRY_TIMES \<equiv> 100"

text \<open>
  The loop that all features share:
  \<open>do { Stall (1000); RetryTimes++; } while (busy && RetryTimes < MAX_RETRY_TIMES);\<close>
  The result is \<open>RetryTimes\<close>.
\<close>

function OhciVerify ::
  "'d mmio \<Rightarrow> ('d \<Rightarrow> (bool \<times> 'd) option) \<Rightarrow> nat \<Rightarrow> 'd \<Rightarrow> (nat \<times> 'd) option" where
  "OhciVerify io busy RetryTimes d =
    (case busy (Stall io 1000 d) of
       None \<Rightarrow> None
     | Some (b, d1) \<Rightarrow>
         if b \<and> RetryTimes + 1 < MAX_RETRY_TIMES then OhciVerify io busy (RetryTimes + 1) d1
         else Some (RetryTimes + 1, d1))"
  by pat_completeness auto
termination by (relation "measure (\<lambda>(_, _, n, _). 100 - n)") auto

declare OhciVerify.simps [simp del]

definition port_reads :: "'d mmio \<Rightarrow> u32 \<Rightarrow> u8 \<Rightarrow> u64 \<Rightarrow> u32 \<Rightarrow> 'd \<Rightarrow> (bool \<times> 'd) option" where
  "port_reads io Ohc PortNumber X v d =
    (let (r, d1) = OhciReadRootHubPortStatus io Ohc (ucast PortNumber) X d in
     map_option (\<lambda>x. (x = v, d1)) r)"

text \<open>The second operand of \<open>||\<close> is read only when the first one is false.\<close>

definition reset_busy :: "'d mmio \<Rightarrow> u32 \<Rightarrow> u8 \<Rightarrow> 'd \<Rightarrow> (bool \<times> 'd) option" where
  "reset_busy io Ohc PortNumber d =
    do {
      (b, d) \<leftarrow> port_reads io Ohc PortNumber RH_PORT_RESET_STAT_CHANGE 0 d;
      if b then Some (True, d) else port_reads io Ohc PortNumber RH_PORT_RESET_STAT 1 d
    }"

text \<open>One case of the switch: the command, the loop and the test of \<open>RetryTimes\<close>.\<close>

definition OhciPortCommand ::
  "'d mmio \<Rightarrow> u32 \<Rightarrow> u8 \<Rightarrow> u64 \<Rightarrow> ('d \<Rightarrow> (bool \<times> 'd) option) \<Rightarrow> 'd \<Rightarrow> (EFI_STATUS \<times> 'd) option" where
  "OhciPortCommand io Ohc PortNumber Command busy d =
    (let (Status, d1) = OhciSetRootHubPortStatus io Ohc (ucast PortNumber) Command d in
     do {
       (RetryTimes, d2) \<leftarrow> OhciVerify io busy 0 d1;
       Some (if RetryTimes \<ge> MAX_RETRY_TIMES then EFI_DEVICE_ERROR else Status, d2)
     })"

definition OhciSetRootHubPortFeature ::
  "'d mmio \<Rightarrow> u32 \<Rightarrow> u8 \<Rightarrow> EFI_USB_PORT_FEATURE \<Rightarrow> 'd \<Rightarrow> (EFI_STATUS \<times> 'd) option" where
  "OhciSetRootHubPortFeature io Ohc PortNumber PortFeature d =
    do {
      (n, d) \<leftarrow> NumOfPorts io Ohc d;
      if PortNumber \<ge> n then Some (EFI_INVALID_PARAMETER, d) else
      case PortFeature of
        EfiUsbPortPower \<Rightarrow> OhciPortCommand io Ohc PortNumber RH_SET_PORT_POWER
          (port_reads io Ohc PortNumber RH_PORT_POWER_STAT 0) d
      | EfiUsbPortReset \<Rightarrow>
          do {
            (Status, d) \<leftarrow> OhciPortCommand io Ohc PortNumber RH_SET_PORT_RESET (reset_busy io Ohc PortNumber) d;
            if Status = EFI_DEVICE_ERROR then Some (EFI_DEVICE_ERROR, d) else
            Some (Status, snd (OhciSetRootHubPortStatus io Ohc (ucast PortNumber) RH_PORT_RESET_STAT_CHANGE d))
          }
      | EfiUsbPortEnable \<Rightarrow> OhciPortCommand io Ohc PortNumber RH_SET_PORT_ENABLE
          (port_reads io Ohc PortNumber RH_PORT_ENABLE_STAT 0) d
      | EfiUsbPortSuspend \<Rightarrow> OhciPortCommand io Ohc PortNumber RH_SET_PORT_SUSPEND
          (port_reads io Ohc PortNumber RH_PORT_SUSPEND_STAT 0) d
      | _ \<Rightarrow> Some (EFI_INVALID_PARAMETER, d)
    }"

definition OhciClearRootHubPortFeature ::
  "'d mmio \<Rightarrow> u32 \<Rightarrow> u8 \<Rightarrow> EFI_USB_PORT_FEATURE \<Rightarrow> 'd \<Rightarrow> (EFI_STATUS \<times> 'd) option" where
  "OhciClearRootHubPortFeature io Ohc PortNumber PortFeature d =
    do {
      (n, d) \<leftarrow> NumOfPorts io Ohc d;
      if PortNumber \<ge> n then Some (EFI_INVALID_PARAMETER, d) else
      let clear = (\<lambda>Command X. OhciPortCommand io Ohc PortNumber Command (port_reads io Ohc PortNumber X 1) d) in
      case PortFeature of
        EfiUsbPortEnable \<Rightarrow> clear RH_CLEAR_PORT_ENABLE RH_PORT_ENABLE_STAT
      | EfiUsbPortSuspend \<Rightarrow> clear RH_CLEAR_SUSPEND_STATUS RH_PORT_SUSPEND_STAT
      | EfiUsbPortReset \<Rightarrow> Some (EFI_SUCCESS, d)
      | EfiUsbPortPower \<Rightarrow> clear RH_CLEAR_PORT_POWER RH_PORT_POWER_STAT
      | EfiUsbPortConnectChange \<Rightarrow> clear RH_CONNECT_STATUS_CHANGE RH_CONNECT_STATUS_CHANGE
      | EfiUsbPortResetChange \<Rightarrow> clear RH_PORT_RESET_STAT_CHANGE RH_PORT_RESET_STAT_CHANGE
      | EfiUsbPortEnableChange \<Rightarrow> clear RH_PORT_ENABLE_STAT_CHANGE RH_PORT_ENABLE_STAT_CHANGE
      | EfiUsbPortSuspendChange \<Rightarrow> clear RH_PORT_SUSPEND_STAT_CHANGE RH_PORT_SUSPEND_STAT_CHANGE
      | EfiUsbPortOverCurrentChange \<Rightarrow> clear RH_OC_INDICATOR_CHANGE RH_OC_INDICATOR_CHANGE
      | EfiUsbPortOther _ \<Rightarrow> Some (EFI_INVALID_PARAMETER, d)
    }"

section \<open>Reset and start of the controller\<close>

text \<open>\<open>do { Stall (1000); if ((read & HC_RESET) == 0) { Flag = TRUE; break; } } while (PowerOnGoodTime--);\<close>\<close>

fun OhciPollReset :: "'d mmio \<Rightarrow> u32 \<Rightarrow> nat \<Rightarrow> 'd \<Rightarrow> bool \<times> 'd" where
  "OhciPollReset io Ohc PowerOnGoodTime d =
    (let (Data32, d1) = OhciGetOperationalReg io Ohc HC_COMMAND_STATUS (Stall io 1000 d) in
     if Data32 AND 1 = 0 then (True, d1)
     else if PowerOnGoodTime = 0 then (False, d1)
     else OhciPollReset io Ohc (PowerOnGoodTime - 1) d1)"

declare OhciPollReset.simps [simp del]

text \<open>The operational registers, in the order in which both routines write them.\<close>

definition OhciInitRegisters :: "'d mmio \<Rightarrow> u32 \<Rightarrow> 'd \<Rightarrow> 'd" where
  "OhciInitRegisters io Ohc d =
    (let (_, d) = OhciSetFrameInterval io Ohc FS_LARGEST_DATA_PACKET 0x2778 d;
         (_, d) = OhciSetFrameInterval io Ohc FRAME_INTERVAL 0x2edf d;
         (_, d) = OhciSetPeriodicStart io Ohc 0x2a2f d;
         (_, d) = OhciSetHcControl io Ohc CONTROL_BULK_RATIO 0x3 d;
         (_, d) = OhciSetHcCommandStatus io Ohc (CONTROL_LIST_FILLED OR BULK_LIST_FILLED) 0 d;
         (_, d) = OhciSetRootHubDescriptor io Ohc RH_PSWITCH_MODE 0 d;
         (_, d) = OhciSetRootHubDescriptor io Ohc (RH_NO_PSWITCH OR RH_NOC_PROT) 1 d;
         (_, d) = OhciSetRootHubDescriptor io Ohc RH_DEV_REMOVABLE 0 d;
         (_, d) = OhciSetRootHubDescriptor io Ohc RH_PORT_PWR_CTRL_MASK 0xffff d;
         (_, d) = OhciSetRootHubStatus io Ohc RH_LOCAL_PSTAT_CHANGE d;
         (_, d) = OhciSetRootHubPortStatus io Ohc 0 RH_SET_PORT_POWER d in
     d)"

fun OhciResetPorts :: "'d mmio \<Rightarrow> u32 \<Rightarrow> u8 list \<Rightarrow> 'd \<Rightarrow> 'd option" where
  "OhciResetPorts io Ohc [] d = Some d"
| "OhciResetPorts io Ohc (Index # rest) d =
    do {
      (Status, d) \<leftarrow> OhciSetRootHubPortFeature io Ohc Index EfiUsbPortReset d;
      if EFI_ERROR Status then OhciResetPorts io Ohc rest d else
      do {
        (_, d) \<leftarrow> OhciClearRootHubPortFeature io Ohc Index EfiUsbPortReset (Stall io 200000 d);
        (_, d) \<leftarrow> OhciSetRootHubPortFeature io Ohc Index EfiUsbPortEnable (Stall io 1000 d);
        OhciResetPorts io Ohc rest (Stall io 1000 d)
      }
    }"

definition OhciStart :: "'d mmio \<Rightarrow> u32 \<Rightarrow> nat \<Rightarrow> 'd \<Rightarrow> 'd option" where
  "OhciStart io Ohc Hcca d =
    do {
      (_, d) \<leftarrow> OhciSetMemoryPointer io Ohc HC_HCCA Hcca d;
      (_, d) \<leftarrow> OhciSetMemoryPointer io Ohc HC_CONTROL_HEAD 0 d;
      (_, d) \<leftarrow> OhciSetMemoryPointer io Ohc HC_BULK_HEAD 0 d;
      let (_, d) = OhciSetHcControl io Ohc (PERIODIC_ENABLE OR CONTROL_ENABLE OR BULK_ENABLE) 1 d;
      let (_, d) = OhciSetHcControl io Ohc HC_FUNCTIONAL_STATE HC_STATE_OPERATIONAL d;
      Some d
    }"

text \<open>\<open>while (OhciGetHcInterruptStatus (Ohc, START_OF_FRAME) == 0);\<close>\<close>

partial_function (option) OhciWaitSof :: "'d mmio \<Rightarrow> u32 \<Rightarrow> 'd \<Rightarrow> 'd option" where
  "OhciWaitSof io Ohc d =
    (let (r, d1) = OhciGetHcInterruptStatus io Ohc START_OF_FRAME d in
     do { v \<leftarrow> r; if v = 0 then OhciWaitSof io Ohc d1 else Some d1 })"

text \<open>
  From the registers to the first frame; \<open>Settle\<close> is the delay before the wait for the first frame,
  50 ms in \<open>OhciReset\<close> and none in \<open>OhcInitHC\<close>.
\<close>

definition OhciBringUp :: "'d mmio \<Rightarrow> u32 \<Rightarrow> nat \<Rightarrow> ('d \<Rightarrow> 'd) \<Rightarrow> 'd \<Rightarrow> 'd option" where
  "OhciBringUp io Ohc Hcca Settle d =
    do {
      (n, d) \<leftarrow> NumOfPorts io Ohc (OhciInitRegisters io Ohc d);
      d \<leftarrow> OhciResetPorts io Ohc (map word_of_nat [0..<unat n]) d;
      d \<leftarrow> OhciStart io Ohc Hcca d;
      d \<leftarrow> OhciWaitSof io Ohc (Settle d);
      let (_, d) = OhciClearInterruptStatus io Ohc START_OF_FRAME d;
      Some (Stall io 1000 d)
    }"


abbreviation (input) EFI_USB_HC_RESET_GLOBAL :: u16 where "EFI_USB_HC_RESET_GLOBAL \<equiv> 0x0001"
abbreviation (input) EFI_USB_HC_RESET_HOST_CONTROLLER :: u16 where "EFI_USB_HC_RESET_HOST_CONTROLLER \<equiv> 0x0002"

text \<open>
  The first part of \<open>OhciReset\<close>, the reset of the controller: the result says whether the routine
  goes on. The tests of \<open>Status\<close> in and after the loop are on the status of the command.
\<close>

definition OhciResetController :: "'d mmio \<Rightarrow> u32 \<Rightarrow> 'd \<Rightarrow> bool \<times> 'd" where
  "OhciResetController io Ohc d =
    (let (Status, d) = OhciSetHcCommandStatus io Ohc HC_RESET 1 (Stall io 50000 d) in
     if EFI_ERROR Status then (False, d)
     else OhciPollReset io Ohc 50 (Stall io 50000 d))"

definition OhciReset ::
  "'w dma_services \<Rightarrow> 'w mmio \<Rightarrow> 'w USB_OHCI_HC_DEV \<Rightarrow> u16 \<Rightarrow> (EFI_STATUS \<times> 'w USB_OHCI_HC_DEV) option" where
  "OhciReset sv io Ohc Attributes =
    (if Attributes AND NOT (EFI_USB_HC_RESET_GLOBAL OR EFI_USB_HC_RESET_HOST_CONTROLLER) \<noteq> 0
     then Some (EFI_INVALID_PARAMETER, Ohc) else
     let B = UsbHcBaseAddress Ohc;
         (Flag, w) = (if Attributes AND EFI_USB_HC_RESET_HOST_CONTROLLER \<noteq> 0
                      then OhciResetController io B (World Ohc) else (True, World Ohc)) in
     if \<not> Flag then Some (EFI_DEVICE_ERROR, Ohc\<lparr>World := w\<rparr>) else
     do {
       (_, Ohc) \<leftarrow> OhciFreeIntTransferMemory sv (Ohc\<lparr>World := w\<rparr>);
       (Status, Ohc) \<leftarrow> OhciInitializeInterruptList sv Ohc;
       let (_, w) = OhciSetFrameInterval io B FRAME_INTERVAL 0x2edf (World Ohc);
       let (Status, w) =
         (if Attributes AND EFI_USB_HC_RESET_GLOBAL \<noteq> 0 then
            (let (Status, w) = OhciSetHcControl io B HC_FUNCTIONAL_STATE HC_STATE_RESET w in
             (Status, if EFI_ERROR Status then w else Stall io 50000 w))
          else (Status, w));
       if Attributes AND EFI_USB_HC_RESET_GLOBAL \<noteq> 0 \<and> EFI_ERROR Status
       then Some (EFI_DEVICE_ERROR, Ohc\<lparr>World := w\<rparr>) else
       do {
         w \<leftarrow> OhciBringUp io B (HccaMemoryBlock Ohc) (Stall io 50000) w;
         Some (Status, Ohc\<lparr>World := w\<rparr>)
       }
     })"

section \<open>The retry loop\<close>

text \<open>A test of one register; the \<open>k\<close>-th test of the loop is on the \<open>k\<close>-th value that \<open>poll\<close> gives.\<close>

definition reg_test :: "'d mmio \<Rightarrow> u32 \<Rightarrow> u32 \<Rightarrow> (u32 \<Rightarrow> bool) \<Rightarrow> 'd \<Rightarrow> (bool \<times> 'd) option" where
  "reg_test io Ohc T P d = (let (w, d1) = OhciGetOperationalReg io Ohc T d in Some (P w, d1))"

lemma poll_snd: "poll io Ohc T (Stall io 1000 (snd (poll io Ohc T d 0))) = (\<lambda>k. poll io Ohc T d (Suc k))"
  by (rule ext) (rule poll_shift)

lemma Least_step:
  assumes "\<not> Q 0" "Q n"
  shows "(LEAST k. Q k) = Suc (LEAST k. Q (Suc k))"
  using Least_Suc[of Q n] assms by auto

lemma verify_least:
  assumes "n < 100"
  shows "OhciVerify io (reg_test io Ohc T P) n d =
    (let r = (LEAST k. n + k = 99 \<or> \<not> P (fst (poll io Ohc T (Stall io 1000 d) k))) in
     Some (n + r + 1, snd (poll io Ohc T (Stall io 1000 d) r)))"
  using assms
proof (induction "99 - n" arbitrary: n d)
  case 0
  then have "n = 99" by simp
  moreover have "(LEAST k. 99 + k = 99 \<or> \<not> P (fst (poll io Ohc T (Stall io 1000 d) k))) = 0"
    by (rule Least_equality) auto
  ultimately show ?case
    by (simp add: OhciVerify.simps reg_test_def split_beta Let_def)
next
  case (Suc m)
  let ?p = "poll io Ohc T (Stall io 1000 d)"
  let ?Q = "\<lambda>k. n + k = 99 \<or> \<not> P (fst (?p k))"
  show ?case
  proof (cases "P (fst (?p 0))")
    case True
    have n: "n < 99" using Suc by simp
    have "\<not> ?Q 0" "?Q (99 - n)" using True n by simp_all
    then have l: "(LEAST k. ?Q k) = Suc (LEAST k. ?Q (Suc k))" by (rule Least_step)
    have "OhciVerify io (reg_test io Ohc T P) n d = OhciVerify io (reg_test io Ohc T P) (n + 1) (snd (?p 0))"
      using True n by (simp add: OhciVerify.simps[of _ _ n] reg_test_def split_beta Let_def)
    also have "\<dots> = (let r = (LEAST k. ?Q (Suc k)) in Some (n + 1 + r + 1, snd (?p (Suc r))))"
      using Suc.hyps(1)[of "n + 1" "snd (?p 0)"] Suc.hyps(2) n by (simp only: poll_snd) simp
    finally show ?thesis by (simp only: l Let_def) simp
  next
    case False
    then have "(LEAST k. ?Q k) = 0" by (intro Least_equality) auto
    then show ?thesis using False
      by (simp add: OhciVerify.simps[of _ _ n] reg_test_def split_beta Let_def)
  qed
qed

section \<open>Port commands\<close>

abbreviation port_register :: "u8 \<Rightarrow> u32" where
  "port_register PortNumber \<equiv> HC_RH_PORT_STATUS + ucast PortNumber * 4"

text \<open>
  What a port feature stands for, in terms of the bits of HcRhPortStatus: the feature, whether it is
  set or cleared, the bit whose write is the command, and the bit that shows the outcome.
\<close>

definition port_commands :: "(EFI_USB_PORT_FEATURE \<times> bool \<times> nat \<times> nat) list" where
  "port_commands =
    [(EfiUsbPortPower, True, 8, 8), (EfiUsbPortEnable, True, 1, 1), (EfiUsbPortSuspend, True, 2, 2),
     (EfiUsbPortPower, False, 9, 8), (EfiUsbPortEnable, False, 0, 1), (EfiUsbPortSuspend, False, 3, 2),
     (EfiUsbPortConnectChange, False, 16, 16), (EfiUsbPortEnableChange, False, 17, 17),
     (EfiUsbPortSuspendChange, False, 18, 18), (EfiUsbPortOverCurrentChange, False, 19, 19),
     (EfiUsbPortResetChange, False, 20, 20)]"

lemma bf_get_1: "bf_get i 1 w = (if bit w i then 1 else 0)" for w :: "'a::len word"
  by (rule bit_word_eqI) (auto simp: bit_bf_get bit_1_iff)

lemma bf_get_1_eq: "(bf_get i 1 w = 1) = bit w i" "(bf_get i 1 w = 0) = (\<not> bit w i)" for w :: "'a::len word"
  unfolding bf_get_1 by simp_all

lemma port_reads_test:
  assumes "(X, i, 1) \<in> set HcRHPORT_STATUS_get"
  shows "port_reads io Ohc PortNumber X v = reg_test io Ohc (port_register PortNumber) (\<lambda>w. bf_get i 1 w = v)"
  using port_get.get_member[OF assms]
  by (intro ext) (simp add: port_reads_def reg_test_def OhciReadRootHubPortStatus_def split_beta Let_def)

lemma port_command_outcome:
  assumes "(X, j, 1) \<in> set HcRHPORT_STATUS_get" "set_fields C 1 HcRHPORT_STATUS_set 0 = c" "c \<noteq> 0" "v = (if on then 0 else 1)"
  shows "OhciPortCommand io Ohc PortNumber C (port_reads io Ohc PortNumber X v) d =
    (let d1 = MmioWrite32 io (ucast (Ohc + port_register PortNumber)) c d;
         p = poll io Ohc (port_register PortNumber) (Stall io 1000 d1);
         r = (LEAST k. k = 99 \<or> bit (fst (p k)) j = on) in
     Some (if r = 99 then EFI_DEVICE_ERROR else EFI_STATUS_RAW c, snd (p r)))"
proof -
  let ?p = "poll io Ohc (port_register PortNumber) (Stall io 1000 (MmioWrite32 io (ucast (Ohc + port_register PortNumber)) c d))"
  have q: "(\<lambda>w :: u32. bf_get j 1 w = v) = (\<lambda>w. bit w j \<noteq> on)"
    unfolding bf_get_1 assms(4) by auto
  let ?r = "LEAST k. k = 99 \<or> bit (fst (?p k)) j = on"
  have "?r \<le> 99" by (rule Least_le) simp
  then have "(100 \<le> Suc ?r) = (?r = 99)" by linarith
  then show ?thesis
    unfolding port_reads_test[OF assms(1)] OhciPortCommand_def OhciSetRootHubPortStatus_def OhciSetOperationalReg_def assms(2) q
    using assms(3) by (simp add: verify_least Let_def status_of_u32_def)
qed

lemma NumOfPorts_read:
  "NumOfPorts io Ohc d = (let (a, d1) = OhciGetOperationalReg io Ohc HC_RH_DESC_A d;
     (b, d2) = OhciGetOperationalReg io Ohc HC_RH_DESC_B d1 in Some (ucast (bf_get 0 8 a), d2))"
  by (simp add: NumOfPorts_def OhciGetRootHubNumOfPorts_def OhciGetRootHubDescriptor_def HcRH_DESC_A_def
    HcRH_DESC_B_def split_beta Let_def)

text \<open>A root hub port that is there and a feature that is set or cleared with a command (every one
  but the reset of the port): the routine writes exactly the command bit to the status register of the port
  and then looks at the register once per millisecond until the bit of the feature shows the new value. It
  always returns. It looks at most 100 times, and only the first 99 looks count: when the bit has
  the new value at one of them, the routine stops there, without an error; otherwise it returns
  \<open>EFI_DEVICE_ERROR\<close> after the 100th. The status of a success is the command word and not
  \<open>EFI_SUCCESS\<close>.\<close>

theorem OhciRootHubPortFeature_outcome:
  assumes "NumOfPorts io Ohc d = Some (n, d0)" "PortNumber < n" "(f, on, i, j) \<in> set port_commands"
  shows "(if on then OhciSetRootHubPortFeature io Ohc PortNumber f d else OhciClearRootHubPortFeature io Ohc PortNumber f d) =
    (let d1 = MmioWrite32 io (ucast (Ohc + port_register PortNumber)) (2 ^ i) d0;
         p = poll io Ohc (port_register PortNumber) (Stall io 1000 d1);
         r = (LEAST k. k = 99 \<or> bit (fst (p k)) j = on) in
     Some (if r = 99 then EFI_DEVICE_ERROR else EFI_STATUS_RAW (2 ^ i), snd (p r)))"
proof -
  note outcome = port_command_outcome[where io = io and Ohc = Ohc and PortNumber = PortNumber and d = d0, OF _ refl]
  note defs = HcRHPORT_STATUS_set_def HcRHPORT_STATUS_get_def bf_set_def
  have p: "\<not> n \<le> PortNumber" using assms(2) by simp
  show ?thesis
    using assms(3)
    by (auto simp: port_commands_def OhciSetRootHubPortFeature_def OhciClearRootHubPortFeature_def assms(1) p defs
        outcome[where on = True] outcome[where on = False] cong: if_cong)
qed

text \<open>At a port whose power bit shows the command at once, and whose suspend bit never does.\<close>

theorem OhciRootHubPortFeature_outcome_witness:
  "OhciSetRootHubPortFeature memory_device 0 0 EfiUsbPortPower ((\<lambda>_. 0)(0x48 := 1))
      = Some (EFI_STATUS_RAW 0x100, (\<lambda>_. 0)(0x48 := 1, 0x54 := 0x100))
   \<and> OhciClearRootHubPortFeature memory_device 0 0 EfiUsbPortResetChange ((\<lambda>_. 0)(0x48 := 1))
      = Some (EFI_DEVICE_ERROR, (\<lambda>_. 0)(0x48 := 1, 0x54 := 0x100000))"
proof -
  let ?d = "(\<lambda>_. 0)(0x48 := 1) :: u64 \<Rightarrow> u32"
  have n: "NumOfPorts memory_device 0 ?d = Some (1, ?d)"
    by (simp add: NumOfPorts_read OhciGetOperationalReg_def memory_device_def bf_get_def)
  have p: "poll memory_device 0 T d k = (d (ucast T), d)" for T d k
    by (induction k) (simp_all add: OhciGetOperationalReg_def memory_device_def)
  have m: "MmioWrite32 memory_device a v d = d(a := v)" "Stall memory_device t d = d" for a v d t
    by (simp_all add: memory_device_def)
  have z: "(LEAST k. True) = (0 :: nat)" "(LEAST k. k = 99) = (99 :: nat)"
    by (auto intro: Least_equality)
  note r = OhciRootHubPortFeature_outcome[OF n, where PortNumber = 0]
  have "OhciSetRootHubPortFeature memory_device 0 0 EfiUsbPortPower ?d = Some (EFI_STATUS_RAW 0x100, ?d(0x54 := 0x100))"
    using r[of EfiUsbPortPower True 8 8] by (simp add: port_commands_def p m z Let_def)
  moreover have "OhciClearRootHubPortFeature memory_device 0 0 EfiUsbPortResetChange ?d
      = Some (EFI_DEVICE_ERROR, ?d(0x54 := 0x100000))"
    using r[of EfiUsbPortResetChange False 20 20] by (simp add: port_commands_def p m z Let_def)
  ultimately show ?thesis by simp
qed

section \<open>Controller state and port status\<close>

lemma control_state_member: "(HC_FUNCTIONAL_STATE, 6, 2) \<in> set HcCONTROL"
  by (simp add: HcCONTROL_def)

lemma two_bits: "bf_get i 2 w = 0 \<or> bf_get i 2 w = 1 \<or> bf_get i 2 w = 2 \<or> bf_get i 2 w = 3" for w :: u32
proof -
  have "unat (bf_get i 2 w) < 4" using unat_bf_get_less[of 2 i w] by simp
  then have "unat (bf_get i 2 w) \<in> {0, 1, 2, 3}" by auto
  then show ?thesis by (auto simp: word_unat_eq_iff)
qed

text \<open>The value of the functional state field that a state stands for.\<close>

definition state_code :: "EFI_USB_HC_STATE \<Rightarrow> u32" where
  "state_code s = (case s of EfiUsbHcStateHalt \<Rightarrow> 0 | EfiUsbHcStateOperational \<Rightarrow> 2 | _ \<Rightarrow> 3)"

lemma set_state:
  "s \<noteq> EfiUsbHcStateMaximum \<Longrightarrow> OhciSetState io Ohc s d =
    (let (Status, d1) = OhciSetHcControl io Ohc HC_FUNCTIONAL_STATE (state_code s) d in (Status, Stall io 1000 d1))"
  by (cases s) (simp_all add: OhciSetState_def state_code_def)

lemma get_state_plain:
  assumes "plain_registers io regs A" "ucast (Ohc + HC_CONTROL) \<in> A" "State \<noteq> 0"
  shows "\<exists>d1. OhciGetState io Ohc State d = Some (EFI_SUCCESS, Some
    (let v = bf_get 6 2 (regs d (ucast (Ohc + HC_CONTROL))) in
     if v = 2 then EfiUsbHcStateOperational else if v = 3 then EfiUsbHcStateSuspend else EfiUsbHcStateHalt), d1)"
  using read_register[OF assms(1,2), of d] two_bits[of 6 "regs d (ucast (Ohc + HC_CONTROL))"]
    control.get_member[OF control_state_member]
  by (auto simp: OhciGetState_def OhciGetHcControl_def split_beta Let_def assms(3))

text \<open>On a controller whose HcControl register keeps what is written, also while the driver waits:
  \<open>OhciSetState\<close> to a valid state returns without an error, and \<open>OhciGetState\<close> then reports exactly that
  state; the other members of HcControl are what they were. An invalid state is refused, and no
  register has changed.\<close>

theorem OhciState_set_get:
  assumes P: "plain_registers io regs A" "ucast (Ohc + HC_CONTROL) \<in> A"
    and stall: "\<And>t d b. b \<in> A \<Longrightarrow> regs (Stall io t d) b = regs d b"
    and set: "OhciSetState io Ohc s d = (Status, d')" and State: "State \<noteq> 0"
  shows "if s = EfiUsbHcStateMaximum
    then Status = EFI_INVALID_PARAMETER \<and> (\<forall>b \<in> A. regs d' b = regs d b)
    else \<not> EFI_ERROR Status \<and> (\<exists>d1. OhciGetState io Ohc State d' = Some (EFI_SUCCESS, Some s, d1))
      \<and> regs d' (ucast (Ohc + HC_CONTROL)) = bf_set 6 2 (state_code s) (regs d (ucast (Ohc + HC_CONTROL)))
      \<and> (\<forall>b \<in> A - {ucast (Ohc + HC_CONTROL)}. regs d' b = regs d b)"
proof (cases "s = EfiUsbHcStateMaximum")
  case True
  then show ?thesis using set stall by (auto simp: OhciSetState_def)
next
  case False
  let ?a = "ucast (Ohc + HC_CONTROL) :: u64"
  obtain d1 where s1: "OhciSetHcControl io Ohc HC_FUNCTIONAL_STATE (state_code s) d = (Status, d1)" and d': "d' = Stall io 1000 d1"
    using set False by (auto simp: set_state split: prod.splits)
  have f: "set_fields HC_FUNCTIONAL_STATE (state_code s) HcCONTROL w = bf_set 6 2 (state_code s) w" for w
    by (simp add: HcCONTROL_def)
  note m = modify_register[OF P s1[unfolded OhciSetHcControl_def]]
  have r: "regs d' ?a = bf_set 6 2 (state_code s) (regs d ?a)" using m(2) stall[OF P(2)] d' f by simp
  have "bf_get 6 2 (regs d' ?a) = state_code s"
    unfolding r by (cases s) (simp_all add: bf_get_set_same state_code_def)
  then have "\<exists>d1. OhciGetState io Ohc State d' = Some (EFI_SUCCESS, Some s, d1)"
    using get_state_plain[OF P State, of d'] False by (cases s) (simp_all add: state_code_def)
  moreover have "\<not> EFI_ERROR Status" using m(1) by simp
  ultimately show ?thesis using False r m(3) stall d' by auto
qed

theorem OhciState_set_get_witness:
  "\<exists>d1. OhciGetState memory_device 0 1 (snd (OhciSetState memory_device 0 EfiUsbHcStateSuspend (\<lambda>_. 0)))
    = Some (EFI_SUCCESS, Some EfiUsbHcStateSuspend, d1)"
proof -
  obtain st d' where s: "OhciSetState memory_device 0 EfiUsbHcStateSuspend (\<lambda>_. 0) = (st, d')" by fastforce
  show ?thesis
    using OhciState_set_get[where A = UNIV and regs = "\<lambda>d. d", OF memory_device_plain _ _ s, of 1] s
    by (simp add: memory_device_def)
qed

lemma port_read_plain:
  assumes "plain_registers io regs A" "ucast (Ohc + port_register PortNumber) \<in> A" "(X, i, 1) \<in> set HcRHPORT_STATUS_get"
  shows "\<exists>d1. or_if_set io Ohc PortNumber (X, Y) (acc, d) =
      Some (if bit (regs d (ucast (Ohc + port_register PortNumber))) i then acc OR Y else acc, d1) \<and> (\<forall>b \<in> A. regs d1 b = regs d b)"
  using read_register[OF assms(1,2), of d] plainD(2)[OF assms(1,2), where d = d] port_get.get_member[OF assms(3)]
  unfolding or_if_set_def OhciReadRootHubPortStatus_def bf_get_1[symmetric]
  by (simp add: split_beta Let_def OhciGetOperationalReg_def bf_get_1_eq[unfolded One_nat_def])

fun or_bits :: "(nat \<times> u16) list \<Rightarrow> u32 \<Rightarrow> u16 \<Rightarrow> u16" where
  "or_bits [] w acc = acc"
| "or_bits ((i, Y) # rest) w acc = or_bits rest w (if bit w i then acc OR Y else acc)"

lemma or_all_set_plain:
  assumes "plain_registers io regs A" "ucast (Ohc + port_register PortNumber) \<in> A"
    and "list_all2 (\<lambda>(X, Y) (i, Z). (X, i, 1) \<in> set HcRHPORT_STATUS_get \<and> Y = Z) xs is"
  shows "\<exists>d1. or_all_set io Ohc PortNumber xs (acc, d) = Some (or_bits is (regs d (ucast (Ohc + port_register PortNumber))) acc, d1)
    \<and> (\<forall>b \<in> A. regs d1 b = regs d b)"
  using assms(3)
proof (induction xs "is" arbitrary: acc d rule: list_all2_induct)
  case Nil
  then show ?case by auto
next
  case (Cons x xs y ys)
  obtain X Y i where xy: "x = (X, Y)" "y = (i, Y)" "(X, i, 1) \<in> set HcRHPORT_STATUS_get"
    using Cons.hyps(1) by (cases x; cases y) auto
  obtain d1 where 1: "or_if_set io Ohc PortNumber x (acc, d) =
      Some (if bit (regs d (ucast (Ohc + port_register PortNumber))) i then acc OR Y else acc, d1)" "\<forall>b \<in> A. regs d1 b = regs d b"
    using port_read_plain[OF assms(1,2) xy(3)] xy(1) by blast
  show ?case using Cons.IH[of "if bit (regs d (ucast (Ohc + port_register PortNumber))) i then acc OR Y else acc" d1] 1 assms(2) xy(2) by auto
qed

lemma bit_or_bits: "bit (or_bits is w acc) n \<longleftrightarrow> bit acc n \<or> list_ex (\<lambda>(i, Y). bit w i \<and> bit Y n) is"
  by (induction "is" w acc rule: or_bits.induct) (auto simp: bit_or_iff)

lemma less_16: "n < 16 \<Longrightarrow> n \<in> {0, 1, 2, 3, 4, 5, 6, 7, 8, 9, 10, 11, 12, 13, 14, 15 :: nat}"
  by (auto simp: numeral_eq_Suc less_Suc_eq)

lemma or_bits_status:
  "or_bits [(0, 1), (1, 2), (2, 4), (3, 8), (4, 16), (8, 0x100), (9, 0x200)] w 0 = ucast (w AND 0x31F)"
proof (rule bit_word_eqI)
  fix n assume "n < LENGTH(16)"
  from less_16[OF this[simplified]] show "bit (or_bits [(0, 1), (1, 2), (2, 4), (3, 8), (4, 16), (8, 0x100), (9, 0x200)] w 0) n
      = bit (ucast (w AND 0x31F) :: u16) n"
    unfolding bit_or_bits by (elim insertE emptyE) (simp_all add: bit_unsigned_iff bit_and_iff)
qed

lemma or_bits_change:
  "or_bits [(17, 2), (16, 1), (18, 4), (19, 8), (20, 16)] w 0 = ucast (drop_bit 16 w AND 0x1F)"
proof (rule bit_word_eqI)
  fix n assume "n < LENGTH(16)"
  from less_16[OF this[simplified]] show "bit (or_bits [(17, 2), (16, 1), (18, 4), (19, 8), (20, 16)] w 0) n
      = bit (ucast (drop_bit 16 w AND 0x1F) :: u16) n"
    unfolding bit_or_bits by (elim insertE emptyE) (simp_all add: bit_unsigned_iff bit_and_iff bit_drop_bit_eq)
qed

text \<open>On a controller whose root hub registers do not change while they are read, the twelve separate
  reads of \<open>OhciGetRootHubPortStatus\<close> are one read and two masks: the port status is the low half of
  HcRhPortStatus cut to the defined bits, and the change status the high half. A port number from the
  number of ports on is refused.\<close>

theorem OhciGetRootHubPortStatus_masks:
  assumes P: "plain_registers io regs A"
    and A: "ucast (Ohc + port_register PortNumber) \<in> A" "ucast (Ohc + HC_RH_DESC_A) \<in> A" "ucast (Ohc + HC_RH_DESC_B) \<in> A"
  shows "\<exists>d'. OhciGetRootHubPortStatus io Ohc PortNumber d = Some
      (if unat PortNumber < unat (bf_get 0 8 (regs d (ucast (Ohc + HC_RH_DESC_A))))
       then (EFI_SUCCESS, Some (let w = regs d (ucast (Ohc + port_register PortNumber)) in
         \<lparr>PortStatus = ucast (w AND 0x31F), PortChangeStatus = ucast (drop_bit 16 w AND 0x1F)\<rparr>), d')
       else (EFI_INVALID_PARAMETER, None, d'))
    \<and> (\<forall>b \<in> A. regs d' b = regs d b)"
proof -
  let ?n = "ucast (bf_get 0 8 (regs d (ucast (Ohc + HC_RH_DESC_A)))) :: u8"
  let ?w = "regs d (ucast (Ohc + port_register PortNumber))"
  obtain e where n: "NumOfPorts io Ohc d = Some (?n, e)" and e: "\<forall>b \<in> A. regs e b = regs d b"
    using plainD(1)[OF P A(2)] plainD(2)[OF P A(2)] plainD(2)[OF P A(3)]
    by (simp add: NumOfPorts_read OhciGetOperationalReg_def split_beta Let_def)
  have n8: "unat ?n = unat (bf_get 0 8 (regs d (ucast (Ohc + HC_RH_DESC_A))))"
    using unat_bf_get_less[of 8 0 "regs d (ucast (Ohc + HC_RH_DESC_A))"] by (simp add: unsigned_ucast_eq take_bit_nat_eq_self)
  show ?thesis
  proof (cases "PortNumber < ?n")
    case True
    obtain e1 where 1: "or_all_set io Ohc PortNumber
        [(0x0001, 1), (0x0002, 2), (0x0004, 4), (0x0008, 8), (0x0010, 16), (0x0020, 0x100), (0x0040, 0x200)] (0, e) =
        Some (ucast (?w AND 0x31F), e1)" "\<forall>b \<in> A. regs e1 b = regs e b"
      using or_all_set_plain[OF P A(1), of "[(0x0001, 1), (0x0002, 2), (0x0004, 4), (0x0008, 8), (0x0010, 16), (0x0020, 0x100), (0x0040, 0x200)]"
          "[(0, 1), (1, 2), (2, 4), (3, 8), (4, 16), (8, 0x100), (9, 0x200)]" 0 e] e A(1)
      unfolding or_bits_status by (auto simp: HcRHPORT_STATUS_get_def)
    obtain e2 where 2: "or_all_set io Ohc PortNumber
        [(0x20000, 2), (0x10000, 1), (0x40000, 4), (0x80000, 8), (0x100000, 16)] (0, e1) =
        Some (ucast (drop_bit 16 ?w AND 0x1F), e2)" "\<forall>b \<in> A. regs e2 b = regs e1 b"
      using or_all_set_plain[OF P A(1), of "[(0x20000, 2), (0x10000, 1), (0x40000, 4), (0x80000, 8), (0x100000, 16)]"
          "[(17, 2), (16, 1), (18, 4), (19, 8), (20, 16)]" 0 e1] 1(2) e A(1)
      unfolding or_bits_change by (auto simp: HcRHPORT_STATUS_get_def)
    have "\<not> ?n \<le> PortNumber" using True by simp
    then have "OhciGetRootHubPortStatus io Ohc PortNumber d = Some (EFI_SUCCESS,
        Some \<lparr>PortStatus = ucast (?w AND 0x31F), PortChangeStatus = ucast (drop_bit 16 ?w AND 0x1F)\<rparr>, e2)"
      unfolding OhciGetRootHubPortStatus_def n by (simp only: bind.bind_lunit prod.case if_False 1(1) 2(1)) 
    then show ?thesis using True e 1(2) 2(2) by (auto simp: word_less_nat_alt n8 Let_def)
  next
    case False
    then have "?n \<le> PortNumber" by simp
    then have "OhciGetRootHubPortStatus io Ohc PortNumber d = Some (EFI_INVALID_PARAMETER, None, e)"
      unfolding OhciGetRootHubPortStatus_def n by simp
    then show ?thesis using False e by (auto simp: word_less_nat_alt n8)
  qed
qed

theorem OhciGetRootHubPortStatus_masks_witness:
  "\<exists>d'. OhciGetRootHubPortStatus memory_device 0 1 ((\<lambda>_. 0)(0x48 := 2, 0x58 := 0xFFFFFFFF)) =
     Some (EFI_SUCCESS, Some \<lparr>PortStatus = 0x31F, PortChangeStatus = 0x1F\<rparr>, d')"
  using OhciGetRootHubPortStatus_masks[where A = UNIV and regs = "\<lambda>d. d" and PortNumber = 1 and Ohc = 0
      and d = "(\<lambda>_. 0)(0x48 := 2, 0x58 := 0xFFFFFFFF)", OF memory_device_plain]
  by (auto simp: bf_get_def)

section \<open>Start of the controller\<close>






text \<open>
  The registers that only the driver writes, by their offsets, and what the driver relies on in a
  controller with its registers at \<open>B\<close>: they are plain; no read, no delay and no write to another register
  changes them, unless it is the reset command; the controller completes a reset within 51 polls; and
  when its functional state is operational it generates frames, so that reads of HcInterruptStatus
  show a start of frame sooner or later.
\<close>

definition driver_registers :: "u32 set" where
  "driver_registers = {HC_CONTROL, HC_HCCA, HC_CONTROL_HEAD, HC_BULK_HEAD, HC_FRM_INTERVAL, HC_PERIODIC_START}"



abbreviation kept :: "('d \<Rightarrow> u64 \<Rightarrow> u32) \<Rightarrow> u32 \<Rightarrow> 'd \<Rightarrow> 'd \<Rightarrow> bool" where
  "kept regs B d d' \<equiv> \<forall>r \<in> driver_registers. regs d' (ucast (B + r)) = regs d (ucast (B + r))"


lemma kept_trans: "kept regs B d d' \<Longrightarrow> kept regs B d' d'' \<Longrightarrow> kept regs B d d''"
  by simp







































end
