(* ===== verification/OhciTransfer.thy ===== *)
theory OhciTransfer
  imports OhciHub OhciTree
begin

unbundle bit_operations_syntax

text \<open>
  The transfers of the USB host controller protocol: \<open>OhciControlTransfer\<close>, \<open>OhciBulkTransfer\<close>,
  \<open>OhciInterruptTransfer\<close> and its two callers, and the isochronous entry points of
  \<open>src/Silicon/Rockchip/Rk356xPkg/Drivers/OhciDxe/Ohci.c\<close>.

  A parameter that is a pointer to a value the routine reads is an \<open>option\<close>, with \<open>None\<close> for
  \<open>NULL\<close>; what the routine leaves there is part of the result. \<open>*TransferResult\<close> is \<open>None\<close> in the result
  when it has not been written. Debug output is left out.

  While the driver waits in \<open>gBS->Stall\<close> the controller works on the descriptors, so here the wait is
  a function \<open>Wait\<close> on the whole device; \<open>DmaMapOp\<close> maps memory of the caller for one direction.
\<close>

section \<open>Services and descriptors\<close>

datatype DMA_MAP_OPERATION = MapOperationBusMasterRead | MapOperationBusMasterWrite

datatype EFI_USB_DATA_DIRECTION = EfiUsbDataIn | EfiUsbDataOut | EfiUsbNoData | EfiUsbDataOther nat

record 'w usb_services =
  Wait :: "nat \<Rightarrow> 'w USB_OHCI_HC_DEV \<Rightarrow> 'w USB_OHCI_HC_DEV"
  DmaMapOp :: "DMA_MAP_OPERATION \<Rightarrow> nat \<Rightarrow> u64 \<Rightarrow> 'w \<Rightarrow> (EFI_STATUS \<times> u64 \<times> u64 \<times> nat) \<times> 'w"
  CopyBuffer :: "nat \<Rightarrow> nat \<Rightarrow> u64 \<Rightarrow> 'w \<Rightarrow> 'w"

abbreviation (input) MAX_BYTES_PER_TD :: u64 where "MAX_BYTES_PER_TD \<equiv> 0x1000"
abbreviation (input) ED_FROM_TD_DIR :: u32 where "ED_FROM_TD_DIR \<equiv> 0x0"
abbreviation (input) ED_OUT_DIR :: u8 where "ED_OUT_DIR \<equiv> 0x1"
abbreviation (input) ED_IN_DIR :: u8 where "ED_IN_DIR \<equiv> 0x2"
abbreviation (input) TD_SETUP_PID :: u32 where "TD_SETUP_PID \<equiv> 0x00"
abbreviation (input) TD_OUT_PID :: u32 where "TD_OUT_PID \<equiv> 0x01"
abbreviation (input) TD_IN_PID :: u32 where "TD_IN_PID \<equiv> 0x02"
abbreviation (input) HI_SPEED :: u32 where "HI_SPEED \<equiv> 0"
abbreviation (input) TD_NO_DELAY :: u32 where "TD_NO_DELAY \<equiv> 0x7"

definition upd_td :: "nat \<Rightarrow> (TD_DESCRIPTOR \<Rightarrow> TD_DESCRIPTOR) \<Rightarrow> 'w USB_OHCI_HC_DEV \<Rightarrow> 'w USB_OHCI_HC_DEV option" where
  "upd_td p f Ohc = map_option (\<lambda>td. Ohc\<lparr>Tds := (Tds Ohc)(p \<mapsto> f td)\<rparr>) (Tds Ohc p)"

definition upd_ed :: "nat \<Rightarrow> (ED_DESCRIPTOR \<Rightarrow> ED_DESCRIPTOR) \<Rightarrow> 'w USB_OHCI_HC_DEV \<Rightarrow> 'w USB_OHCI_HC_DEV option" where
  "upd_ed p f Ohc = map_option (\<lambda>ed. Ohc\<lparr>Eds := (Eds Ohc)(p \<mapsto> f ed)\<rparr>) (Eds Ohc p)"

text \<open>The endpoint descriptor of a control or bulk transfer, and that of an interrupt transfer.\<close>

definition transfer_ed :: "u8 \<Rightarrow> u8 \<Rightarrow> u32 \<Rightarrow> u8 \<Rightarrow> ED_DESCRIPTOR \<Rightarrow> ED_DESCRIPTOR" where
  "transfer_ed Addr EndPt Speed MaxPkt ed =
    (let ed = OhciSetEDField ed ED_SKIP 1;
         ed = OhciSetEDField ed ED_FUNC_ADD (ucast Addr);
         ed = OhciSetEDField ed ED_ENDPT_NUM (ucast EndPt);
         ed = OhciSetEDField ed ED_DIR ED_FROM_TD_DIR;
         ed = OhciSetEDField ed ED_SPEED Speed;
         ed = OhciSetEDField ed (ED_FORMAT OR ED_HALTED OR ED_DTTOGGLE) 0;
         ed = OhciSetEDField ed ED_MAX_PACKET (ucast MaxPkt);
         ed = OhciSetEDField ed ED_PDATA 0;
         ed = OhciSetEDField ed ED_ZERO 0;
         ed = OhciSetEDField ed ED_TDHEAD_PTR 0;
         ed = OhciSetEDField ed ED_TDTAIL_PTR 0 in
     OhciSetEDField ed ED_NEXT_EDPTR 0)"

definition interrupt_ed :: "u8 \<Rightarrow> u8 \<Rightarrow> bool \<Rightarrow> u8 \<Rightarrow> ED_DESCRIPTOR \<Rightarrow> ED_DESCRIPTOR" where
  "interrupt_ed Addr EndPt Slow MaxPkt ed =
    (let ed = OhciSetEDField ed ED_SKIP 1;
         ed = OhciSetEDField ed ED_FUNC_ADD (ucast Addr);
         ed = OhciSetEDField ed ED_ENDPT_NUM (ucast EndPt);
         ed = OhciSetEDField ed ED_DIR ED_FROM_TD_DIR;
         ed = OhciSetEDField ed ED_SPEED (if Slow then 1 else 0);
         ed = OhciSetEDField ed ED_FORMAT 0;
         ed = OhciSetEDField ed ED_MAX_PACKET (ucast MaxPkt);
         ed = OhciSetEDField ed (ED_PDATA OR ED_ZERO OR ED_HALTED OR ED_DTTOGGLE) 0;
         ed = OhciSetEDField ed ED_TDHEAD_PTR 0;
         ed = OhciSetEDField ed ED_TDTAIL_PTR 0 in
     OhciSetEDField ed ED_NEXT_EDPTR 0)"

text \<open>
  A transfer descriptor of a stage: \<open>Addr\<close> and \<open>End\<close> are the first and the last byte of its buffer. (The code
  writes the last three fields in different orders; they are different words.)
\<close>

definition stage_td :: "u32 \<Rightarrow> u32 \<Rightarrow> u32 \<Rightarrow> u64 \<Rightarrow> u64 \<Rightarrow> u32 \<Rightarrow> TD_DESCRIPTOR \<Rightarrow> TD_DESCRIPTOR" where
  "stage_td Pid Delay Tog Addr End Len td =
    (let td = OhciSetTDField td TD_PDATA 0;
         td = OhciSetTDField td TD_BUFFER_ROUND 1;
         td = OhciSetTDField td TD_DIR_PID Pid;
         td = OhciSetTDField td TD_DELAY_INT Delay;
         td = OhciSetTDField td TD_DT_TOGGLE Tog;
         td = OhciSetTDField td TD_ERROR_CNT 0;
         td = OhciSetTDField td TD_COND_CODE TD_TOBE_PROCESSED;
         td = OhciSetTDField td TD_CURR_BUFFER_PTR (ucast Addr);
         td = OhciSetTDField td TD_NEXT_PTR 0;
         td = OhciSetTDField td TD_BUFFER_END_PTR (ucast End) in
     td\<lparr>ActualSendLength := Len, DataBuffer := ucast Addr, NextTDPointer := 0\<rparr>)"

definition empty_td :: "TD_DESCRIPTOR \<Rightarrow> TD_DESCRIPTOR" where
  "empty_td td =
    (let td = OhciSetTDField td TD_PDATA 0;
         td = OhciSetTDField td TD_BUFFER_ROUND 0;
         td = OhciSetTDField td TD_DIR_PID 0;
         td = OhciSetTDField td TD_DELAY_INT 0;
         td = set_DataToggle 0 td;
         td = OhciSetTDField td TD_ERROR_CNT 0;
         td = OhciSetTDField td TD_COND_CODE 0;
         td = OhciSetTDField td TD_CURR_BUFFER_PTR 0;
         td = OhciSetTDField td TD_BUFFER_END_PTR 0;
         td = OhciSetTDField td TD_NEXT_PTR 0 in
     td\<lparr>ActualSendLength := 0, DataBuffer := 0, NextTDPointer := 0\<rparr>)"

section \<open>Stages\<close>

text \<open>
  \<open>OhciLinkTD (HeadTd, Td)\<close> on the device. In the loops \<open>FirstTD\<close> is \<open>TRUE\<close> exactly as long as \<open>HeadTd\<close> is
  \<open>NULL\<close>, and the first descriptor then becomes the head.
\<close>

definition link_td :: "nat \<Rightarrow> nat \<Rightarrow> 'w USB_OHCI_HC_DEV \<Rightarrow> 'w USB_OHCI_HC_DEV option" where
  "link_td HeadTd Td Ohc = map_option (\<lambda>(_, tds). Ohc\<lparr>Tds := tds\<rparr>) (OhciLinkTD (Tds Ohc) HeadTd Td)"

text \<open>
  The data stage, the loop that the three routines share. The first component of the result is false when
  memory has run out; the others are \<open>HeadTd\<close> and the data toggle. With a \<open>MaxPacketLength\<close> of 0 the loop
  goes on until memory runs out.
\<close>

partial_function (option) OhciDataStage ::
  "'w dma_services \<Rightarrow> u32 \<Rightarrow> u8 \<Rightarrow> nat \<Rightarrow> u8 \<Rightarrow> u64 \<Rightarrow> u64 \<Rightarrow> 'w USB_OHCI_HC_DEV
    \<Rightarrow> (bool \<times> nat \<times> u8 \<times> 'w USB_OHCI_HC_DEV) option" where
  "OhciDataStage sv Pid MaxPkt HeadTd Tog Addr LeftLength Ohc =
    (if LeftLength = 0 then Some (True, HeadTd, Tog, Ohc) else
     do {
       let Act = (if LeftLength > ucast MaxPkt then ucast MaxPkt else LeftLength);
       (DataTd, Ohc) \<leftarrow> OhciCreateTD sv Ohc;
       if DataTd = 0 then Some (False, HeadTd, Tog, Ohc) else
       do {
         Ohc \<leftarrow> upd_td DataTd (stage_td Pid TD_NO_DELAY (ucast Tog) Addr (Addr + Act - 1) (ucast Act)) Ohc;
         Ohc \<leftarrow> (if HeadTd = 0 then Some Ohc else link_td HeadTd DataTd Ohc);
         OhciDataStage sv Pid MaxPkt (if HeadTd = 0 then DataTd else HeadTd) (Tog XOR 1) (Addr + Act) (LeftLength - Act) Ohc
       }
     })"

text \<open>One more descriptor behind the list, as the status stage has it; 0 when memory has run out.\<close>

definition OhciStatusStage ::
  "'w dma_services \<Rightarrow> u32 \<Rightarrow> nat \<Rightarrow> 'w USB_OHCI_HC_DEV \<Rightarrow> (nat \<times> 'w USB_OHCI_HC_DEV) option" where
  "OhciStatusStage sv Pid HeadTd Ohc =
    do {
      (StatusTd, Ohc) \<leftarrow> OhciCreateTD sv Ohc;
      if StatusTd = 0 then Some (0, Ohc) else
      do {
        Ohc \<leftarrow> upd_td StatusTd (stage_td Pid 7 3 0 0 0) Ohc;
        Ohc \<leftarrow> link_td HeadTd StatusTd Ohc;
        Some (StatusTd, Ohc)
      }
    }"

text \<open>The empty descriptor at the end, the tail of the endpoint, and the list given to the endpoint.\<close>

definition OhciEmptyStage ::
  "'w dma_services \<Rightarrow> nat \<Rightarrow> nat \<Rightarrow> 'w USB_OHCI_HC_DEV \<Rightarrow> (nat \<times> 'w USB_OHCI_HC_DEV) option" where
  "OhciEmptyStage sv Ed HeadTd Ohc =
    do {
      (EmptyTd, Ohc) \<leftarrow> OhciCreateTD sv Ohc;
      if EmptyTd = 0 then Some (0, Ohc) else
      do {
        Ohc \<leftarrow> upd_td EmptyTd empty_td Ohc;
        Ohc \<leftarrow> link_td HeadTd EmptyTd Ohc;
        Ohc \<leftarrow> upd_ed Ed (\<lambda>ed. ed\<lparr>TdTailPointer := word_of_nat EmptyTd\<rparr>) Ohc;
        (_, Ohc) \<leftarrow> OhciAttachTDListToED Ed HeadTd Ohc;
        Some (EmptyTd, Ohc)
      }
    }"

text \<open>
  The wait for the end of a control or bulk transfer. \<open>TimeCount\<close> is a \<open>UINTN\<close>: with the largest
  \<open>TimeOut\<close> the loop has no bound.
\<close>

partial_function (option) OhciAwait ::
  "'w mmio \<Rightarrow> 'w usb_services \<Rightarrow> DESCRIPTOR_LIST_TYPE \<Rightarrow> nat \<Rightarrow> nat \<Rightarrow> u64 \<Rightarrow> u64 \<Rightarrow> EFI_STATUS \<Rightarrow> OHCI_ED_RESULT
    \<Rightarrow> 'w USB_OHCI_HC_DEV \<Rightarrow> (EFI_STATUS \<times> OHCI_ED_RESULT \<times> 'w USB_OHCI_HC_DEV) option" where
  "OhciAwait io us ListType Ed HeadTd TimeOut TimeCount Status EdResult Ohc =
    (if Status = EFI_NOT_READY \<and> TimeCount \<le> TimeOut then
       do {
         (Status, EdResult, Ohc) \<leftarrow> CheckIfDone io (Wait us 1000 Ohc) ListType Ed HeadTd EdResult;
         OhciAwait io us ListType Ed HeadTd TimeOut (TimeCount + 1) Status EdResult Ohc
       }
     else Some (Status, EdResult, Ohc))"

text \<open>Taking the endpoint off the list of a register.\<close>

definition OhciDetachEd :: "'w mmio \<Rightarrow> u32 \<Rightarrow> nat \<Rightarrow> nat \<Rightarrow> 'w USB_OHCI_HC_DEV \<Rightarrow> 'w USB_OHCI_HC_DEV option" where
  "OhciDetachEd io Reg HeadEd Ed Ohc =
    do {
      Ohc \<leftarrow> upd_ed Ed (\<lambda>ed. OhciSetEDField ed ED_SKIP 1) Ohc;
      if HeadEd = Ed then
        do { (_, w) \<leftarrow> OhciSetMemoryPointer io (UsbHcBaseAddress Ohc) Reg 0 (World Ohc); Some (Ohc\<lparr>World := w\<rparr>) }
      else do { ed \<leftarrow> Eds Ohc Ed; upd_ed HeadEd (\<lambda>h. h\<lparr>NextED := NextED ed\<rparr>) Ohc }
    }"

definition unmap :: "'w dma_services \<Rightarrow> nat \<Rightarrow> 'w USB_OHCI_HC_DEV \<Rightarrow> 'w USB_OHCI_HC_DEV" where
  "unmap sv m Ohc = (if m \<noteq> 0 then Ohc\<lparr>World := DmaUnmap sv m (World Ohc)\<rparr> else Ohc)"

section \<open>Control transfers\<close>

text \<open>The labels of \<open>OhciControlTransfer\<close>, from the last to the first; each falls through to the next.\<close>

definition FREE_ED_BUFF :: "'w dma_services \<Rightarrow> nat \<Rightarrow> 'w USB_OHCI_HC_DEV \<Rightarrow> 'w USB_OHCI_HC_DEV option" where
  "FREE_ED_BUFF sv Ed Ohc = map_option snd (OhciFreeED sv Ohc Ed)"

definition UNMAP_SETUP_BUFF ::
  "'w dma_services \<Rightarrow> nat \<Rightarrow> nat \<Rightarrow> 'w USB_OHCI_HC_DEV \<Rightarrow> 'w USB_OHCI_HC_DEV option" where
  "UNMAP_SETUP_BUFF sv Ed ReqMapping Ohc = FREE_ED_BUFF sv Ed (unmap sv ReqMapping Ohc)"

definition FREE_TD_BUFF ::
  "'w dma_services \<Rightarrow> nat \<Rightarrow> nat \<Rightarrow> nat \<Rightarrow> 'w USB_OHCI_HC_DEV \<Rightarrow> 'w USB_OHCI_HC_DEV option" where
  "FREE_TD_BUFF sv Ed ReqMapping HeadTd Ohc =
    do { Ohc \<leftarrow> OhciFreeTDs sv 0 HeadTd Ohc; UNMAP_SETUP_BUFF sv Ed ReqMapping Ohc }"

definition UNMAP_DATA_BUFF ::
  "'w dma_services \<Rightarrow> 'w mmio \<Rightarrow> nat \<Rightarrow> nat \<Rightarrow> nat \<Rightarrow> nat \<Rightarrow> nat \<Rightarrow> 'w USB_OHCI_HC_DEV \<Rightarrow> 'w USB_OHCI_HC_DEV option" where
  "UNMAP_DATA_BUFF sv io HeadEd Ed ReqMapping DataMapping HeadTd Ohc =
    do {
      Ohc \<leftarrow> OhciDetachEd io HC_CONTROL_HEAD HeadEd Ed Ohc;
      FREE_TD_BUFF sv Ed ReqMapping HeadTd (unmap sv DataMapping Ohc)
    }"

text \<open>
  From the data stage to the result; every way out of it leads to \<open>UNMAP_DATA_BUFF\<close>. The result is the
  status, whether \<open>*DataLength\<close> is set to 0, and \<open>*TransferResult\<close>. \<open>EdResult\<close> is not initialised in the code;
  \<open>CheckIfDone\<close> sets the error code first.
\<close>

definition OhciControlStages ::
  "'w dma_services \<Rightarrow> 'w mmio \<Rightarrow> 'w usb_services \<Rightarrow> u8 \<Rightarrow> u32 \<Rightarrow> u32 \<Rightarrow> nat \<Rightarrow> nat \<Rightarrow> u64 \<Rightarrow> u64 \<Rightarrow> u64 \<Rightarrow> 'w USB_OHCI_HC_DEV
    \<Rightarrow> (EFI_STATUS \<times> bool \<times> u32 option \<times> 'w USB_OHCI_HC_DEV) option" where
  "OhciControlStages sv io us MaxPkt DataPidDir StatusPidDir Ed HeadTd Addr Len TimeOut Ohc =
    do {
      (ok, HeadTd, _, Ohc) \<leftarrow> OhciDataStage sv DataPidDir MaxPkt HeadTd 1 Addr Len Ohc;
      if \<not> ok then Some (EFI_OUT_OF_RESOURCES, False, None, Ohc) else
      do {
        (StatusTd, Ohc) \<leftarrow> OhciStatusStage sv StatusPidDir HeadTd Ohc;
        if StatusTd = 0 then Some (EFI_OUT_OF_RESOURCES, False, None, Ohc) else
        do {
          (EmptyTd, Ohc) \<leftarrow> OhciEmptyStage sv Ed HeadTd Ohc;
          if EmptyTd = 0 then Some (EFI_OUT_OF_RESOURCES, False, None, Ohc) else
          do {
            Ohc \<leftarrow> upd_ed Ed (\<lambda>ed. OhciSetEDField ed ED_SKIP 0) Ohc;
            let (Status, w) = OhciSetHcControl io (UsbHcBaseAddress Ohc) CONTROL_ENABLE 1 (World Ohc);
            let Ohc = Ohc\<lparr>World := w\<rparr>;
            if EFI_ERROR Status then Some (EFI_DEVICE_ERROR, False, Some EFI_USB_ERR_SYSTEM, Ohc) else
            let (Status, w) = OhciSetHcCommandStatus io (UsbHcBaseAddress Ohc) CONTROL_LIST_FILLED 1 (World Ohc);
                Ohc = Ohc\<lparr>World := w\<rparr> in
            if EFI_ERROR Status then Some (EFI_DEVICE_ERROR, False, Some EFI_USB_ERR_SYSTEM, Ohc) else
            do {
              (Status, EdResult, Ohc) \<leftarrow> CheckIfDone io (Wait us 20000 Ohc) CONTROL_LIST Ed HeadTd \<lparr>ErrorCode = 0, NextToggle = 0\<rparr>;
              (Status, EdResult, Ohc) \<leftarrow> OhciAwait io us CONTROL_LIST Ed HeadTd TimeOut 0 Status EdResult Ohc;
              Some (Status, ErrorCode EdResult \<noteq> TD_NO_ERROR, Some (ConvertErrorCode (ErrorCode EdResult)), Ohc)
            }
          }
        }
      }
    }"

text \<open>The result is the status, \<open>*DataLength\<close>, \<open>*TransferResult\<close> and the device.\<close>

definition OhciControlTransfer ::
  "'w dma_services \<Rightarrow> 'w mmio \<Rightarrow> 'w usb_services \<Rightarrow> 'w USB_OHCI_HC_DEV \<Rightarrow> u8 \<Rightarrow> bool \<Rightarrow> u8 \<Rightarrow> nat \<Rightarrow> EFI_USB_DATA_DIRECTION
    \<Rightarrow> nat \<Rightarrow> u64 option \<Rightarrow> u64 \<Rightarrow> nat \<Rightarrow> (EFI_STATUS \<times> u64 option \<times> u32 option \<times> 'w USB_OHCI_HC_DEV) option" where
  "OhciControlTransfer sv io us Ohc Addr Slow MaxPkt Request Dir Data Len TimeOut TransferResult =
    (if Dir \<notin> {EfiUsbDataOut, EfiUsbDataIn, EfiUsbNoData} \<or> Request = 0 \<or> Len = None \<or> TransferResult = 0
        \<or> (Dir = EfiUsbNoData \<and> (the Len \<noteq> 0 \<or> Data \<noteq> 0)) \<or> (Dir \<noteq> EfiUsbNoData \<and> (the Len = 0 \<or> Data = 0))
        \<or> (Slow \<and> MaxPkt \<noteq> 8) \<or> MaxPkt \<notin> {8, 16, 32, 64} \<or> the Len > MAX_BYTES_PER_TD
     then Some (EFI_INVALID_PARAMETER, Len, None, Ohc) else
     let (DataPidDir, StatusPidDir) = (if Dir = EfiUsbDataIn then (TD_IN_PID, TD_OUT_PID) else (TD_OUT_PID, TD_IN_PID));
         B = UsbHcBaseAddress Ohc;
         (Status, w) = OhciSetHcControl io B CONTROL_ENABLE 0 (World Ohc) in
     if EFI_ERROR Status then Some (EFI_DEVICE_ERROR, Len, Some EFI_USB_ERR_SYSTEM, Ohc\<lparr>World := w\<rparr>) else
     let (Status, w) = OhciSetHcCommandStatus io B CONTROL_LIST_FILLED 0 w in
     if EFI_ERROR Status then Some (EFI_DEVICE_ERROR, Len, Some EFI_USB_ERR_SYSTEM, Ohc\<lparr>World := w\<rparr>) else
     let Ohc = Wait us 20000 (Ohc\<lparr>World := w\<rparr>) in
     do {
       (_, w) \<leftarrow> OhciSetMemoryPointer io B HC_CONTROL_HEAD 0 (World Ohc);
       (Ed, Ohc) \<leftarrow> OhciCreateED sv (Ohc\<lparr>World := w\<rparr>);
       if Ed = 0 then Some (EFI_OUT_OF_RESOURCES, Len, None, Ohc) else
       do {
         Ohc \<leftarrow> upd_ed Ed (transfer_ed Addr 0 (if Slow then 1 else 0) MaxPkt) Ohc;
         (HeadEd, Ohc) \<leftarrow> OhciAttachEDToList io Ohc CONTROL_LIST Ed 0;
         let ((Status, _, ReqPhys, ReqMapping), w) = DmaMapOp us MapOperationBusMasterRead Request 8 (World Ohc);
         let Ohc = Ohc\<lparr>World := w\<rparr>;
         if EFI_ERROR Status then do { Ohc \<leftarrow> FREE_ED_BUFF sv Ed Ohc; Some (Status, Len, None, Ohc) } else
         do {
           (SetupTd, Ohc) \<leftarrow> OhciCreateTD sv Ohc;
           if SetupTd = 0
           then do { Ohc \<leftarrow> UNMAP_SETUP_BUFF sv Ed ReqMapping Ohc; Some (EFI_OUT_OF_RESOURCES, Len, None, Ohc) } else
           do {
             Ohc \<leftarrow> upd_td SetupTd (stage_td TD_SETUP_PID TD_NO_DELAY 2 ReqPhys (ReqPhys + 8 - 1) 8) Ohc;
             let MapOp = (if Dir = EfiUsbDataIn then MapOperationBusMasterWrite else MapOperationBusMasterRead);
             let ((Status, DataMapLength, DataPhys, DataMapping), w) =
               (if Data \<noteq> 0 \<and> the Len \<noteq> 0 then DmaMapOp us MapOp Data (the Len) (World Ohc)
                else ((EFI_SUCCESS, the Len, 0, 0), World Ohc));
             let Ohc = Ohc\<lparr>World := w\<rparr>;
             if EFI_ERROR Status
             then do { Ohc \<leftarrow> FREE_TD_BUFF sv Ed ReqMapping SetupTd Ohc; Some (Status, Len, None, Ohc) } else
             do {
               (Status, zero, result, Ohc) \<leftarrow>
                 OhciControlStages sv io us MaxPkt DataPidDir StatusPidDir Ed SetupTd DataPhys DataMapLength TimeOut Ohc;
               Ohc \<leftarrow> UNMAP_DATA_BUFF sv io HeadEd Ed ReqMapping DataMapping SetupTd Ohc;
               Some (Status, if zero then Some 0 else Len, result, Ohc)
             }
           }
         }
       }
     })"

section \<open>Bulk transfers\<close>

text \<open>
  The cleanup labels of \<open>OhciBulkTransfer\<close>: \<open>FREE_OHCI_TDBUFF\<close> falls through to \<open>FREE_ED_BUFF\<close>, which is as in
  the control transfer.
\<close>

definition FREE_OHCI_TDBUFF ::
  "'w dma_services \<Rightarrow> 'w mmio \<Rightarrow> nat \<Rightarrow> nat \<Rightarrow> nat \<Rightarrow> nat \<Rightarrow> 'w USB_OHCI_HC_DEV \<Rightarrow> 'w USB_OHCI_HC_DEV option" where
  "FREE_OHCI_TDBUFF sv io HeadEd Ed Map HeadTd Ohc =
    do {
      Ohc \<leftarrow> OhciDetachEd io HC_BULK_HEAD HeadEd Ed Ohc;
      Ohc \<leftarrow> OhciFreeTDs sv 0 HeadTd Ohc;
      FREE_ED_BUFF sv Ed (unmap sv Map Ohc)
    }"

text \<open>
  From the data stage to the result; every way out of it leads to \<open>FREE_OHCI_TDBUFF\<close>. The result is the
  status, \<open>HeadTd\<close>, whether \<open>*DataLength\<close> is set to 0, \<open>*DataToggle\<close> and \<open>*TransferResult\<close>.
\<close>

definition OhciBulkStages ::
  "'w dma_services \<Rightarrow> 'w mmio \<Rightarrow> 'w usb_services \<Rightarrow> u8 \<Rightarrow> u32 \<Rightarrow> u8 \<Rightarrow> nat \<Rightarrow> u64 \<Rightarrow> u64 \<Rightarrow> u64 \<Rightarrow> 'w USB_OHCI_HC_DEV
    \<Rightarrow> (EFI_STATUS \<times> nat \<times> bool \<times> u8 \<times> u32 option \<times> 'w USB_OHCI_HC_DEV) option" where
  "OhciBulkStages sv io us MaxPkt DataPidDir Tog Ed Addr Len TimeOut Ohc =
    do {
      let EdResult = \<lparr>ErrorCode = 0, NextToggle = Tog\<rparr>;
      (ok, HeadTd, Tog, Ohc) \<leftarrow> OhciDataStage sv DataPidDir MaxPkt 0 Tog Addr Len Ohc;
      if \<not> ok then Some (EFI_OUT_OF_RESOURCES, HeadTd, False, Tog, None, Ohc) else
      do {
        (EmptyTd, Ohc) \<leftarrow> OhciEmptyStage sv Ed HeadTd Ohc;
        if EmptyTd = 0 then Some (EFI_OUT_OF_RESOURCES, HeadTd, False, Tog, None, Ohc) else
        do {
          Ohc \<leftarrow> upd_ed Ed (\<lambda>ed. OhciSetEDField ed ED_SKIP 0) Ohc;
          let (Status, w) = OhciSetHcCommandStatus io (UsbHcBaseAddress Ohc) BULK_LIST_FILLED 1 (World Ohc);
          let Ohc = Ohc\<lparr>World := w\<rparr>;
          if EFI_ERROR Status then Some (EFI_DEVICE_ERROR, HeadTd, False, Tog, Some EFI_USB_ERR_SYSTEM, Ohc) else
          let (Status, w) = OhciSetHcControl io (UsbHcBaseAddress Ohc) BULK_ENABLE 1 (World Ohc);
              Ohc = Ohc\<lparr>World := w\<rparr> in
          if EFI_ERROR Status then Some (EFI_DEVICE_ERROR, HeadTd, False, Tog, Some EFI_USB_ERR_SYSTEM, Ohc) else
          do {
            (Status, EdResult, Ohc) \<leftarrow> CheckIfDone io (Wait us 20000 Ohc) BULK_LIST Ed HeadTd EdResult;
            (Status, EdResult, Ohc) \<leftarrow> OhciAwait io us BULK_LIST Ed HeadTd TimeOut 0 Status EdResult Ohc;
            let code = ErrorCode EdResult;
            Some (Status, HeadTd, code \<noteq> TD_NO_ERROR,
                  if code \<noteq> TD_NO_ERROR \<and> code \<noteq> TD_TOBE_PROCESSED then NextToggle EdResult else Tog,
                  Some (ConvertErrorCode code), Ohc)
          }
        }
      }
    }"

text \<open>The result is the status, \<open>*DataLength\<close>, \<open>*DataToggle\<close>, \<open>*TransferResult\<close> and the device.\<close>

definition OhciBulkTransfer ::
  "'w dma_services \<Rightarrow> 'w mmio \<Rightarrow> 'w usb_services \<Rightarrow> 'w USB_OHCI_HC_DEV \<Rightarrow> u8 \<Rightarrow> u8 \<Rightarrow> u8 \<Rightarrow> nat \<Rightarrow> u64 option \<Rightarrow> u8 option
    \<Rightarrow> u64 \<Rightarrow> nat \<Rightarrow> (EFI_STATUS \<times> u64 option \<times> u8 option \<times> u32 option \<times> 'w USB_OHCI_HC_DEV) option" where
  "OhciBulkTransfer sv io us Ohc Addr EndPt MaxPkt Data Len Tog TimeOut TransferResult =
    (if Data = 0 \<or> Len = None \<or> Tog = None \<or> TransferResult = 0 \<or> the Len = 0 \<or> (the Tog \<noteq> 0 \<and> the Tog \<noteq> 1)
        \<or> MaxPkt \<notin> {8, 16, 32, 64}
     then Some (EFI_INVALID_PARAMETER, Len, Tog, None, Ohc) else
     let (DataPidDir, MapOp) = (if EndPt AND 0x80 \<noteq> 0 then (TD_IN_PID, MapOperationBusMasterWrite)
                                else (TD_OUT_PID, MapOperationBusMasterRead));
         EndPtNum = EndPt AND 0xF;
         B = UsbHcBaseAddress Ohc;
         (Status, w) = OhciSetHcControl io B BULK_ENABLE 0 (World Ohc) in
     if EFI_ERROR Status then Some (EFI_DEVICE_ERROR, Len, Tog, Some EFI_USB_ERR_SYSTEM, Ohc\<lparr>World := w\<rparr>) else
     let (Status, w) = OhciSetHcCommandStatus io B BULK_LIST_FILLED 0 w in
     if EFI_ERROR Status then Some (EFI_DEVICE_ERROR, Len, Tog, Some EFI_USB_ERR_SYSTEM, Ohc\<lparr>World := w\<rparr>) else
     let Ohc = Wait us 20000 (Ohc\<lparr>World := w\<rparr>) in
     do {
       (_, w) \<leftarrow> OhciSetMemoryPointer io B HC_BULK_HEAD 0 (World Ohc);
       (Ed, Ohc) \<leftarrow> OhciCreateED sv (Ohc\<lparr>World := w\<rparr>);
       if Ed = 0 then Some (EFI_OUT_OF_RESOURCES, Len, Tog, None, Ohc) else
       do {
         Ohc \<leftarrow> upd_ed Ed (transfer_ed Addr EndPtNum HI_SPEED MaxPkt) Ohc;
         (HeadEd, Ohc) \<leftarrow> OhciAttachEDToList io Ohc BULK_LIST Ed 0;
         let ((Status, MapLength, MapPhys, Map), w) = DmaMapOp us MapOp Data (the Len) (World Ohc);
         let Ohc = Ohc\<lparr>World := w\<rparr>;
         if EFI_ERROR Status then do { Ohc \<leftarrow> FREE_ED_BUFF sv Ed Ohc; Some (Status, Len, Tog, None, Ohc) } else
         do {
           (Status, HeadTd, zero, Tog, result, Ohc) \<leftarrow>
             OhciBulkStages sv io us MaxPkt DataPidDir (the Tog) Ed MapPhys MapLength TimeOut Ohc;
           Ohc \<leftarrow> FREE_OHCI_TDBUFF sv io HeadEd Ed Map HeadTd Ohc;
           Some (Status, if zero then Some 0 else Len, Some Tog, result, Ohc)
         }
       }
     })"

section \<open>Interrupt transfers\<close>

text \<open>The level of the tree for a polling interval: \<open>Index\<close> is doubled as long as it does not exceed the interval.\<close>

fun OhciDepth :: "u64 \<Rightarrow> u64 \<Rightarrow> nat \<Rightarrow> nat" where
  "OhciDepth Interval Index 0 = 0"
| "OhciDepth Interval Index (Suc Depth) =
    (if Interval \<ge> Index * 2 then OhciDepth Interval (Index * 2) Depth else Suc Depth)"

text \<open>The predecessor of \<open>Ed\<close> in the list that starts at \<open>HeadEd\<close>.\<close>

partial_function (option) OhciPredEd :: "(nat \<rightharpoonup> ED_DESCRIPTOR) \<Rightarrow> nat \<Rightarrow> nat \<Rightarrow> nat option" where
  "OhciPredEd eds HeadEd Ed =
    do {
      h \<leftarrow> eds HeadEd;
      if NextED h = word_of_nat Ed then Some HeadEd else OhciPredEd eds (unat (NextED h)) Ed
    }"

definition OhciUndoInterrupt ::
  "'w dma_services \<Rightarrow> nat \<Rightarrow> nat \<Rightarrow> nat \<Rightarrow> nat \<Rightarrow> 'w USB_OHCI_HC_DEV \<Rightarrow> 'w USB_OHCI_HC_DEV option" where
  "OhciUndoInterrupt sv HeadEd Ed Map HeadTd Ohc =
    do {
      Ohc \<leftarrow> OhciFreeTDs sv 0 HeadTd Ohc;
      Ohc \<leftarrow> (if HeadEd \<noteq> Ed \<and> HeadEd \<noteq> 0 \<and> Ed \<noteq> 0 then
               do {
                 Pred \<leftarrow> OhciPredEd (Eds Ohc) HeadEd Ed;
                 ed \<leftarrow> Eds Ohc Ed;
                 Ohc \<leftarrow> upd_ed Pred (\<lambda>h. h\<lparr>NextED := NextED ed\<rparr>) Ohc;
                 FREE_ED_BUFF sv Ed Ohc
               }
             else Some Ohc);
      Some (Ohc\<lparr>World := DmaUnmap sv Map (World Ohc)\<rparr>)
    }"

text \<open>
  The cancel branch. \<open>DataToggle\<close> is the pair of the pointer and the value it points to.
\<close>

definition OhciCancelInterrupt ::
  "'w dma_services \<Rightarrow> 'w mmio \<Rightarrow> 'w USB_OHCI_HC_DEV \<Rightarrow> u8 \<Rightarrow> u8 \<Rightarrow> nat \<times> u8
    \<Rightarrow> (EFI_STATUS \<times> u8 \<times> 'w USB_OHCI_HC_DEV) option" where
  "OhciCancelInterrupt sv io Ohc Addr EndPt DT =
    do {
      let OldTpl = Tpl Ohc;
      let (_, w) = OhciSetHcControl io (UsbHcBaseAddress Ohc) PERIODIC_ENABLE 0 (World Ohc);
      (_, Tog, Ohc) \<leftarrow> OhciFreeInterruptContext sv (Ohc\<lparr>Tpl := TPL_NOTIFY, World := w\<rparr>) Addr EndPt (fst DT \<noteq> 0) (snd DT);
      (Status, Ohc) \<leftarrow> OhciFreeInterruptEdByAddr sv Ohc Addr (EndPt AND 0xF);
      let (_, w) = OhciSetHcControl io (UsbHcBaseAddress Ohc) PERIODIC_ENABLE 1 (World Ohc);
      Some (Status, Tog, Ohc\<lparr>World := w, Tpl := OldTpl\<rparr>)
    }"

text \<open>
  The endpoint stage: the endpoint found or created, 0 when memory has run out, and \<open>HeadEd\<close>.
\<close>

definition OhciInterruptEd ::
  "'w dma_services \<Rightarrow> 'w mmio \<Rightarrow> 'w USB_OHCI_HC_DEV \<Rightarrow> u8 \<Rightarrow> u8 \<Rightarrow> u8 \<Rightarrow> bool \<Rightarrow> u8 \<Rightarrow> nat
    \<Rightarrow> (nat \<times> nat \<times> 'w USB_OHCI_HC_DEV) option" where
  "OhciInterruptEd sv io Ohc Addr EndPtNum EdDir Slow MaxPkt Depth =
    do {
      HeadEd \<leftarrow> OhciFindMinInterruptEDList Ohc Depth;
      Ed \<leftarrow> OhciFindWorkingEd (Eds Ohc) HeadEd Addr EndPtNum EdDir;
      if Ed \<noteq> 0 then
        do { Ohc \<leftarrow> upd_ed Ed (\<lambda>ed. OhciSetEDField ed ED_SKIP 1) Ohc; Some (HeadEd, Ed, Ohc) }
      else
        do {
          (Ed, Ohc) \<leftarrow> OhciCreateED sv Ohc;
          if Ed = 0 then Some (HeadEd, 0, Ohc) else
          do {
            Ohc \<leftarrow> upd_ed Ed (interrupt_ed Addr EndPtNum Slow MaxPkt) Ohc;
            (_, Ohc) \<leftarrow> OhciAttachEDToList io Ohc INTERRUPT_LIST Ed HeadEd;
            Some (HeadEd, Ed, Ohc)
          }
        }
    }"

text \<open>
  The context entry of an asynchronous transfer: false when there is no memory for it. The member \<open>Buffer\<close>, which
  no code reads, is left as it was by the code and 0 here. An entry has 112 bytes.
\<close>

abbreviation (input) sizeof_ENTRY :: nat where "sizeof_ENTRY \<equiv> 112"

definition OhciNewContext ::
  "'w dma_services \<Rightarrow> INTERRUPT_CONTEXT_ENTRY \<Rightarrow> 'w USB_OHCI_HC_DEV \<Rightarrow> (bool \<times> 'w USB_OHCI_HC_DEV) option" where
  "OhciNewContext sv e Ohc =
    (if CallBackFunction e = 0 then Some (True, Ohc) else
     let (Entry, w) = AllocatePool sv sizeof_ENTRY (World Ohc);
         Ohc = Ohc\<lparr>World := w\<rparr> in
     if Entry = 0 then Some (False, Ohc) else
     do {
       (_, Ohc) \<leftarrow> OhciAddInterruptContextEntry (Ohc\<lparr>Ents := (Ents Ohc)(Entry \<mapsto> e)\<rparr>) Entry;
       Some (True, Ohc)
     })"

text \<open>
  The result is the status, \<open>*DataToggle\<close>, \<open>*OutputED\<close> and \<open>*OutputTD\<close> (\<open>None\<close> when they have not been written) and
  the device. On the way to \<open>FREE_OHCI_TDBUFF\<close> for want of a context entry, \<open>Status\<close> still is the one of \<open>DmaMap\<close>.
\<close>

definition OhciInterruptTransfer ::
  "'w dma_services \<Rightarrow> 'w mmio \<Rightarrow> 'w usb_services \<Rightarrow> 'w USB_OHCI_HC_DEV \<Rightarrow> u8 \<Rightarrow> u8 \<Rightarrow> bool \<Rightarrow> u8 \<Rightarrow> bool \<Rightarrow> nat \<times> u8 \<Rightarrow> u64
    \<Rightarrow> nat \<Rightarrow> u64 \<Rightarrow> nat \<Rightarrow> nat \<Rightarrow> bool \<Rightarrow> (EFI_STATUS \<times> u8 \<times> (nat \<times> nat) option \<times> 'w USB_OHCI_HC_DEV) option" where
  "OhciInterruptTransfer sv io us Ohc Addr EndPt Slow MaxPkt IsNewTransfer DT Interval UCBuf Len CallBack Ctx Periodic =
    (if Len > MAX_BYTES_PER_TD then Some (EFI_INVALID_PARAMETER, snd DT, None, Ohc) else
     let (EdDir, DataPidDir) = (if EndPt AND 0x80 \<noteq> 0 then (ED_IN_DIR, TD_IN_PID) else (ED_OUT_DIR, TD_OUT_PID));
         EndPtNum = EndPt AND 0xF in
     if \<not> IsNewTransfer then
       do { (Status, Tog, Ohc) \<leftarrow> OhciCancelInterrupt sv io Ohc Addr EndPt DT; Some (Status, Tog, None, Ohc) }
     else
       let ((Status, MapLength, MapPhys, Map), w) = DmaMapOp us MapOperationBusMasterWrite UCBuf Len (World Ohc);
           Ohc = Ohc\<lparr>World := w\<rparr> in
       if EFI_ERROR Status then Some (Status, snd DT, None, Ohc) else
       do {
         (HeadEd, Ed, Ohc) \<leftarrow> OhciInterruptEd sv io Ohc Addr EndPtNum EdDir Slow MaxPkt (OhciDepth Interval 1 5);
         if Ed = 0 then Some (EFI_OUT_OF_RESOURCES, snd DT, None, Ohc\<lparr>World := DmaUnmap sv Map (World Ohc)\<rparr>) else
         if fst DT = 0 \<and> MapLength > 0 then None else
         do {
           (ok, HeadTd, Tog, Ohc) \<leftarrow> OhciDataStage sv DataPidDir MaxPkt 0 (snd DT) MapPhys MapLength Ohc;
           (EmptTd, Ohc) \<leftarrow> (if ok then OhciEmptyStage sv Ed HeadTd Ohc else Some (0, Ohc));
           if EmptTd = 0 then
             do { Ohc \<leftarrow> OhciUndoInterrupt sv HeadEd Ed Map HeadTd Ohc; Some (EFI_OUT_OF_RESOURCES, Tog, None, Ohc) }
           else do {
             (ok, Ohc) \<leftarrow> OhciNewContext sv
               \<lparr>DeviceAddress = Addr, EndPointAddress = EndPt, Entry_Ed = Ed, Entry_DataTd = HeadTd, IsSlowDevice = Slow,
                MaxPacketLength = MaxPkt, PollingInterval = Interval, CallBackFunction = CallBack, Context = Ctx,
                IsPeriodic = Periodic, Buffer = 0, DataLength = Len, UCBuffer = UCBuf, UCBufferMapping = Map,
                Entry_Toggle = fst DT, NextEntry = 0\<rparr> Ohc;
             if \<not> ok then
               do { Ohc \<leftarrow> OhciUndoInterrupt sv HeadEd Ed Map HeadTd Ohc; Some (Status, Tog, Some (Ed, HeadTd), Ohc) }
             else do {
               Ohc \<leftarrow> upd_ed Ed (\<lambda>ed. OhciSetEDField ed ED_SKIP 0) Ohc;
               let (v, w) = OhciGetHcControl io (UsbHcBaseAddress Ohc) PERIODIC_ENABLE (World Ohc);
               let Ohc = Ohc\<lparr>World := w\<rparr>;
               on \<leftarrow> v;
               let Ohc = (if on = 0
                          then Wait us 1000 (Ohc\<lparr>World := snd (OhciSetHcControl io (UsbHcBaseAddress Ohc) PERIODIC_ENABLE 1 (World Ohc))\<rparr>)
                          else Ohc);
               Some (EFI_SUCCESS, Tog, Some (Ed, HeadTd), Ohc)
             }
           }
         }
       })"

text \<open>The buffer of an asynchronous transfer comes from \<open>DmaAllocateBuffer\<close>; it stays with the context.\<close>

definition OhciAsyncInterruptTransfer ::
  "'w dma_services \<Rightarrow> 'w mmio \<Rightarrow> 'w usb_services \<Rightarrow> 'w USB_OHCI_HC_DEV \<Rightarrow> u8 \<Rightarrow> u8 \<Rightarrow> bool \<Rightarrow> u8 \<Rightarrow> bool \<Rightarrow> nat \<times> u8 \<Rightarrow> u64
    \<Rightarrow> u64 \<Rightarrow> nat \<Rightarrow> nat \<Rightarrow> (EFI_STATUS \<times> u8 \<times> 'w USB_OHCI_HC_DEV) option" where
  "OhciAsyncInterruptTransfer sv io us Ohc Addr EndPt Slow MaxPkt IsNewTransfer DT Interval Len CallBack Ctx =
    (if fst DT = 0 \<or> EndPt AND 0x80 = 0
        \<or> (IsNewTransfer \<and> (Len = 0 \<or> (snd DT \<noteq> 0 \<and> snd DT \<noteq> 1) \<or> Interval < 1 \<or> Interval > 255))
     then Some (EFI_INVALID_PARAMETER, snd DT, Ohc) else
     let Pages = EFI_SIZE_TO_PAGES Len;
         ((Status, UCBuf), w) = (if IsNewTransfer then DmaAllocateBuffer sv Pages (World Ohc) else ((EFI_SUCCESS, 0), World Ohc));
         Ohc = Ohc\<lparr>World := w\<rparr> in
     if EFI_ERROR Status then Some (EFI_OUT_OF_RESOURCES, snd DT, Ohc) else
     do {
       (Status, Tog, _, Ohc) \<leftarrow>
         OhciInterruptTransfer sv io us Ohc Addr EndPt Slow MaxPkt IsNewTransfer DT Interval UCBuf Len CallBack Ctx True;
       Some (Status, Tog,
             if UCBuf \<noteq> 0 \<and> EFI_ERROR Status then Ohc\<lparr>World := DmaFreeBuffer sv Pages UCBuf (World Ohc)\<rparr> else Ohc)
     })"

lemma unat_pred: "0 < t \<Longrightarrow> unat (t - 1) < unat t" for t :: u64
proof -
  assume t: "0 < t"
  then have "t \<noteq> 0" by auto
  then show ?thesis using t by (simp add: unat_minus_one) (simp add: word_less_nat_alt)
qed

text \<open>The wait of the synchronous transfer; here \<open>TimeOut\<close> itself is counted down.\<close>

function OhciSyncAwait ::
  "'w mmio \<Rightarrow> 'w usb_services \<Rightarrow> nat \<Rightarrow> nat \<Rightarrow> u64 \<Rightarrow> EFI_STATUS \<Rightarrow> OHCI_ED_RESULT \<Rightarrow> 'w USB_OHCI_HC_DEV
    \<Rightarrow> (EFI_STATUS \<times> OHCI_ED_RESULT \<times> 'w USB_OHCI_HC_DEV) option" where
  "OhciSyncAwait io us Ed HeadTd TimeOut Status EdResult Ohc =
    (if Status = EFI_NOT_READY \<and> TimeOut > 0 then
       do {
         (Status, EdResult, Ohc) \<leftarrow> CheckIfDone io (Wait us 1000 Ohc) INTERRUPT_LIST Ed HeadTd EdResult;
         OhciSyncAwait io us Ed HeadTd (TimeOut - 1) Status EdResult Ohc
       }
     else Some (Status, EdResult, Ohc))"
  by pat_completeness auto
termination
  by (relation "measure (\<lambda>(_, _, _, _, t, _). unat t)") (auto simp: unat_pred)

text \<open>
  The pointers \<open>Ed\<close> and \<open>HeadTd\<close> are read only when the first call has succeeded, and then it has written them. The
  buffer from \<open>AllocatePool\<close> is not freed.
\<close>

definition OhciSyncInterruptTransfer ::
  "'w dma_services \<Rightarrow> 'w mmio \<Rightarrow> 'w usb_services \<Rightarrow> 'w USB_OHCI_HC_DEV \<Rightarrow> u8 \<Rightarrow> u8 \<Rightarrow> bool \<Rightarrow> u8 \<Rightarrow> nat \<Rightarrow> u64 option \<Rightarrow> nat \<times> u8
    \<Rightarrow> u64 \<Rightarrow> nat \<Rightarrow> (EFI_STATUS \<times> u8 \<times> u32 option \<times> 'w USB_OHCI_HC_DEV) option" where
  "OhciSyncInterruptTransfer sv io us Ohc Addr EndPt Slow MaxPkt Data Len DT TimeOut TransferResult =
    (if EndPt AND 0x80 = 0 \<or> Data = 0 \<or> Len = None \<or> the Len = 0 \<or> (Slow \<and> MaxPkt > 8) \<or> (\<not> Slow \<and> MaxPkt > 64)
        \<or> fst DT = 0 \<or> (snd DT \<noteq> 0 \<and> snd DT \<noteq> 1) \<or> TransferResult = 0
     then Some (EFI_INVALID_PARAMETER, snd DT, None, Ohc) else
     let (UCBuf, w) = AllocatePool sv (unat (the Len)) (World Ohc);
         Ohc = Ohc\<lparr>World := w\<rparr> in
     if UCBuf = 0 then Some (EFI_OUT_OF_RESOURCES, snd DT, None, Ohc) else
     do {
       (Status, Tog, out, Ohc) \<leftarrow>
         OhciInterruptTransfer sv io us Ohc Addr EndPt Slow MaxPkt True DT 1 UCBuf (the Len) 0 0 False;
       (result, Ohc) \<leftarrow>
         (if EFI_ERROR Status then Some (None, Ohc) else
          do {
            (Ed, HeadTd) \<leftarrow> out;
            (Status, EdResult, Ohc) \<leftarrow> CheckIfDone io Ohc INTERRUPT_LIST Ed HeadTd \<lparr>ErrorCode = 0, NextToggle = 0\<rparr>;
            (Status, EdResult, Ohc) \<leftarrow> OhciSyncAwait io us Ed HeadTd TimeOut Status EdResult Ohc;
            Some (Some (ConvertErrorCode (ErrorCode EdResult)), Ohc)
          });
       let Ohc = Ohc\<lparr>World := CopyBuffer us Data UCBuf (the Len) (World Ohc)\<rparr>;
       (Status, Tog, _, Ohc) \<leftarrow>
         OhciInterruptTransfer sv io us Ohc Addr EndPt Slow MaxPkt False (fst DT, Tog) 0 0 0 0 0 False;
       Some (Status, Tog, result, Ohc)
     })"

definition OhciIsochronousTransfer :: "nat \<Rightarrow> u64 \<Rightarrow> nat \<Rightarrow> EFI_STATUS" where
  "OhciIsochronousTransfer Data Len TransferResult =
    (if Data = 0 \<or> Len = 0 \<or> TransferResult = 0 then EFI_INVALID_PARAMETER else EFI_UNSUPPORTED)"

definition OhciAsyncIsochronousTransfer :: "nat \<Rightarrow> u64 \<Rightarrow> EFI_STATUS" where
  "OhciAsyncIsochronousTransfer Data Len =
    (if Data = 0 \<or> Len = 0 then EFI_INVALID_PARAMETER else EFI_UNSUPPORTED)"

end
