(* ===== verification/OhciStages.thy ===== *)
theory OhciStages
  imports OhciTransfer
begin

unbundle bit_operations_syntax

text \<open>
  Properties of the transfers: the descriptors of a data stage are the packets of the transfer, a
  polling interval gives a level of the interrupt tree, and a bulk transfer returns and gives back what
  it has taken.
\<close>

section \<open>Lists of transfer descriptors under construction\<close>

text \<open>The memory that the DMA library hands out lies below 4 GB, where the 32-bit links reach it.\<close>

definition dma_low :: "('w \<Rightarrow> nat set) \<Rightarrow> bool" where
  "dma_low inuse \<longleftrightarrow> (\<forall>w. inuse w \<subseteq> {..<2 ^ 32})"

abbreviation first :: "nat list \<Rightarrow> nat" where
  "first xs \<equiv> (case xs of [] \<Rightarrow> 0 | x # _ \<Rightarrow> x)"

text \<open>
  The list \<open>xs\<close> of descriptors is linked both ways and belongs to the transfer; the client owns \<open>out\<close> besides, and
  \<open>L\<close> is what was handed out before the list was begun.
\<close>

definition building where
  "building sv inuse pooled I P L out xs Ohc \<longleftrightarrow> dev_ok sv inuse pooled I P Ohc
     \<and> dev_owned (map td_region xs @ out) Ohc
     \<and> pool_live (MemPool Ohc) = L \<union> feet footprint (map td_region xs) \<and> L \<inter> feet footprint (map td_region xs) = {}
     \<and> td_chain (Tds Ohc) (first xs) xs 0 \<and> tdp_chain (Tds Ohc) (first xs) xs 0"

lemma buildingD:
  assumes "building sv inuse pooled I P L out xs Ohc"
  shows "dev_ok sv inuse pooled I P Ohc" "dev_owned (map td_region xs @ out) Ohc"
    "pool_live (MemPool Ohc) = L \<union> feet footprint (map td_region xs)" "L \<inter> feet footprint (map td_region xs) = {}"
    "td_chain (Tds Ohc) (first xs) xs 0" "tdp_chain (Tds Ohc) (first xs) xs 0"
  using assms by (simp_all add: building_def)

lemma building_start:
  assumes "dev_ok sv inuse pooled I P Ohc" "dev_owned out Ohc"
  shows "building sv inuse pooled I P (pool_live (MemPool Ohc)) out [] Ohc"
  using assms by (simp add: building_def)

lemma live_low:
  assumes "pool_ok sv inuse pooled I P p w" "dma_low inuse"
  shows "pool_live p \<subseteq> {..<2 ^ 32}"
proof -
  have "pool_live p \<subseteq> ranges_of (Blocks p)"
    using block_live_range by (fastforce simp: pool_live_def blocks_live_def ranges_of_def)
  also have "\<dots> \<subseteq> inuse w" using assms(1) by (auto simp: pool_ok_def)
  also have "\<dots> \<subseteq> {..<2 ^ 32}" using assms(2) by (simp add: dma_low_def)
  finally show ?thesis .
qed

lemma held_low:
  assumes "pool_ok sv inuse pooled I P p w" "dma_low inuse" "pool_held p m sz" "size_ok sz"
  shows "m < 2 ^ 32"
  using pool.held_live[OF assms(1,3)] start_in_foot[OF assms(4)] live_low[OF assms(1,2)] by blast

text \<open>A descriptor without its links, and a function that makes one without links.\<close>

definition strip :: "TD_DESCRIPTOR \<Rightarrow> TD_DESCRIPTOR" where
  "strip td = td\<lparr>NextTD := 0, NextTDPointer := 0\<rparr>"

lemma create_TD_ok:
  assumes b: "building sv inuse pooled I P L out xs Ohc" and low: "dma_low inuse"
  shows "\<exists>m pool w. let Ohc1 = Ohc\<lparr>MemPool := pool, World := w\<rparr> in
    (m = 0 \<and> OhciCreateTD sv Ohc = Some (0, Ohc1) \<and> building sv inuse pooled I P L out xs Ohc1)
  \<or> (m \<noteq> 0 \<and> OhciCreateTD sv Ohc = Some (m, Ohc1\<lparr>Tds := (Tds Ohc)(m \<mapsto> td_zero)\<rparr>) \<and> m < 2 ^ 32 \<and> m \<notin> set xs
      \<and> building sv inuse pooled I P (L \<union> footprint m sizeof_TD) (td_region m # out) xs Ohc1
      \<and> L \<inter> footprint m sizeof_TD = {})"
proof -
  note B = buildingD[OF b]
  have sz: "size_ok sizeof_TD" by (simp add: size_ok_def)
  obtain m pool w where a: "UsbHcAllocateMem sv (MemPool Ohc) sizeof_TD (World Ohc) = Some (m, pool, w)"
    using pool.alloc_law[OF B(1) sz] by blast
  note A = pool.alloc_owned[OF B(1,2) sz a]
  have z: "td_zero\<lparr>CurrBufferPointer := 0, NextTD := 0, BufferEndPointer := 0, NextTDPointer := 0\<rparr> = td_zero"
    by (simp add: td_zero_def)
  show ?thesis
  proof (cases "m = 0")
    case True
    then have "building sv inuse pooled I P L out xs (Ohc\<lparr>MemPool := pool, World := w\<rparr>)"
      using B A(1,2,4) by (simp add: building_def)
    then show ?thesis using a True by (intro exI[of _ m] exI[of _ pool] exI[of _ w]) (simp add: OhciCreateTD_def)
  next
    case False
    note o = A(3)[OF False]
    have "m < 2 ^ 32" by (rule held_low[OF A(1) low, where sz = sizeof_TD]) (use o in simp_all)
    moreover have "m \<notin> set xs" using region_fresh[OF o] by force
    moreover have "footprint m sizeof_TD \<inter> (L \<union> feet footprint (map td_region xs)) = {}"
      using A(6)[OF False] B(3) by simp
    moreover have "building sv inuse pooled I P (L \<union> footprint m sizeof_TD) (td_region m # out) xs (Ohc\<lparr>MemPool := pool, World := w\<rparr>)"
      using B(3-6) A(1) A(5)[OF False] o calculation(3) by (auto simp: building_def Int_Un_distrib Int_Un_distrib2)
    ultimately show ?thesis using a False z
      by (intro exI[of _ m] exI[of _ pool] exI[of _ w]) (auto simp: OhciCreateTD_def)
  qed
qed

lemma first_zero: "building sv inuse pooled I P L out xs Ohc \<Longrightarrow> first xs = 0 \<longleftrightarrow> xs = []"
  using chain_no_end by (cases xs) (fastforce simp: building_def)+

lemma building_grown:
  assumes b: "building sv inuse pooled I P (L \<union> footprint m sizeof_TD) (td_region m # out) xs Ohc"
    and L: "L \<inter> footprint m sizeof_TD = {}"
    and c: "td_chain tds (first (xs @ [m])) (xs @ [m]) 0" "tdp_chain tds (first (xs @ [m])) (xs @ [m]) 0"
  shows "building sv inuse pooled I P L out (xs @ [m]) (Ohc\<lparr>Tds := tds\<rparr>)"
proof -
  note B = buildingD[OF b]
  have "dev_owned (map td_region (xs @ [m]) @ out) Ohc" using B(2) by auto
  moreover have "pool_live (MemPool Ohc) = L \<union> feet footprint (map td_region (xs @ [m]))" using B(3) by auto
  moreover have "L \<inter> feet footprint (map td_region (xs @ [m])) = {}" using B(4) L by auto
  ultimately show ?thesis using B(1) c by (simp add: building_def)
qed

text \<open>A descriptor without links is put behind a list that is linked both ways.\<close>

lemma append_new:
  assumes c: "td_chain t p xs 0" "tdp_chain t p xs 0" "xs \<noteq> []"
    and m: "t m = Some v" "NextTD v = 0" "NextTDPointer v = 0" "m \<notin> set xs" "m \<noteq> 0" "m < 2 ^ 32"
  shows "\<exists>tds. OhciAppendTD t p m = Some tds \<and> td_chain tds p (xs @ [m]) 0 \<and> tdp_chain tds p (xs @ [m]) 0
    \<and> (\<forall>x \<in> set xs. strip (the (tds x)) = strip (the (t x))) \<and> tds m = Some v"
proof -
  have one: "td_chain t m [m] 0" "tdp_chain t m [m] 0" using m by simp_all
  obtain td where td: "t (last xs) = Some td" and ap: "OhciAppendTD t p m =
      Some (t(last xs \<mapsto> td\<lparr>NextTD := word_of_nat m, NextTDPointer := word_of_nat m\<rparr>))"
    and c1: "td_chain (t(last xs \<mapsto> td\<lparr>NextTD := word_of_nat m, NextTDPointer := word_of_nat m\<rparr>)) p (xs @ [m]) 0"
    using append_td[OF c(1,3) one(1) _ m(6)] m(4) by auto
  let ?tds = "t(last xs \<mapsto> td\<lparr>NextTD := word_of_nat m, NextTDPointer := word_of_nat m\<rparr>)"
  have c2: "tdp_chain ?tds p (xs @ [m]) 0" by (rule chain_link[OF c(2,3) one(2)]) (use m in auto)
  have "last xs \<noteq> m" using c(3) m(4) last_in_set by metis
  then show ?thesis using ap c1 c2 td m(1) by (intro exI[of _ ?tds]) (auto simp: strip_def)
qed

lemma mem_tds_world: "Ohc\<lparr>MemPool := p, World := w, Tds := t\<rparr> = Ohc\<lparr>MemPool := p, Tds := t, World := w\<rparr>"
  by simp

lemma link_new:
  assumes b: "building sv inuse pooled I P (L \<union> footprint m sizeof_TD) (td_region m # out) xs (Ohc\<lparr>MemPool := pool, World := w\<rparr>)"
    and L: "L \<inter> footprint m sizeof_TD = {}" and m: "m < 2 ^ 32" "m \<notin> set xs" "m \<noteq> 0"
    and v: "NextTD v = 0" "NextTDPointer v = 0"
  defines "t \<equiv> (Tds Ohc)(m \<mapsto> v)"
  shows "\<exists>tds. (if first xs = 0 then Some (Ohc\<lparr>MemPool := pool, Tds := t, World := w\<rparr>)
                else link_td (first xs) m (Ohc\<lparr>MemPool := pool, Tds := t, World := w\<rparr>)) = Some (Ohc\<lparr>MemPool := pool, Tds := tds, World := w\<rparr>)
       \<and> building sv inuse pooled I P L out (xs @ [m]) (Ohc\<lparr>MemPool := pool, Tds := tds, World := w\<rparr>)
       \<and> map (strip \<circ> the \<circ> tds) (xs @ [m]) = map (strip \<circ> the \<circ> Tds Ohc) xs @ [v]"
proof -
  have sv: "strip v = v" using v by (simp add: strip_def)
  have old: "td_chain t (first xs) xs 0" "tdp_chain t (first xs) xs 0"
    using buildingD(5,6)[OF b] m(2) by (simp_all add: chain_frame t_def)
  show ?thesis
  proof (cases "xs = []")
    case True
    have "building sv inuse pooled I P L out (xs @ [m]) (Ohc\<lparr>MemPool := pool, Tds := t, World := w\<rparr>)"
      using building_grown[OF b L, of t] v m(3) True by (simp add: t_def mem_tds_world)
    then show ?thesis using True sv by (intro exI[of _ t]) (simp add: t_def)
  next
    case ne: False
    obtain tds where a: "OhciAppendTD t (first xs) m = Some tds" "td_chain tds (first xs) (xs @ [m]) 0"
      "tdp_chain tds (first xs) (xs @ [m]) 0" "\<forall>x \<in> set xs. strip (the (tds x)) = strip (the (t x))" "tds m = Some v"
      using append_new[OF old ne, of m v] v m by (auto simp: t_def)
    have fx: "first (xs @ [m]) = first xs" "first xs \<noteq> 0" "first xs \<noteq> m"
      using ne m(2) first_zero[OF b] by (cases xs; auto)+
    have "building sv inuse pooled I P L out (xs @ [m]) (Ohc\<lparr>MemPool := pool, Tds := tds, World := w\<rparr>)"
      using building_grown[OF b L, of tds] a(2,3) fx(1) by (simp add: mem_tds_world)
    moreover have "map (strip \<circ> the \<circ> tds) xs = map (strip \<circ> the \<circ> Tds Ohc) xs" using a(4) m(2) by (auto simp: t_def)
    ultimately show ?thesis
      using a(1,5) fx(2,3) sv by (intro exI[of _ tds]) (simp add: link_td_def OhciLinkTD_def)
  qed
qed

lemma add_td:
  assumes b: "building sv inuse pooled I P L out xs Ohc" and low: "dma_low inuse"
    and f: "NextTD (f td_zero) = 0" "NextTDPointer (f td_zero) = 0"
  shows "\<exists>m pool w Ohc1. OhciCreateTD sv Ohc = Some (m, Ohc1) \<and>
    (if m = 0 then Ohc1 = Ohc\<lparr>MemPool := pool, World := w\<rparr> \<and> building sv inuse pooled I P L out xs Ohc1
     else \<exists>Ohc2 tds. upd_td m f Ohc1 = Some Ohc2 \<and> m < 2 ^ 32
       \<and> (if first xs = 0 then Some Ohc2 else link_td (first xs) m Ohc2) = Some (Ohc\<lparr>MemPool := pool, Tds := tds, World := w\<rparr>)
       \<and> building sv inuse pooled I P L out (xs @ [m]) (Ohc\<lparr>MemPool := pool, Tds := tds, World := w\<rparr>)
       \<and> map (strip \<circ> the \<circ> tds) (xs @ [m]) = map (strip \<circ> the \<circ> Tds Ohc) xs @ [f td_zero])"
proof -
  obtain m pool w where c: "let Ohc1 = Ohc\<lparr>MemPool := pool, World := w\<rparr> in
    (m = 0 \<and> OhciCreateTD sv Ohc = Some (0, Ohc1) \<and> building sv inuse pooled I P L out xs Ohc1)
  \<or> (m \<noteq> 0 \<and> OhciCreateTD sv Ohc = Some (m, Ohc1\<lparr>Tds := (Tds Ohc)(m \<mapsto> td_zero)\<rparr>) \<and> m < 2 ^ 32 \<and> m \<notin> set xs
      \<and> building sv inuse pooled I P (L \<union> footprint m sizeof_TD) (td_region m # out) xs Ohc1
      \<and> L \<inter> footprint m sizeof_TD = {})"
    using create_TD_ok[OF b low] by blast
  let ?O = "Ohc\<lparr>MemPool := pool, World := w\<rparr>"
  show ?thesis
  proof (cases "m = 0")
    case True
    then show ?thesis using c by (intro exI[of _ m] exI[of _ pool] exI[of _ w] exI[of _ ?O]) (simp add: Let_def)
  next
    case False
    then have m: "OhciCreateTD sv Ohc = Some (m, ?O\<lparr>Tds := (Tds Ohc)(m \<mapsto> td_zero)\<rparr>)" "m < 2 ^ 32" "m \<notin> set xs"
      and B: "building sv inuse pooled I P (L \<union> footprint m sizeof_TD) (td_region m # out) xs ?O"
      and L: "L \<inter> footprint m sizeof_TD = {}"
      using c by (auto simp: Let_def)
    let ?O1 = "?O\<lparr>Tds := (Tds Ohc)(m \<mapsto> td_zero)\<rparr>"
    have "upd_td m f ?O1 = Some (Ohc\<lparr>MemPool := pool, Tds := (Tds Ohc)(m \<mapsto> f td_zero), World := w\<rparr>)" by (simp add: upd_td_def)
    then show ?thesis
      using link_new[OF B L m(2,3) False f] m(1,2) False
      by (intro exI[of _ m] exI[of _ pool] exI[of _ w] exI[of _ ?O1]) (simp only: if_False not_False_eq_True, blast)
  qed
qed

section \<open>Packets\<close>

text \<open>
  What the controller reads from a transfer descriptor: the packet identifier, the data toggle (its upper bit says
  that the toggle comes from the descriptor), the condition code, and the first and the last byte of the buffer.
\<close>

record packet =
  pk_pid :: u32
  pk_toggle :: u32
  pk_code :: u32
  pk_first :: u32
  pk_last :: u32

definition packet_of :: "TD_DESCRIPTOR \<Rightarrow> packet" where
  "packet_of td = \<lparr>pk_pid = bf_get 19 2 (TdWord0 td), pk_toggle = DataToggle td, pk_code = ConditionCode td,
     pk_first = CurrBufferPointer td, pk_last = BufferEndPointer td\<rparr>"

text \<open>The packets of a transfer: the buffer is cut in pieces of \<open>Pkt\<close> bytes, and the toggle alternates.\<close>

definition packets :: "u32 \<Rightarrow> nat \<Rightarrow> nat \<Rightarrow> u32 \<Rightarrow> nat \<Rightarrow> packet list" where
  "packets Pid Pkt t a Len = map (\<lambda>i. \<lparr>pk_pid = Pid, pk_toggle = word_of_nat (2 + (t + i) mod 2), pk_code = TD_TOBE_PROCESSED,
       pk_first = a + word_of_nat (i * Pkt), pk_last = a + word_of_nat (min ((i + 1) * Pkt) Len) - 1\<rparr>)
     [0..<(Len + Pkt - 1) div Pkt]"

lemma packets_zero [simp]: "packets Pid Pkt t a 0 = []"
  by (cases "Pkt = 0") (simp_all add: packets_def)

lemma packets_Cons:
  assumes "0 < Len" "0 < Pkt"
  shows "packets Pid Pkt t a Len = \<lparr>pk_pid = Pid, pk_toggle = word_of_nat (2 + t mod 2), pk_code = TD_TOBE_PROCESSED,
      pk_first = a, pk_last = a + word_of_nat (min Pkt Len) - 1\<rparr> #
    packets Pid Pkt (t + 1) (a + word_of_nat (min Pkt Len)) (Len - min Pkt Len)"
proof (cases "Len \<le> Pkt")
  case True
  have "(Len + Pkt - 1) div Pkt = 1"
    using True assms by (intro div_nat_eqI) auto
  moreover have "(Pkt - 1) div Pkt = 0" using assms by simp
  ultimately show ?thesis using True by (simp add: packets_def min_def)
next
  case False
  let ?n = "(Len - Pkt + Pkt - 1) div Pkt"
  have n: "(Len + Pkt - 1) div Pkt = Suc ?n"
    using False assms div_add_self2[of Pkt "Len - 1"] by (simp add: Suc_diff_le)
  have m: "min (Pkt + (Pkt + i * Pkt)) Len = Pkt + min (Pkt + i * Pkt) (Len - Pkt)" for i using False by simp
  show ?thesis
    using False unfolding packets_def n upt_conv_Cons[OF zero_less_Suc] map_Suc_upt[symmetric]
    by (auto simp: min_def algebra_simps)
qed

lemma ucast_plus: "ucast (x + y) = (ucast x + ucast y :: u32)" for x y :: u64
  by (simp add: word_unat_eq_iff unat_word_ariths unsigned_ucast_eq take_bit_eq_mod mod_mod_cancel mod_simps)

lemma packet_stage:
  assumes "Tog = 0 \<or> Tog = 1" "take_bit 2 Pid = Pid"
  shows "packet_of (stage_td Pid D (ucast (Tog :: u8)) A E n td_zero) =
    \<lparr>pk_pid = Pid, pk_toggle = word_of_nat (2 + unat Tog mod 2), pk_code = TD_TOBE_PROCESSED, pk_first = ucast A, pk_last = ucast E\<rparr>"
  using assms by (auto simp: packet_of_def stage_td_def OhciSetTDField_def Let_def TD_DESCRIPTOR_WORD0_def ConditionCode_def DataToggle_def
      td_zero_def bf_laws)

lemma ucast_unat: "(ucast k :: u32) = word_of_nat (unat k)" for k :: u64
  by (simp add: word_unat_eq_iff unsigned_ucast_eq unsigned_of_nat)

lemma ucast_end: "ucast (a + k - 1) = (ucast a + word_of_nat (unat k) - 1 :: u32)" for a k :: u64
  using ucast_plus[of "a + k - 1" 1] ucast_plus[of a k] by (simp add: eq_diff_eq)

lemma packets_mod: "t mod 2 = u mod 2 \<Longrightarrow> packets Pid Pkt t a Len = packets Pid Pkt u a Len"
proof -
  assume "t mod 2 = u mod 2"
  then have "(t + i) mod 2 = (u + i) mod 2" for i by (metis mod_add_left_eq)
  then show ?thesis by (simp add: packets_def)
qed

lemma packet_strip [simp]: "packet_of (strip td) = packet_of td"
  by (simp add: packet_of_def strip_def DataToggle_def ConditionCode_def)

lemma strip_packets:
  assumes "map (strip \<circ> the \<circ> tds) (xs @ [m]) = map (strip \<circ> the \<circ> tds') xs @ [v]"
  shows "map (packet_of \<circ> the \<circ> tds) (xs @ [m]) = map (packet_of \<circ> the \<circ> tds') xs @ [packet_of v]"
proof -
  have "map packet_of (map (strip \<circ> the \<circ> tds) (xs @ [m])) = map packet_of (map (strip \<circ> the \<circ> tds') xs @ [v])"
    using assms by simp
  then show ?thesis by (simp add: o_def)
qed

lemma stage_links: "NextTD (stage_td Pid D t A E n td_zero) = 0" "NextTDPointer (stage_td Pid D t A E n td_zero) = 0"
  by (simp_all add: stage_td_def OhciSetTDField_def Let_def td_zero_def)

text \<open>The bytes of the next packet.\<close>

lemma act_length:
  fixes Len :: u64 and MaxPkt :: u8
  defines "Act \<equiv> (if Len > ucast MaxPkt then ucast MaxPkt else Len)"
  shows "unat Act = min (unat MaxPkt) (unat Len)" "unat (Len - Act) = unat Len - min (unat MaxPkt) (unat Len)"
proof -
  have u: "unat (ucast MaxPkt :: u64) = unat MaxPkt"
    using unsigned_less[where 'a = nat, of MaxPkt] by (simp add: unsigned_ucast_eq take_bit_nat_eq_self)
  then show "unat Act = min (unat MaxPkt) (unat Len)" by (auto simp: Act_def word_less_nat_alt)
  moreover have "Act \<le> Len" by (auto simp: Act_def)
  ultimately show "unat (Len - Act) = unat Len - min (unat MaxPkt) (unat Len)" by (simp add: unat_sub)
qed

lemma data_stage:
  assumes b: "building sv inuse pooled I P L out xs Ohc" and low: "dma_low inuse" and mp: "MaxPkt \<noteq> 0"
    and tog: "Tog = 0 \<or> Tog = 1" and pid: "take_bit 2 Pid = Pid"
  shows "\<exists>ok ys pool w tds. OhciDataStage sv Pid MaxPkt (first xs) Tog Addr Len Ohc =
      Some (ok, first (xs @ ys), if even (length ys) then Tog else Tog XOR 1, Ohc\<lparr>MemPool := pool, Tds := tds, World := w\<rparr>)
    \<and> building sv inuse pooled I P L out (xs @ ys) (Ohc\<lparr>MemPool := pool, Tds := tds, World := w\<rparr>)
    \<and> map (packet_of \<circ> the \<circ> tds) (xs @ ys) = map (packet_of \<circ> the \<circ> Tds Ohc) xs
        @ take (length ys) (packets Pid (unat MaxPkt) (unat Tog) (ucast Addr) (unat Len))
    \<and> length ys \<le> length (packets Pid (unat MaxPkt) (unat Tog) (ucast Addr) (unat Len))
    \<and> (ok \<longleftrightarrow> length ys = length (packets Pid (unat MaxPkt) (unat Tog) (ucast Addr) (unat Len)))"
  using b tog
proof (induction "unat Len" arbitrary: xs Tog Addr Len Ohc rule: less_induct)
  case less
  show ?case
  proof (cases "Len = 0")
    case True
    then show ?thesis using less.prems(1)
      by (intro exI[of _ True] exI[of _ "[]"] exI[of _ "MemPool Ohc"] exI[of _ "World Ohc"] exI[of _ "Tds Ohc"])
        (simp add: OhciDataStage.simps)
  next
    case False
    define Act where "Act = (if Len > ucast MaxPkt then ucast MaxPkt else Len)"
    note A = act_length[where MaxPkt = MaxPkt and Len = Len, folded Act_def]
    let ?f = "stage_td Pid TD_NO_DELAY (ucast Tog) Addr (Addr + Act - 1) (ucast Act)"
    let ?ps = "packets Pid (unat MaxPkt) (unat Tog) (ucast Addr) (unat Len)"
    let ?rest = "packets Pid (unat MaxPkt) (unat (Tog XOR 1)) (ucast (Addr + Act)) (unat (Len - Act))"
    have pos: "0 < unat Len" "0 < unat MaxPkt" using False mp by (simp_all add: unat_gt_0)
    have t1: "Tog XOR 1 = 0 \<or> Tog XOR 1 = 1" "(unat Tog + 1) mod 2 = unat (Tog XOR 1) mod 2"
      "(Tog XOR 1) XOR 1 = Tog" using less.prems(2) by auto
    have ps: "?ps = packet_of (?f td_zero) # ?rest"
      unfolding packets_Cons[OF pos] packet_stage[OF less.prems(2) pid] ucast_end ucast_plus[of Addr] A
      using packets_mod[OF t1(2)] A by (simp add: ucast_unat[of Act])
    obtain m pool w Ohc1 where c: "OhciCreateTD sv Ohc = Some (m, Ohc1)"
      and m: "if m = 0 then Ohc1 = Ohc\<lparr>MemPool := pool, World := w\<rparr> \<and> building sv inuse pooled I P L out xs Ohc1
     else \<exists>Ohc2 tds. upd_td m ?f Ohc1 = Some Ohc2 \<and> m < 2 ^ 32
       \<and> (if first xs = 0 then Some Ohc2 else link_td (first xs) m Ohc2) = Some (Ohc\<lparr>MemPool := pool, Tds := tds, World := w\<rparr>)
       \<and> building sv inuse pooled I P L out (xs @ [m]) (Ohc\<lparr>MemPool := pool, Tds := tds, World := w\<rparr>)
       \<and> map (strip \<circ> the \<circ> tds) (xs @ [m]) = map (strip \<circ> the \<circ> Tds Ohc) xs @ [?f td_zero]"
      using add_td[OF less.prems(1) low, of ?f] stage_links by blast
    show ?thesis
    proof (cases "m = 0")
      case True
      have "Ohc1 = Ohc\<lparr>MemPool := pool, Tds := Tds Ohc, World := w\<rparr>" using m True by simp
      moreover have "building sv inuse pooled I P L out xs Ohc1" using m True by auto
      ultimately show ?thesis
        using c True False ps
        by (intro exI[of _ False] exI[of _ "[]"] exI[of _ pool] exI[of _ w] exI[of _ "Tds Ohc"])
          (simp add: OhciDataStage.simps[of sv Pid MaxPkt "first xs"] Let_def)
    next
      case m0: False
      then obtain Ohc2 tds where u: "upd_td m ?f Ohc1 = Some Ohc2"
        "(if first xs = 0 then Some Ohc2 else link_td (first xs) m Ohc2) = Some (Ohc\<lparr>MemPool := pool, Tds := tds, World := w\<rparr>)"
        and b2: "building sv inuse pooled I P L out (xs @ [m]) (Ohc\<lparr>MemPool := pool, Tds := tds, World := w\<rparr>)"
        and s2: "map (strip \<circ> the \<circ> tds) (xs @ [m]) = map (strip \<circ> the \<circ> Tds Ohc) xs @ [?f td_zero]"
        using m by auto
      let ?O = "Ohc\<lparr>MemPool := pool, Tds := tds, World := w\<rparr>"
      have fx: "(if first xs = 0 then m else first xs) = first (xs @ [m])"
        using first_zero[OF less.prems(1)] by (cases xs) auto
      have step: "OhciDataStage sv Pid MaxPkt (first xs) Tog Addr Len Ohc =
          OhciDataStage sv Pid MaxPkt (first (xs @ [m])) (Tog XOR 1) (Addr + Act) (Len - Act) ?O"
        using c u m0 False by (simp add: OhciDataStage.simps[of sv Pid MaxPkt "first xs"] Let_def Act_def[symmetric] fx)
      have dec: "unat (Len - Act) < unat Len" using A pos by simp
      obtain ok ys pool' w' tds' where r: "OhciDataStage sv Pid MaxPkt (first (xs @ [m])) (Tog XOR 1) (Addr + Act) (Len - Act) ?O =
          Some (ok, first ((xs @ [m]) @ ys), if even (length ys) then Tog XOR 1 else (Tog XOR 1) XOR 1, ?O\<lparr>MemPool := pool', Tds := tds', World := w'\<rparr>)"
        and b3: "building sv inuse pooled I P L out ((xs @ [m]) @ ys) (?O\<lparr>MemPool := pool', Tds := tds', World := w'\<rparr>)"
        and s3: "map (packet_of \<circ> the \<circ> tds') ((xs @ [m]) @ ys) = map (packet_of \<circ> the \<circ> Tds ?O) (xs @ [m]) @ take (length ys) ?rest"
        and l3: "length ys \<le> length ?rest" "ok \<longleftrightarrow> length ys = length ?rest"
        using less.hyps[OF dec b2 t1(1), where Addr = "Addr + Act"] by blast
      have "map (packet_of \<circ> the \<circ> tds') (xs @ m # ys) = map (packet_of \<circ> the \<circ> Tds Ohc) xs @ take (length (m # ys)) ?ps"
        using s3 strip_packets[OF s2] ps by simp
      then show ?thesis
        using step r b3 l3 t1(3) ps
        by (intro exI[of _ ok] exI[of _ "m # ys"] exI[of _ pool'] exI[of _ w'] exI[of _ tds']) simp
    qed
  qed
qed

section \<open>Services below 4 GB\<close>

text \<open>The bump allocator with DMA memory below 4 GB only, for the concrete inputs.\<close>

definition low_used :: "bump \<Rightarrow> nat set" where
  "low_used w = dma_used w \<inter> {..<2 ^ 32}"

definition low_dma :: "u64 \<Rightarrow> bump \<Rightarrow> (EFI_STATUS \<times> nat) \<times> bump" where
  "low_dma n w = (if dma_next w + 4096 * unat n > 2 ^ 32 then ((EFI_OUT_OF_RESOURCES, 0), w) else bump_dma n w)"

definition low_services :: "bump dma_services" where
  "low_services = bump_services\<lparr>DmaAllocateBuffer := low_dma\<rparr>"

lemma low_used_low: "dma_low low_used"
  by (auto simp: dma_low_def low_used_def)

lemma low_alloc: "dma_alloc_ok low_used pool_used low_dma"
  by (auto simp: dma_alloc_ok_def low_dma_def bump_dma_def low_used_def Let_def split: if_splits)

lemma low_ok: "dma_ok low_services low_used pool_used"
  using bump_ok low_alloc by (auto simp: dma_ok_def low_services_def pool_alloc_ok_def low_used_def)

lemma low_pool_ok: "pool_ok low_services low_used pool_used {} {} (bump_p (replicate 128 0)) bump_w"
proof -
  have "low_used bump_w = dma_used bump_w" by (auto simp: low_used_def bump_w_def)
  then show ?thesis using bump_pool_ok_start low_ok unfolding pool_ok_def by simp
qed

section \<open>Properties\<close>

text \<open>C10: The data stage of a transfer refines the cutting of the buffer in packets. With a packet length that is not 0
  the loop ends; the descriptors it has linked are, in order, the packets of the buffer, each with the
  identifier of the direction, alternating toggles that start with the given one, and the condition code "to be
  processed". When memory runs out they are a proper prefix, and the result says so. The descriptors are
  new memory of the pool, and the toggle returned is the one of the next packet.\<close>

theorem OhciDataStage_packets:
  assumes "dev_ok sv inuse pooled I P Ohc" "dev_owned out Ohc" "dma_low inuse"
    and "MaxPkt \<noteq> 0" "Tog = 0 \<or> Tog = 1" "Pid = TD_OUT_PID \<or> Pid = TD_IN_PID"
  shows "\<exists>ok xs Ohc'. OhciDataStage sv Pid MaxPkt 0 Tog Addr Len Ohc =
      Some (ok, first xs, if even (length xs) then Tog else Tog XOR 1, Ohc')
    \<and> td_chain (Tds Ohc') (first xs) xs 0 \<and> tdp_chain (Tds Ohc') (first xs) xs 0
    \<and> map (packet_of \<circ> the \<circ> Tds Ohc') xs = take (length xs) (packets Pid (unat MaxPkt) (unat Tog) (ucast Addr) (unat Len))
    \<and> length xs \<le> length (packets Pid (unat MaxPkt) (unat Tog) (ucast Addr) (unat Len))
    \<and> (ok \<longleftrightarrow> length xs = length (packets Pid (unat MaxPkt) (unat Tog) (ucast Addr) (unat Len)))
    \<and> dev_ok sv inuse pooled I P Ohc' \<and> dev_owned (map td_region xs @ out) Ohc'
    \<and> pool_live (MemPool Ohc') = pool_live (MemPool Ohc) \<union> feet footprint (map td_region xs)"
proof -
  have pid: "take_bit 2 Pid = Pid" using assms(6) by (auto simp: take_bit_eq_mod)
  obtain ok ys pool w tds where d: "OhciDataStage sv Pid MaxPkt (first []) Tog Addr Len Ohc =
      Some (ok, first ([] @ ys), if even (length ys) then Tog else Tog XOR 1, Ohc\<lparr>MemPool := pool, Tds := tds, World := w\<rparr>)"
    and b: "building sv inuse pooled I P (pool_live (MemPool Ohc)) out ([] @ ys) (Ohc\<lparr>MemPool := pool, Tds := tds, World := w\<rparr>)"
    and m: "map (packet_of \<circ> the \<circ> tds) ([] @ ys) = map (packet_of \<circ> the \<circ> Tds Ohc) []
        @ take (length ys) (packets Pid (unat MaxPkt) (unat Tog) (ucast Addr) (unat Len))"
    "length ys \<le> length (packets Pid (unat MaxPkt) (unat Tog) (ucast Addr) (unat Len))"
    "ok \<longleftrightarrow> length ys = length (packets Pid (unat MaxPkt) (unat Tog) (ucast Addr) (unat Len))"
    using data_stage[OF building_start[OF assms(1,2)] assms(3,4,5) pid] by blast
  show ?thesis
    using d m buildingD[OF b]
    by (intro exI[of _ ok] exI[of _ ys] exI[of _ "Ohc\<lparr>MemPool := pool, Tds := tds, World := w\<rparr>"]) simp
qed

theorem OhciDataStage_packets_witness:
  "\<exists>ok xs Ohc'. OhciDataStage low_services TD_IN_PID 8 0 1 0x1000 20 (device_at Map.empty Map.empty (bump_p (replicate 128 0)) bump_w)
      = Some (ok, first xs, if even (length xs) then 1 else 0, Ohc') \<and> length xs \<le> 3 \<and> (ok \<longleftrightarrow> length xs = 3)
    \<and> (ok \<longrightarrow> map (packet_of \<circ> the \<circ> Tds Ohc') xs =
         [\<lparr>pk_pid = 2, pk_toggle = 3, pk_code = 14, pk_first = 0x1000, pk_last = 0x1007\<rparr>,
          \<lparr>pk_pid = 2, pk_toggle = 2, pk_code = 14, pk_first = 0x1008, pk_last = 0x100F\<rparr>,
          \<lparr>pk_pid = 2, pk_toggle = 3, pk_code = 14, pk_first = 0x1010, pk_last = 0x1013\<rparr>])"
proof -
  let ?O = "device_at Map.empty Map.empty (bump_p (replicate 128 0)) bump_w"
  have "dev_ok low_services low_used pool_used {} {} ?O" "dev_owned [] ?O"
    using low_pool_ok by (simp_all add: device_at_def)
  note T = OhciDataStage_packets[OF this low_used_low, of 8 1 TD_IN_PID "0x1000" 20]
  let ?ps = "[\<lparr>pk_pid = 2, pk_toggle = 3, pk_code = 14, pk_first = 0x1000, pk_last = 0x1007\<rparr>,
          \<lparr>pk_pid = 2, pk_toggle = 2, pk_code = 14, pk_first = 0x1008, pk_last = 0x100F\<rparr>,
          \<lparr>pk_pid = 2, pk_toggle = 3, pk_code = 14, pk_first = 0x1010, pk_last = 0x1013\<rparr>]"
  have ps: "packets 2 (unat (8 :: u8)) (unat (1 :: u8)) (ucast (0x1000 :: u64)) (unat (20 :: u64)) = ?ps"
    by (simp add: packets_def upt_rec)
  obtain ok xs Ohc' where "OhciDataStage low_services TD_IN_PID 8 0 1 0x1000 20 ?O = Some (ok, first xs, if even (length xs) then 1 else 1 XOR 1, Ohc')"
    "map (packet_of \<circ> the \<circ> Tds Ohc') xs = take (length xs) ?ps" "length xs \<le> length ?ps" "ok \<longleftrightarrow> length xs = length ?ps"
    using T unfolding ps by auto
  then show ?thesis by (intro exI[of _ ok] exI[of _ xs] exI[of _ Ohc']) (simp add: eval_nat_numeral)
qed

end
