(* ===== verification/OhciSchedule.thy ===== *)
theory OhciSchedule
  imports OhciStages
begin

unbundle bit_operations_syntax

text \<open>
  The interrupt schedule as an invariant: \<open>OhciInitializeInterruptList\<close> establishes it, and the endpoint stage of
  \<open>OhciInterruptTransfer\<close> keeps it and puts the endpoint where its polling interval asks for.
\<close>

section \<open>The invariant\<close>

text \<open>
  \<open>lst s\<close> is the list of table entry \<open>s\<close>. Every list ends; its descriptors take the direction from the transfer
  descriptors; and the heads of level \<open>l\<close> are on every \<open>2 ^ (5 - l)\<close>-th list.
\<close>

definition on_every :: "(nat \<Rightarrow> nat list) \<Rightarrow> nat \<Rightarrow> nat \<Rightarrow> bool" where
  "on_every lst p x \<longleftrightarrow> (\<exists>r < p. \<forall>s < 32. x \<in> set (lst s) \<longleftrightarrow> s mod p = r)"

definition sched :: "(nat \<Rightarrow> nat list) \<Rightarrow> 'w USB_OHCI_HC_DEV \<Rightarrow> bool" where
  "sched lst Ohc \<longleftrightarrow>
     (\<forall>s < 32. ed_chain (Eds Ohc) (unat (HccaInterruptTable Ohc ! s)) (lst s) 0
        \<and> (\<forall>x \<in> set (lst s). Direction (the (Eds Ohc x)) = 0))
   \<and> (\<forall>l < 6. \<forall>k < 32 div 2 ^ l. on_every lst (2 ^ (5 - l)) (IntervalList Ohc ! l ! k))"

abbreviation listed :: "(nat \<Rightarrow> nat list) \<Rightarrow> nat set" where
  "listed lst \<equiv> (\<Union>s \<in> {..<32}. set (lst s))"

lemma on_every_some:
  assumes "on_every lst (2 ^ n) x" "n \<le> 5"
  shows "\<exists>s < 32. x \<in> set (lst s)"
proof -
  obtain r where r: "r < 2 ^ n" "\<forall>s < 32. x \<in> set (lst s) \<longleftrightarrow> s mod 2 ^ n = r" using assms(1) by (auto simp: on_every_def)
  have "(2 :: nat) ^ n \<le> 2 ^ 5" using assms(2) by (intro power_increasing) auto
  then have "r < 32" using r(1) by simp
  then show ?thesis using r by (intro exI[of _ r]) simp
qed

lemma sched_list:
  assumes "sched lst Ohc" "s < 32" "h \<in> set (lst s)"
  shows "\<exists>xs ys. lst s = xs @ h # ys \<and> ed_chain (Eds Ohc) h (h # ys) 0"
proof -
  obtain xs ys where "lst s = xs @ h # ys" using assms(3) by (auto dest: split_list)
  moreover have "ed_chain (Eds Ohc) (unat (HccaInterruptTable Ohc ! s)) (lst s) 0" using assms by (auto simp: sched_def)
  ultimately show ?thesis using chain_suffix by metis
qed

section \<open>Creation and insertion of an endpoint\<close>

lemma owned_count:
  assumes "owned size_ok pool_held footprint out p" "feet footprint out \<subseteq> {..<N}"
  shows "64 * length out \<le> N"
proof -
  have "64 * length out \<le> card (feet footprint out) \<and> finite (feet footprint out)"
    using assms(1)
  proof (induction out)
    case (Cons x out)
    obtain m n where x: "x = (m, n)" by (cases x)
    then have o: "size_ok n" "footprint m n \<inter> feet footprint out = {}" "owned size_ok pool_held footprint out p"
      using Cons.prems by auto
    have "64 \<le> card (footprint m n)" "finite (footprint m n)" using size_ok_units[OF o(1)] by (auto simp: chunk_def)
    then show ?case using Cons.IH[OF o(3)] o(2) x by (simp add: card_Un_disjoint)
  qed simp
  moreover have "card (feet footprint out) \<le> card {..<N}" using assms(2) by (intro card_mono) auto
  ultimately show ?thesis by simp
qed

lemma create_ED_low:
  assumes ok: "dev_ok sv inuse pooled I P Ohc" and own: "dev_owned out Ohc" and low: "dma_low inuse"
  shows "\<exists>m pool w. (m = 0 \<and> OhciCreateED sv Ohc = Some (0, Ohc\<lparr>MemPool := pool, World := w\<rparr>)
        \<and> pool_ok sv inuse pooled I P pool w \<and> owned size_ok pool_held footprint out pool \<and> pool_live pool = pool_live (MemPool Ohc))
    \<or> (OhciCreateED sv Ohc = Some (m, Ohc\<lparr>MemPool := pool, World := w, Eds := (Eds Ohc)(m \<mapsto> new_ed)\<rparr>)
        \<and> 0 < m \<and> m < 2 ^ 32 \<and> m \<notin> fst ` set out \<and> pool_ok sv inuse pooled I P pool w
        \<and> owned size_ok pool_held footprint (ed_region m # out) pool
        \<and> pool_live pool = pool_live (MemPool Ohc) \<union> footprint m sizeof_ED \<and> footprint m sizeof_ED \<inter> pool_live (MemPool Ohc) = {})"
proof -
  have sz: "size_ok sizeof_ED" by (simp add: size_ok_def)
  obtain m pool w where a: "UsbHcAllocateMem sv (MemPool Ohc) sizeof_ED (World Ohc) = Some (m, pool, w)"
    using pool.alloc_law[OF ok sz] by blast
  note A = pool.alloc_owned[OF ok own sz a]
  show ?thesis
  proof (cases "m = 0")
    case True
    then show ?thesis using a A(1,2,4) by (intro exI[of _ m] exI[of _ pool] exI[of _ w]) (simp add: OhciCreateED_def)
  next
    case False
    note o = A(3)[OF False]
    have "m < 2 ^ 32" by (rule held_low[OF A(1) low, where sz = sizeof_ED]) (use o in simp_all)
    moreover have "OhciCreateED sv Ohc = Some (m, Ohc\<lparr>MemPool := pool, World := w, Eds := (Eds Ohc)(m \<mapsto> new_ed)\<rparr>)"
      using a False by (simp add: OhciCreateED_def new_ed_def)
    ultimately show ?thesis using A(1) A(5,6)[OF False] o region_fresh[OF o] False by blast
  qed
qed

lemma attach_others:
  assumes "OhciAttachED h n eds = Some (st, eds')"
  shows "x \<noteq> h \<Longrightarrow> x \<noteq> n \<Longrightarrow> eds' x = eds x" "map_option Direction (eds' x) = map_option Direction (eds x)"
    "map_option EdWord0 (eds' x) = map_option EdWord0 (eds x)"
  using assms
  by (auto simp: OhciAttachED_def set_NextED_def Direction_def split: if_splits Option.bind_splits)

text \<open>The list with \<open>n\<close> put behind \<open>h\<close>.\<close>

definition ins :: "nat \<Rightarrow> nat \<Rightarrow> nat list \<Rightarrow> nat list" where
  "ins h n xs = concat (map (\<lambda>x. if x = h then [h, n] else [x]) xs)"

lemma ins_absent: "h \<notin> set xs \<Longrightarrow> ins h n xs = xs"
  by (induction xs) (auto simp: ins_def)

lemma ins_split: "h \<notin> set xs \<Longrightarrow> h \<notin> set ys \<Longrightarrow> ins h n (xs @ h # ys) = xs @ h # n # ys"
  using ins_absent[of h xs n] ins_absent[of h ys n] by (simp add: ins_def)

lemma set_ins: "set (ins h n xs) = set xs \<union> (if h \<in> set xs then {n} else {})"
  by (induction xs) (auto simp: ins_def)

lemma on_every_ins:
  "x \<noteq> n \<Longrightarrow> on_every (\<lambda>s. ins h n (lst s)) p x = on_every lst p x"
  "n \<notin> listed lst \<Longrightarrow> on_every lst p h \<Longrightarrow> on_every (\<lambda>s. ins h n (lst s)) p n"
  by (simp_all add: on_every_def set_ins) blast

lemma sched_attach:
  assumes s: "sched lst Ohc" and h: "h \<in> listed lst" and n: "Eds Ohc n = Some new" "NextED new = 0" "Direction new = 0"
    "n \<notin> listed lst" "n \<noteq> 0" "n < 2 ^ 32" and il: "\<forall>l < 6. \<forall>k < 32 div 2 ^ l. IntervalList Ohc ! l ! k \<noteq> n"
  shows "\<exists>eds'. OhciAttachED h n (Eds Ohc) = Some (EFI_SUCCESS, eds') \<and> sched (\<lambda>s. ins h n (lst s)) (Ohc\<lparr>Eds := eds'\<rparr>)
    \<and> map_option Direction (eds' n) = Some 0"
proof -
  have ch: "ed_chain (Eds Ohc) (unat (HccaInterruptTable Ohc ! s)) (lst s) 0" if "s < 32" for s
    using s that by (simp add: sched_def)
  obtain s0 where s0: "s0 < 32" "h \<in> set (lst s0)" using h by auto
  then obtain xs ys where l0: "lst s0 = xs @ h # ys" by (auto dest: split_list)
  have nn: "n \<notin> set (lst s)" if "s < 32" for s using n(4) that by auto
  from attach_ed[OF ch[OF s0(1), unfolded l0] n(1,2) nn[OF s0(1), unfolded l0] n(5,6)]
  obtain eds' where a: "OhciAttachED h n (Eds Ohc) = Some (EFI_SUCCESS, eds')" by blast
  note o = attach_others[OF a]
  have c: "ed_chain eds' (unat (HccaInterruptTable Ohc ! s)) (ins h n (lst s)) 0" if s: "s < 32" for s
  proof (cases "h \<in> set (lst s)")
    case True
    then obtain xs ys where l: "lst s = xs @ h # ys" by (auto dest: split_list)
    then have d: "h \<notin> set xs" "h \<notin> set ys" using chain_distinct[OF ch[OF s]] by auto
    from attach_ed[OF ch[OF s, unfolded l] n(1,2) nn[OF s, unfolded l] n(5,6)] a show ?thesis using l d by (simp add: ins_split)
  next
    case False
    have "map_option (\<lambda>ed. unat (NextED ed)) (eds' x) = map_option (\<lambda>ed. unat (NextED ed)) (Eds Ohc x)" if "x \<in> set (lst s)" for x
      using o(1)[of x] that False nn[OF s] by metis
    from chain_cong[OF this] ch[OF s] False show ?thesis by (simp add: ins_absent)
  qed
  have d: "Direction (the (eds' x)) = 0" if "s < 32" "x \<in> set (ins h n (lst s))" for x s
  proof -
    have "Direction (the (Eds Ohc x)) = 0" "x \<in> dom (Eds Ohc)"
      using that s n(1,3) chain_dom[OF ch[OF that(1)]] by (auto simp: set_ins sched_def split: if_splits)
    then show ?thesis using o(2)[of x] by (cases "eds' x") auto
  qed
  have "sched (\<lambda>s. ins h n (lst s)) (Ohc\<lparr>Eds := eds'\<rparr>)"
    using c d s il on_every_ins(1) by (simp add: sched_def)
  then show ?thesis using a o(2)[of n] n(1,3) by auto
qed

text \<open>The level for a polling interval: its period is the largest power of two, up to 32, within the interval.\<close>

lemma depth_period:
  assumes "0 < Interval"
  shows "OhciDepth Interval 1 5 \<le> 5" "2 ^ (5 - OhciDepth Interval 1 5) \<le> unat Interval"
    "unat Interval < 2 * 2 ^ (5 - OhciDepth Interval 1 5) \<or> (2 :: nat) ^ (5 - OhciDepth Interval 1 5) = 32"
proof -
  have n: "(5 :: nat) = Suc (Suc (Suc (Suc (Suc 0))))" by simp
  have "OhciDepth Interval 1 (Suc (Suc (Suc (Suc (Suc 0))))) =
    (if 2 \<le> unat Interval then if 4 \<le> unat Interval then if 8 \<le> unat Interval then if 16 \<le> unat Interval then
       if 32 \<le> unat Interval then 0 else 1 else 2 else 3 else 4 else 5)"
    by (simp add: word_le_nat_alt)
  moreover have "0 < unat Interval" using assms by (simp add: word_less_nat_alt)
  ultimately show "OhciDepth Interval 1 5 \<le> 5" "2 ^ (5 - OhciDepth Interval 1 5) \<le> unat Interval"
    "unat Interval < 2 * 2 ^ (5 - OhciDepth Interval 1 5) \<or> (2 :: nat) ^ (5 - OhciDepth Interval 1 5) = 32"
    unfolding n[symmetric] by auto
qed

lemma interrupt_ed_fields:
  "NextED (interrupt_ed Addr EndPt Slow MaxPkt ed) = 0" "Direction (interrupt_ed Addr EndPt Slow MaxPkt ed) = 0"
  "Skip (interrupt_ed Addr EndPt Slow MaxPkt ed) = 1"
  "FunctionAddress (interrupt_ed Addr EndPt Slow MaxPkt ed) = take_bit 7 (ucast Addr)"
  "EndPointNum (interrupt_ed Addr EndPt Slow MaxPkt ed) = take_bit 4 (ucast EndPt)"
proof -
  have w: "bf_get off n (EdWord0 (OhciSetEDField e F v)) =
      (if ucast F AND X \<noteq> 0 then take_bit n v else bf_get off n (EdWord0 e))"
    if "(X, off, n) \<in> {(0x0001, 0, 7), (0x0002, 7, 4), (0x0004, 11, 2), (0x0010, 14, 1)}" for X :: u64 and off n e F v
    by (rule ed_set_word0) (use that in \<open>auto simp: ED_DESCRIPTOR_WORD0_def\<close>)
  show "NextED (interrupt_ed Addr EndPt Slow MaxPkt ed) = 0" by (simp add: interrupt_ed_def OhciSetEDField_def Let_def)
  show "Direction (interrupt_ed Addr EndPt Slow MaxPkt ed) = 0"
    by (simp add: interrupt_ed_def Direction_def Let_def w[of 4])
  show "Skip (interrupt_ed Addr EndPt Slow MaxPkt ed) = 1"
    by (simp add: interrupt_ed_def Skip_def Let_def w[of "0x10" 14 1, unfolded One_nat_def])
  show "FunctionAddress (interrupt_ed Addr EndPt Slow MaxPkt ed) = take_bit 7 (ucast Addr)"
    by (simp add: interrupt_ed_def FunctionAddress_def Let_def w[of 1])
  show "EndPointNum (interrupt_ed Addr EndPt Slow MaxPkt ed) = take_bit 4 (ucast EndPt)"
    by (simp add: interrupt_ed_def EndPointNum_def Let_def w[of 2])
qed

section \<open>The endpoint stage\<close>

lemma list_short:
  assumes "dev_ok sv inuse pooled I P Ohc" "dev_owned out Ohc" "dma_low inuse" "distinct xs" "set xs \<subseteq> fst ` set out"
  shows "length xs < 0xFFFFFFFF"
proof -
  have "feet footprint out \<subseteq> {..<2 ^ 32}"
    using pool.owned_live[OF assms(1,2)] live_low[OF assms(1,3)] by blast
  then have "64 * length out \<le> 2 ^ 32" by (rule owned_count[OF assms(2)])
  moreover have "length xs \<le> length out"
    using assms(4,5) card_mono[OF _ assms(5)] card_image_le[of "set out" fst] card_length[of out] by (simp add: distinct_card)
  ultimately show ?thesis by simp
qed

lemma interrupt_head:
  assumes ok: "dev_ok sv inuse pooled I P Ohc" "dev_owned out Ohc" "dma_low inuse" and s: "sched lst Ohc" "listed lst \<subseteq> fst ` set out"
    and d: "d \<le> 5" and dir: "EdDir \<noteq> 0"
  shows "\<exists>k < 32 div 2 ^ d. OhciFindMinInterruptEDList Ohc d = Some (IntervalList Ohc ! d ! k)
    \<and> OhciFindWorkingEd (Eds Ohc) (IntervalList Ohc ! d ! k) Addr EndPt EdDir = Some 0"
proof -
  let ?h = "\<lambda>k. IntervalList Ohc ! d ! k"
  have tail: "\<exists>xs. ed_chain (Eds Ohc) (?h k) xs 0 \<and> length xs < 0xFFFFFFFF \<and> ?h k \<noteq> 0 \<and> (\<forall>x \<in> set xs. Direction (the (Eds Ohc x)) = 0)"
    if k: "k < 32 div 2 ^ d" for k
  proof -
    have "on_every lst (2 ^ (5 - d)) (?h k)" using s(1) d k by (simp add: sched_def)
    then obtain t where t: "t < 32" "?h k \<in> set (lst t)" using on_every_some by fastforce
    obtain xs ys where l: "lst t = xs @ ?h k # ys" and c: "ed_chain (Eds Ohc) (?h k) (?h k # ys) 0" using sched_list[OF s(1) t] by blast
    have sub: "set (?h k # ys) \<subseteq> set (lst t)" unfolding l by auto
    have "set (lst t) \<subseteq> listed lst" using t(1) by auto
    then have "length (?h k # ys) < 0xFFFFFFFF"
      using sub s(2) by (intro list_short[OF ok chain_distinct[OF c]]) blast
    moreover have "\<forall>x \<in> set (?h k # ys). Direction (the (Eds Ohc x)) = 0" using sub s(1) t(1) by (auto simp: sched_def)
    moreover have "?h k \<noteq> 0" using c by simp
    ultimately show ?thesis using c by blast
  qed
  then obtain tl where tl: "\<forall>k < 32 div 2 ^ d. ed_chain (Eds Ohc) (?h k) (tl k) 0 \<and> length (tl k) < 0xFFFFFFFF \<and> ?h k \<noteq> 0
      \<and> (\<forall>x \<in> set (tl k). Direction (the (Eds Ohc x)) = 0)" by metis
  then obtain k where k: "k < 32 div 2 ^ d" "OhciFindMinInterruptEDList Ohc d = Some (?h k)"
    using find_min_list[OF d, of Ohc tl] by blast
  have "ucast EdDir \<noteq> (0 :: u32)" using dir unsigned_less[where 'a = nat, of EdDir]
    by (simp add: word_unat_eq_iff unsigned_ucast_eq take_bit_eq_mod)
  then have "find (\<lambda>x. ed_works Addr EndPt EdDir (the (Eds Ohc x))) (tl k) = None"
    using tl k(1) by (auto simp: find_None_iff ed_works_def)
  then show ?thesis using find_working[of "Eds Ohc" "?h k" "tl k"] tl k by auto
qed

section \<open>The schedule after initialisation\<close>

lemma init_sched:
  assumes "dev_ok sv inuse pooled I P Ohc" "dev_owned out Ohc" "enough sv 63 (MemPool Ohc) (World Ohc)" "shape Ohc"
  shows "\<exists>Ohc' lst out'. OhciInitializeInterruptList sv Ohc = Some (EFI_SUCCESS, Ohc') \<and> sched lst Ohc'
    \<and> dev_ok sv inuse pooled I P Ohc' \<and> dev_owned out' Ohc' \<and> listed lst \<subseteq> fst ` set out'"
proof -
  obtain Ohc' rows new where r: "OhciInitializeInterruptList sv Ohc = Some (EFI_SUCCESS, Ohc')" and t: "tree rows Ohc'" "length rows = 6"
    and tab: "\<forall>i < 32. HccaInterruptTable Ohc' ! (Leaf ! i) = word_of_nat (rows ! 0 ! i)" and ok: "dev_ok sv inuse pooled I P Ohc'"
    and new: "set new = set (concat rows)" "dev_owned (map ed_region new @ out) Ohc'"
    using init_list_tree[OF assms] by blast
  obtain lst where l: "\<forall>s < 32. ed_chain (Eds Ohc') (unat (HccaInterruptTable Ohc' ! s)) (lst s) 0 \<and> set (lst s) \<subseteq> set (concat rows)"
    "\<forall>l < 6. \<forall>k < 32 div 2 ^ l. \<exists>r < 2 ^ (5 - l). \<forall>s < 32. rows ! l ! k \<in> set (lst s) \<longleftrightarrow> s mod 2 ^ (5 - l) = r"
    using tree_lists[OF t tab] by blast
  have "Direction (the (Eds Ohc' x)) = 0" if x: "x \<in> set (concat rows)" for x
  proof -
    obtain row where "row \<in> set rows" "x \<in> set row" using x by auto
    then obtain j i where j: "j < 6" "i < length (rows ! j)" "x = rows ! j ! i" using t(2) by (metis in_set_conv_nth)
    then have "Direction (the (Eds Ohc' x)) = Direction new_ed" using t by (auto simp: tree_def Direction_def)
    then show ?thesis by (simp add: Direction_def new_ed_def set_Skip_def set_TdHeadPointer_def ed_zero_def bf_laws)
  qed
  moreover have "on_every lst (2 ^ (5 - l)) (IntervalList Ohc' ! l ! k)" if "l < 6" "k < 32 div 2 ^ l" for l k
  proof -
    have "IntervalList Ohc' ! l ! k = rows ! l ! k" using t that by (simp add: tree_def)
    then show ?thesis using l(2) that by (simp add: on_every_def)
  qed
  ultimately have "sched lst Ohc'" using l(1) unfolding sched_def by blast
  moreover have "listed lst \<subseteq> fst ` set (map ed_region new @ out)" using l(1) new(1) by (force simp del: set_concat)
  ultimately show ?thesis using r ok new(2) by blast
qed

lemma sched_frame:
  assumes "sched lst Ohc" "m \<notin> listed lst"
  shows "sched lst (Ohc\<lparr>MemPool := pool, Eds := (Eds Ohc)(m \<mapsto> e), World := w\<rparr>)"
  using assms by (auto simp: sched_def chain_frame)

section \<open>Properties\<close>

text \<open>C11: The endpoint stage of an interrupt transfer keeps the schedule: every list of the interrupt table still ends, and the
  new endpoint is on every \<open>p\<close>-th of the 32 lists, where \<open>p\<close> is the largest power of two, at most 32, within the polling
  interval. No other list gets it, no endpoint is lost, and the endpoint is new memory, carries the
  address, and is skipped by the controller for now. When memory has run out nothing has changed. No endpoint
  is ever reused: \<open>OhciFindWorkingEd\<close> is asked for a direction that no endpoint has.\<close>

theorem OhciInterruptEd_schedule:
  assumes "dev_ok sv inuse pooled I P Ohc" "dev_owned out Ohc" "dma_low inuse"
    and "sched lst Ohc" "listed lst \<subseteq> fst ` set out" "EdDir = ED_IN_DIR \<or> EdDir = ED_OUT_DIR" "0 < Interval"
  shows "\<exists>h Ed Ohc' p. OhciInterruptEd sv io Ohc Addr EndPt EdDir Slow MaxPkt (OhciDepth Interval 1 5) = Some (h, Ed, Ohc')
    \<and> p \<le> unat Interval \<and> (unat Interval < 2 * p \<or> p = 32) \<and> p dvd 32 \<and> dev_ok sv inuse pooled I P Ohc'
    \<and> (if Ed = 0 then sched lst Ohc' \<and> dev_owned out Ohc'
       else \<exists>lst'. sched lst' Ohc' \<and> on_every lst' p Ed \<and> (\<forall>s < 32. set (lst' s) - {Ed} = set (lst s))
         \<and> dev_owned (ed_region Ed # out) Ohc' \<and> listed lst' \<subseteq> fst ` set (ed_region Ed # out)
         \<and> (\<exists>ed. Eds Ohc' Ed = Some ed \<and> Skip ed = 1 \<and> FunctionAddress ed = take_bit 7 (ucast Addr) \<and> EndPointNum ed = take_bit 4 (ucast EndPt)))"
proof -
  let ?d = "OhciDepth Interval 1 5"
  let ?p = "2 ^ (5 - ?d) :: nat"
  note D = depth_period[OF assms(7)]
  have p32: "?p dvd 32" using le_imp_power_dvd[of "5 - ?d" 5 "2 :: nat"] by simp
  have dir: "EdDir \<noteq> 0" using assms(6) by auto
  obtain k where k: "k < 32 div 2 ^ ?d" "OhciFindMinInterruptEDList Ohc ?d = Some (IntervalList Ohc ! ?d ! k)"
    "OhciFindWorkingEd (Eds Ohc) (IntervalList Ohc ! ?d ! k) Addr EndPt EdDir = Some 0"
    using interrupt_head[OF assms(1-5) D(1) dir] by blast
  define h where "h = IntervalList Ohc ! ?d ! k"
  have il: "on_every lst (2 ^ (5 - l)) (IntervalList Ohc ! l ! k)" if "l < 6" "k < 32 div 2 ^ l" for l k
    using assms(4) that by (simp add: sched_def)
  then have oh: "on_every lst ?p h" using D(1) k(1) by (simp add: h_def)
  have mem: "x \<in> listed lst" if "on_every lst (2 ^ n) x" "n \<le> 5" for n x using on_every_some[OF that] by auto
  obtain m pool w where c: "(m = 0 \<and> OhciCreateED sv Ohc = Some (0, Ohc\<lparr>MemPool := pool, World := w\<rparr>)
        \<and> pool_ok sv inuse pooled I P pool w \<and> owned size_ok pool_held footprint out pool \<and> pool_live pool = pool_live (MemPool Ohc))
    \<or> (OhciCreateED sv Ohc = Some (m, Ohc\<lparr>MemPool := pool, World := w, Eds := (Eds Ohc)(m \<mapsto> new_ed)\<rparr>)
        \<and> 0 < m \<and> m < 2 ^ 32 \<and> m \<notin> fst ` set out \<and> pool_ok sv inuse pooled I P pool w
        \<and> owned size_ok pool_held footprint (ed_region m # out) pool
        \<and> pool_live pool = pool_live (MemPool Ohc) \<union> footprint m sizeof_ED \<and> footprint m sizeof_ED \<inter> pool_live (MemPool Ohc) = {})"
    using create_ED_low[OF assms(1-3)] by blast
  show ?thesis
  proof (cases "m = 0")
    case True
    then have "OhciInterruptEd sv io Ohc Addr EndPt EdDir Slow MaxPkt ?d = Some (h, 0, Ohc\<lparr>MemPool := pool, World := w\<rparr>)"
      using c k by (simp add: OhciInterruptEd_def h_def)
    moreover have "sched lst (Ohc\<lparr>MemPool := pool, World := w\<rparr>)" using assms(4) by (simp add: sched_def)
    ultimately show ?thesis using c True D p32
      by (intro exI[of _ h] exI[of _ 0] exI[of _ "Ohc\<lparr>MemPool := pool, World := w\<rparr>"] exI[of _ ?p]) simp
  next
    case False
    then have cr: "OhciCreateED sv Ohc = Some (m, Ohc\<lparr>MemPool := pool, World := w, Eds := (Eds Ohc)(m \<mapsto> new_ed)\<rparr>)"
      and m: "m < 2 ^ 32" "m \<notin> fst ` set out" and ok: "pool_ok sv inuse pooled I P pool w"
      and own: "owned size_ok pool_held footprint (ed_region m # out) pool" using c by auto
    let ?ed = "interrupt_ed Addr EndPt Slow MaxPkt new_ed"
    let ?O = "Ohc\<lparr>MemPool := pool, Eds := (Eds Ohc)(m \<mapsto> ?ed), World := w\<rparr>"
    have mm: "m \<notin> listed lst" using m(2) assms(5) by blast
    have hm: "h \<in> listed lst" using mem[OF oh] by simp
    have il': "\<forall>l < 6. \<forall>k < 32 div 2 ^ l. IntervalList Ohc ! l ! k \<noteq> m" using mem[OF il] mm by auto
    from sched_attach[OF sched_frame[OF assms(4) mm, where pool = pool and e = ?ed and w = w] hm, where n = m and new = ?ed]
    obtain eds' where a: "OhciAttachED h m (Eds ?O) = Some (EFI_SUCCESS, eds')"
      and s: "sched (\<lambda>s. ins h m (lst s)) (?O\<lparr>Eds := eds'\<rparr>)"
      using interrupt_ed_fields(1,2) mm m(1) False il' by auto
    obtain ed where e: "eds' m = Some ed" "EdWord0 ed = EdWord0 ?ed" using attach_others(3)[OF a, of m] by auto
    have f: "Skip ed = 1" "FunctionAddress ed = take_bit 7 (ucast Addr)" "EndPointNum ed = take_bit 4 (ucast EndPt)"
      using e(2) interrupt_ed_fields(3-5)[of Addr EndPt Slow MaxPkt new_ed] by (simp_all add: Skip_def FunctionAddress_def EndPointNum_def)
    have "OhciInterruptEd sv io Ohc Addr EndPt EdDir Slow MaxPkt ?d = Some (h, m, ?O\<lparr>Eds := eds'\<rparr>)"
      using cr k a False by (simp add: OhciInterruptEd_def h_def upd_ed_def OhciAttachEDToList_def)
    moreover have "on_every (\<lambda>s. ins h m (lst s)) ?p m" by (rule on_every_ins(2)[OF mm oh])
    moreover have "\<forall>s < 32. set (ins h m (lst s)) - {m} = set (lst s)" using mm by (auto simp: set_ins)
    moreover have "listed (\<lambda>s. ins h m (lst s)) \<subseteq> fst ` set (ed_region m # out)"
      using assms(5) by (auto simp: set_ins split: if_splits)
    ultimately show ?thesis using s ok own e(1) f D p32 False
      by (intro exI[of _ h] exI[of _ m] exI[of _ "?O\<lparr>Eds := eds'\<rparr>"] exI[of _ ?p])
        (simp del: fun_upd_apply, intro exI[of _ "\<lambda>s. ins h m (lst s)"], simp)
  qed
qed

theorem OhciInterruptEd_schedule_witness:
  "\<exists>Ohc h Ed Ohc' p. OhciInitializeInterruptList low_services (device_at Map.empty Map.empty (bump_p (replicate 128 0)) bump_w)
        = Some (EFI_SUCCESS, Ohc)
    \<and> OhciInterruptEd low_services \<lparr>MmioRead32 = (\<lambda>a d. (0, d)), MmioWrite32 = (\<lambda>a v d. d), Stall = (\<lambda>t d. d)\<rparr>
        Ohc 5 1 ED_IN_DIR False 8 (OhciDepth 10 1 5) = Some (h, Ed, Ohc')
    \<and> p \<in> {6..10} \<and> p dvd 32 \<and> (Ed \<noteq> 0 \<longrightarrow> (\<exists>lst. sched lst Ohc' \<and> on_every lst p Ed))"
proof -
  let ?O = "device_at Map.empty Map.empty (bump_p (replicate 128 0)) bump_w"
  have "dev_ok low_services low_used pool_used {} {} ?O" "dev_owned [] ?O" "enough low_services 63 (MemPool ?O) (World ?O)" "shape ?O"
    using low_pool_ok bump_p_room[OF low_pool_ok] by (simp_all add: device_at_def shape_def)
  from init_sched[OF this] obtain Ohc lst out where i: "OhciInitializeInterruptList low_services ?O = Some (EFI_SUCCESS, Ohc)"
    "dev_ok low_services low_used pool_used {} {} Ohc" "dev_owned out Ohc" "sched lst Ohc" "listed lst \<subseteq> fst ` set out" by blast
  have "0 < (10 :: u64)" by simp
  from OhciInterruptEd_schedule[OF i(2,3) low_used_low i(4,5) disjI1[OF refl] this, of "\<lparr>MmioRead32 = (\<lambda>a d. (0, d)), MmioWrite32 = (\<lambda>a v d. d), Stall = (\<lambda>t d. d)\<rparr>" 5 1 False 8]
  obtain h Ed Ohc' p where r: "OhciInterruptEd low_services \<lparr>MmioRead32 = (\<lambda>a d. (0, d)), MmioWrite32 = (\<lambda>a v d. d), Stall = (\<lambda>t d. d)\<rparr>
        Ohc 5 1 ED_IN_DIR False 8 (OhciDepth 10 1 5) = Some (h, Ed, Ohc')" "p \<le> unat (10 :: u64)" "unat (10 :: u64) < 2 * p \<or> p = 32" "p dvd 32"
      "Ed \<noteq> 0 \<longrightarrow> (\<exists>lst'. sched lst' Ohc' \<and> on_every lst' p Ed)"
    apply - apply (elim exE conjE) apply (rule that)
    apply assumption
    apply assumption apply assumption apply assumption
    apply (auto split: if_splits)
    done
  then have "p \<in> {6..10}" by auto
  then show ?thesis using i(1) r
    by (intro exI[of _ Ohc] exI[of _ h] exI[of _ Ed] exI[of _ Ohc'] exI[of _ p]) auto
qed

end
