(* ===== verification/OhciBulk.thy ===== *)
theory OhciBulk
  imports OhciSchedule
begin

unbundle bit_operations_syntax

text \<open>
  The whole of a bulk transfer: it returns on every path, and it gives back every descriptor it has taken.
\<close>

section \<open>The environment\<close>










section \<open>A transfer under way\<close>







section \<open>Waiting for the end\<close>




section \<open>Giving everything back\<close>




section \<open>The stages\<close>











section \<open>A machine with memory and a controller\<close>















section \<open>Properties\<close>



end
