(* ===== verification/Bytes.thy ===== *)
theory Bytes
  imports Prelude
begin

text \<open>
  Memory as bytes: what the drivers read and write through pointers to packed structures. An
  address is a 64-bit word; the range of \<open>n\<close> bytes from \<open>b\<close> is the set of the addresses \<open>a\<close> with
  \<open>a - b < n\<close>, which is cyclic as pointer arithmetic is. \<open>rd\<close> and \<open>wr\<close> are the little-endian loads
  and stores of \<open>k\<close> bytes, \<open>CopyMem\<close> (which allows overlap) and \<open>SetMem\<close> the two block operations.
\<close>

type_synonym memory = "u64 \<Rightarrow> u8"

primrec rd :: "nat \<Rightarrow> memory \<Rightarrow> u64 \<Rightarrow> 'a::len word" where
  "rd 0 m a = 0"
| "rd (Suc k) m a = ucast (m a) OR push_bit 8 (rd k m (a + 1))"

definition wr :: "nat \<Rightarrow> 'a::len word \<Rightarrow> u64 \<Rightarrow> memory \<Rightarrow> memory" where
  "wr k v b m = (\<lambda>a. if a - b < word_of_nat k then ucast (drop_bit (8 * unat (a - b)) v) else m a)"

definition CopyMem :: "memory \<Rightarrow> u64 \<Rightarrow> u64 \<Rightarrow> u64 \<Rightarrow> memory" where
  "CopyMem m dst src n = (\<lambda>a. if a - dst < n then m (src + (a - dst)) else m a)"

definition SetMem :: "memory \<Rightarrow> u64 \<Rightarrow> u64 \<Rightarrow> u8 \<Rightarrow> memory" where
  "SetMem m b n v = (\<lambda>a. if a - b < n then v else m a)"

definition le_bytes :: "nat \<Rightarrow> 'a::len word \<Rightarrow> u8 list" where
  "le_bytes k v = map (\<lambda>i. ucast (drop_bit (8 * i) v)) [0..<k]"

definition holds :: "memory \<Rightarrow> u64 \<Rightarrow> u8 list \<Rightarrow> bool" where
  "holds m p xs \<longleftrightarrow> (\<forall>i < length xs. m (p + word_of_nat i) = xs ! i)"

text \<open>\<open>same m m' b n\<close>: the two memories agree on the \<open>n\<close> bytes from \<open>b\<close>.\<close>

definition same :: "memory \<Rightarrow> memory \<Rightarrow> u64 \<Rightarrow> nat \<Rightarrow> bool" where
  "same m m' b n \<longleftrightarrow> (\<forall>i < n. m (b + word_of_nat i) = m' (b + word_of_nat i))"

section \<open>Offsets in a range\<close>

lemma unat_word_of_nat64: "i < 2 ^ 64 \<Longrightarrow> unat (word_of_nat i :: u64) = i"
  by (simp add: unsigned_of_nat take_bit_nat_eq_self)

lemma offset_less: "i < 2 ^ 64 \<Longrightarrow> (word_of_nat i :: u64) < n \<longleftrightarrow> i < unat n"
  by (simp add: word_less_nat_alt unat_word_of_nat64)

lemma word_add_assoc_nat: "b + word_of_nat i + word_of_nat j = b + (word_of_nat (i + j) :: u64)"
  by (simp add: add.assoc)

lemma before_offset: "i < unat d \<Longrightarrow> unat (word_of_nat i - d) = 2 ^ 64 + i - unat (d :: u64)"
  using unsigned_less[where 'a = nat, of d] by (simp add: unat_sub_if' unat_word_of_nat64)

lemma apart_offset:
  assumes "i < n" "unat (c - b) \<ge> n" "unat (c - b) + unat k \<le> 2 ^ 64"
  shows "\<not> (b + word_of_nat i) - c < (k :: u64)"
proof -
  have "(b + word_of_nat i) - c = word_of_nat i - (c - b)" by simp
  then have "unat ((b + word_of_nat i) - c) = 2 ^ 64 + i - unat (c - b)"
    using before_offset[of i "c - b"] assms by (simp only: less_le_trans)
  then show ?thesis unfolding word_less_nat_alt using assms by linarith
qed

section \<open>Loads and stores\<close>

lemma rd_cong:
  assumes "\<And>i. i < k \<Longrightarrow> m (a + word_of_nat i) = m' (a + word_of_nat i)"
  shows "rd k m a = rd k m' a"
  using assms
proof (induction k arbitrary: a)
  case (Suc k)
  have "rd k m (a + 1) = (rd k m' (a + 1) :: 'a word)"
    using Suc.prems[of "Suc i" for i] by (intro Suc.IH) (simp add: add.assoc)
  then show ?case using Suc.prems[of 0] by simp
qed simp

lemma rd_same: "same m m' b n \<Longrightarrow> off + k \<le> n \<Longrightarrow> rd k m (b + word_of_nat off) = rd k m' (b + word_of_nat off)"
  by (rule rd_cong) (auto simp: same_def word_add_assoc_nat simp del: of_nat_add)

lemma bit_rd:
  "bit (rd k m a :: 'a::len word) n \<longleftrightarrow> n < LENGTH('a) \<and> n < 8 * k \<and> bit (m (a + word_of_nat (n div 8))) (n mod 8)"
proof (induction k arbitrary: a n)
  case (Suc k)
  show ?case
  proof (cases "n < 8")
    case False
    then obtain j where n: "n = 8 + j" using le_Suc_ex[of 8 n] by auto
    have d: "(8 + j) div 8 = Suc (j div 8)" by simp
    have "\<not> bit (m a) (8 + j)" using bit_imp_le_length[of "m a" "8 + j"] by auto
    then show ?thesis using Suc.IH[of "a + 1" j]
      by (auto simp: n d bit_simps add.assoc simp del: div_add_self1)
  qed (auto simp: bit_simps)
qed simp

lemma rd_wr:
  fixes v :: "'a::len word"
  assumes "8 * k \<le> LENGTH('a)" "k < 2 ^ 64"
  shows "rd k (wr k v a m) a = take_bit (8 * k) v"
proof (rule bit_word_eqI)
  fix n assume n: "n < LENGTH('a)"
  have "n < 8 * k \<Longrightarrow> n div 8 < k" by auto
  then show "bit (rd k (wr k v a m) a :: 'a word) n \<longleftrightarrow> bit (take_bit (8 * k) v) n"
    using n assms by (auto simp: bit_rd wr_def offset_less unat_word_of_nat64 bit_simps)
qed

lemma length_le_bytes [simp]: "length (le_bytes k v) = k"
  by (simp add: le_bytes_def)

lemma holds_append: "holds m p (xs @ ys) \<longleftrightarrow> holds m p xs \<and> holds m (p + word_of_nat (length xs)) ys"
  (is "?l = ?r")
proof
  assume ?l
  then have *: "m (p + word_of_nat i) = (xs @ ys) ! i" if "i < length xs + length ys" for i
    using that by (simp add: holds_def)
  show ?r unfolding holds_def
    using *[of "length xs + i" for i] *[of i for i] by (auto simp: nth_append add.assoc)
next
  assume r: ?r
  show ?l unfolding holds_def
  proof (intro allI impI)
    fix i assume i: "i < length (xs @ ys)"
    show "m (p + word_of_nat i) = (xs @ ys) ! i"
    proof (cases "i < length xs")
      case False
      then obtain j where "i = length xs + j" using le_Suc_ex by (metis not_less)
      with r i show ?thesis by (simp add: holds_def add.assoc)
    qed (use r in \<open>simp add: holds_def nth_append\<close>)
  qed
qed

lemma rd_holds:
  fixes v :: "'a::len word"
  assumes "holds m p (le_bytes k v)"
  shows "rd k m p = take_bit (8 * k) v"
proof (rule bit_word_eqI)
  fix n assume n: "n < LENGTH('a)"
  have "n < 8 * k \<Longrightarrow> n div 8 < k" by auto
  then show "bit (rd k m p :: 'a word) n \<longleftrightarrow> bit (take_bit (8 * k) v) n"
    using n assms by (auto simp: bit_rd holds_def le_bytes_def bit_simps)
qed

lemma holds_same: "holds m p xs \<Longrightarrow> same m m' p (length xs) \<Longrightarrow> holds m' p xs"
  by (simp add: holds_def same_def)

section \<open>Frames\<close>

text \<open>The block operations change nothing apart from their target.\<close>

lemma same_SetMem:
  assumes "n \<le> unat (c - b)" "unat (c - b) + unat k \<le> 2 ^ 64"
  shows "same (SetMem m c k v) m b n"
  using apart_offset[OF _ assms] by (simp add: same_def SetMem_def)

lemma same_CopyMem:
  assumes "n \<le> unat (c - b)" "unat (c - b) + unat k \<le> 2 ^ 64"
  shows "same (CopyMem m c src k) m b n"
  using apart_offset[OF _ assms] by (simp add: same_def CopyMem_def)

lemma same_wr:
  assumes "n \<le> unat (c - b)" "unat (c - b) + k \<le> 2 ^ 64"
  shows "same (wr k v c m) m b n"
  using apart_offset[of _ n c b "word_of_nat k"] assms
  by (cases "k < 2 ^ 64") (auto simp: same_def wr_def unat_word_of_nat64)

lemma same_trans: "same m m' b n \<Longrightarrow> same m' m'' b n \<Longrightarrow> same m m'' b n"
  by (simp add: same_def)

lemma same_mono: "same m m' b n \<Longrightarrow> k \<le> n \<Longrightarrow> same m m' b k"
  by (simp add: same_def)

lemma CopyMem_at: "i < unat n \<Longrightarrow> CopyMem m dst src n (dst + word_of_nat i) = m (src + word_of_nat i)"
  using unsigned_less[where 'a = nat, of n] by (simp add: CopyMem_def offset_less)

lemma SetMem_at: "i < unat n \<Longrightarrow> SetMem m b n v (b + word_of_nat i) = v"
  using unsigned_less[where 'a = nat, of n] by (simp add: SetMem_def offset_less)

lemma rd_SetMem:
  assumes "off + k \<le> unat n" "8 * k = LENGTH('a::len)"
  shows "rd k (SetMem m b n 0xFF) (b + word_of_nat off) = (- 1 :: 'a word)"
proof (rule bit_word_eqI)
  fix i assume i: "i < LENGTH('a)"
  have "bit (0xFF :: u8) j" if "j < 8" for j
  proof -
    have "(0xFF :: u8) = - 1" by simp
    then show ?thesis using that by (simp only: bit_minus_1_iff) simp
  qed
  moreover have "i div 8 < k" using i assms(2) by auto
  then have "SetMem m b n 0xFF (b + (word_of_nat off + word_of_nat (i div 8))) = 0xFF"
    using SetMem_at[of "off + i div 8" n m b "0xFF"] assms(1) by simp
  ultimately show "bit (rd k (SetMem m b n 0xFF) (b + word_of_nat off) :: 'a word) i \<longleftrightarrow> bit (- 1 :: 'a word) i"
    using i assms(2) by (simp add: bit_rd add.assoc)
qed

lemma rd_wr_full:
  fixes v :: "'a::len word"
  assumes "8 * k = LENGTH('a)" "k < 2 ^ 64"
  shows "rd k (wr k v a m) a = v"
  using rd_wr[of k v a m] assms by (simp add: take_bit_word_eq_self)

section \<open>Stores beside loads\<close>

lemma offset_in_range:
  assumes "x < 2 ^ 64" "a + j \<le> 2 ^ 64" "j < 2 ^ 64"
  shows "(word_of_nat x :: u64) - word_of_nat a < word_of_nat j \<longleftrightarrow> a \<le> x \<and> x < a + j"
proof (cases "a \<le> x")
  case True
  then have "(word_of_nat x :: u64) - word_of_nat a = word_of_nat (x - a)" by (simp add: of_nat_diff)
  moreover have "unat (word_of_nat j :: u64) = j" using assms(3) by (simp add: unat_word_of_nat64)
  ultimately show ?thesis using offset_less[of "x - a" "word_of_nat j"] assms True by auto
next
  case False
  show ?thesis
  proof (cases "j = 0")
    case False
    then have "a < 2 ^ 64" using assms(2) by linarith
    then have u: "unat (word_of_nat a :: u64) = a" by (simp add: unat_word_of_nat64)
    have "unat ((word_of_nat x :: u64) - word_of_nat a) = 2 ^ 64 + x - a"
      using before_offset[of x "word_of_nat a"] \<open>\<not> a \<le> x\<close> by (simp only: u not_le)
    then show ?thesis using assms \<open>\<not> a \<le> x\<close> by (simp add: word_less_nat_alt unat_word_of_nat64)
  qed (use \<open>\<not> a \<le> x\<close> in simp)
qed

lemma sub_range:
  assumes "a - (b + c) < n" "unat c + unat n \<le> unat N"
  shows "a - b < (N :: u64)"
proof -
  let ?x = "a - (b + c)"
  have x: "unat ?x < unat n" using assms(1) by (simp add: word_less_nat_alt)
  have N: "unat N < 2 ^ 64" using unsigned_less[where 'a = nat, of N] by simp
  have "a - b = ?x + c" by simp
  also have "unat \<dots> = unat ?x + unat c" unfolding unat_word_ariths using x assms(2) N by simp
  finally show ?thesis using x assms(2) by (simp add: word_less_nat_alt)
qed

lemma rd_wr_apart:
  assumes "b + k \<le> a \<or> a + j \<le> b" "a + j < 2 ^ 64" "b + k < 2 ^ 64"
  shows "rd k (wr j v (p + word_of_nat a) m) (p + word_of_nat b) = rd k m (p + word_of_nat b)"
proof (rule rd_cong)
  fix i assume "i < k"
  then have "\<not> (word_of_nat (b + i) :: u64) - word_of_nat a < word_of_nat j"
    using assms by (subst offset_in_range) auto
  then show "wr j v (p + word_of_nat a) m (p + word_of_nat b + word_of_nat i) = m (p + word_of_nat b + word_of_nat i)"
    by (simp add: wr_def add.assoc)
qed

lemma rd_moved:
  assumes "\<And>i. i < n \<Longrightarrow> m' (q + word_of_nat i) = m (p + word_of_nat i)" "off + k \<le> n"
  shows "rd k m' (q + word_of_nat off) = rd k m (p + word_of_nat off)"
  using assms(2)
proof (induction k arbitrary: off)
  case (Suc k)
  have "rd k m' (q + word_of_nat (Suc off)) = (rd k m (p + word_of_nat (Suc off)) :: 'a word)"
    using Suc.prems by (intro Suc.IH) simp
  then show ?case using assms(1)[of off] Suc.prems by (simp add: ac_simps)
qed simp

lemma wr_rd:
  assumes "8 * k = LENGTH('a::len)" "k < 2 ^ 64"
  shows "wr k (rd k m a :: 'a word) a m = m"
proof
  fix x
  show "wr k (rd k m a :: 'a word) a m x = m x"
  proof (cases "x - a < word_of_nat k")
    case True
    let ?i = "unat (x - a)"
    have i: "?i < k" using True assms(2) by (simp add: word_less_nat_alt unat_word_of_nat64)
    have "ucast (drop_bit (8 * ?i) (rd k m a :: 'a word)) = m x"
    proof (rule bit_word_eqI)
      fix j assume j: "j < LENGTH(8)"
      have "(8 * ?i + j) div 8 = ?i" "(8 * ?i + j) mod 8 = j" "8 * ?i + j < 8 * k" using i j by auto
      then show "bit (ucast (drop_bit (8 * ?i) (rd k m a :: 'a word)) :: u8) j \<longleftrightarrow> bit (m x) j"
        using j assms(1) by (simp add: bit_ucast_iff bit_drop_bit_eq bit_rd)
    qed
    then show ?thesis using True by (simp add: wr_def)
  qed (simp add: wr_def)
qed

end
