(* ===== verification/VarBlockService.thy ===== *)
theory VarBlockService
  imports Bytes
begin

text \<open>
  The firmware volume block service that keeps the UEFI variables of the Rk356x platforms
  (\<open>Platforms/Rk356xPkg/Drivers/VarBlockServiceDxe\<close>: \<open>VarBlockService.c\<close>, \<open>VarBlockService.h\<close> and
  \<open>FvbInfo.c\<close>; the events of \<open>VarBlockServiceDxe.c\<close> and \<open>FvbInitialize\<close> follow in the theory
  \<open>VarBlockServiceDxe\<close>).

  The store is a range of memory that starts with its own header, so the header is read from the
  bytes of the store each time, as the code does through \<open>mFvInstance->VolumeHeader\<close>, which shares
  its place in a union with \<open>FvBase\<close>: erasing or writing the first block changes the header. The
  instance is the record of \<open>VarBlockService.h\<close>; its pool memory is apart from the bytes.
\<close>

section \<open>State\<close>

record EFI_FW_VOL_INSTANCE =
  FvBase :: u64
  FvLength :: u64
  Offset :: u64
  NumOfBlocks :: u64
  Device :: nat
  MediaId :: u32
  Dirty :: bool

record fvb =
  mFvInstance :: EFI_FW_VOL_INSTANCE
  mem :: memory
  Checksummed :: bool

abbreviation base :: "fvb \<Rightarrow> u64" where
  "base s \<equiv> FvBase (mFvInstance s)"

text \<open>The members of \<open>EFI_FIRMWARE_VOLUME_HEADER\<close> at the offsets of the PI specification.\<close>

definition Hdr_FvLength :: "memory \<Rightarrow> u64 \<Rightarrow> u64" where
  "Hdr_FvLength m p = rd 8 m (p + 32)"

definition Hdr_Signature :: "memory \<Rightarrow> u64 \<Rightarrow> u32" where
  "Hdr_Signature m p = rd 4 m (p + 40)"

definition Hdr_Attributes :: "memory \<Rightarrow> u64 \<Rightarrow> u32" where
  "Hdr_Attributes m p = rd 4 m (p + 44)"

definition Hdr_HeaderLength :: "memory \<Rightarrow> u64 \<Rightarrow> u16" where
  "Hdr_HeaderLength m p = rd 2 m (p + 48)"

definition Hdr_ExtHeaderOffset :: "memory \<Rightarrow> u64 \<Rightarrow> u16" where
  "Hdr_ExtHeaderOffset m p = rd 2 m (p + 52)"

definition Hdr_Revision :: "memory \<Rightarrow> u64 \<Rightarrow> u8" where
  "Hdr_Revision m p = rd 1 m (p + 55)"

text \<open>The entry of the block map at an address: \<open>NumBlocks\<close> and \<open>Length\<close>.\<close>

definition Map_NumBlocks :: "memory \<Rightarrow> u64 \<Rightarrow> u32" where
  "Map_NumBlocks m p = rd 4 m p"

definition Map_Length :: "memory \<Rightarrow> u64 \<Rightarrow> u32" where
  "Map_Length m p = rd 4 m (p + 4)"

definition Hdr_BlockMap :: "u64 \<Rightarrow> u64" where
  "Hdr_BlockMap p = p + 56"

text \<open>The attribute bits of the PI specification.\<close>

abbreviation (input) EFI_FVB2_READ_DISABLED_CAP :: u32 where "EFI_FVB2_READ_DISABLED_CAP \<equiv> 0x1"
abbreviation (input) EFI_FVB2_READ_ENABLED_CAP :: u32 where "EFI_FVB2_READ_ENABLED_CAP \<equiv> 0x2"
abbreviation (input) EFI_FVB2_READ_STATUS :: u32 where "EFI_FVB2_READ_STATUS \<equiv> 0x4"
abbreviation (input) EFI_FVB2_WRITE_DISABLED_CAP :: u32 where "EFI_FVB2_WRITE_DISABLED_CAP \<equiv> 0x8"
abbreviation (input) EFI_FVB2_WRITE_ENABLED_CAP :: u32 where "EFI_FVB2_WRITE_ENABLED_CAP \<equiv> 0x10"
abbreviation (input) EFI_FVB2_WRITE_STATUS :: u32 where "EFI_FVB2_WRITE_STATUS \<equiv> 0x20"
abbreviation (input) EFI_FVB2_LOCK_CAP :: u32 where "EFI_FVB2_LOCK_CAP \<equiv> 0x40"
abbreviation (input) EFI_FVB2_LOCK_STATUS :: u32 where "EFI_FVB2_LOCK_STATUS \<equiv> 0x80"
abbreviation (input) EFI_FVB2_STICKY_WRITE :: u32 where "EFI_FVB2_STICKY_WRITE \<equiv> 0x200"
abbreviation (input) EFI_FVB2_MEMORY_MAPPED :: u32 where "EFI_FVB2_MEMORY_MAPPED \<equiv> 0x400"
abbreviation (input) EFI_FVB2_ERASE_POLARITY :: u32 where "EFI_FVB2_ERASE_POLARITY \<equiv> 0x800"
abbreviation (input) EFI_FVB2_READ_LOCK_CAP :: u32 where "EFI_FVB2_READ_LOCK_CAP \<equiv> 0x1000"
abbreviation (input) EFI_FVB2_WRITE_LOCK_CAP :: u32 where "EFI_FVB2_WRITE_LOCK_CAP \<equiv> 0x4000"
abbreviation (input) EFI_FVB2_ALIGNMENT :: u32 where "EFI_FVB2_ALIGNMENT \<equiv> 0x1F0000"
abbreviation (input) EFI_FVB2_ALIGNMENT_16 :: u32 where "EFI_FVB2_ALIGNMENT_16 \<equiv> 0x40000"
abbreviation (input) EFI_FVH_SIGNATURE :: u32 where "EFI_FVH_SIGNATURE \<equiv> 0x4856465F"
abbreviation (input) EFI_FVH_REVISION :: u8 where "EFI_FVH_REVISION \<equiv> 2"
abbreviation (input) EFI_LBA_LIST_TERMINATOR :: u64 where "EFI_LBA_LIST_TERMINATOR \<equiv> 0xFFFFFFFFFFFFFFFF"

definition EFI_FVB2_STATUS :: u32 where
  "EFI_FVB2_STATUS = EFI_FVB2_READ_STATUS OR EFI_FVB2_WRITE_STATUS OR EFI_FVB2_LOCK_STATUS"

section \<open>The store\<close>

definition VarStoreWrite :: "u64 \<Rightarrow> u64 \<Rightarrow> u64 \<Rightarrow> fvb \<Rightarrow> EFI_STATUS \<times> fvb" where
  "VarStoreWrite Address NumBytes Buffer s =
     (EFI_SUCCESS, s\<lparr>mem := CopyMem (mem s) Address Buffer NumBytes, mFvInstance := (mFvInstance s)\<lparr>Dirty := True\<rparr>\<rparr>)"

definition VarStoreErase :: "u64 \<Rightarrow> u64 \<Rightarrow> fvb \<Rightarrow> EFI_STATUS \<times> fvb" where
  "VarStoreErase Address LbaLength s =
     (EFI_SUCCESS, s\<lparr>mem := SetMem (mem s) Address LbaLength 0xFF, mFvInstance := (mFvInstance s)\<lparr>Dirty := True\<rparr>\<rparr>)"

definition FvbGetVolumeAttributes :: "fvb \<Rightarrow> EFI_STATUS \<times> u32" where
  "FvbGetVolumeAttributes s = (EFI_SUCCESS, Hdr_Attributes (mem s) (base s))"

section \<open>Block addresses\<close>

text \<open>
  The walk of \<open>FvbGetLbaAddress\<close> over the block map; \<open>None\<close> when it never meets an end entry. The
  product \<open>NumBlocks * BlockLength\<close> of two \<open>UINT32\<close> is taken modulo 2^32, \<open>MultU64x32\<close> modulo 2^64.
  The value is an error, or the three outputs, of which a caller may ignore some (\<open>NULL\<close>).
\<close>

partial_function (option) FvbLbaLoop :: "memory \<Rightarrow> u64 \<Rightarrow> u64 \<Rightarrow> u64 \<Rightarrow> u64 \<Rightarrow> u64 \<Rightarrow> (EFI_STATUS + u64 \<times> u64 \<times> u64) option" where
  "FvbLbaLoop m Fv Lba BlockMap StartLba Off =
    (let NumBlocks = Map_NumBlocks m BlockMap; BlockLength = Map_Length m BlockMap in
     if NumBlocks = 0 \<or> BlockLength = 0 then Some (Inl EFI_INVALID_PARAMETER)
     else let NextLba = StartLba + ucast NumBlocks in
       if StartLba \<le> Lba \<and> Lba < NextLba
       then Some (Inr (Fv + (Off + (Lba - StartLba) * ucast BlockLength), ucast BlockLength, NextLba - Lba))
       else FvbLbaLoop m Fv Lba (BlockMap + 8) NextLba (Off + ucast (NumBlocks * BlockLength)))"

definition FvbGetLbaAddress :: "u64 \<Rightarrow> fvb \<Rightarrow> (EFI_STATUS + u64 \<times> u64 \<times> u64) option" where
  "FvbGetLbaAddress Lba s = FvbLbaLoop (mem s) (base s) Lba (Hdr_BlockMap (base s)) 0 0"

definition FvbEraseBlock :: "u64 \<Rightarrow> fvb \<Rightarrow> (EFI_STATUS \<times> fvb) option" where
  "FvbEraseBlock Lba s =
    (let (_, Attributes) = FvbGetVolumeAttributes s in
     if Attributes AND EFI_FVB2_WRITE_STATUS = 0 then Some (EFI_ACCESS_DENIED, s)
     else do {
       r \<leftarrow> FvbGetLbaAddress Lba s;
       case r of
         Inl Status \<Rightarrow> Some (Status, s)
       | Inr (LbaAddress, LbaLength, _) \<Rightarrow> Some (VarStoreErase LbaAddress LbaLength s)})"

section \<open>Attributes\<close>

definition UnchangedAttributes :: u32 where
  "UnchangedAttributes = EFI_FVB2_READ_DISABLED_CAP OR EFI_FVB2_READ_ENABLED_CAP OR
     EFI_FVB2_WRITE_DISABLED_CAP OR EFI_FVB2_WRITE_ENABLED_CAP OR EFI_FVB2_LOCK_CAP OR
     EFI_FVB2_STICKY_WRITE OR EFI_FVB2_MEMORY_MAPPED OR EFI_FVB2_ERASE_POLARITY OR
     EFI_FVB2_READ_LOCK_CAP OR EFI_FVB2_WRITE_LOCK_CAP OR EFI_FVB2_ALIGNMENT"

text \<open>The value: the status, \<open>*Attributes\<close> on return and the state.\<close>

definition FvbSetVolumeAttributes :: "u32 \<Rightarrow> fvb \<Rightarrow> EFI_STATUS \<times> u32 \<times> fvb" where
  "FvbSetVolumeAttributes Attributes s =
    (let OldAttributes = Hdr_Attributes (mem s) (base s);
         Capabilities = OldAttributes AND (EFI_FVB2_READ_DISABLED_CAP OR EFI_FVB2_READ_ENABLED_CAP OR
           EFI_FVB2_WRITE_DISABLED_CAP OR EFI_FVB2_WRITE_ENABLED_CAP OR EFI_FVB2_LOCK_CAP);
         OldStatus = OldAttributes AND EFI_FVB2_STATUS;
         NewStatus = Attributes AND EFI_FVB2_STATUS
     in if (OldAttributes AND UnchangedAttributes) XOR (Attributes AND UnchangedAttributes) \<noteq> 0
        then (EFI_INVALID_PARAMETER, Attributes, s)
        else if OldAttributes AND EFI_FVB2_LOCK_STATUS \<noteq> 0 \<and> OldStatus XOR NewStatus \<noteq> 0
        then (EFI_ACCESS_DENIED, Attributes, s)
        else if Capabilities AND EFI_FVB2_READ_DISABLED_CAP = 0 \<and> NewStatus AND EFI_FVB2_READ_STATUS = 0
        then (EFI_INVALID_PARAMETER, Attributes, s)
        else if Capabilities AND EFI_FVB2_READ_ENABLED_CAP = 0 \<and> NewStatus AND EFI_FVB2_READ_STATUS \<noteq> 0
        then (EFI_INVALID_PARAMETER, Attributes, s)
        else if Capabilities AND EFI_FVB2_WRITE_DISABLED_CAP = 0 \<and> NewStatus AND EFI_FVB2_WRITE_STATUS = 0
        then (EFI_INVALID_PARAMETER, Attributes, s)
        else if Capabilities AND EFI_FVB2_WRITE_ENABLED_CAP = 0 \<and> NewStatus AND EFI_FVB2_WRITE_STATUS \<noteq> 0
        then (EFI_INVALID_PARAMETER, Attributes, s)
        else if Capabilities AND EFI_FVB2_LOCK_CAP = 0 \<and> NewStatus AND EFI_FVB2_LOCK_STATUS \<noteq> 0
        then (EFI_INVALID_PARAMETER, Attributes, s)
        else let New = (OldAttributes AND (0xFFFFFFFF AND NOT EFI_FVB2_STATUS)) OR NewStatus
             in (EFI_SUCCESS, New, s\<lparr>mem := wr 4 New (base s + 44) (mem s)\<rparr>))"

section \<open>The protocol\<close>

definition FvbProtocolGetPhysicalAddress :: "fvb \<Rightarrow> EFI_STATUS \<times> u64" where
  "FvbProtocolGetPhysicalAddress s = (EFI_SUCCESS, base s)"

definition FvbProtocolGetBlockSize :: "u64 \<Rightarrow> fvb \<Rightarrow> (EFI_STATUS + u64 \<times> u64) option" where
  "FvbProtocolGetBlockSize Lba s =
     map_option (map_sum id (\<lambda>(_, LbaLength, NumBlocks). (LbaLength, NumBlocks))) (FvbGetLbaAddress Lba s)"

definition FvbProtocolGetAttributes :: "fvb \<Rightarrow> EFI_STATUS \<times> u32" where
  "FvbProtocolGetAttributes s = FvbGetVolumeAttributes s"

definition FvbProtocolSetAttributes :: "u32 \<Rightarrow> fvb \<Rightarrow> EFI_STATUS \<times> u32 \<times> fvb" where
  "FvbProtocolSetAttributes Attributes s = FvbSetVolumeAttributes Attributes s"

text \<open>
  \<open>FvbProtocolEraseBlocks\<close> reads its variable arguments twice. \<open>FvbEraseVerify\<close> is the first pass;
  \<open>None\<close> is a list that ends before the terminator, where \<open>VA_ARG\<close> has no argument to read.
\<close>

fun FvbEraseVerify :: "u64 list \<Rightarrow> u64 \<Rightarrow> EFI_STATUS option" where
  "FvbEraseVerify [] Num = None"
| "FvbEraseVerify [StartingLba] Num = (if StartingLba = EFI_LBA_LIST_TERMINATOR then Some EFI_SUCCESS else None)"
| "FvbEraseVerify (StartingLba # NumOfLba # args) Num =
    (if StartingLba = EFI_LBA_LIST_TERMINATOR then Some EFI_SUCCESS
     else if NumOfLba = 0 \<or> StartingLba + NumOfLba > Num then Some EFI_INVALID_PARAMETER
     else FvbEraseVerify args Num)"

text \<open>The inner loop of the second pass: \<open>n\<close> is \<open>NumOfLba\<close>.\<close>

primrec FvbEraseLbas :: "nat \<Rightarrow> u64 \<Rightarrow> fvb \<Rightarrow> (EFI_STATUS \<times> fvb) option" where
  "FvbEraseLbas 0 StartingLba s = Some (EFI_SUCCESS, s)"
| "FvbEraseLbas (Suc n) StartingLba s = do {
     (Status, s) \<leftarrow> FvbEraseBlock StartingLba s;
     if EFI_ERROR Status then Some (Status, s) else FvbEraseLbas n (StartingLba + 1) s}"

fun FvbEraseRanges :: "u64 list \<Rightarrow> fvb \<Rightarrow> (EFI_STATUS \<times> fvb) option" where
  "FvbEraseRanges [] s = None"
| "FvbEraseRanges [StartingLba] s = (if StartingLba = EFI_LBA_LIST_TERMINATOR then Some (EFI_SUCCESS, s) else None)"
| "FvbEraseRanges (StartingLba # NumOfLba # args) s =
    (if StartingLba = EFI_LBA_LIST_TERMINATOR then Some (EFI_SUCCESS, s)
     else do {
       (Status, s) \<leftarrow> FvbEraseLbas (unat NumOfLba) StartingLba s;
       if EFI_ERROR Status then Some (Status, s) else FvbEraseRanges args s})"

definition FvbProtocolEraseBlocks :: "u64 list \<Rightarrow> fvb \<Rightarrow> (EFI_STATUS \<times> fvb) option" where
  "FvbProtocolEraseBlocks args s = do {
     Status \<leftarrow> FvbEraseVerify args (NumOfBlocks (mFvInstance s));
     if EFI_ERROR Status then Some (Status, s) else FvbEraseRanges args s}"

text \<open>
  \<open>NumBytes\<close> is the value \<open>*NumBytes\<close> on entry, \<open>None\<close> a null pointer; the result has its value on
  return. \<open>Buffer\<close> is an address, 0 a null pointer.
\<close>

definition FvbProtocolWrite :: "u64 \<Rightarrow> u64 \<Rightarrow> u64 option \<Rightarrow> u64 \<Rightarrow> fvb \<Rightarrow> (EFI_STATUS \<times> u64 option \<times> fvb) option" where
  "FvbProtocolWrite Lba Off NumBytes Buffer s =
    (case NumBytes of
       None \<Rightarrow> Some (EFI_INVALID_PARAMETER, None, s)
     | Some Num \<Rightarrow>
       if Buffer = 0 then Some (EFI_INVALID_PARAMETER, Some Num, s)
       else if Num = 0 then Some (EFI_INVALID_PARAMETER, Some Num, s)
       else do {
         r \<leftarrow> FvbGetLbaAddress Lba s;
         case r of
           Inl Status \<Rightarrow> Some (Status, Some Num, s)
         | Inr (LbaAddress, LbaLength, _) \<Rightarrow>
           let (_, Attributes) = FvbGetVolumeAttributes s in
           if Attributes AND EFI_FVB2_WRITE_STATUS = 0 then Some (EFI_ACCESS_DENIED, Some Num, s)
           else if Off > LbaLength then Some (EFI_INVALID_PARAMETER, Some Num, s)
           else
             let (Status, Num) =
               (if LbaLength < Num + Off then (EFI_BAD_BUFFER_SIZE, ucast (ucast (LbaLength - Off) :: u32))
                else (EFI_SUCCESS, Num));
               (ReturnStatus, s) = VarStoreWrite (LbaAddress + Off) Num Buffer s
             in if EFI_ERROR ReturnStatus then Some (ReturnStatus, Some Num, s) else Some (Status, Some Num, s)})"

definition FvbProtocolRead :: "u64 \<Rightarrow> u64 \<Rightarrow> u64 option \<Rightarrow> u64 \<Rightarrow> fvb \<Rightarrow> (EFI_STATUS \<times> u64 option \<times> fvb) option" where
  "FvbProtocolRead Lba Off NumBytes Buffer s =
    (case NumBytes of
       None \<Rightarrow> Some (EFI_INVALID_PARAMETER, None, s)
     | Some Num \<Rightarrow>
       if Buffer = 0 then Some (EFI_INVALID_PARAMETER, Some Num, s)
       else if Num = 0 then Some (EFI_INVALID_PARAMETER, Some Num, s)
       else do {
         r \<leftarrow> FvbGetLbaAddress Lba s;
         case r of
           Inl Status \<Rightarrow> Some (Status, Some Num, s)
         | Inr (LbaAddress, LbaLength, _) \<Rightarrow>
           let (_, Attributes) = FvbGetVolumeAttributes s in
           if Attributes AND EFI_FVB2_READ_STATUS = 0 then Some (EFI_ACCESS_DENIED, Some Num, s)
           else if Off > LbaLength then Some (EFI_INVALID_PARAMETER, Some Num, s)
           else
             let (Status, Num) =
               (if LbaLength < Num + Off then (EFI_BAD_BUFFER_SIZE, ucast (ucast (LbaLength - Off) :: u32))
                else (EFI_SUCCESS, Num))
             in Some (Status, Some Num, s\<lparr>mem := CopyMem (mem s) Buffer (LbaAddress + Off) Num\<rparr>)})"

section \<open>The header\<close>

text \<open>
  \<open>CalculateSum16\<close> and \<open>CalculateCheckSum16\<close> of \<open>BaseLib\<close> are arguments, functions of the 16-bit
  values of the buffer; \<open>words16\<close> is the buffer they are called on.
\<close>

definition words16 :: "memory \<Rightarrow> u64 \<Rightarrow> u16 \<Rightarrow> u16 list" where
  "words16 m p len = map (\<lambda>i. rd 2 m (p + word_of_nat (2 * i))) [0..<unat len div 2]"

record checksums =
  CalculateSum16 :: "u16 list \<Rightarrow> u16"
  CalculateCheckSum16 :: "u16 list \<Rightarrow> u16"

definition ValidateFvHeader :: "checksums \<Rightarrow> memory \<Rightarrow> u64 \<Rightarrow> EFI_STATUS" where
  "ValidateFvHeader lib m FwVolHeader =
    (if Hdr_Revision m FwVolHeader \<noteq> EFI_FVH_REVISION \<or> Hdr_Signature m FwVolHeader \<noteq> EFI_FVH_SIGNATURE
        \<or> Hdr_FvLength m FwVolHeader = - 1 \<or> Hdr_HeaderLength m FwVolHeader AND 1 \<noteq> 0
     then EFI_NOT_FOUND
     else if CalculateSum16 lib (words16 m FwVolHeader (Hdr_HeaderLength m FwVolHeader)) \<noteq> 0
     then EFI_NOT_FOUND
     else EFI_SUCCESS)"

text \<open>
  The values the build fixes (the PCDs and the volume's GUID), and \<open>mPlatformFvbMediaInfo\<close>, the one
  entry of the table of \<open>FvbInfo.c\<close> as the bytes it is compiled to: \<open>FvLength\<close>, the header
  \<open>FvbInfo\<close> and the end entry of its block map.
\<close>

record platform =
  PcdNvStorageVariableBase :: u32
  PcdFlashNvStorageVariableSize :: u32
  PcdFlashNvStorageFtwWorkingSize :: u32
  PcdFlashNvStorageFtwSpareSize :: u32
  PcdNvStorageEventLogSize :: u32
  PcdFirmwareBlockSize :: u32
  PcdFdStorageOffset :: u32
  EFI_SYSTEM_NV_DATA_FV_GUID :: "128 word"

definition NvLength :: "platform \<Rightarrow> u32" where
  "NvLength pcd = PcdFlashNvStorageVariableSize pcd + PcdFlashNvStorageFtwWorkingSize pcd +
     PcdFlashNvStorageFtwSpareSize pcd + PcdNvStorageEventLogSize pcd"

definition mPlatformFvbMediaInfo :: "platform \<Rightarrow> u8 list" where
  "mPlatformFvbMediaInfo pcd =
     le_bytes 8 (ucast (NvLength pcd) :: u64) @
     le_bytes 16 (0 :: 128 word) @
     le_bytes 16 (EFI_SYSTEM_NV_DATA_FV_GUID pcd) @
     le_bytes 8 (ucast (NvLength pcd) :: u64) @
     le_bytes 4 EFI_FVH_SIGNATURE @
     le_bytes 4 (EFI_FVB2_MEMORY_MAPPED OR EFI_FVB2_READ_ENABLED_CAP OR EFI_FVB2_READ_STATUS OR
       EFI_FVB2_WRITE_ENABLED_CAP OR EFI_FVB2_WRITE_STATUS OR EFI_FVB2_ERASE_POLARITY OR EFI_FVB2_ALIGNMENT_16) @
     le_bytes 2 (72 :: u16) @ le_bytes 2 (0 :: u16) @ le_bytes 2 (0 :: u16) @ le_bytes 1 (0 :: u8) @ le_bytes 1 (2 :: u8) @
     le_bytes 4 (NvLength pcd div PcdFirmwareBlockSize pcd) @ le_bytes 4 (PcdFirmwareBlockSize pcd) @
     le_bytes 4 (0 :: u32) @ le_bytes 4 (0 :: u32)"

text \<open>
  \<open>Info\<close> is the address of the table, whose \<open>FvbInfo\<close> is at offset 8; the table has one entry, so
  each of the two loops runs once. The value is the status and \<open>*FvbInfo\<close>.
\<close>

definition GetFvbInfo :: "checksums \<Rightarrow> u64 \<Rightarrow> u64 \<Rightarrow> fvb \<Rightarrow> EFI_STATUS \<times> u64 option \<times> fvb" where
  "GetFvbInfo lib Info FvLen s =
    (let s = (if \<not> Checksummed s then
                let m = wr 2 (0 :: u16) (Info + 8 + 50) (mem s);
                    Checksum = CalculateCheckSum16 lib (words16 m (Info + 8) (Hdr_HeaderLength m (Info + 8)))
                in s\<lparr>mem := wr 2 Checksum (Info + 8 + 50) m, Checksummed := True\<rparr>
              else s)
     in if rd 8 (mem s) Info = FvLen then (EFI_SUCCESS, Some (Info + 8), s) else (EFI_NOT_FOUND, None, s))"

section \<open>The geometry of a volume\<close>

text \<open>
  What the block map means: \<open>block_map m p bm\<close> says that the entries \<open>bm\<close>, then an end entry, are
  in memory at \<open>p\<close>; \<open>blocks bm\<close> is the list of the block lengths of the volume, in order.
\<close>

primrec block_map :: "memory \<Rightarrow> u64 \<Rightarrow> (u32 \<times> u32) list \<Rightarrow> bool" where
  "block_map m p [] \<longleftrightarrow> Map_NumBlocks m p = 0 \<or> Map_Length m p = 0"
| "block_map m p (e # bm) \<longleftrightarrow> Map_NumBlocks m p = fst e \<and> Map_Length m p = snd e \<and> fst e \<noteq> 0 \<and> snd e \<noteq> 0
     \<and> block_map m (p + 8) bm"

definition blocks :: "(u32 \<times> u32) list \<Rightarrow> nat list" where
  "blocks bm = concat (map (\<lambda>(n, l). replicate (unat n) (unat l)) bm)"

text \<open>\<open>run_left bm k\<close>: the blocks from block \<open>k\<close> to the end of its entry of the map.\<close>

primrec run_left :: "(u32 \<times> u32) list \<Rightarrow> nat \<Rightarrow> nat" where
  "run_left [] k = 0"
| "run_left (e # bm) k = (if k < unat (fst e) then unat (fst e) - k else run_left bm (k - unat (fst e)))"

text \<open>No entry of the map is 4 GB or longer, and block numbers fit their type.\<close>

definition map_fits :: "(u32 \<times> u32) list \<Rightarrow> bool" where
  "map_fits bm \<longleftrightarrow> (\<forall>(n, l) \<in> set bm. unat n * unat l < 2 ^ 32) \<and> length (blocks bm) < 2 ^ 64"

lemma blocks_Nil [simp]: "blocks [] = []"
  by (simp add: blocks_def)

lemma blocks_Cons [simp]: "blocks (e # bm) = replicate (unat (fst e)) (unat (snd e)) @ blocks bm"
  by (simp add: blocks_def split_beta)

lemma map_fits_Cons:
  "map_fits (e # bm) \<Longrightarrow> map_fits bm \<and> unat (fst e) * unat (snd e) < 2 ^ 32"
  by (auto simp: map_fits_def)

lemma ucast_product:
  "unat n * unat l < 2 ^ 32 \<Longrightarrow> (ucast (n * l :: u32) :: u64) = word_of_nat (unat n * unat l)"
  by (simp add: word_unat_eq_iff unsigned_ucast_eq unat_word_ariths unat_word_of_nat64 take_bit_nat_eq_self
      del: of_nat_mult)

lemma lba_loop:
  assumes "block_map m p bm" "map_fits bm" "unat Start + length (blocks bm) < 2 ^ 64" "Start \<le> Lba"
  shows "FvbLbaLoop m Fv Lba p Start Off =
    (let k = unat Lba - unat Start in
     Some (if k < length (blocks bm)
           then Inr (Fv + (Off + word_of_nat (sum_list (take k (blocks bm)))), word_of_nat (blocks bm ! k), word_of_nat (run_left bm k))
           else Inl EFI_INVALID_PARAMETER))"
  using assms
proof (induction bm arbitrary: p Start Off)
  case Nil
  then show ?case by (subst FvbLbaLoop.simps) (auto simp: Let_def)
next
  case (Cons e bm)
  obtain n l where e: "e = (n, l)" by (cases e)
  let ?next = "Start + ucast n"
  have u: "unat ?next = unat Start + unat n"
    using Cons.prems(3) by (simp add: e unat_word_ariths unsigned_ucast_eq take_bit_nat_eq_self)
  have le: "unat Start \<le> unat Lba" using Cons.prems(4) by (simp add: word_le_nat_alt)
  show ?case
  proof (cases "Lba < ?next")
    case True
    then have k: "unat Lba - unat Start < unat n" using u le by (simp add: word_less_nat_alt)
    have d: "word_of_nat (unat Lba - unat Start) = Lba - Start" using le by (simp add: of_nat_diff)
    have r: "word_of_nat (unat n - (unat Lba - unat Start)) = ?next - Lba"
      using k le by (simp add: of_nat_diff algebra_simps)
    show ?thesis
      using Cons.prems True k d r by (subst FvbLbaLoop.simps) (simp add: Let_def e sum_list_replicate min_def nth_append)
  next
    case False
    then have k: "\<not> unat Lba - unat Start < unat n" "unat Lba - unat Start - unat n = unat Lba - unat ?next"
      using u le by (auto simp: word_less_nat_alt)
    have o: "Off + ucast (n * l) = Off + word_of_nat (unat n * unat l)"
      using map_fits_Cons[OF Cons.prems(2)] by (simp add: e ucast_product)
    have IH: "FvbLbaLoop m Fv Lba (p + 8) ?next (Off + ucast (n * l)) =
      (let k = unat Lba - unat ?next in
       Some (if k < length (blocks bm)
           then Inr (Fv + (Off + ucast (n * l) + word_of_nat (sum_list (take k (blocks bm)))), word_of_nat (blocks bm ! k), word_of_nat (run_left bm k))
           else Inl EFI_INVALID_PARAMETER))"
      using Cons.prems False u map_fits_Cons[OF Cons.prems(2)] by (intro Cons.IH) (auto simp: e)
    show ?thesis
      using Cons.prems False k IH o by (subst FvbLbaLoop.simps) (auto simp: Let_def e nth_append add.assoc sum_list_replicate)
  qed
qed

definition volume :: "fvb \<Rightarrow> (u32 \<times> u32) list \<Rightarrow> bool" where
  "volume s bm \<longleftrightarrow> block_map (mem s) (Hdr_BlockMap (base s)) bm \<and> map_fits bm"

definition header_size :: "(u32 \<times> u32) list \<Rightarrow> nat" where
  "header_size bm = 56 + 8 * (length bm + 1)"

text \<open>The address of block \<open>k\<close>, and whether an address is in it.\<close>

definition block_start :: "fvb \<Rightarrow> (u32 \<times> u32) list \<Rightarrow> nat \<Rightarrow> u64" where
  "block_start s bm k = base s + word_of_nat (sum_list (take k (blocks bm)))"

definition in_block :: "fvb \<Rightarrow> (u32 \<times> u32) list \<Rightarrow> nat \<Rightarrow> u64 \<Rightarrow> bool" where
  "in_block s bm k a \<longleftrightarrow> a - block_start s bm k < word_of_nat (blocks bm ! k)"

definition write_enabled :: "fvb \<Rightarrow> bool" where
  "write_enabled s \<longleftrightarrow> bit (Hdr_Attributes (mem s) (base s)) 5"

definition read_enabled :: "fvb \<Rightarrow> bool" where
  "read_enabled s \<longleftrightarrow> bit (Hdr_Attributes (mem s) (base s)) 2"

lemma enabled_mask:
  "Hdr_Attributes m p AND 0x20 = 0 \<longleftrightarrow> \<not> bit (Hdr_Attributes m p) 5"
  "Hdr_Attributes m p AND 4 = 0 \<longleftrightarrow> \<not> bit (Hdr_Attributes m p) 2"
  using and_exp_eq_0_iff_not_bit[of "Hdr_Attributes m p" 5] and_exp_eq_0_iff_not_bit[of "Hdr_Attributes m p" 2]
  by simp_all

lemma get_lba:
  assumes "volume s bm"
  shows "FvbGetLbaAddress Lba s = Some (if unat Lba < length (blocks bm)
    then Inr (block_start s bm (unat Lba), word_of_nat (blocks bm ! unat Lba), word_of_nat (run_left bm (unat Lba)))
    else Inl EFI_INVALID_PARAMETER)"
  using lba_loop[of "mem s" "Hdr_BlockMap (base s)" bm 0 Lba "base s" 0] assms
  by (simp add: FvbGetLbaAddress_def volume_def map_fits_def block_start_def Let_def)

lemma run_left_spec:
  assumes "k < length (blocks bm)"
  shows "0 < run_left bm k \<and> k + run_left bm k \<le> length (blocks bm) \<and> (\<forall>j < run_left bm k. blocks bm ! (k + j) = blocks bm ! k)"
  using assms
proof (induction bm arbitrary: k)
  case (Cons e bm)
  show ?case
  proof (cases "k < unat (fst e)")
    case False
    then have "k - unat (fst e) < length (blocks bm)" using Cons.prems by simp
    from Cons.IH[OF this] False show ?thesis by (auto simp: nth_append)
  qed (auto simp: nth_append)
qed simp

lemma blocks_less: "l \<in> set (blocks bm) \<Longrightarrow> l < 2 ^ 32"
  using unsigned_less[where 'a = nat and ?'b = 32] by (auto simp: blocks_def split: prod.splits)

lemma unat_block: "k < length (blocks bm) \<Longrightarrow> unat (word_of_nat (blocks bm ! k) :: u64) = blocks bm ! k"
  using blocks_less[OF nth_mem, of k bm] by (simp add: unat_word_of_nat64)

lemma block_map_same:
  assumes "same m m' b n" "off + 8 * (length bm + 1) \<le> n"
  shows "block_map m (b + word_of_nat off) bm \<longleftrightarrow> block_map m' (b + word_of_nat off) bm"
  using assms(2)
proof (induction bm arbitrary: off)
  case Nil
  then show ?case
    using rd_same[OF assms(1), of off 4, where 'a = 32] rd_same[OF assms(1), of "off + 4" 4, where 'a = 32]
    by (simp add: Map_NumBlocks_def Map_Length_def add.assoc)
next
  case (Cons e bm)
  then show ?case
    using rd_same[OF assms(1), of off 4, where 'a = 32] rd_same[OF assms(1), of "off + 4" 4, where 'a = 32] Cons.IH[of "off + 8"]
    by (simp add: Map_NumBlocks_def Map_Length_def add.assoc)
qed

text \<open>Changes apart from the header keep the geometry and the attributes.\<close>

lemma header_frame:
  assumes "same (mem s') (mem s) (base s) (header_size bm)" "base s' = base s"
  shows "volume s' bm \<longleftrightarrow> volume s bm" "write_enabled s' \<longleftrightarrow> write_enabled s" "read_enabled s' \<longleftrightarrow> read_enabled s"
    "block_start s' bm = block_start s bm" "in_block s' bm = in_block s bm"
proof -
  have "Hdr_Attributes (mem s') (base s) = Hdr_Attributes (mem s) (base s)"
    using rd_same[OF assms(1), of 44 4, where 'a = 32] by (simp add: Hdr_Attributes_def header_size_def)
  then show "write_enabled s' \<longleftrightarrow> write_enabled s" "read_enabled s' \<longleftrightarrow> read_enabled s"
    by (simp_all add: write_enabled_def read_enabled_def assms)
  show "volume s' bm \<longleftrightarrow> volume s bm"
    using block_map_same[OF assms(1), of 56 bm] by (simp add: volume_def Hdr_BlockMap_def header_size_def assms)
  show "block_start s' bm = block_start s bm" "in_block s' bm = in_block s bm"
    by (simp_all add: block_start_def[abs_def] in_block_def[abs_def] assms)
qed

lemma sum_take_block:
  fixes bs :: "nat list"
  assumes "k < length bs"
  shows "sum_list (take k bs) + bs ! k \<le> sum_list bs"
proof -
  have "sum_list bs = sum_list (take k bs) + sum_list (drop k bs)" by (simp flip: sum_list_append)
  moreover have "drop k bs = bs ! k # drop (Suc k) bs" using assms by (simp add: Cons_nth_drop_Suc)
  ultimately show ?thesis by simp
qed

text \<open>A part of a block behind the header is apart from it.\<close>

lemma block_apart:
  assumes "k < length (blocks bm)" "sum_list (blocks bm) < 2 ^ 64" "off + n \<le> blocks bm ! k"
    and "header_size bm \<le> sum_list (take k (blocks bm)) + off"
  shows "header_size bm \<le> unat ((block_start s bm k + word_of_nat off) - base s)
    \<and> unat ((block_start s bm k + word_of_nat off) - base s) + n \<le> 2 ^ 64"
proof -
  have t: "sum_list (take k (blocks bm)) + off + n \<le> sum_list (blocks bm)"
    using sum_take_block[OF assms(1)] assms(3) by linarith
  have "(block_start s bm k + word_of_nat off) - base s = word_of_nat (sum_list (take k (blocks bm)) + off)"
    by (simp add: block_start_def)
  then have "unat ((block_start s bm k + word_of_nat off) - base s) = sum_list (take k (blocks bm)) + off"
    using t assms(2) by (simp add: unat_word_of_nat64 del: of_nat_add)
  then show ?thesis using t assms(2,4) by simp
qed

section \<open>Writing and reading\<close>

text \<open>How many bytes a transfer of \<open>n\<close> bytes at \<open>off\<close> in a block of \<open>len\<close> bytes moves, and its status.\<close>

definition clipped :: "nat \<Rightarrow> nat \<Rightarrow> nat \<Rightarrow> nat" where
  "clipped len off n = min n (len - off)"

definition clip_status :: "nat \<Rightarrow> nat \<Rightarrow> nat \<Rightarrow> EFI_STATUS" where
  "clip_status len off n = (if off + n \<le> len then EFI_SUCCESS else EFI_BAD_BUFFER_SIZE)"

lemma clip_word:
  assumes "unat Off \<le> len" "unat Off + unat Num < 2 ^ 64" "len < 2 ^ 32"
  shows "(if word_of_nat len < Num + Off then (EFI_BAD_BUFFER_SIZE, ucast (ucast (word_of_nat len - Off) :: u32)) else (EFI_SUCCESS, Num))
    = (clip_status len (unat Off) (unat Num), word_of_nat (clipped len (unat Off) (unat Num)) :: u64)"
proof -
  have l: "unat (word_of_nat len :: u64) = len" using assms(3) by (simp add: unat_word_of_nat64)
  have "unat (Num + Off) = unat Num + unat Off"
    using assms(2) by (simp add: unat_word_ariths)
  moreover have "unat (word_of_nat len - Off) = len - unat Off"
    using assms(1) l by (simp add: unat_sub_if')
  then have "ucast (ucast (word_of_nat len - Off) :: u32) = (word_of_nat (len - unat Off) :: u64)"
    using assms(3) by (simp add: word_unat_eq_iff unsigned_ucast_eq unsigned_take_bit_eq take_bit_nat_eq_self unat_word_of_nat64)
  ultimately show ?thesis
    using l assms(1) by (auto simp: word_less_nat_alt clip_status_def clipped_def min_def)
qed

lemma write_block:
  assumes "volume s bm" "unat Lba < length (blocks bm)" "write_enabled s" "Num \<noteq> 0" "Buffer \<noteq> 0"
    and "unat Off \<le> blocks bm ! unat Lba" "unat Off + unat Num < 2 ^ 64"
  shows "FvbProtocolWrite Lba Off (Some Num) Buffer s =
    (let n = word_of_nat (clipped (blocks bm ! unat Lba) (unat Off) (unat Num)) in
     Some (clip_status (blocks bm ! unat Lba) (unat Off) (unat Num), Some n,
           s\<lparr>mem := CopyMem (mem s) (block_start s bm (unat Lba) + Off) Buffer n, mFvInstance := (mFvInstance s)\<lparr>Dirty := True\<rparr>\<rparr>))"
proof -
  have "\<not> word_of_nat (blocks bm ! unat Lba) < Off"
    using assms(6) unat_block[OF assms(2)] by (simp add: word_less_nat_alt)
  moreover have "blocks bm ! unat Lba < 2 ^ 32" using blocks_less nth_mem[OF assms(2)] by blast
  note clip_word[OF assms(6,7) this]
  ultimately show ?thesis
    using assms get_lba[OF assms(1), of Lba]
    by (simp add: FvbProtocolWrite_def FvbGetVolumeAttributes_def write_enabled_def enabled_mask VarStoreWrite_def Let_def)
qed

lemma read_block:
  assumes "volume s bm" "unat Lba < length (blocks bm)" "read_enabled s" "Num \<noteq> 0" "Buffer \<noteq> 0"
    and "unat Off \<le> blocks bm ! unat Lba" "unat Off + unat Num < 2 ^ 64"
  shows "FvbProtocolRead Lba Off (Some Num) Buffer s =
    (let n = word_of_nat (clipped (blocks bm ! unat Lba) (unat Off) (unat Num)) in
     Some (clip_status (blocks bm ! unat Lba) (unat Off) (unat Num), Some n,
           s\<lparr>mem := CopyMem (mem s) Buffer (block_start s bm (unat Lba) + Off) n\<rparr>))"
proof -
  have "\<not> word_of_nat (blocks bm ! unat Lba) < Off"
    using assms(6) unat_block[OF assms(2)] by (simp add: word_less_nat_alt)
  moreover have "blocks bm ! unat Lba < 2 ^ 32" using blocks_less nth_mem[OF assms(2)] by blast
  note clip_word[OF assms(6,7) this]
  ultimately show ?thesis
    using assms get_lba[OF assms(1), of Lba]
    by (simp add: FvbProtocolRead_def FvbGetVolumeAttributes_def read_enabled_def enabled_mask Let_def)
qed

section \<open>Erasing\<close>

text \<open>The state after the blocks with the numbers in \<open>S\<close> are erased.\<close>

definition erased :: "(u32 \<times> u32) list \<Rightarrow> nat set \<Rightarrow> fvb \<Rightarrow> fvb" where
  "erased bm S s = s\<lparr>mem := (\<lambda>a. if \<exists>k \<in> S. in_block s bm k a then 0xFF else mem s a),
     mFvInstance := (mFvInstance s)\<lparr>Dirty := True\<rparr>\<rparr>"

text \<open>Blocks that are in the volume and behind its header.\<close>

definition behind_header :: "(u32 \<times> u32) list \<Rightarrow> nat set \<Rightarrow> bool" where
  "behind_header bm S \<longleftrightarrow> sum_list (blocks bm) < 2 ^ 64 \<and>
     (\<forall>k \<in> S. k < length (blocks bm) \<and> header_size bm \<le> sum_list (take k (blocks bm)))"

lemma erased_frame:
  assumes "behind_header bm S"
  shows "same (mem (erased bm S s)) (mem s) (base s) (header_size bm)"
proof -
  have "\<not> in_block s bm k (base s + word_of_nat i)" if "k \<in> S" "i < header_size bm" for k i
  proof -
    have k: "k < length (blocks bm)" using that assms by (simp add: behind_header_def)
    have "header_size bm \<le> unat (block_start s bm k - base s) \<and> unat (block_start s bm k - base s) + blocks bm ! k \<le> 2 ^ 64"
      using block_apart[of k bm 0 "blocks bm ! k" s] that assms by (simp add: behind_header_def)
    then show ?thesis
      using apart_offset[OF that(2), of "block_start s bm k" "base s" "word_of_nat (blocks bm ! k)"] unat_block[OF k]
      by (simp add: in_block_def)
  qed
  then show ?thesis by (auto simp: same_def erased_def)
qed

lemma erased_base [simp]: "base (erased bm S s) = base s"
  by (simp add: erased_def)

lemma erased_erased:
  assumes "behind_header bm S"
  shows "erased bm T (erased bm S s) = erased bm (S \<union> T) s"
proof -
  have i: "in_block (erased bm S s) bm = in_block s bm"
    by (rule header_frame(5)[OF erased_frame[OF assms]]) simp
  have "mem (erased bm T (erased bm S s)) = mem (erased bm (S \<union> T) s)"
    unfolding erased_def[of bm T] i by (rule ext) (auto simp: erased_def)
  then show ?thesis by (intro fvb.equality) (simp_all add: erased_def)
qed

lemma erase_block:
  assumes "volume s bm" "write_enabled s" "unat Lba < length (blocks bm)"
  shows "FvbEraseBlock Lba s = Some (EFI_SUCCESS, erased bm {unat Lba} s)"
  using assms get_lba[OF assms(1), of Lba]
  by (simp add: FvbEraseBlock_def FvbGetVolumeAttributes_def enabled_mask write_enabled_def VarStoreErase_def
      erased_def in_block_def SetMem_def)

lemma erase_lbas:
  assumes "volume s bm" "write_enabled s" "0 < n" "unat Lba + n < 2 ^ 64" "behind_header bm {unat Lba..<unat Lba + n}"
  shows "FvbEraseLbas n Lba s = Some (EFI_SUCCESS, erased bm {unat Lba..<unat Lba + n} s)"
  using assms
proof (induction n arbitrary: Lba s)
  case (Suc n)
  have "unat Lba \<in> {unat Lba..<unat Lba + Suc n}" by simp
  with Suc.prems(5) have l: "unat Lba < length (blocks bm)" and b: "behind_header bm {unat Lba}"
    unfolding behind_header_def by auto
  note f = header_frame[OF erased_frame[OF b, of s] erased_base]
  have u: "unat (Lba + 1) = Suc (unat Lba)" using Suc.prems(4) by (simp add: unat_word_ariths)
  have e: "{unat Lba..<unat Lba + Suc n} = {unat Lba} \<union> {unat (Lba + 1)..<unat (Lba + 1) + n}" by (auto simp: u)
  show ?case
  proof (cases "n = 0")
    case True
    then show ?thesis using erase_block[OF Suc.prems(1,2) l] by simp
  next
    case False
    have "FvbEraseLbas n (Lba + 1) (erased bm {unat Lba} s) =
        Some (EFI_SUCCESS, erased bm {unat (Lba + 1)..<unat (Lba + 1) + n} (erased bm {unat Lba} s))"
      using Suc.prems False u f by (intro Suc.IH) (auto simp: behind_header_def)
    then show ?thesis
      unfolding e erased_erased[OF b, symmetric] using erase_block[OF Suc.prems(1,2) l] by simp
  qed
qed simp

text \<open>The argument list of a request for the ranges \<open>rs\<close>, and the blocks it names.\<close>

definition erase_args :: "(u64 \<times> u64) list \<Rightarrow> u64 list" where
  "erase_args rs = concat (map (\<lambda>(l, n). [l, n]) rs) @ [EFI_LBA_LIST_TERMINATOR]"

definition requested :: "(u64 \<times> u64) list \<Rightarrow> nat set" where
  "requested rs = (\<Union>(l, n) \<in> set rs. {unat l..<unat l + unat n})"

definition range_ok :: "nat \<Rightarrow> u64 \<times> u64 \<Rightarrow> bool" where
  "range_ok N r \<longleftrightarrow> snd r \<noteq> 0 \<and> unat (fst r) + unat (snd r) \<le> N"

lemma erase_args_simps [simp]:
  "erase_args [] = [EFI_LBA_LIST_TERMINATOR]"
  "erase_args (r # rs) = fst r # snd r # erase_args rs"
  by (simp_all add: erase_args_def split_beta)

lemma requested_simps [simp]:
  "requested [] = {}"
  "requested (r # rs) = {unat (fst r)..<unat (fst r) + unat (snd r)} \<union> requested rs"
  by (simp_all add: requested_def split_beta)

lemma verify_ranges:
  assumes "\<forall>r \<in> set rs. fst r \<noteq> EFI_LBA_LIST_TERMINATOR \<and> unat (fst r) + unat (snd r) < 2 ^ 64"
  shows "FvbEraseVerify (erase_args rs) Num =
    Some (if \<forall>r \<in> set rs. range_ok (unat Num) r then EFI_SUCCESS else EFI_INVALID_PARAMETER)"
  using assms
proof (induction rs)
  case (Cons r rs)
  have "unat (fst r + snd r) = unat (fst r) + unat (snd r)" using Cons.prems by (simp add: unat_word_ariths)
  with Cons show ?case by (auto simp: range_ok_def word_less_nat_alt)
qed simp

lemma behind_mono: "behind_header bm S \<Longrightarrow> T \<subseteq> S \<Longrightarrow> behind_header bm T"
  by (auto simp: behind_header_def)

lemma erase_ranges:
  assumes "volume s bm" "write_enabled s" "rs \<noteq> []" "behind_header bm (requested rs)"
    and "\<forall>r \<in> set rs. fst r \<noteq> EFI_LBA_LIST_TERMINATOR \<and> snd r \<noteq> 0 \<and> unat (fst r) + unat (snd r) < 2 ^ 64"
  shows "FvbEraseRanges (erase_args rs) s = Some (EFI_SUCCESS, erased bm (requested rs) s)"
  using assms
proof (induction rs arbitrary: s)
  case (Cons r rs)
  let ?S = "{unat (fst r)..<unat (fst r) + unat (snd r)}"
  have b: "behind_header bm ?S" "behind_header bm (requested rs)"
    using behind_mono[OF Cons.prems(4)] by auto
  note f = header_frame[OF erased_frame[OF b(1), of s] erased_base]
  have 1: "FvbEraseLbas (unat (snd r)) (fst r) s = Some (EFI_SUCCESS, erased bm ?S s)"
    using Cons.prems b(1) by (intro erase_lbas) (auto simp: unat_gt_0)
  show ?case
  proof (cases "rs = []")
    case True
    then show ?thesis using 1 Cons.prems by simp
  next
    case False
    have "FvbEraseRanges (erase_args rs) (erased bm ?S s) = Some (EFI_SUCCESS, erased bm (requested rs) (erased bm ?S s))"
      using Cons.prems False b f by (intro Cons.IH) auto
    then show ?thesis using 1 Cons.prems erased_erased[OF b(1)] by simp
  qed
qed simp

section \<open>Attribute bits\<close>

text \<open>
  The attributes that cannot be changed, and the requests that the rules of the PI specification
  allow: read or write status may be given up only with the capability to disable it, taken only with the
  capability to enable it, and the lock taken only with the lock capability; a locked volume keeps
  its status.
\<close>

definition fixed_bits :: "nat set" where
  "fixed_bits = {0, 1, 3, 4, 6, 9, 10, 11, 12, 14, 16, 17, 18, 19, 20}"

definition status_bits :: "nat set" where
  "status_bits = {2, 5, 7}"

definition attributes_allowed :: "u32 \<Rightarrow> u32 \<Rightarrow> bool" where
  "attributes_allowed old new \<longleftrightarrow>
     (if bit new 2 then bit old 1 else bit old 0) \<and> (if bit new 5 then bit old 4 else bit old 3) \<and> (bit new 7 \<longrightarrow> bit old 6)"

lemma bit_power: "bit (2 ^ n :: u32) i \<longleftrightarrow> i = n \<and> n < 32"
  by (auto simp: bit_exp_iff)

lemma bit_masks:
  "bit UnchangedAttributes i \<longleftrightarrow> i \<in> fixed_bits"
  "bit EFI_FVB2_STATUS i \<longleftrightarrow> i \<in> status_bits"
proof -
  have u: "UnchangedAttributes = 2 ^ 0 OR 2 ^ 1 OR 2 ^ 3 OR 2 ^ 4 OR 2 ^ 6 OR 2 ^ 9 OR 2 ^ 10 OR 2 ^ 11 OR 2 ^ 12 OR 2 ^ 14
      OR 2 ^ 16 OR 2 ^ 17 OR 2 ^ 18 OR 2 ^ 19 OR 2 ^ 20"
    by (simp add: UnchangedAttributes_def)
  show "bit UnchangedAttributes i \<longleftrightarrow> i \<in> fixed_bits"
    unfolding u bit_or_iff bit_power fixed_bits_def by simp
  have t: "EFI_FVB2_STATUS = 2 ^ 2 OR 2 ^ 5 OR 2 ^ 7" by (simp add: EFI_FVB2_STATUS_def)
  show "bit EFI_FVB2_STATUS i \<longleftrightarrow> i \<in> status_bits"
    unfolding t bit_or_iff bit_power status_bits_def by simp
qed

lemma differ_on_mask:
  "(v AND c) XOR (w AND c) \<noteq> 0 \<longleftrightarrow> (\<exists>i. bit c i \<and> bit v i \<noteq> bit w i)" for v w c :: u32
  using bit_imp_le_length[of c] by (simp add: bit_eq_iff bit_simps) blast

lemma one_bit: "(w :: u32) AND 2 ^ n = 0 \<longleftrightarrow> \<not> bit w n"
  by (rule and_exp_eq_0_iff_not_bit)

lemmas status_masks = one_bit[of _ 0, simplified] one_bit[of _ 1, simplified] one_bit[of _ 2, simplified]
  one_bit[of _ 3, simplified] one_bit[of _ 4, simplified] one_bit[of _ 5, simplified] one_bit[of _ 6, simplified]
  one_bit[of _ 7, simplified]

definition caps_mask :: u32 where
  "caps_mask = EFI_FVB2_READ_DISABLED_CAP OR EFI_FVB2_READ_ENABLED_CAP OR EFI_FVB2_WRITE_DISABLED_CAP OR
     EFI_FVB2_WRITE_ENABLED_CAP OR EFI_FVB2_LOCK_CAP"

lemma bit_caps: "bit caps_mask 0" "bit caps_mask (Suc 0)" "bit caps_mask 3" "bit caps_mask 4" "bit caps_mask 6"
  by code_simp+

lemma set_attributes:
  "FvbSetVolumeAttributes A s =
    (let old = Hdr_Attributes (mem s) (base s); new = (old AND NOT EFI_FVB2_STATUS) OR (A AND EFI_FVB2_STATUS) in
     if \<exists>i \<in> fixed_bits. bit old i \<noteq> bit A i then (EFI_INVALID_PARAMETER, A, s)
     else if bit old 7 \<and> (\<exists>i \<in> status_bits. bit old i \<noteq> bit A i) then (EFI_ACCESS_DENIED, A, s)
     else if attributes_allowed old A then (EFI_SUCCESS, new, s\<lparr>mem := wr 4 new (base s + 44) (mem s)\<rparr>)
     else (EFI_INVALID_PARAMETER, A, s))"
proof -
  let ?old = "Hdr_Attributes (mem s) (base s)"
  have 1: "(?old AND UnchangedAttributes) XOR (A AND UnchangedAttributes) \<noteq> 0 \<longleftrightarrow> (\<exists>i \<in> fixed_bits. bit ?old i \<noteq> bit A i)"
    unfolding differ_on_mask bit_masks by blast
  have 2: "(?old AND EFI_FVB2_STATUS) XOR (A AND EFI_FVB2_STATUS) \<noteq> 0 \<longleftrightarrow> (\<exists>i \<in> status_bits. bit ?old i \<noteq> bit A i)"
    unfolding differ_on_mask bit_masks by blast
  have 3: "(0xFFFFFFFF :: u32) AND w = w" for w
  proof -
    have "(0xFFFFFFFF :: u32) = - 1" by simp
    then show ?thesis by (simp only: and.left_neutral)
  qed
  have 4: "2 \<in> status_bits" "5 \<in> status_bits" "7 \<in> status_bits" by (auto simp: status_bits_def)
  define P Q where "P \<longleftrightarrow> (\<exists>i \<in> fixed_bits. bit ?old i \<noteq> bit A i)" and "Q \<longleftrightarrow> (\<exists>i \<in> status_bits. bit ?old i \<noteq> bit A i)"
  then show ?thesis
    unfolding FvbSetVolumeAttributes_def Let_def caps_mask_def[symmetric] 1 2 3 P_def[symmetric] Q_def[symmetric]
      status_masks bit_and_iff attributes_allowed_def
    using bit_caps 4 by (simp add: bit_masks)
qed

section \<open>Correctness of the block service\<close>

text \<open>A volume of four blocks of 256 bytes, for the concrete instances.\<close>

definition demo_volume :: fvb where
  "demo_volume = \<lparr>mFvInstance = \<lparr>FvBase = 0x10000, FvLength = 0x400, Offset = 0x800, NumOfBlocks = 4, Device = 0, MediaId = 0, Dirty = False\<rparr>,
     mem = wr 4 (4 :: u32) 0x10038 (wr 4 (0x100 :: u32) 0x1003C (wr 4 (0x40C36 :: u32) 0x1002C (\<lambda>_. 0))),
     Checksummed = False\<rparr>"

abbreviation (input) demo_map :: "(u32 \<times> u32) list" where
  "demo_map \<equiv> [(4, 0x100)]"

lemma demo_blocks: "blocks demo_map = [0x100, 0x100, 0x100, 0x100]"
proof -
  have n: "(4 :: nat) = Suc (Suc (Suc (Suc 0)))" by simp
  have "blocks demo_map = replicate 4 0x100" by (simp add: blocks_def)
  then show ?thesis by (simp only: n replicate_Suc replicate_0)
qed

lemma demo_volume_ok:
  "volume demo_volume demo_map" "write_enabled demo_volume" "read_enabled demo_volume" "base demo_volume = 0x10000"
  "NumOfBlocks (mFvInstance demo_volume) = 4"
proof -
  have "block_map (mem demo_volume) (Hdr_BlockMap (base demo_volume)) demo_map" by code_simp
  then show "volume demo_volume demo_map"
    unfolding volume_def map_fits_def demo_blocks by simp
  show "write_enabled demo_volume" "read_enabled demo_volume" by code_simp+
qed (simp_all add: demo_volume_def)

text \<open>in a volume whose block map is well formed, \<open>FvbGetLbaAddress\<close> returns, and gives for each
  block its address (the base plus the lengths of all blocks before it), its length, and a number of
  blocks from it on that exist and have the same length; for any other number, an error.\<close>

theorem FvbGetLbaAddress_geometry:
  assumes "volume s bm"
  shows "if unat Lba < length (blocks bm)
    then FvbGetLbaAddress Lba s = Some (Inr (base s + word_of_nat (sum_list (take (unat Lba) (blocks bm))),
            word_of_nat (blocks bm ! unat Lba), word_of_nat (run_left bm (unat Lba))))
         \<and> 0 < run_left bm (unat Lba) \<and> unat Lba + run_left bm (unat Lba) \<le> length (blocks bm)
         \<and> (\<forall>j < run_left bm (unat Lba). blocks bm ! (unat Lba + j) = blocks bm ! unat Lba)
    else FvbGetLbaAddress Lba s = Some (Inl EFI_INVALID_PARAMETER)"
  using get_lba[OF assms, of Lba] run_left_spec[of "unat Lba" bm] by (simp add: block_start_def)

theorem FvbGetLbaAddress_geometry_witness:
  "FvbGetLbaAddress 3 demo_volume = Some (Inr (0x10300, 0x100, 1)) \<and> FvbGetLbaAddress 4 demo_volume = Some (Inl EFI_INVALID_PARAMETER)"
  using FvbGetLbaAddress_geometry[OF demo_volume_ok(1), of 3] FvbGetLbaAddress_geometry[OF demo_volume_ok(1), of 4]
  unfolding demo_blocks by (simp add: demo_volume_ok)

lemma part_in_block:
  assumes "k < length (blocks bm)" "unat Off + n \<le> blocks bm ! k" "a - (block_start s bm k + Off) < word_of_nat n"
  shows "in_block s bm k a"
proof -
  let ?x = "a - (block_start s bm k + Off)"
  have l: "blocks bm ! k < 2 ^ 32" using blocks_less nth_mem[OF assms(1)] by blast
  then have "n < 2 ^ 64" using assms(2) by simp
  then have x: "unat ?x < n" using assms(3) by (simp add: word_less_nat_alt unat_word_of_nat64)
  have "a - block_start s bm k = ?x + Off" by simp
  also have "unat \<dots> = unat ?x + unat Off"
    unfolding unat_word_ariths using x assms(2) l by simp
  finally show ?thesis
    using x assms(2) unat_block[OF assms(1)] by (simp add: in_block_def word_less_nat_alt)
qed

text \<open>C17: \<open>FvbProtocolWrite\<close> to a writable volume copies the bytes asked for, up to the end of the block
  (then with a bad buffer size status), marks the store dirty and changes no byte outside the block.\<close>

theorem FvbProtocolWrite_exact:
  assumes "volume s bm" "unat Lba < length (blocks bm)" "write_enabled s" "Num \<noteq> 0" "Buffer \<noteq> 0"
    and "unat Off \<le> blocks bm ! unat Lba" "unat Off + unat Num < 2 ^ 64"
  shows "\<exists>n s'. FvbProtocolWrite Lba Off (Some Num) Buffer s =
        Some (if unat Off + unat Num \<le> blocks bm ! unat Lba then EFI_SUCCESS else EFI_BAD_BUFFER_SIZE, Some (word_of_nat n), s')
     \<and> n = min (unat Num) (blocks bm ! unat Lba - unat Off)
     \<and> Dirty (mFvInstance s')
     \<and> (\<forall>i < n. mem s' (block_start s bm (unat Lba) + Off + word_of_nat i) = mem s (Buffer + word_of_nat i))
     \<and> (\<forall>a. \<not> in_block s bm (unat Lba) a \<longrightarrow> mem s' a = mem s a)"
proof -
  let ?n = "clipped (blocks bm ! unat Lba) (unat Off) (unat Num)"
  let ?d = "block_start s bm (unat Lba) + Off"
  have n: "unat Off + ?n \<le> blocks bm ! unat Lba" using assms(6) by (simp add: clipped_def)
  have "unat (word_of_nat ?n :: u64) = ?n"
    using unsigned_less[where 'a = nat, of Num] by (intro unat_word_of_nat64) (simp add: clipped_def)
  then have "\<forall>i < ?n. CopyMem (mem s) ?d Buffer (word_of_nat ?n) (?d + word_of_nat i) = mem s (Buffer + word_of_nat i)"
    by (simp add: CopyMem_at)
  moreover have "\<forall>a. \<not> in_block s bm (unat Lba) a \<longrightarrow> CopyMem (mem s) ?d Buffer (word_of_nat ?n) a = mem s a"
    using part_in_block[OF assms(2) n] by (auto simp: CopyMem_def)
  ultimately show ?thesis
    using write_block[OF assms]
    by (intro exI[of _ ?n] exI) (auto simp: Let_def clip_status_def clipped_def)
qed

theorem FvbProtocolWrite_exact_witness:
  "\<exists>s'. FvbProtocolWrite 1 0xF0 (Some 32) 0x9000 demo_volume = Some (EFI_BAD_BUFFER_SIZE, Some 16, s') \<and> Dirty (mFvInstance s')"
  using FvbProtocolWrite_exact[OF demo_volume_ok(1) _ demo_volume_ok(2), of 1 32 "0x9000" "0xF0"] unfolding demo_blocks by auto

text \<open>what \<open>FvbProtocolWrite\<close> stored behind the header, \<open>FvbProtocolRead\<close> at the same place returns,
  with the same status and length, into any buffer.\<close>

theorem FvbProtocolWrite_Read:
  assumes "volume s bm" "unat Lba < length (blocks bm)" "write_enabled s" "read_enabled s"
    and "Num \<noteq> 0" "Buffer \<noteq> 0" "Buffer' \<noteq> 0"
    and "unat Off \<le> blocks bm ! unat Lba" "unat Off + unat Num < 2 ^ 64"
    and "sum_list (blocks bm) < 2 ^ 64" "header_size bm \<le> sum_list (take (unat Lba) (blocks bm)) + unat Off"
  shows "\<exists>st n s' s''. FvbProtocolWrite Lba Off (Some Num) Buffer s = Some (st, Some n, s')
     \<and> FvbProtocolRead Lba Off (Some Num) Buffer' s' = Some (st, Some n, s'')
     \<and> (\<forall>i < unat n. mem s'' (Buffer' + word_of_nat i) = mem s (Buffer + word_of_nat i))"
proof -
  let ?n = "word_of_nat (clipped (blocks bm ! unat Lba) (unat Off) (unat Num)) :: u64"
  let ?d = "block_start s bm (unat Lba) + Off"
  let ?s = "s\<lparr>mem := CopyMem (mem s) ?d Buffer ?n, mFvInstance := (mFvInstance s)\<lparr>Dirty := True\<rparr>\<rparr>"
  have u: "unat ?n = clipped (blocks bm ! unat Lba) (unat Off) (unat Num)"
    using unsigned_less[where 'a = nat, of Num] by (intro unat_word_of_nat64) (simp add: clipped_def)
  then have "unat Off + unat ?n \<le> blocks bm ! unat Lba" using assms(8) by (simp add: clipped_def)
  from block_apart[OF assms(2,10) this assms(11), of s]
  have "same (mem ?s) (mem s) (base s) (header_size bm)" by (simp add: same_CopyMem)
  from header_frame[OF this] assms(1,4) have "volume ?s bm" "read_enabled ?s" "block_start ?s bm = block_start s bm" by simp_all
  from read_block[OF this(1) assms(2) this(2) assms(5,7,8,9)] this(3) write_block[OF assms(1-3) assms(5,6,8,9)]
  show ?thesis by (intro exI) (auto simp: Let_def CopyMem_at)
qed

theorem FvbProtocolWrite_Read_witness:
  "\<exists>s' s''. FvbProtocolWrite 0 72 (Some 8) 0x9000 demo_volume = Some (EFI_SUCCESS, Some 8, s')
     \<and> FvbProtocolRead 0 72 (Some 8) 0xA000 s' = Some (EFI_SUCCESS, Some 8, s'') \<and> mem s'' 0xA000 = mem demo_volume 0x9000"
proof -
  have "\<exists>st n s' s''. FvbProtocolWrite 0 72 (Some 8) 0x9000 demo_volume = Some (st, Some n, s')
     \<and> FvbProtocolRead 0 72 (Some 8) 0xA000 s' = Some (st, Some n, s'')
     \<and> (\<forall>i < unat n. mem s'' (0xA000 + word_of_nat i) = mem demo_volume (0x9000 + word_of_nat i))"
    by (rule FvbProtocolWrite_Read[OF demo_volume_ok(1) _ demo_volume_ok(2,3)]) (unfold demo_blocks header_size_def, simp_all)
  moreover have "\<exists>s'. FvbProtocolWrite 0 72 (Some 8) 0x9000 demo_volume = Some (EFI_SUCCESS, Some 8, s')"
    using write_block[OF demo_volume_ok(1) _ demo_volume_ok(2), of 0 8 "0x9000" 72] unfolding demo_blocks
    by (auto simp: Let_def clip_status_def clipped_def)
  ultimately show ?thesis by (auto dest: spec[of _ 0])
qed

text \<open>C19: \<open>FvbProtocolEraseBlocks\<close> checks the whole list of ranges first: when one of them is empty or
  leaves the volume the call fails and changes nothing. Otherwise exactly the blocks named become
  0xFF, provided they lie behind the header of the volume.\<close>

theorem FvbProtocolEraseBlocks_exact:
  assumes "volume s bm" "write_enabled s" "NumOfBlocks (mFvInstance s) = word_of_nat (length (blocks bm))" "rs \<noteq> []"
    and "\<forall>(l, n) \<in> set rs. l \<noteq> EFI_LBA_LIST_TERMINATOR \<and> unat l + unat n < 2 ^ 64"
    and "behind_header bm (requested rs \<inter> {..<length (blocks bm)})"
  shows "FvbProtocolEraseBlocks (erase_args rs) s =
    Some (if \<forall>(l, n) \<in> set rs. n \<noteq> 0 \<and> unat l + unat n \<le> length (blocks bm)
          then (EFI_SUCCESS, s\<lparr>mem := (\<lambda>a. if \<exists>k \<in> requested rs. in_block s bm k a then 0xFF else mem s a),
                  mFvInstance := (mFvInstance s)\<lparr>Dirty := True\<rparr>\<rparr>)
          else (EFI_INVALID_PARAMETER, s))"
proof -
  have u: "unat (NumOfBlocks (mFvInstance s)) = length (blocks bm)"
    using assms(1,3) by (simp add: volume_def map_fits_def unat_word_of_nat64)
  have v: "FvbEraseVerify (erase_args rs) (NumOfBlocks (mFvInstance s)) =
      Some (if \<forall>(l, n) \<in> set rs. n \<noteq> 0 \<and> unat l + unat n \<le> length (blocks bm) then EFI_SUCCESS else EFI_INVALID_PARAMETER)"
    using verify_ranges[of rs "NumOfBlocks (mFvInstance s)"] assms(5) by (auto simp: u range_ok_def split_beta)
  show ?thesis
  proof (cases "\<forall>(l, n) \<in> set rs. n \<noteq> 0 \<and> unat l + unat n \<le> length (blocks bm)")
    case True
    then have "requested rs \<subseteq> {..<length (blocks bm)}" unfolding requested_def by fastforce
    then have "behind_header bm (requested rs)" using assms(6) by (simp add: Int_absorb2)
    from erase_ranges[OF assms(1,2,4) this] True assms(5) v show ?thesis
      by (auto simp: FvbProtocolEraseBlocks_def erased_def split_beta)
  next
    case False
    show ?thesis unfolding FvbProtocolEraseBlocks_def v if_not_P[OF False] by simp
  qed
qed

lemma demo_behind: "behind_header demo_map (S \<inter> {..<4}) \<longleftrightarrow> 0 \<notin> S"
proof -
  have t: "header_size demo_map \<le> sum_list (take k [0x100, 0x100, 0x100, 0x100]) \<longleftrightarrow> k \<noteq> 0" if "k < 4" for k
  proof -
    from that consider "k = 0" | "k = 1" | "k = 2" | "k = 3" by linarith
    then show ?thesis by cases (simp_all add: header_size_def)
  qed
  have "behind_header demo_map (S \<inter> {..<4}) \<longleftrightarrow> (\<forall>k \<in> S \<inter> {..<4}. k \<noteq> 0)"
    unfolding behind_header_def demo_blocks by (simp add: t)
  then show ?thesis by auto
qed

theorem FvbProtocolEraseBlocks_exact_witness:
  "FvbProtocolEraseBlocks [1, 2, EFI_LBA_LIST_TERMINATOR] demo_volume =
     Some (EFI_SUCCESS, demo_volume\<lparr>mem := (\<lambda>a. if \<exists>k \<in> requested [(1, 2)]. in_block demo_volume demo_map k a then 0xFF else mem demo_volume a),
        mFvInstance := (mFvInstance demo_volume)\<lparr>Dirty := True\<rparr>\<rparr>)
   \<and> FvbProtocolEraseBlocks [1, 2, 3, 2, EFI_LBA_LIST_TERMINATOR] demo_volume = Some (EFI_INVALID_PARAMETER, demo_volume)"
proof -
  have l: "length (blocks demo_map) = 4" unfolding demo_blocks by simp
  note E = FvbProtocolEraseBlocks_exact[OF demo_volume_ok(1,2), unfolded l demo_behind demo_volume_ok(5)]
  show ?thesis using E[of "[(1, 2)]"] E[of "[(1, 2), (3, 2)]"] by simp
qed

text \<open>C25: the header that the code reads is in the first block. A request for the first two blocks
  erases the block map between the two, and the second step fills the 0xFFFFFFFF bytes from
  \<open>FvBase + 0xFFFFFFFF\<close> on with 0xFF instead of the second block, and reports success.\<close>

theorem FvbProtocolEraseBlocks_header:
  assumes "volume s ((n, l) # bm)" "write_enabled s" "2 \<le> n" "64 \<le> l" "2 \<le> NumOfBlocks (mFvInstance s)"
  shows "FvbProtocolEraseBlocks [0, 2, EFI_LBA_LIST_TERMINATOR] s =
    Some (EFI_SUCCESS, s\<lparr>mem := SetMem (SetMem (mem s) (base s) (ucast l) 0xFF) (base s + 0xFFFFFFFF) 0xFFFFFFFF 0xFF,
      mFvInstance := (mFvInstance s)\<lparr>Dirty := True\<rparr>\<rparr>)"
proof -
  let ?m = "SetMem (mem s) (base s) (ucast l) 0xFF"
  let ?s = "s\<lparr>mem := ?m, mFvInstance := (mFvInstance s)\<lparr>Dirty := True\<rparr>\<rparr>"
  have n: "2 \<le> unat n" "64 \<le> unat l" using assms(3,4) by (simp_all add: word_le_nat_alt)
  have l: "64 \<le> unat (ucast l :: u64)"
    using n unsigned_less[where 'a = nat, of l] by (simp add: unsigned_ucast_eq take_bit_nat_eq_self)
  have 1: "FvbEraseBlock 0 s = Some (EFI_SUCCESS, ?s)"
    using get_lba[OF assms(1), of 0] assms(2) n
    by (simp add: FvbEraseBlock_def FvbGetVolumeAttributes_def enabled_mask write_enabled_def VarStoreErase_def
        block_start_def nth_append)
  have h: "Map_NumBlocks ?m (Hdr_BlockMap (base s)) = - 1" "Map_Length ?m (Hdr_BlockMap (base s)) = - 1"
    "Hdr_Attributes ?m (base s) = - 1"
    using l rd_SetMem[of 56 4 "ucast l" "mem s" "base s", where 'a = 32] rd_SetMem[of 60 4 "ucast l" "mem s" "base s", where 'a = 32]
      rd_SetMem[of 44 4 "ucast l" "mem s" "base s", where 'a = 32]
    by (simp_all add: Map_NumBlocks_def Map_Length_def Hdr_BlockMap_def Hdr_Attributes_def add.assoc)
  have m: "(ucast (- 1 :: u32) :: u64) = 0xFFFFFFFF" by code_simp
  have "FvbGetLbaAddress 1 ?s = Some (Inr (base s + 0xFFFFFFFF, 0xFFFFFFFF, 0xFFFFFFFE))"
    unfolding FvbGetLbaAddress_def by (subst FvbLbaLoop.simps) (simp add: h m Let_def)
  then have 2: "FvbEraseBlock 1 ?s = Some (EFI_SUCCESS, s\<lparr>mem := SetMem ?m (base s + 0xFFFFFFFF) 0xFFFFFFFF 0xFF,
      mFvInstance := (mFvInstance s)\<lparr>Dirty := True\<rparr>\<rparr>)"
    by (simp add: FvbEraseBlock_def FvbGetVolumeAttributes_def h VarStoreErase_def)
  have c: "\<not> NumOfBlocks (mFvInstance s) < 2" using assms(5) by simp
  have "FvbEraseLbas 2 0 s = FvbEraseLbas (Suc (Suc 0)) 0 s" by (simp only: numeral_2_eq_2)
  with 1 2 c show ?thesis
    by (simp add: FvbProtocolEraseBlocks_def)
qed

theorem FvbProtocolEraseBlocks_header_witness:
  "map_option (\<lambda>(st, s'). (st, mem s' 0x10000FFFF)) (FvbProtocolEraseBlocks [0, 2, EFI_LBA_LIST_TERMINATOR] demo_volume)
     = Some (EFI_SUCCESS, 0xFF)"
  using FvbProtocolEraseBlocks_header[OF demo_volume_ok(1,2)] demo_volume_ok(4,5)
  by (simp add: SetMem_def)

text \<open>\<open>FvbSetVolumeAttributes\<close> takes a new setting exactly when the attributes that cannot change
  are kept, a locked volume keeps its status and the capabilities allow the new status. It then
  changes the three status bits in the header and no other bit of the memory; in every other
  case it changes nothing.\<close>

theorem FvbSetVolumeAttributes_exact:
  "case FvbSetVolumeAttributes A s of (st, A', s') \<Rightarrow>
     let old = Hdr_Attributes (mem s) (base s);
         ok = ((\<forall>i \<in> fixed_bits. bit old i = bit A i) \<and> (bit old 7 \<longrightarrow> (\<forall>i \<in> status_bits. bit old i = bit A i))
               \<and> attributes_allowed old A)
     in (st = EFI_SUCCESS \<longleftrightarrow> ok)
      \<and> (ok \<longrightarrow> A' = Hdr_Attributes (mem s') (base s)
          \<and> (\<forall>i < 32. bit A' i \<longleftrightarrow> (if i \<in> status_bits then bit A i else bit old i))
          \<and> s' = s\<lparr>mem := mem s'\<rparr> \<and> (\<forall>a. \<not> a - (base s + 44) < 4 \<longrightarrow> mem s' a = mem s a))
      \<and> (\<not> ok \<longrightarrow> A' = A \<and> s' = s \<and> st \<in> {EFI_INVALID_PARAMETER, EFI_ACCESS_DENIED})"
proof -
  let ?old = "Hdr_Attributes (mem s) (base s)"
  let ?new = "(?old AND NOT EFI_FVB2_STATUS) OR (A AND EFI_FVB2_STATUS)"
  have r: "Hdr_Attributes (wr 4 ?new (base s + 44) (mem s)) (base s) = ?new"
    unfolding Hdr_Attributes_def by (rule rd_wr_full) simp_all
  have b: "\<forall>i < 32. bit ?new i \<longleftrightarrow> (if i \<in> status_bits then bit A i else bit ?old i)"
    by (auto simp: bit_or_iff bit_and_iff bit_not_iff bit_masks)
  define P Q where "P \<longleftrightarrow> (\<forall>i \<in> fixed_bits. bit ?old i = bit A i)" and "Q \<longleftrightarrow> (\<forall>i \<in> status_bits. bit ?old i = bit A i)"
  have p: "(\<exists>i \<in> fixed_bits. bit ?old i \<noteq> bit A i) \<longleftrightarrow> \<not> P" "(\<exists>i \<in> status_bits. bit ?old i \<noteq> bit A i) \<longleftrightarrow> \<not> Q"
    by (auto simp: P_def Q_def)
  show ?thesis
    unfolding set_attributes Let_def p P_def[symmetric] Q_def[symmetric] using r b by (simp add: wr_def)
qed

theorem FvbSetVolumeAttributes_exact_witness:
  "fst (FvbSetVolumeAttributes 0x40C36 demo_volume) = EFI_SUCCESS \<and> fst (FvbSetVolumeAttributes 0x40C16 demo_volume) = EFI_INVALID_PARAMETER"
proof -
  have "Hdr_Attributes (mem demo_volume) (base demo_volume) = 0x40C36" by code_simp
  then show ?thesis
    using FvbSetVolumeAttributes_exact[where A = "0x40C36" and s = demo_volume] by (simp add: set_attributes Let_def attributes_allowed_def fixed_bits_def status_bits_def)
qed

text \<open>the bound check of \<open>FvbProtocolWrite\<close> adds \<open>*NumBytes + Offset\<close> modulo 2^64: a request whose
  sum wraps to a value inside the block is not cut, and the copy leaves the block.\<close>

theorem FvbProtocolWrite_wraps:
  assumes "volume s bm" "unat Lba < length (blocks bm)" "write_enabled s" "Buffer \<noteq> 0"
    and "unat Off \<le> blocks bm ! unat Lba" "2 ^ 64 \<le> unat Off + unat Num" "unat Off + unat Num - 2 ^ 64 \<le> blocks bm ! unat Lba"
  shows "FvbProtocolWrite Lba Off (Some Num) Buffer s =
      Some (EFI_SUCCESS, Some Num, s\<lparr>mem := CopyMem (mem s) (block_start s bm (unat Lba) + Off) Buffer Num,
        mFvInstance := (mFvInstance s)\<lparr>Dirty := True\<rparr>\<rparr>)
    \<and> blocks bm ! unat Lba < unat Num"
proof -
  let ?len = "blocks bm ! unat Lba"
  have l: "?len < 2 ^ 32" using blocks_less nth_mem[OF assms(2)] by blast
  have "unat Off < 2 ^ 64" "unat Num < 2 ^ 64"
    using unsigned_less[where 'a = nat, of Off] unsigned_less[where 'a = nat, of Num] by simp_all
  then have "(unat Num + unat Off) mod 2 ^ 64 = unat Off + unat Num - 2 ^ 64"
    using assms(6) le_mod_geq[of "2 ^ 64" "unat Num + unat Off"] by (simp add: add.commute)
  then have "unat (Num + Off) = unat Off + unat Num - 2 ^ 64"
    by (simp add: unat_word_ariths)
  then have "\<not> word_of_nat ?len < Num + Off" "\<not> word_of_nat ?len < Off"
    using assms(5,7) unat_block[OF assms(2)] by (simp_all add: word_less_nat_alt)
  moreover have "?len < unat Num" using assms(5,6) l by simp
  moreover from this have "Num \<noteq> 0" by auto
  ultimately show ?thesis
    using assms get_lba[OF assms(1), of Lba]
    by (simp add: FvbProtocolWrite_def FvbGetVolumeAttributes_def write_enabled_def enabled_mask VarStoreWrite_def Let_def)
qed

theorem FvbProtocolWrite_wraps_witness:
  "\<exists>s'. FvbProtocolWrite 1 1 (Some 0xFFFFFFFFFFFFFFFF) 0x9000 demo_volume = Some (EFI_SUCCESS, Some 0xFFFFFFFFFFFFFFFF, s')"
  using FvbProtocolWrite_wraps[OF demo_volume_ok(1) _ demo_volume_ok(2), of 1 "0x9000" 1 "0xFFFFFFFFFFFFFFFF"]
  unfolding demo_blocks by simp

end
