(* ===== verification/VarBlockServiceDxe.thy ===== *)
theory VarBlockServiceDxe
  imports VarBlockService
begin

text \<open>
  \<open>VarBlockServiceDxe.c\<close>, the events that keep the variable store on the boot medium, and
  \<open>FvbInitialize\<close> of \<open>VarBlockService.c\<close>, which installs them.

  The UEFI services are the members of the record \<open>services\<close>, functions of an opaque world:
  the boot services by their names, the device path library, the PCD database and the disk.
  A device path, a handle, an event or an interface is a pointer (\<open>nat\<close>, 0 is \<open>NULL\<close>). An \<open>ASSERT\<close> that
  fails gives \<open>None\<close>. \<open>DEBUG\<close> output is left out, but the text buffers made for it are allocated
  and freed as the code does.
\<close>

section \<open>Services\<close>

datatype protocol =
    gEfiFirmwareVolumeBlockProtocolGuid | gEfiDevicePathProtocolGuid | gEfiDiskIoProtocolGuid
  | gEfiBlockIoProtocolGuid | gEfiLoadedImageProtocolGuid

datatype event_group =
    gEfiEventVirtualAddressChangeGuid | gRk356xEventResetGuid | gEfiEventReadyToBootGuid

datatype notify_function =
    Notify_FvbVirtualAddressChangeEvent | Notify_DumpVars | Notify_ReadyToBootHandler | Notify_OnDiskIoInstall

datatype pcd_token =
    PcdFlashNvStorageVariableBase64 | PcdFlashNvStorageFtwWorkingBase | PcdFlashNvStorageFtwSpareBase
  | PcdNvStorageFtwWorkingBase | PcdNvStorageFtwSpareBase | PcdPlatformResetDelay
  | PcdMshcDxeBaseAddress | PcdEmmcDxeBaseAddress

datatype SOC_BOOT_DEVICE =
    SOC_BOOT_DEVICE_UNKNOWN | SOC_BOOT_DEVICE_NAND | SOC_BOOT_DEVICE_EMMC | SOC_BOOT_DEVICE_SPINOR
  | SOC_BOOT_DEVICE_SPINAND | SOC_BOOT_DEVICE_SD | SOC_BOOT_DEVICE_USB

text \<open>The first node of a device path, as far as \<open>IsBootDevice\<close> looks at it.\<close>

datatype device_node =
    HW_MEMMAP_DP u64
  | HW_VENDOR_DP bool u64
  | Other_DP

record media =
  MediaPresent :: bool
  ReadOnly :: bool
  Media_MediaId :: u32

record 'w services =
  AllocateRuntimeZeroPool :: "'w \<Rightarrow> nat \<times> 'w"
  AllocateRuntimePool :: "'w \<Rightarrow> nat \<times> 'w"
  AllocateCopyPool :: "'w \<Rightarrow> nat \<times> 'w"
  FreePool :: "nat \<Rightarrow> 'w \<Rightarrow> 'w"
  LocateDevicePath :: "protocol \<Rightarrow> nat \<Rightarrow> 'w \<Rightarrow> EFI_STATUS \<times> nat \<times> nat \<times> 'w"
  HandleProtocol :: "nat \<Rightarrow> protocol \<Rightarrow> 'w \<Rightarrow> EFI_STATUS \<times> nat \<times> 'w"
  InstallMultipleProtocolInterfaces :: "(protocol \<times> nat) list \<Rightarrow> 'w \<Rightarrow> EFI_STATUS \<times> 'w"
  ReinstallProtocolInterface :: "nat \<Rightarrow> protocol \<Rightarrow> nat \<Rightarrow> nat \<Rightarrow> 'w \<Rightarrow> EFI_STATUS \<times> 'w"
  IsDevicePathEnd :: "nat \<Rightarrow> 'w \<Rightarrow> bool"
  CreateEvent :: "notify_function \<Rightarrow> event_group option \<Rightarrow> 'w \<Rightarrow> EFI_STATUS \<times> nat \<times> 'w"
  CloseEvent :: "nat \<Rightarrow> 'w \<Rightarrow> EFI_STATUS \<times> 'w"
  RegisterProtocolNotify :: "protocol \<Rightarrow> nat \<Rightarrow> 'w \<Rightarrow> EFI_STATUS \<times> nat \<times> 'w"
  LocateHandle :: "nat \<Rightarrow> 'w \<Rightarrow> EFI_STATUS \<times> nat \<times> 'w"
  DevicePathFromHandle :: "nat \<Rightarrow> 'w \<Rightarrow> nat"
  DuplicateDevicePath :: "nat \<Rightarrow> 'w \<Rightarrow> nat \<times> 'w"
  ConvertDevicePathToText :: "nat \<Rightarrow> 'w \<Rightarrow> nat \<times> 'w"
  DeviceNode :: "nat \<Rightarrow> 'w \<Rightarrow> device_node"
  Media :: "nat \<Rightarrow> 'w \<Rightarrow> media"
  WriteDisk :: "nat \<Rightarrow> u32 \<Rightarrow> u64 \<Rightarrow> u8 list \<Rightarrow> 'w \<Rightarrow> EFI_STATUS \<times> 'w"
  PcdGet :: "pcd_token \<Rightarrow> 'w \<Rightarrow> u64"
  PcdSet :: "pcd_token \<Rightarrow> u64 \<Rightarrow> 'w \<Rightarrow> EFI_STATUS \<times> 'w"
  MmioRead32 :: "u64 \<Rightarrow> 'w \<Rightarrow> u32"
  EfiConvertPointer :: "u64 \<Rightarrow> 'w \<Rightarrow> u64"

datatype fv_device_path =
    FV_MEMMAP_DEVICE_PATH u64 u64
  | FV_PIWG_DEVICE_PATH "128 word"

text \<open>
  The driver: the block service, the world and the other globals. \<open>FvbDevice_DevicePath\<close> and
  \<open>FvDevicePath\<close> are the pointer in \<open>EFI_FW_VOL_BLOCK_DEVICE\<close> and the path it is made with.
\<close>

record 'w driver =
  Fvb :: fvb
  World :: 'w
  mDiskIoRegistration :: nat
  FvbDevice_DevicePath :: nat
  FvDevicePath :: "fv_device_path option"

definition set_inst :: "(EFI_FW_VOL_INSTANCE \<Rightarrow> EFI_FW_VOL_INSTANCE) \<Rightarrow> 'w driver \<Rightarrow> 'w driver" where
  "set_inst f d = d\<lparr>Fvb := (Fvb d)\<lparr>mFvInstance := f (mFvInstance (Fvb d))\<rparr>\<rparr>"




section \<open>Installing the protocol\<close>


text \<open>
  \<open>FvBase\<close> and \<open>VolumeHeader\<close> are one union member, so the first two conversions apply to the same
  word. The conversion of the pointer \<open>mFvInstance\<close> itself has no counterpart: the instance is a
  value here.
\<close>

definition FvbVirtualAddressChangeEvent :: "'w services \<Rightarrow> 'w driver \<Rightarrow> 'w driver" where
  "FvbVirtualAddressChangeEvent gBS d =
    (let d = set_inst (\<lambda>i. i\<lparr>FvBase := EfiConvertPointer gBS (FvBase i) (World d)\<rparr>) d;
         d = set_inst (\<lambda>i. i\<lparr>FvBase := EfiConvertPointer gBS (FvBase i) (World d)\<rparr>) d
     in set_inst (\<lambda>i. i\<lparr>Device := unat (EfiConvertPointer gBS (word_of_nat (Device i)) (World d))\<rparr>) d)"


section \<open>Writing the store to disk\<close>






section \<open>Finding the boot medium\<close>







section \<open>Initialisation\<close>






section \<open>The header of a new store\<close>





















section \<open>Initialisation of the service\<close>














section \<open>The store on the medium\<close>



























end
