(* ===== verification/SdMmcHw.thy ===== *)
theory SdMmcHw
  imports Prelude
begin

unbundle bit_operations_syntax

text \<open>
  The data of the SD/MMC driver: \<open>src/Microsoft/MsPkg/Drivers/SdMmcDxe/SdMmcHw.h\<close> and \<open>SdMmc.h\<close>, the SDHC
  protocol it is a client of (\<open>src/Microsoft/MsPkg/Include/Protocol/Sdhc.h\<close>), and the command table of \<open>Protocol.c\<close>.

  The card registers are packed structures of bit-fields over the response of the controller, so a
  register is a word and a member is a slice of it: \<open>CmdResponse\<close> is the array of four 32-bit words
  read as one 128-bit word, lowest word first, and \<open>CID\<close> and \<open>CSD\<close> are its low 120 bits. The union of the
  SD and MMC registers has \<open>Ocr\<close>, \<open>Cid\<close> and \<open>Csd\<close> at the same offsets in both members, so it is one set of fields. A
  buffer is a function from offsets to bytes, of which a call writes the offsets it is told to.

  The host controller and the boot services are functions on a world of type \<open>'d\<close> that the instance carries in
  \<open>Device\<close>.
\<close>

section \<open>Commands\<close>

datatype SD_COMMAND_TYPE =
    SdCommandTypeUndefined | SdCommandTypeSuspend | SdCommandTypeResume | SdCommandTypeAbort

datatype SD_COMMAND_CLASS = SdCommandClassUndefined | SdCommandClassStandard | SdCommandClassApp

datatype SD_RESPONSE_TYPE =
    SdResponseTypeUndefined | SdResponseTypeNone | SdResponseTypeR1 | SdResponseTypeR1B
  | SdResponseTypeR2 | SdResponseTypeR3 | SdResponseTypeR4 | SdResponseTypeR5
  | SdResponseTypeR5B | SdResponseTypeR6

datatype SD_TRANSFER_TYPE =
    SdTransferTypeUndefined | SdTransferTypeNone | SdTransferTypeSingleBlock
  | SdTransferTypeMultiBlock | SdTransferTypeMultiBlockNoStop

datatype SD_TRANSFER_DIRECTION =
    SdTransferDirectionUndefined | SdTransferDirectionRead | SdTransferDirectionWrite

datatype SD_BUS_WIDTH = SdBusWidthUndefined | SdBusWidth1Bit | SdBusWidth4Bit | SdBusWidth8Bit

datatype SDHC_RESET_TYPE =
    SdhcResetTypeUndefined | SdhcResetTypeAll | SdhcResetTypeCmd | SdhcResetTypeData

record SD_COMMAND =
  Index :: u16
  Type :: SD_COMMAND_TYPE
  Class :: SD_COMMAND_CLASS
  ResponseType :: SD_RESPONSE_TYPE
  TransferType :: SD_TRANSFER_TYPE
  TransferDirection :: SD_TRANSFER_DIRECTION

definition SD_COMMAND_init ::
  "u16 \<Rightarrow> SD_COMMAND_TYPE \<Rightarrow> SD_COMMAND_CLASS \<Rightarrow> SD_RESPONSE_TYPE \<Rightarrow> SD_TRANSFER_TYPE \<Rightarrow>
    SD_TRANSFER_DIRECTION \<Rightarrow> SD_COMMAND" where
  "SD_COMMAND_init i t c r x d = \<lparr>Index = i, Type = t, Class = c, ResponseType = r,
     TransferType = x, TransferDirection = d\<rparr>"

definition CmdsAreEqual :: "SD_COMMAND option \<Rightarrow> SD_COMMAND option \<Rightarrow> bool option" where
  "CmdsAreEqual pLeft pRight = do {
     l \<leftarrow> pLeft;
     r \<leftarrow> pRight;
     Some (Class l = Class r \<and> Index l = Index r \<and> ResponseType l = ResponseType r \<and>
       TransferDirection l = TransferDirection r \<and> TransferType l = TransferType r \<and> Type l = Type r)
   }"

lemma CmdsAreEqual_eq [simp]: "CmdsAreEqual (Some l) (Some r) = Some (l = r)"
  by (auto simp: CmdsAreEqual_def intro!: SD_COMMAND.equality)

lemma CmdsAreEqual_NULL [simp]: "CmdsAreEqual None r = None"
  by (simp add: CmdsAreEqual_def)

section \<open>The command table\<close>

definition CmdGoIdleState :: SD_COMMAND where
  "CmdGoIdleState = SD_COMMAND_init 0 SdCommandTypeUndefined SdCommandClassStandard
     SdResponseTypeNone SdTransferTypeNone SdTransferDirectionUndefined"

definition CmdSendOpCondMmc :: SD_COMMAND where
  "CmdSendOpCondMmc = SD_COMMAND_init 1 SdCommandTypeUndefined SdCommandClassStandard
     SdResponseTypeR3 SdTransferTypeNone SdTransferDirectionUndefined"

definition CmdSendCidAll :: SD_COMMAND where
  "CmdSendCidAll = SD_COMMAND_init 2 SdCommandTypeUndefined SdCommandClassStandard
     SdResponseTypeR2 SdTransferTypeNone SdTransferDirectionUndefined"

definition CmdSendRelativeAddr :: SD_COMMAND where
  "CmdSendRelativeAddr = SD_COMMAND_init 3 SdCommandTypeUndefined SdCommandClassStandard
     SdResponseTypeR6 SdTransferTypeNone SdTransferDirectionUndefined"

definition CmdSendOpCondSdio :: SD_COMMAND where
  "CmdSendOpCondSdio = SD_COMMAND_init 5 SdCommandTypeUndefined SdCommandClassStandard
     SdResponseTypeR4 SdTransferTypeNone SdTransferDirectionUndefined"

definition CmdSwitchSd :: SD_COMMAND where
  "CmdSwitchSd = SD_COMMAND_init 6 SdCommandTypeUndefined SdCommandClassStandard
     SdResponseTypeR1 SdTransferTypeSingleBlock SdTransferDirectionRead"

definition CmdSwitchMmc :: SD_COMMAND where
  "CmdSwitchMmc = SD_COMMAND_init 6 SdCommandTypeUndefined SdCommandClassStandard
     SdResponseTypeR1B SdTransferTypeNone SdTransferDirectionUndefined"

definition CmdAppSetBusWidthSd :: SD_COMMAND where
  "CmdAppSetBusWidthSd = SD_COMMAND_init 6 SdCommandTypeUndefined SdCommandClassApp
     SdResponseTypeR1 SdTransferTypeNone SdTransferDirectionUndefined"

definition CmdSelect :: SD_COMMAND where
  "CmdSelect = SD_COMMAND_init 7 SdCommandTypeUndefined SdCommandClassStandard
     SdResponseTypeR1B SdTransferTypeNone SdTransferDirectionUndefined"

definition CmdDeselect :: SD_COMMAND where
  "CmdDeselect = SD_COMMAND_init 7 SdCommandTypeUndefined SdCommandClassStandard
     SdResponseTypeNone SdTransferTypeNone SdTransferDirectionUndefined"

definition CmdSendIfCondSd :: SD_COMMAND where
  "CmdSendIfCondSd = SD_COMMAND_init 8 SdCommandTypeUndefined SdCommandClassStandard
     SdResponseTypeR6 SdTransferTypeNone SdTransferDirectionUndefined"

definition CmdSendExtCsdMmc :: SD_COMMAND where
  "CmdSendExtCsdMmc = SD_COMMAND_init 8 SdCommandTypeUndefined SdCommandClassStandard
     SdResponseTypeR1 SdTransferTypeSingleBlock SdTransferDirectionRead"

definition CmdSendCsd :: SD_COMMAND where
  "CmdSendCsd = SD_COMMAND_init 9 SdCommandTypeUndefined SdCommandClassStandard
     SdResponseTypeR2 SdTransferTypeNone SdTransferDirectionUndefined"

definition CmdSendCid :: SD_COMMAND where
  "CmdSendCid = SD_COMMAND_init 10 SdCommandTypeUndefined SdCommandClassStandard
     SdResponseTypeR2 SdTransferTypeNone SdTransferDirectionUndefined"

definition CmdSwitchVoltageSd :: SD_COMMAND where
  "CmdSwitchVoltageSd = SD_COMMAND_init 11 SdCommandTypeUndefined SdCommandClassStandard
     SdResponseTypeR1 SdTransferTypeNone SdTransferDirectionUndefined"

definition CmdStopTransmission :: SD_COMMAND where
  "CmdStopTransmission = SD_COMMAND_init 12 SdCommandTypeAbort SdCommandClassStandard
     SdResponseTypeR1B SdTransferTypeNone SdTransferDirectionUndefined"

definition CmdSendStatus :: SD_COMMAND where
  "CmdSendStatus = SD_COMMAND_init 13 SdCommandTypeUndefined SdCommandClassStandard
     SdResponseTypeR1 SdTransferTypeNone SdTransferDirectionUndefined"

definition CmdBusTestReadMmc :: SD_COMMAND where
  "CmdBusTestReadMmc = SD_COMMAND_init 14 SdCommandTypeUndefined SdCommandClassStandard
     SdResponseTypeR1 SdTransferTypeSingleBlock SdTransferDirectionRead"

definition CmdSetBlockLength :: SD_COMMAND where
  "CmdSetBlockLength = SD_COMMAND_init 16 SdCommandTypeUndefined SdCommandClassStandard
     SdResponseTypeR1 SdTransferTypeNone SdTransferDirectionUndefined"

definition CmdReadSingleBlock :: SD_COMMAND where
  "CmdReadSingleBlock = SD_COMMAND_init 17 SdCommandTypeUndefined SdCommandClassStandard
     SdResponseTypeR1 SdTransferTypeSingleBlock SdTransferDirectionRead"

definition CmdReadMultiBlock :: SD_COMMAND where
  "CmdReadMultiBlock = SD_COMMAND_init 18 SdCommandTypeUndefined SdCommandClassStandard
     SdResponseTypeR1 SdTransferTypeMultiBlock SdTransferDirectionRead"

definition CmdBusTestWriteMmc :: SD_COMMAND where
  "CmdBusTestWriteMmc = SD_COMMAND_init 19 SdCommandTypeUndefined SdCommandClassStandard
     SdResponseTypeR1 SdTransferTypeSingleBlock SdTransferDirectionWrite"

definition CmdSetBlockCount :: SD_COMMAND where
  "CmdSetBlockCount = SD_COMMAND_init 23 SdCommandTypeUndefined SdCommandClassStandard
     SdResponseTypeR1 SdTransferTypeNone SdTransferDirectionUndefined"

definition CmdWriteSingleBlock :: SD_COMMAND where
  "CmdWriteSingleBlock = SD_COMMAND_init 24 SdCommandTypeUndefined SdCommandClassStandard
     SdResponseTypeR1 SdTransferTypeSingleBlock SdTransferDirectionWrite"

definition CmdWriteMultiBlock :: SD_COMMAND where
  "CmdWriteMultiBlock = SD_COMMAND_init 25 SdCommandTypeUndefined SdCommandClassStandard
     SdResponseTypeR1 SdTransferTypeMultiBlock SdTransferDirectionWrite"

definition CmdAppSendOpCondSd :: SD_COMMAND where
  "CmdAppSendOpCondSd = SD_COMMAND_init 41 SdCommandTypeUndefined SdCommandClassApp
     SdResponseTypeR3 SdTransferTypeNone SdTransferDirectionUndefined"

definition CmdAppSetClrCardDetectSd :: SD_COMMAND where
  "CmdAppSetClrCardDetectSd = SD_COMMAND_init 42 SdCommandTypeUndefined SdCommandClassApp
     SdResponseTypeR1 SdTransferTypeNone SdTransferDirectionUndefined"

definition CmdAppSendScrSd :: SD_COMMAND where
  "CmdAppSendScrSd = SD_COMMAND_init 51 SdCommandTypeUndefined SdCommandClassApp
     SdResponseTypeR1 SdTransferTypeSingleBlock SdTransferDirectionRead"

definition CmdAppSd :: SD_COMMAND where
  "CmdAppSd = SD_COMMAND_init 55 SdCommandTypeUndefined SdCommandClassApp
     SdResponseTypeR1 SdTransferTypeNone SdTransferDirectionUndefined"

lemmas SD_COMMANDS = CmdGoIdleState_def CmdSendOpCondMmc_def CmdSendCidAll_def CmdSendRelativeAddr_def
  CmdSendOpCondSdio_def CmdSwitchSd_def CmdSwitchMmc_def CmdAppSetBusWidthSd_def
  CmdSelect_def CmdDeselect_def CmdSendIfCondSd_def CmdSendExtCsdMmc_def
  CmdSendCsd_def CmdSendCid_def CmdSwitchVoltageSd_def CmdStopTransmission_def
  CmdSendStatus_def CmdBusTestReadMmc_def CmdSetBlockLength_def CmdReadSingleBlock_def
  CmdReadMultiBlock_def CmdBusTestWriteMmc_def CmdSetBlockCount_def CmdWriteSingleBlock_def
  CmdWriteMultiBlock_def CmdAppSendOpCondSd_def CmdAppSetClrCardDetectSd_def CmdAppSendScrSd_def
  CmdAppSd_def
  SD_COMMAND_init_def

section \<open>Registers of the card\<close>

type_synonym buffer = "nat \<Rightarrow> u8"

definition within :: "nat \<Rightarrow> buffer \<Rightarrow> buffer \<Rightarrow> buffer" where
  "within n new old = (\<lambda>i. if i < n then new i else old i)"

definition buffer_u32 :: "buffer \<Rightarrow> nat \<Rightarrow> u32" where
  "buffer_u32 b i = ucast (b i) OR push_bit 8 (ucast (b (i + 1)))
     OR push_bit 16 (ucast (b (i + 2))) OR push_bit 24 (ucast (b (i + 3)))"

definition READY_FOR_DATA :: "u32 \<Rightarrow> bool" where
  "READY_FOR_DATA st = (bf_get 8 1 st \<noteq> 0)"

definition CURRENT_STATE :: "u32 \<Rightarrow> u32" where
  "CURRENT_STATE st = bf_get 9 4 st"

abbreviation (input) CardStateTran :: u32 where "CardStateTran \<equiv> 4"
abbreviation (input) MMC_CARD_STATUS_ERROR_MASK :: u32 where "MMC_CARD_STATUS_ERROR_MASK \<equiv> 0xFDFFA080"
abbreviation (input) SD_CARD_STATUS_ERROR_MASK :: u32 where "SD_CARD_STATUS_ERROR_MASK \<equiv> 0xFDF9A008"
abbreviation (input) SD_CMD8_VOLTAGE_27_36 :: u32 where "SD_CMD8_VOLTAGE_27_36 \<equiv> 1"
abbreviation (input) SD_OCR_HIGH_VOLTAGE_WINDOW :: u32 where "SD_OCR_HIGH_VOLTAGE_WINDOW \<equiv> 0x00FF8000"
abbreviation (input) SdOcrAccessSectorMode :: u32 where "SdOcrAccessSectorMode \<equiv> 2"
abbreviation (input) SD_BLOCK_LENGTH_BYTES :: u32 where "SD_BLOCK_LENGTH_BYTES \<equiv> 512"
abbreviation (input) SD_IDENT_MODE_CLOCK_FREQ_HZ :: u32 where "SD_IDENT_MODE_CLOCK_FREQ_HZ \<equiv> 400000"
abbreviation (input) MMC_HIGH_SPEED_MODE_CLOCK_FREQ_HZ :: u32 where "MMC_HIGH_SPEED_MODE_CLOCK_FREQ_HZ \<equiv> 52000000"
abbreviation (input) MMC_MIN_SUPPORTED_SPEC_VERS :: nat where "MMC_MIN_SUPPORTED_SPEC_VERS \<equiv> 4"
abbreviation (input) SDMMC_POLL_WAIT_COUNT :: nat where "SDMMC_POLL_WAIT_COUNT \<equiv> 200"
abbreviation (input) SDMMC_POLL_WAIT_TIME_US :: u64 where "SDMMC_POLL_WAIT_TIME_US \<equiv> 10000"
abbreviation (input) SDMMC_ERROR_RECOVERY_ATTEMPT_THRESHOLD :: u32 where
  "SDMMC_ERROR_RECOVERY_ATTEMPT_THRESHOLD \<equiv> 3"

definition VoltageWindow :: "u32 \<Rightarrow> u32" where "VoltageWindow ocr = bf_get 0 24 ocr"
definition AccessMode :: "u32 \<Rightarrow> u32" where "AccessMode ocr = bf_get 29 2 ocr"
definition PowerUp :: "u32 \<Rightarrow> bool" where "PowerUp ocr = (bf_get 31 1 ocr \<noteq> 0)"
definition CCS :: "u32 \<Rightarrow> bool" where "CCS ocr = (bf_get 30 1 ocr \<noteq> 0)"
definition CheckPattern :: "u32 \<Rightarrow> u32" where "CheckPattern r = bf_get 0 8 r"
definition VoltageSupplied :: "u32 \<Rightarrow> u32" where "VoltageSupplied r = bf_get 8 4 r"

text \<open>
  The members of \<open>SD_CSD\<close>, \<open>SD_CSD_2\<close> and \<open>MMC_CSD\<close> that the driver reads, and the serial number of \<open>SD_CID\<close>
  and \<open>MMC_CID\<close>. The comments of the structures give bit positions of the register, whose lowest
  byte (its CRC) the controller drops, so they are 8 more than the offsets here.
\<close>

definition csd_field :: "nat \<Rightarrow> nat \<Rightarrow> 120 word \<Rightarrow> nat" where
  "csd_field off n r = unat (bf_get off n r)"

definition C_SIZELow2 :: "120 word \<Rightarrow> nat" where "C_SIZELow2 r = csd_field 54 2 r"
definition C_SIZEHigh10 :: "120 word \<Rightarrow> nat" where "C_SIZEHigh10 r = csd_field 56 10 r"
definition C_SIZE_MULT :: "120 word \<Rightarrow> nat" where "C_SIZE_MULT r = csd_field 39 3 r"
definition READ_BL_LEN :: "120 word \<Rightarrow> nat" where "READ_BL_LEN r = csd_field 72 4 r"
definition C_SIZE :: "120 word \<Rightarrow> nat" where "C_SIZE r = csd_field 40 22 r"
definition TRAN_SPEED :: "120 word \<Rightarrow> nat" where "TRAN_SPEED r = csd_field 88 8 r"
definition SPEC_VERS :: "120 word \<Rightarrow> nat" where "SPEC_VERS r = csd_field 114 4 r"
definition CSD_STRUCTURE :: "120 word \<Rightarrow> nat" where "CSD_STRUCTURE r = csd_field 118 2 r"
definition SD_CID_PSN :: "120 word \<Rightarrow> u32" where "SD_CID_PSN r = ucast (bf_get 16 32 r)"
definition MMC_CID_PSN :: "120 word \<Rightarrow> u32" where "MMC_CID_PSN r = ucast (bf_get 8 32 r)"

text \<open>The bytes of \<open>MMC_EXT_CSD\<close> that the driver reads.\<close>

definition RpmbSizeMult_ext :: "buffer \<Rightarrow> u8" where "RpmbSizeMult_ext x = x 168"
definition PartitionConfig :: "buffer \<Rightarrow> u8" where "PartitionConfig x = x 179"
definition HighSpeedTiming :: "buffer \<Rightarrow> u8" where "HighSpeedTiming x = x 185"
definition PowerClass :: "buffer \<Rightarrow> u8" where "PowerClass x = x 187"
definition PowerClass52Mhz36V :: "buffer \<Rightarrow> u8" where "PowerClass52Mhz36V x = x 202"
definition PowerClass26Mhz36V :: "buffer \<Rightarrow> u8" where "PowerClass26Mhz36V x = x 203"
definition SectorCount :: "buffer \<Rightarrow> u32" where "SectorCount x = buffer_u32 x 212"
definition ReliableWriteSectorCount :: "buffer \<Rightarrow> u8" where "ReliableWriteSectorCount x = x 222"

text \<open>\<open>MMC_SWITCH_CMD_ARG\<close>, its indices and access types, and \<open>MMC_EXT_CSD_PARTITION_CONFIG\<close>.\<close>

definition MMC_SWITCH_CMD_ARG :: "u32 \<Rightarrow> u32 \<Rightarrow> u32 \<Rightarrow> u32" where
  "MMC_SWITCH_CMD_ARG access index value = bf_set 8 8 value (bf_set 16 8 index (bf_set 24 2 access 0))"

abbreviation (input) MmcSwitchCmdAccessTypeWriteByte :: u32 where "MmcSwitchCmdAccessTypeWriteByte \<equiv> 3"
abbreviation (input) MmcExtCsdBitIndexPartitionConfig :: u32 where "MmcExtCsdBitIndexPartitionConfig \<equiv> 179"
abbreviation (input) MmcExtCsdBitIndexBusWidth :: u32 where "MmcExtCsdBitIndexBusWidth \<equiv> 183"
abbreviation (input) MmcExtCsdBitIndexHsTiming :: u32 where "MmcExtCsdBitIndexHsTiming \<equiv> 185"
abbreviation (input) MmcExtCsdBusWidth8Bit :: u32 where "MmcExtCsdBusWidth8Bit \<equiv> 2"
abbreviation (input) MmcExtCsdPartitionAccessUserArea :: u8 where "MmcExtCsdPartitionAccessUserArea \<equiv> 0"
abbreviation (input) MmcExtCsdPartitionAccessRpmb :: u8 where "MmcExtCsdPartitionAccessRpmb \<equiv> 3"

definition PARTITION_ACCESS :: "u8 \<Rightarrow> u8" where "PARTITION_ACCESS c = bf_get 0 3 c"
definition set_PARTITION_ACCESS :: "u8 \<Rightarrow> u8 \<Rightarrow> u8" where "set_PARTITION_ACCESS p c = bf_set 0 3 p c"
definition MMC_EXT_CSD_POWER_CLASS_8BIT :: "u8 \<Rightarrow> u8" where
  "MMC_EXT_CSD_POWER_CLASS_8BIT x = drop_bit 4 x"

section \<open>The instance\<close>

datatype CARD_SPEED_MODE = CardSpeedModeUndefined | CardSpeedModeNormalSpeed | CardSpeedModeHighSpeed

datatype CARD_FUNCTION =
    CardFunctionUnknown | CardFunctionSd | CardFunctionSdio | CardFunctionComboSdSdio | CardFunctionMmc

record CARD_INFO =
  RCA :: u32
  CardFunction :: CARD_FUNCTION
  HasExtendedOcr :: bool
  HighCapacity :: bool
  ByteCapacity :: u64
  CurrentSpeedMode :: CARD_SPEED_MODE
  Ocr :: u32
  Cid :: "120 word"
  Csd :: "120 word"
  ExtCsd :: buffer

definition CARD_INFO_zero :: CARD_INFO where
  "CARD_INFO_zero = \<lparr>RCA = 0, CardFunction = CardFunctionUnknown, HasExtendedOcr = False,
     HighCapacity = False, ByteCapacity = 0, CurrentSpeedMode = CardSpeedModeUndefined, Ocr = 0,
     Cid = 0, Csd = 0, ExtCsd = (\<lambda>_. 0)\<rparr>"

record EFI_BLOCK_IO_MEDIA =
  MediaId :: u32
  RemovableMedia :: bool
  MediaPresent :: bool
  LogicalPartition :: bool
  ReadOnly :: bool
  WriteCaching :: bool
  BlockSize :: u32
  IoAlign :: u32
  LastBlock :: u64
  LowestAlignedLba :: u64
  LogicalBlocksPerPhysicalBlock :: u32
  OptimalTransferLengthGranularity :: u32

definition gSdhcMediaTemplate :: EFI_BLOCK_IO_MEDIA where
  "gSdhcMediaTemplate = \<lparr>MediaId = 0, RemovableMedia = True, MediaPresent = False,
     LogicalPartition = False, ReadOnly = False, WriteCaching = False, BlockSize = SD_BLOCK_LENGTH_BYTES,
     IoAlign = 4, LastBlock = 0, LowestAlignedLba = 0, LogicalBlocksPerPhysicalBlock = 0,
     OptimalTransferLengthGranularity = 0\<rparr>"

record RPMB_IO =
  RpmbCid :: "128 word"
  ReliableSectorCount :: u8
  RpmbSizeMult :: u8

record SDHC_CAPABILITIES =
  MaximumBlockSize :: u32
  MaximumBlockCount :: u32

text \<open>The slot node of the device path: not set yet, or that of an SD card or of an eMMC.\<close>

datatype SLOT_NODE = SLOT_NODE_NONE | MSG_SD_DP | MSG_EMMC_DP

record 'd SDHC_INSTANCE =
  SlotInitialized :: bool
  SlotNode :: SLOT_NODE
  Media :: EFI_BLOCK_IO_MEDIA
  RpmbIo :: RPMB_IO
  HostCapabilities :: SDHC_CAPABILITIES
  DevicePathProtocolInstalled :: bool
  BlockIoProtocolInstalled :: bool
  RpmbIoProtocolInstalled :: bool
  CurrentMmcPartition :: u8
  CardInfo :: CARD_INFO
  BlockBuffer :: buffer
  CmdResponse :: "128 word"
  PreLastSuccessfulCmd :: "SD_COMMAND option"
  LastSuccessfulCmd :: "SD_COMMAND option"
  ErrorRecoveryAttemptCount :: u32
  Device :: 'd

section \<open>The services the driver calls\<close>

record SD_COMMAND_XFR_INFO =
  XfrBlockSize :: u32
  XfrBlockCount :: u32
  XfrBuffer :: buffer

datatype PROTOCOL = gEfiBlockIoProtocolGuid | gEfiDevicePathProtocolGuid | gEfiRpmbIoProtocolGuid

text \<open>
  The members of \<open>EFI_SDHC_PROTOCOL\<close> and the boot services. \<open>SendCommand\<close>, \<open>ReadBlockData\<close> and \<open>ReceiveResponse\<close> get the memory that
  they may write and return it; the driver keeps what they return of the range it passed.
\<close>

record 'd sdhc_services =
  SoftwareReset :: "SDHC_RESET_TYPE \<Rightarrow> 'd \<Rightarrow> EFI_STATUS \<times> 'd"
  SetClock :: "u32 \<Rightarrow> 'd \<Rightarrow> EFI_STATUS \<times> 'd"
  SetBusWidth :: "SD_BUS_WIDTH \<Rightarrow> 'd \<Rightarrow> EFI_STATUS \<times> 'd"
  IsCardPresent :: "'d \<Rightarrow> bool \<times> 'd"
  IsReadOnly :: "'d \<Rightarrow> bool \<times> 'd"
  SendCommand :: "SD_COMMAND \<Rightarrow> u32 \<Rightarrow> SD_COMMAND_XFR_INFO option \<Rightarrow> 'd \<Rightarrow> (EFI_STATUS \<times> buffer) \<times> 'd"
  ReceiveResponse :: "SD_COMMAND \<Rightarrow> 128 word \<Rightarrow> 'd \<Rightarrow> (EFI_STATUS \<times> 128 word) \<times> 'd"
  ReadBlockData :: "u64 \<Rightarrow> buffer \<Rightarrow> 'd \<Rightarrow> (EFI_STATUS \<times> buffer) \<times> 'd"
  WriteBlockData :: "u64 \<Rightarrow> buffer \<Rightarrow> 'd \<Rightarrow> EFI_STATUS \<times> 'd"
  Stall :: "u64 \<Rightarrow> 'd \<Rightarrow> EFI_STATUS \<times> 'd"
  InstallProtocol :: "PROTOCOL \<Rightarrow> 'd \<Rightarrow> EFI_STATUS \<times> 'd"
  UninstallProtocol :: "PROTOCOL \<Rightarrow> 'd \<Rightarrow> EFI_STATUS \<times> 'd"
  LocateRpmbIo :: "'d \<Rightarrow> EFI_STATUS \<times> 'd"
  ConvertDevicePathToText :: "'d \<Rightarrow> bool \<times> 'd"
  FreeText :: "'d \<Rightarrow> unit \<times> 'd"

definition on_device :: "('d \<Rightarrow> 'a \<times> 'd) \<Rightarrow> 'd SDHC_INSTANCE \<Rightarrow> ('a \<times> 'd SDHC_INSTANCE) option" where
  "on_device f s = Some (fst (f (Device s)), s\<lparr>Device := snd (f (Device s))\<rparr>)"

text \<open>
  \<open>ok_then m f\<close> is the idiom \<open>Status = m; if (EFI_ERROR (Status)) return Status; f\<close>, and \<open>steps\<close> a
  sequence of such calls that ends in \<open>return EFI_SUCCESS\<close>.
\<close>

definition ok_then ::
  "(EFI_STATUS \<times> 's) option \<Rightarrow> ('s \<Rightarrow> (EFI_STATUS \<times> 's) option) \<Rightarrow> (EFI_STATUS \<times> 's) option" where
  "ok_then m f = do {
     (Status, s) \<leftarrow> m;
     if EFI_ERROR Status then Some (Status, s) else f s
   }"

primrec steps :: "('s \<Rightarrow> (EFI_STATUS \<times> 's) option) list \<Rightarrow> 's \<Rightarrow> (EFI_STATUS \<times> 's) option" where
  "steps [] s = Some (EFI_SUCCESS, s)"
| "steps (f # fs) s = ok_then (f s) (steps fs)"

end
