(* ===== verification/SdMmcProtocol.thy ===== *)
theory SdMmcProtocol
  imports SdMmcHw
begin

unbundle bit_operations_syntax

text \<open>
  The command protocol of the SD/MMC driver, \<open>src/Microsoft/MsPkg/Drivers/SdMmcDxe/Protocol.c\<close>, and \<open>SoftReset\<close> of \<open>SdMmc.c\<close>,
  which error recovery calls.

  The routines are mutually recursive: a command that fails starts \<open>SdhcRecoverFromErrors\<close>, which sends
  commands and may reset and initialise the device with further commands. Each routine here
  has the recovery routine as an argument \<open>R\<close>; \<open>RecoverBody\<close> is the body of \<open>SdhcRecoverFromErrors\<close> over such an \<open>R\<close>,
  and \<open>SdhcRecoverFromErrors\<close> ties the knot by recursion on the attempts that
  \<open>ErrorRecoveryAttemptCount\<close> leaves. That it satisfies the recursive equation of the code is a theorem of \<open>SdMmcRun\<close>.

  \<open>None\<close> is a failed \<open>ASSERT\<close>.
\<close>

type_synonym 'd outcome = "(EFI_STATUS \<times> 'd SDHC_INSTANCE) option"
type_synonym 'd recovery = "SD_COMMAND \<Rightarrow> 'd SDHC_INSTANCE \<Rightarrow> 'd outcome"

section \<open>Commands\<close>

text \<open>
  \<open>IsCardStatusError\<close> returns \<open>CardStatus.AsUint32 & MASK\<close> as a \<open>BOOLEAN\<close>, which UEFI defines as one byte: the
  conversion keeps the low eight bits.
\<close>

definition IsCardStatusError :: "'d SDHC_INSTANCE \<Rightarrow> u32 \<Rightarrow> u8 option" where
  "IsCardStatusError s CardStatus =
    (case CardFunction (CardInfo s) of
       CardFunctionSd \<Rightarrow> Some (ucast (CardStatus AND SD_CARD_STATUS_ERROR_MASK))
     | CardFunctionMmc \<Rightarrow> Some (ucast (CardStatus AND MMC_CARD_STATUS_ERROR_MASK))
     | _ \<Rightarrow> None)"

definition RCA_arg :: "'d SDHC_INSTANCE \<Rightarrow> u32" where
  "RCA_arg s = push_bit 16 (RCA (CardInfo s))"

definition XfrInfo_set :: "SD_COMMAND_XFR_INFO option \<Rightarrow> buffer \<Rightarrow> SD_COMMAND_XFR_INFO option" where
  "XfrInfo_set x b = map_option (\<lambda>i. i\<lparr>XfrBuffer :=
     within (unat (XfrBlockSize i) * unat (XfrBlockCount i)) b (XfrBuffer i)\<rparr>) x"

definition SdhcSendCommandHelper ::
  "'d sdhc_services \<Rightarrow> SD_COMMAND \<Rightarrow> u32 \<Rightarrow> SD_COMMAND_XFR_INFO option \<Rightarrow> 'd SDHC_INSTANCE \<Rightarrow>
    ((EFI_STATUS \<times> SD_COMMAND_XFR_INFO option) \<times> 'd SDHC_INSTANCE) option" where
  "SdhcSendCommandHelper E Cmd Arg XfrInfo s = do {
     ((Status, b), s) \<leftarrow>
       (if Class Cmd = SdCommandClassApp then on_device (SendCommand E CmdAppSd (RCA_arg s) None) s
        else Some ((EFI_SUCCESS, \<lambda>_. 0), s));
     if EFI_ERROR Status then Some ((Status, XfrInfo), s)
     else do {
       ((Status, b), s) \<leftarrow> on_device (SendCommand E Cmd Arg XfrInfo) s;
       let XfrInfo = XfrInfo_set XfrInfo b;
       if EFI_ERROR Status then Some ((Status, XfrInfo), s)
       else do {
         ((Status, r), s) \<leftarrow> on_device (ReceiveResponse E Cmd (CmdResponse s)) s;
         let s = s\<lparr>CmdResponse := r\<rparr>;
         if EFI_ERROR Status then Some ((Status, XfrInfo), s)
         else do {
           e \<leftarrow> (if ResponseType Cmd = SdResponseTypeR1 \<or> ResponseType Cmd = SdResponseTypeR1B
                 then IsCardStatusError s (ucast (CmdResponse s)) else Some 0);
           if e \<noteq> 0 then Some ((EFI_DEVICE_ERROR, XfrInfo), s)
           else Some ((EFI_SUCCESS, XfrInfo),
             s\<lparr>PreLastSuccessfulCmd := LastSuccessfulCmd s, LastSuccessfulCmd := Some Cmd\<rparr>)
         }
       }
     }
   }"

text \<open>
  \<open>SdhcSendCommand\<close> with the routine \<open>W\<close> that it calls after a SWITCH. The routine is
  \<open>SdhcWaitForTranStateAndReadyForData\<close>, which itself sends SEND_STATUS; this is no SWITCH, so that \<open>SdhcSendStatus\<close> never gets to its \<open>W\<close>.
\<close>

definition SendCommandWith ::
  "('d SDHC_INSTANCE \<Rightarrow> 'd outcome) \<Rightarrow> 'd sdhc_services \<Rightarrow> 'd recovery \<Rightarrow> SD_COMMAND \<Rightarrow> u32 \<Rightarrow>
    'd SDHC_INSTANCE \<Rightarrow> 'd outcome" where
  "SendCommandWith W E R Cmd Arg s = do {
     ((Status, x), s) \<leftarrow> SdhcSendCommandHelper E Cmd Arg None s;
     if EFI_ERROR Status then do {
       (_, s) \<leftarrow> R Cmd s;
       Some (Status, s)
     } else if Cmd = CmdSwitchMmc \<or> Cmd = CmdSwitchSd then do {
       (Status, s) \<leftarrow> W s;
       if EFI_ERROR Status then Some (Status, s) else Some (EFI_SUCCESS, s)
     } else Some (EFI_SUCCESS, s)
   }"

definition SdhcSendStatus ::
  "'d sdhc_services \<Rightarrow> 'd recovery \<Rightarrow> u32 \<Rightarrow> 'd SDHC_INSTANCE \<Rightarrow>
    ((EFI_STATUS \<times> u32) \<times> 'd SDHC_INSTANCE) option" where
  "SdhcSendStatus E R CardStatus s = do {
     (Status, s) \<leftarrow> SendCommandWith (\<lambda>_. None) E R CmdSendStatus (RCA_arg s) s;
     if EFI_ERROR Status then Some ((Status, CardStatus), s)
     else Some ((EFI_SUCCESS, ucast (CmdResponse s)), s)
   }"

definition TranAndReady :: "u32 \<Rightarrow> bool" where
  "TranAndReady st \<longleftrightarrow> READY_FOR_DATA st \<and> CURRENT_STATE st = CardStateTran"

primrec PollTran ::
  "nat \<Rightarrow> 'd sdhc_services \<Rightarrow> 'd recovery \<Rightarrow> u32 \<Rightarrow> 'd SDHC_INSTANCE \<Rightarrow> 'd outcome" where
  "PollTran 0 E R CardStatus s = Some (EFI_TIMEOUT, s)"
| "PollTran (Suc Retry) E R CardStatus s =
    (if TranAndReady CardStatus then Some (EFI_SUCCESS, s)
     else do {
       (_, s) \<leftarrow> on_device (Stall E SDMMC_POLL_WAIT_TIME_US) s;
       ((Status, CardStatus), s) \<leftarrow> SdhcSendStatus E R CardStatus s;
       if EFI_ERROR Status then Some (Status, s) else PollTran Retry E R CardStatus s
     })"

definition SdhcWaitForTranStateAndReadyForData ::
  "'d sdhc_services \<Rightarrow> 'd recovery \<Rightarrow> 'd SDHC_INSTANCE \<Rightarrow> 'd outcome" where
  "SdhcWaitForTranStateAndReadyForData E R s = do {
     ((Status, CardStatus), s) \<leftarrow> SdhcSendStatus E R 0 s;
     if EFI_ERROR Status then Some (Status, s)
     else PollTran SDMMC_POLL_WAIT_COUNT E R CardStatus s
   }"

definition SdhcSendCommand ::
  "'d sdhc_services \<Rightarrow> 'd recovery \<Rightarrow> SD_COMMAND \<Rightarrow> u32 \<Rightarrow> 'd SDHC_INSTANCE \<Rightarrow> 'd outcome" where
  "SdhcSendCommand E R = SendCommandWith (SdhcWaitForTranStateAndReadyForData E R) E R"

definition SdhcStopTransmission ::
  "'d sdhc_services \<Rightarrow> 'd recovery \<Rightarrow> 'd SDHC_INSTANCE \<Rightarrow> 'd outcome" where
  "SdhcStopTransmission E R s = SdhcSendCommand E R CmdStopTransmission (RCA_arg s) s"

section \<open>Data commands\<close>

text \<open>
  The guard of STOP_TRANSMISSION tests \<open>LastSuccessfulCmd\<close> for \<open>NULL\<close> and compares \<open>PreLastSuccessfulCmd\<close>; the
  comparison asserts that its argument is not \<open>NULL\<close>.
\<close>

definition NeedsStop :: "SD_COMMAND \<Rightarrow> 'd SDHC_INSTANCE \<Rightarrow> bool option" where
  "NeedsStop Cmd s =
    (if Cmd = CmdWriteMultiBlock \<or> Cmd = CmdReadMultiBlock then
       if LastSuccessfulCmd s = None then Some True
       else map_option Not (CmdsAreEqual (PreLastSuccessfulCmd s) (Some CmdSetBlockCount))
     else Some False)"

definition DataPhase ::
  "'d sdhc_services \<Rightarrow> SD_COMMAND \<Rightarrow> u32 \<Rightarrow> buffer \<Rightarrow> 'd SDHC_INSTANCE \<Rightarrow>
    ((EFI_STATUS \<times> buffer) \<times> 'd SDHC_INSTANCE) option" where
  "DataPhase E Cmd BufferByteSize Buffer s =
    (case TransferDirection Cmd of
       SdTransferDirectionRead \<Rightarrow> do {
         ((Status, b), s) \<leftarrow> on_device (ReadBlockData E (ucast BufferByteSize) Buffer) s;
         Some ((Status, within (unat BufferByteSize) b Buffer), s)
       }
     | SdTransferDirectionWrite \<Rightarrow> do {
         (Status, s) \<leftarrow> on_device (WriteBlockData E (ucast BufferByteSize) Buffer) s;
         Some ((Status, Buffer), s)
       }
     | SdTransferDirectionUndefined \<Rightarrow> None)"

definition FinishData ::
  "'d sdhc_services \<Rightarrow> 'd recovery \<Rightarrow> SD_COMMAND \<Rightarrow> 'd SDHC_INSTANCE \<Rightarrow> 'd outcome" where
  "FinishData E R Cmd s = do {
     stop \<leftarrow> NeedsStop Cmd s;
     ok_then (if stop then SdhcStopTransmission E R s else Some (EFI_SUCCESS, s))
       (SdhcWaitForTranStateAndReadyForData E R)
   }"

definition SdhcSendDataCommand ::
  "'d sdhc_services \<Rightarrow> 'd recovery \<Rightarrow> SD_COMMAND \<Rightarrow> u32 \<Rightarrow> u32 \<Rightarrow> buffer \<Rightarrow> 'd SDHC_INSTANCE \<Rightarrow>
    ((EFI_STATUS \<times> buffer) \<times> 'd SDHC_INSTANCE) option" where
  "SdhcSendDataCommand E R Cmd Arg BufferByteSize Buffer s =
    (if BufferByteSize mod SD_BLOCK_LENGTH_BYTES \<noteq> 0 then None
     else do {
       let XfrInfo = \<lparr>XfrBlockSize = SD_BLOCK_LENGTH_BYTES,
         XfrBlockCount = BufferByteSize div SD_BLOCK_LENGTH_BYTES, XfrBuffer = Buffer\<rparr>;
       ((Status, x), s) \<leftarrow> SdhcSendCommandHelper E Cmd Arg (Some XfrInfo) s;
       let Buffer = (case x of None \<Rightarrow> Buffer | Some i \<Rightarrow> XfrBuffer i);
       ((Status, Buffer), s) \<leftarrow>
         (if EFI_ERROR Status then Some ((Status, Buffer), s)
          else do {
            ((Status, Buffer), s) \<leftarrow> DataPhase E Cmd BufferByteSize Buffer s;
            if EFI_ERROR Status then Some ((Status, Buffer), s)
            else do {
              (Status, s) \<leftarrow> FinishData E R Cmd s;
              Some ((Status, Buffer), s)
            }
          });
       if EFI_ERROR Status then do {
         (_, s) \<leftarrow> R Cmd s;
         Some ((Status, Buffer), s)
       } else Some ((Status, Buffer), s)
     })"

section \<open>The status of the card\<close>

lemma ucast_AND: "(ucast (x AND y) :: u8) = ucast x AND ucast y" for x :: u32
  by (rule bit_word_eqI) (simp add: bit_simps)

lemma AND_power: "x AND 2 ^ n = (if bit x n then 2 ^ n else 0)" for x :: "'a::len word"
  by (rule bit_word_eqI) (auto simp: bit_simps)

lemma status_low_byte:
  "(ucast (st AND 0xFDF9A008 :: u32) :: u8) = (if bit st 3 then 8 else 0)"
  "(ucast (st AND 0xFDFFA080 :: u32) :: u8) = (if bit st 7 then 0x80 else 0)"
proof -
  have m: "ucast (0xFDF9A008 :: u32) = (2 ^ 3 :: u8)" "ucast (0xFDFFA080 :: u32) = (2 ^ 7 :: u8)"
    by simp_all
  show "(ucast (st AND 0xFDF9A008 :: u32) :: u8) = (if bit st 3 then 8 else 0)"
    "(ucast (st AND 0xFDFFA080 :: u32) :: u8) = (if bit st 7 then 0x80 else 0)"
    unfolding ucast_AND m AND_power by (simp_all add: bit_simps)
qed

text \<open>C33: Of the error bits of a card status only the one in the low byte counts, bit 3 of an SD card and bit 7 of an eMMC: the
  routine returns the masked status as a \<open>BOOLEAN\<close>, so that an address error or a CRC error, for instance, goes unnoticed.\<close>

theorem IsCardStatusError_low_byte:
  "IsCardStatusError s CardStatus =
    (case CardFunction (CardInfo s) of
       CardFunctionSd \<Rightarrow> Some (if bit CardStatus 3 then 8 else 0)
     | CardFunctionMmc \<Rightarrow> Some (if bit CardStatus 7 then 0x80 else 0)
     | _ \<Rightarrow> None)"
  by (simp add: IsCardStatusError_def status_low_byte split: CARD_FUNCTION.split)

end
