(* ===== verification/SdMmcInit.thy ===== *)
theory SdMmcInit
  imports SdMmcProtocol
begin

unbundle bit_operations_syntax

text \<open>
  Identification of cards, their registers, capacity and clock (\<open>Protocol.c\<close>). Logging is not modelled: \<open>PrintCid\<close> and
  \<open>PrintCsd\<close> only print, and \<open>PrintCardStatus\<close> only prints and asserts what \<open>IsCardStatusError\<close> has asserted just before each
  of its calls.
\<close>

abbreviation (input) upd_CardInfo :: "(CARD_INFO \<Rightarrow> CARD_INFO) \<Rightarrow> 'd SDHC_INSTANCE \<Rightarrow> 'd SDHC_INSTANCE" where
  "upd_CardInfo \<equiv> CardInfo_update"

section \<open>Identification\<close>

definition SdhcGoIdleState :: "'d sdhc_services \<Rightarrow> 'd recovery \<Rightarrow> 'd SDHC_INSTANCE \<Rightarrow> 'd outcome" where
  "SdhcGoIdleState E R s = SdhcSendCommand E R CmdGoIdleState 0 s"

definition SdhcSendIfCondSd :: "'d sdhc_services \<Rightarrow> 'd recovery \<Rightarrow> 'd SDHC_INSTANCE \<Rightarrow> 'd outcome" where
  "SdhcSendIfCondSd E R s = (let CmdArg = bf_set 8 4 SD_CMD8_VOLTAGE_27_36 (bf_set 0 8 0xAA 0) in
     ok_then (SdhcSendCommand E R CmdSendIfCondSd CmdArg s) (\<lambda>s.
       let CmdStatus = ucast (CmdResponse s) in
       if CheckPattern CmdStatus \<noteq> CheckPattern CmdArg \<or> VoltageSupplied CmdStatus \<noteq> VoltageSupplied CmdArg
       then Some (EFI_UNSUPPORTED, s)
       else Some (EFI_SUCCESS, upd_CardInfo (HasExtendedOcr_update (\<lambda>_. True)) s)))"

definition SdhcSendOpCondSdio :: "'d sdhc_services \<Rightarrow> 'd recovery \<Rightarrow> 'd SDHC_INSTANCE \<Rightarrow> 'd outcome" where
  "SdhcSendOpCondSdio E R s = SdhcSendCommand E R CmdSendOpCondSdio 0 s"

definition MmcOpCondDone :: "'d SDHC_INSTANCE \<Rightarrow> 'd outcome" where
  "MmcOpCondDone s = (let o1 = Ocr (CardInfo s);
       s = upd_CardInfo (HighCapacity_update (\<lambda>_. AccessMode o1 = SdOcrAccessSectorMode)) s in
     if VoltageWindow o1 AND SD_OCR_HIGH_VOLTAGE_WINDOW \<noteq> SD_OCR_HIGH_VOLTAGE_WINDOW
     then Some (EFI_UNSUPPORTED, s) else Some (EFI_SUCCESS, s))"

primrec OpCondMmcLoop ::
  "nat \<Rightarrow> 'd sdhc_services \<Rightarrow> 'd recovery \<Rightarrow> u32 \<Rightarrow> 'd SDHC_INSTANCE \<Rightarrow> 'd outcome" where
  "OpCondMmcLoop 0 E R CmdArg s = Some (EFI_TIMEOUT, s)"
| "OpCondMmcLoop (Suc Retry) E R CmdArg s =
     ok_then (SdhcSendCommand E R CmdSendOpCondMmc CmdArg s) (\<lambda>s.
       let s = upd_CardInfo (Ocr_update (\<lambda>_. ucast (CmdResponse s))) s in
       if PowerUp (Ocr (CardInfo s)) then MmcOpCondDone s
       else do {
         (_, s) \<leftarrow> on_device (Stall E SDMMC_POLL_WAIT_TIME_US) s;
         OpCondMmcLoop Retry E R CmdArg s
       })"

definition SdhcSendOpCondMmc :: "'d sdhc_services \<Rightarrow> 'd recovery \<Rightarrow> 'd SDHC_INSTANCE \<Rightarrow> 'd outcome" where
  "SdhcSendOpCondMmc E R = OpCondMmcLoop SDMMC_POLL_WAIT_COUNT E R
     (bf_set 29 2 SdOcrAccessSectorMode (bf_set 0 24 SD_OCR_HIGH_VOLTAGE_WINDOW 0))"

definition set_CardFunction :: "CARD_FUNCTION \<Rightarrow> 'd SDHC_INSTANCE \<Rightarrow> 'd SDHC_INSTANCE" where
  "set_CardFunction f = upd_CardInfo (CardFunction_update (\<lambda>_. f))"

definition SdhcQueryCardType :: "'d sdhc_services \<Rightarrow> 'd recovery \<Rightarrow> 'd SDHC_INSTANCE \<Rightarrow> 'd outcome" where
  "SdhcQueryCardType E R s = ok_then (SdhcGoIdleState E R s) (\<lambda>s. do {
     let s = set_CardFunction CardFunctionUnknown s;
     (Status, s) \<leftarrow> SdhcSendIfCondSd E R s;
     let s = (if EFI_ERROR Status then s else set_CardFunction CardFunctionSd s);
     (Status, s) \<leftarrow> SdhcSendOpCondSdio E R s;
     let s = (if EFI_ERROR Status then s
              else if CardFunction (CardInfo s) = CardFunctionSd
              then set_CardFunction CardFunctionComboSdSdio s
              else set_CardFunction CardFunctionSdio s);
     ok_then
       (if CardFunction (CardInfo s) \<notin> {CardFunctionSd, CardFunctionSdio, CardFunctionComboSdSdio}
        then ok_then (SdhcGoIdleState E R s) (\<lambda>s. do {
          (Status, s) \<leftarrow> SdhcSendOpCondMmc E R s;
          Some (EFI_SUCCESS, if EFI_ERROR Status then s else set_CardFunction CardFunctionMmc s)
        })
        else Some (EFI_SUCCESS, s))
       (\<lambda>s. if CardFunction (CardInfo s) = CardFunctionUnknown then Some (EFI_NO_MEDIA, s)
         else Some (EFI_SUCCESS, s))
   })"

primrec OpCondSdLoop ::
  "nat \<Rightarrow> 'd sdhc_services \<Rightarrow> 'd recovery \<Rightarrow> u32 \<Rightarrow> 'd SDHC_INSTANCE \<Rightarrow> 'd outcome" where
  "OpCondSdLoop 0 E R CmdArg s = Some (EFI_TIMEOUT, s)"
| "OpCondSdLoop (Suc Retry) E R CmdArg s =
     ok_then (SdhcSendCommand E R CmdAppSendOpCondSd CmdArg s) (\<lambda>s.
       let ocr = ucast (CmdResponse s) in
       if PowerUp ocr then
         Some (EFI_SUCCESS, if HasExtendedOcr (CardInfo s)
           then upd_CardInfo (HighCapacity_update (\<lambda>_. CCS ocr)) s else s)
       else do {
         (_, s) \<leftarrow> on_device (Stall E SDMMC_POLL_WAIT_TIME_US) s;
         OpCondSdLoop Retry E R CmdArg s
       })"

definition SdhcSendOpCondSd :: "'d sdhc_services \<Rightarrow> 'd recovery \<Rightarrow> 'd SDHC_INSTANCE \<Rightarrow> 'd outcome" where
  "SdhcSendOpCondSd E R s = ok_then (SdhcSendCommand E R CmdAppSendOpCondSd 0 s) (\<lambda>s.
     let s = upd_CardInfo (Ocr_update (\<lambda>_. ucast (CmdResponse s))) s in
     OpCondSdLoop SDMMC_POLL_WAIT_COUNT E R
       (bf_set 30 1 1 (bf_set 0 24 (VoltageWindow (Ocr (CardInfo s))) 0)) s)"

definition SdhcSendCidAll :: "'d sdhc_services \<Rightarrow> 'd recovery \<Rightarrow> 'd SDHC_INSTANCE \<Rightarrow> 'd outcome" where
  "SdhcSendCidAll E R s = SdhcSendCommand E R CmdSendCidAll 0 s"

definition SdhcSendRelativeAddr :: "'d sdhc_services \<Rightarrow> 'd recovery \<Rightarrow> 'd SDHC_INSTANCE \<Rightarrow> 'd outcome" where
  "SdhcSendRelativeAddr E R s =
     (let mmc = (CardFunction (CardInfo s) = CardFunctionMmc);
        s = (if mmc then upd_CardInfo (RCA_update (\<lambda>_. 0xCCCC)) s else s);
        CmdArg = (if mmc then RCA_arg s else 0) in
      ok_then (SdhcSendCommand E R CmdSendRelativeAddr CmdArg s) (\<lambda>s.
        Some (EFI_SUCCESS, if CardFunction (CardInfo s) \<noteq> CardFunctionMmc
          then upd_CardInfo (RCA_update (\<lambda>_. drop_bit 16 (ucast (CmdResponse s)))) s else s)))"

definition SdhcSendCid :: "'d sdhc_services \<Rightarrow> 'd recovery \<Rightarrow> 'd SDHC_INSTANCE \<Rightarrow> 'd outcome" where
  "SdhcSendCid E R s = ok_then (SdhcSendCommand E R CmdSendCid (RCA_arg s) s) (\<lambda>s.
     Some (EFI_SUCCESS,
       (case CardFunction (CardInfo s) of
          CardFunctionSd \<Rightarrow> upd_CardInfo (Cid_update (\<lambda>_. ucast (CmdResponse s))) s
        | CardFunctionMmc \<Rightarrow>
            (upd_CardInfo (Cid_update (\<lambda>_. ucast (CmdResponse s))) s)
              \<lparr>RpmbIo := (RpmbIo s)\<lparr>RpmbCid := CmdResponse s\<rparr>\<rparr>
        | _ \<Rightarrow> s)))"

section \<open>Capacity and clock\<close>

text \<open>The capacity of a version 1 \<open>CSD\<close>, in 32-bit arithmetic, and of a version 2 \<open>CSD\<close>.\<close>

definition CsdByteCapacity :: "120 word \<Rightarrow> u64" where
  "CsdByteCapacity r = (let DeviceSize = (push_bit 2 (word_of_nat (C_SIZEHigh10 r)) OR word_of_nat (C_SIZELow2 r) :: u32);
       Mult = (push_bit (C_SIZE_MULT r + 2) 1 :: u32);
       BlockNr = (DeviceSize + 1) * Mult;
       MaxBlockLen = (push_bit (READ_BL_LEN r) 1 :: u32) in
     ucast (BlockNr * MaxBlockLen))"

definition Csd2ByteCapacity :: "120 word \<Rightarrow> u64" where
  "Csd2ByteCapacity r = word_of_nat (C_SIZE r + 1) * 512 * 1024"

definition SdhcSendCsd :: "'d sdhc_services \<Rightarrow> 'd recovery \<Rightarrow> 'd SDHC_INSTANCE \<Rightarrow> 'd outcome" where
  "SdhcSendCsd E R s = ok_then (SdhcSendCommand E R CmdSendCsd (RCA_arg s) s) (\<lambda>s.
     let r = ucast (CmdResponse s);
       s = (case CardFunction (CardInfo s) of
              CardFunctionSd \<Rightarrow> upd_CardInfo (Csd_update (\<lambda>_. r)) s
            | CardFunctionMmc \<Rightarrow> upd_CardInfo (Csd_update (\<lambda>_. r)) s
            | _ \<Rightarrow> s);
       Bytes = (case CardFunction (CardInfo s) of
              CardFunctionSd \<Rightarrow> if CSD_STRUCTURE r = 0 then CsdByteCapacity r else Csd2ByteCapacity r
            | CardFunctionMmc \<Rightarrow> if HighCapacity (CardInfo s) then 0 else CsdByteCapacity r
            | _ \<Rightarrow> 0);
       s = upd_CardInfo (ByteCapacity_update (\<lambda>_. Bytes)) s;
       NumBlocks = Bytes div 512 in
     Some (EFI_SUCCESS, s\<lparr>Media := (Media s)\<lparr>BlockSize := SD_BLOCK_LENGTH_BYTES,
       LastBlock := (if NumBlocks > 0 then NumBlocks - 1 else 0)\<rparr>\<rparr>))"

definition TransferRateBitPerSecond :: "nat \<Rightarrow> u32 option" where
  "TransferRateBitPerSecond u =
    (if u = 0 then Some 100000 else if u = 1 then Some 1000000
     else if u = 2 then Some 10000000 else if u = 3 then Some 100000000 else None)"

definition TimeValue :: "bool \<Rightarrow> nat \<Rightarrow> u32 option" where
  "TimeValue sd v =
    (if v = 1 then Some 10 else if v = 2 then Some 12 else if v = 3 then Some 13
     else if v = 4 then Some 15 else if v = 5 then Some 20
     else if v = 6 then Some (if sd then 25 else 26) else if v = 7 then Some 30
     else if v = 8 then Some 35 else if v = 9 then Some 40 else if v = 10 then Some 45
     else if v = 11 then Some (if sd then 50 else 52) else if v = 12 then Some 55
     else if v = 13 then Some 60 else if v = 14 then Some 70 else if v = 15 then Some 80 else None)"

definition CalculateCardMaxFreq :: "'d SDHC_INSTANCE \<Rightarrow> u32 option" where
  "CalculateCardMaxFreq s = (let TranSpeed = TRAN_SPEED (Csd (CardInfo s)) in do {
     rate \<leftarrow> TransferRateBitPerSecond (TranSpeed mod 8);
     time \<leftarrow> TimeValue (CardFunction (CardInfo s) = CardFunctionSd) (TranSpeed div 8 mod 16);
     Some ((rate * time) div 10)
   })"

definition SdhcSetMaxClockFrequency :: "'d sdhc_services \<Rightarrow> 'd SDHC_INSTANCE \<Rightarrow> 'd outcome" where
  "SdhcSetMaxClockFrequency E s =
    (if CurrentSpeedMode (CardInfo s) = CardSpeedModeUndefined then None
     else do {
       MaxClkFreqHz \<leftarrow>
         (if CardFunction (CardInfo s) = CardFunctionSd then CalculateCardMaxFreq s
          else if CurrentSpeedMode (CardInfo s) = CardSpeedModeNormalSpeed then CalculateCardMaxFreq s
          else Some MMC_HIGH_SPEED_MODE_CLOCK_FREQ_HZ);
       ok_then (on_device (SetClock E MaxClkFreqHz) s) (\<lambda>s. Some (EFI_SUCCESS, s))
     })"

definition SdhcSelectDevice :: "'d sdhc_services \<Rightarrow> 'd recovery \<Rightarrow> 'd SDHC_INSTANCE \<Rightarrow> 'd outcome" where
  "SdhcSelectDevice E R s = SdhcSendCommand E R CmdSelect (RCA_arg s) s"

definition SdhcDeselectDevice :: "'d sdhc_services \<Rightarrow> 'd recovery \<Rightarrow> 'd SDHC_INSTANCE \<Rightarrow> 'd outcome" where
  "SdhcDeselectDevice E R s = SdhcSendCommand E R CmdDeselect 0 s"

definition SdhcSendAppCmd :: "'d sdhc_services \<Rightarrow> 'd recovery \<Rightarrow> 'd SDHC_INSTANCE \<Rightarrow> 'd outcome" where
  "SdhcSendAppCmd E R s = SdhcSendCommand E R CmdAppSd (RCA_arg s) s"

definition SdhcSetBlockLength :: "'d sdhc_services \<Rightarrow> 'd recovery \<Rightarrow> u32 \<Rightarrow> 'd SDHC_INSTANCE \<Rightarrow> 'd outcome" where
  "SdhcSetBlockLength E R BlockByteLength s = SdhcSendCommand E R CmdSetBlockLength BlockByteLength s"

definition SdhcSetBlockCount ::
  "'d sdhc_services \<Rightarrow> 'd recovery \<Rightarrow> u32 \<Rightarrow> bool \<Rightarrow> 'd SDHC_INSTANCE \<Rightarrow> 'd outcome" where
  "SdhcSetBlockCount E R BlockCount ReliableWrite s =
     SdhcSendCommand E R CmdSetBlockCount
       (if ReliableWrite then BlockCount OR push_bit 31 1 else BlockCount) s"

section \<open>The capacity of a card\<close>

lemma field_less: "0 < n \<Longrightarrow> n < 120 \<Longrightarrow> csd_field off n r < 2 ^ n"
  by (simp add: csd_field_def unat_bf_get_less)

lemma OR_low2: "l < 4 \<Longrightarrow> push_bit 2 h OR word_of_nat l = 4 * h + (word_of_nat l :: u32)"
proof -
  assume l: "l < 4"
  have "push_bit 2 h AND (word_of_nat l :: u32) = 0"
  proof (rule bit_word_eqI)
    fix n assume "n < LENGTH(32)"
    have "\<not> bit l n" if "2 \<le> n"
      using l power_increasing[OF that, of "2 :: nat"] by (simp add: bit_iff_odd)
    then show "bit (push_bit 2 h AND (word_of_nat l :: u32)) n = bit (0 :: u32) n"
      by (auto simp: bit_simps)
  qed
  then have "push_bit 2 h OR word_of_nat l = push_bit 2 h + (word_of_nat l :: u32)"
    by (rule disjunctive_add_eq_or[symmetric])
  then show ?thesis by (simp add: push_bit_eq_mult)
qed

text \<open>The capacity of a version 1 CSD is the product that its fields stand for modulo \<open>2 ^ 32\<close>: the largest cards with
  blocks of 2048 bytes, of 4 GiB, get the capacity 0.\<close>

theorem CsdByteCapacity_wraps:
  "unat (CsdByteCapacity r) =
    ((4 * C_SIZEHigh10 r + C_SIZELow2 r + 1) * 2 ^ (C_SIZE_MULT r + 2) * 2 ^ READ_BL_LEN r) mod 2 ^ 32"
proof -
  have l: "C_SIZELow2 r < 4" 
    using field_less[of 2 54 r] by (simp add: C_SIZELow2_def)
  define n where "n = (4 * C_SIZEHigh10 r + C_SIZELow2 r + 1) * 2 ^ (C_SIZE_MULT r + 2) * 2 ^ READ_BL_LEN r"
  have "CsdByteCapacity r = ucast (word_of_nat n :: u32)"
    unfolding CsdByteCapacity_def Let_def OR_low2[OF l] n_def by (simp add: push_bit_eq_mult algebra_simps)
  moreover have "n mod 4294967296 mod 18446744073709551616 = n mod 4294967296"
    by simp
  ultimately show ?thesis
    unfolding n_def[symmetric] by (simp add: unsigned_ucast_eq unsigned_of_nat take_bit_eq_mod)
qed

end
