(* ===== verification/SdMmcReset.thy ===== *)
theory SdMmcReset
  imports SdMmcInit
begin

unbundle bit_operations_syntax

text \<open>
  Extended CSD, bus width, speed and partition of an eMMC, the initialisation of a device (\<open>Protocol.c\<close>), \<open>SoftReset\<close> with the
  protocols it installs (\<open>SdMmc.c\<close>), and the recovery from errors, which closes the recursion.

  The transfers of this theory go to the block buffer of the instance. After a failed transfer the model
  leaves in it what it was before; its contents are not read before the next transfer has filled it.
\<close>

section \<open>Transfers to the block buffer\<close>

definition ReadBlockBuffer ::
  "'d sdhc_services \<Rightarrow> 'd recovery \<Rightarrow> SD_COMMAND \<Rightarrow> 'd SDHC_INSTANCE \<Rightarrow> 'd outcome" where
  "ReadBlockBuffer E R Cmd s = do {
     ((Status, b), s) \<leftarrow> SdhcSendDataCommand E R Cmd (RCA_arg s) SD_BLOCK_LENGTH_BYTES (BlockBuffer s) s;
     Some (Status, if EFI_ERROR Status then s else s\<lparr>BlockBuffer := b\<rparr>)
   }"

text \<open>The register \<open>Scr\<close> is the first eight bytes of the union member that overlays \<open>ExtCsd\<close>.\<close>

definition SdhcSendScrSd :: "'d sdhc_services \<Rightarrow> 'd recovery \<Rightarrow> 'd SDHC_INSTANCE \<Rightarrow> 'd outcome" where
  "SdhcSendScrSd E R s = ok_then (ReadBlockBuffer E R CmdAppSendScrSd s) (\<lambda>s.
     Some (EFI_SUCCESS, upd_CardInfo (ExtCsd_update (within 8 (BlockBuffer s))) s))"

definition SdhcSendExtCsdMmc :: "'d sdhc_services \<Rightarrow> 'd recovery \<Rightarrow> 'd SDHC_INSTANCE \<Rightarrow> 'd outcome" where
  "SdhcSendExtCsdMmc E R s = ok_then (ReadBlockBuffer E R CmdSendExtCsdMmc s) (\<lambda>s.
     let x = within 512 (BlockBuffer s) (ExtCsd (CardInfo s)) in
     Some (EFI_SUCCESS,
       (upd_CardInfo (\<lambda>c. c\<lparr>ByteCapacity := ucast (SectorCount x) * 512, ExtCsd := x\<rparr>) s)
         \<lparr>Media := (Media s)\<lparr>LastBlock := ucast (SectorCount x - 1)\<rparr>,
          RpmbIo := (RpmbIo s)\<lparr>ReliableSectorCount := ReliableWriteSectorCount x,
            RpmbSizeMult := RpmbSizeMult_ext x\<rparr>\<rparr>))"

section \<open>Bus width, speed and partition\<close>

definition SdhcSwitchBusWidthSd :: "'d sdhc_services \<Rightarrow> 'd recovery \<Rightarrow> 'd SDHC_INSTANCE \<Rightarrow> 'd outcome" where
  "SdhcSwitchBusWidthSd E R = steps
     [SdhcSendCommand E R CmdAppSetBusWidthSd 0x2, on_device (SetBusWidth E SdBusWidth4Bit)]"

definition SdhcSwitchSpeedModeSd :: "'d sdhc_services \<Rightarrow> 'd recovery \<Rightarrow> 'd SDHC_INSTANCE \<Rightarrow> 'd outcome" where
  "SdhcSwitchSpeedModeSd E R s = Some (EFI_SUCCESS, s)"

definition ExtCsdPowerClass :: "CARD_INFO \<Rightarrow> u8" where
  "ExtCsdPowerClass c =
    (if CurrentSpeedMode c = CardSpeedModeHighSpeed
     then MMC_EXT_CSD_POWER_CLASS_8BIT (PowerClass52Mhz36V (ExtCsd c))
     else MMC_EXT_CSD_POWER_CLASS_8BIT (PowerClass26Mhz36V (ExtCsd c)))"

definition SwitchPowerClass ::
  "'d sdhc_services \<Rightarrow> 'd recovery \<Rightarrow> u8 \<Rightarrow> 'd SDHC_INSTANCE \<Rightarrow> 'd outcome" where
  "SwitchPowerClass E R pc s =
    (if pc > PowerClass (ExtCsd (CardInfo s)) then
       ok_then (steps [SdhcSendCommand E R CmdSwitchMmc (push_bit 8 (ucast pc) OR 0x03BB0000),
           SdhcSendExtCsdMmc E R] s)
         (\<lambda>s. if PowerClass (ExtCsd (CardInfo s)) \<noteq> pc then Some (EFI_PROTOCOL_ERROR, s)
           else Some (EFI_SUCCESS, s))
     else Some (EFI_SUCCESS, s))"

text \<open>The target width is the constant \<open>SdBusWidth8Bit\<close>; the branches of the code for other widths are dead.\<close>

definition SdhcSwitchBusWidthMmc :: "'d sdhc_services \<Rightarrow> 'd recovery \<Rightarrow> 'd SDHC_INSTANCE \<Rightarrow> 'd outcome" where
  "SdhcSwitchBusWidthMmc E R = steps
     [SdhcSendExtCsdMmc E R,
      (\<lambda>s. SwitchPowerClass E R (ExtCsdPowerClass (CardInfo s)) s),
      SdhcSendCommand E R CmdSwitchMmc (MMC_SWITCH_CMD_ARG MmcSwitchCmdAccessTypeWriteByte
        MmcExtCsdBitIndexBusWidth MmcExtCsdBusWidth8Bit),
      on_device (SetBusWidth E SdBusWidth8Bit)]"

definition SdhcSwitchSpeedModeMmc :: "'d sdhc_services \<Rightarrow> 'd recovery \<Rightarrow> 'd SDHC_INSTANCE \<Rightarrow> 'd outcome" where
  "SdhcSwitchSpeedModeMmc E R s =
     ok_then (SdhcSendCommand E R CmdSwitchMmc (MMC_SWITCH_CMD_ARG MmcSwitchCmdAccessTypeWriteByte
       MmcExtCsdBitIndexHsTiming 1) s) (\<lambda>s.
     ok_then (SdhcSendExtCsdMmc E R
       (upd_CardInfo (CurrentSpeedMode_update (\<lambda>_. CardSpeedModeHighSpeed)) s)) (\<lambda>s.
     if HighSpeedTiming (ExtCsd (CardInfo s)) = 0 then Some (EFI_PROTOCOL_ERROR, s)
     else Some (EFI_SUCCESS, s)))"

definition SdhcSwitchPartitionMmc ::
  "'d sdhc_services \<Rightarrow> 'd recovery \<Rightarrow> u8 \<Rightarrow> 'd SDHC_INSTANCE \<Rightarrow> 'd outcome" where
  "SdhcSwitchPartitionMmc E R Partition s =
     (let PartConfig = set_PARTITION_ACCESS Partition (PartitionConfig (ExtCsd (CardInfo s))) in
      ok_then (SdhcSendCommand E R CmdSwitchMmc (MMC_SWITCH_CMD_ARG MmcSwitchCmdAccessTypeWriteByte
        MmcExtCsdBitIndexPartitionConfig (ucast PartConfig)) s) (\<lambda>s.
      ok_then (SdhcSendExtCsdMmc E R s) (\<lambda>s.
      if PARTITION_ACCESS (PartitionConfig (ExtCsd (CardInfo s))) \<noteq> Partition
      then Some (EFI_DEVICE_ERROR, s)
      else Some (EFI_SUCCESS, s\<lparr>CurrentMmcPartition := Partition\<rparr>))))"

section \<open>Initialisation\<close>

definition InitializeSdDevice :: "'d sdhc_services \<Rightarrow> 'd recovery \<Rightarrow> 'd SDHC_INSTANCE \<Rightarrow> 'd outcome" where
  "InitializeSdDevice E R = steps
     [SdhcSendOpCondSd E R, SdhcSendCidAll E R, SdhcSendRelativeAddr E R, SdhcSendCid E R,
      SdhcSendCsd E R, SdhcSelectDevice E R, SdhcSwitchBusWidthSd E R, SdhcSwitchSpeedModeSd E R,
      SdhcSetMaxClockFrequency E]"

definition CheckSpecVers :: "'d SDHC_INSTANCE \<Rightarrow> 'd outcome" where
  "CheckSpecVers s = Some (if SPEC_VERS (Csd (CardInfo s)) < MMC_MIN_SUPPORTED_SPEC_VERS
     then EFI_UNSUPPORTED else EFI_SUCCESS, s)"

definition InitializeMmcDevice :: "'d sdhc_services \<Rightarrow> 'd recovery \<Rightarrow> 'd SDHC_INSTANCE \<Rightarrow> 'd outcome" where
  "InitializeMmcDevice E R = steps
     [SdhcSendCidAll E R, SdhcSendRelativeAddr E R, SdhcSendCid E R, SdhcSendCsd E R, CheckSpecVers,
      SdhcSelectDevice E R, SdhcSendExtCsdMmc E R, SdhcSwitchSpeedModeMmc E R,
      SdhcSwitchBusWidthMmc E R, SdhcSetMaxClockFrequency E]"

definition InitializeFunction :: "'d sdhc_services \<Rightarrow> 'd recovery \<Rightarrow> 'd SDHC_INSTANCE \<Rightarrow> 'd outcome" where
  "InitializeFunction E R s =
    (case CardFunction (CardInfo s) of
       CardFunctionSd \<Rightarrow> InitializeSdDevice E R s
     | CardFunctionMmc \<Rightarrow> InitializeMmcDevice E R s
     | CardFunctionUnknown \<Rightarrow> None
     | _ \<Rightarrow> Some (EFI_UNSUPPORTED, s))"

definition FinishInitialization :: "'d SDHC_INSTANCE \<Rightarrow> 'd outcome" where
  "FinishInitialization s =
    (case CardFunction (CardInfo s) of
       CardFunctionSd \<Rightarrow> Some (EFI_SUCCESS, s\<lparr>SlotInitialized := True,
         Media := (Media s)\<lparr>MediaId := SD_CID_PSN (Cid (CardInfo s)), RemovableMedia := True\<rparr>\<rparr>)
     | CardFunctionMmc \<Rightarrow> Some (EFI_SUCCESS, s\<lparr>SlotInitialized := True,
         Media := (Media s)\<lparr>MediaId := MMC_CID_PSN (Cid (CardInfo s)), RemovableMedia := False\<rparr>\<rparr>)
     | _ \<Rightarrow> None)"

definition InitializeDevice :: "'d sdhc_services \<Rightarrow> 'd recovery \<Rightarrow> 'd SDHC_INSTANCE \<Rightarrow> 'd outcome" where
  "InitializeDevice E R s =
    (if SlotInitialized s \<or> \<not> MediaPresent (Media s) then None
     else steps
       [on_device (SoftwareReset E SdhcResetTypeAll), on_device (SetClock E SD_IDENT_MODE_CLOCK_FREQ_HZ),
        SdhcQueryCardType E R, InitializeFunction E R, SdhcSetBlockLength E R SD_BLOCK_LENGTH_BYTES,
        FinishInitialization]
       (s\<lparr>CardInfo := CARD_INFO_zero\<lparr>CurrentSpeedMode := CardSpeedModeNormalSpeed\<rparr>\<rparr>))"

section \<open>Protocols and soft reset\<close>

definition set_Installed :: "PROTOCOL \<Rightarrow> bool \<Rightarrow> 'd SDHC_INSTANCE \<Rightarrow> 'd SDHC_INSTANCE" where
  "set_Installed p b s =
    (case p of
       gEfiBlockIoProtocolGuid \<Rightarrow> s\<lparr>BlockIoProtocolInstalled := b\<rparr>
     | gEfiDevicePathProtocolGuid \<Rightarrow> s\<lparr>DevicePathProtocolInstalled := b\<rparr>
     | gEfiRpmbIoProtocolGuid \<Rightarrow> s\<lparr>RpmbIoProtocolInstalled := b\<rparr>)"

definition Installed :: "PROTOCOL \<Rightarrow> 'd SDHC_INSTANCE \<Rightarrow> bool" where
  "Installed p s =
    (case p of
       gEfiBlockIoProtocolGuid \<Rightarrow> BlockIoProtocolInstalled s
     | gEfiDevicePathProtocolGuid \<Rightarrow> DevicePathProtocolInstalled s
     | gEfiRpmbIoProtocolGuid \<Rightarrow> RpmbIoProtocolInstalled s)"

definition UninstallOne :: "'d sdhc_services \<Rightarrow> PROTOCOL \<Rightarrow> 'd SDHC_INSTANCE \<Rightarrow> 'd outcome" where
  "UninstallOne E p s =
    (if Installed p s then do {
       (Status, s) \<leftarrow> on_device (UninstallProtocol E p) s;
       Some (Status, if EFI_ERROR Status then s else set_Installed p False s)
     } else Some (EFI_SUCCESS, s))"

definition InstallOne :: "'d sdhc_services \<Rightarrow> PROTOCOL \<Rightarrow> 'd SDHC_INSTANCE \<Rightarrow> 'd outcome" where
  "InstallOne E p s = do {
     (Status, s) \<leftarrow> on_device (InstallProtocol E p) s;
     Some (Status, if EFI_ERROR Status then s else set_Installed p True s)
   }"

definition UninstallAllProtocols :: "'d sdhc_services \<Rightarrow> 'd SDHC_INSTANCE \<Rightarrow> 'd outcome" where
  "UninstallAllProtocols E = steps
     [UninstallOne E gEfiBlockIoProtocolGuid, UninstallOne E gEfiRpmbIoProtocolGuid,
      UninstallOne E gEfiDevicePathProtocolGuid]"

definition IsRpmbInstalledOnTheSystem ::
  "'d sdhc_services \<Rightarrow> 'd SDHC_INSTANCE \<Rightarrow> (bool \<times> 'd SDHC_INSTANCE) option" where
  "IsRpmbInstalledOnTheSystem E s = do {
     (Status, s) \<leftarrow> on_device (LocateRpmbIo E) s;
     Some (\<not> EFI_ERROR Status, s)
   }"

definition ClearMedia :: "'d SDHC_INSTANCE \<Rightarrow> 'd SDHC_INSTANCE" where
  "ClearMedia s = s\<lparr>SlotInitialized := False,
     Media := \<lparr>MediaId = 0, RemovableMedia = False, MediaPresent = False, LogicalPartition = False,
       ReadOnly = False, WriteCaching = False, BlockSize = 0, IoAlign = 4, LastBlock = 0,
       LowestAlignedLba = 0, LogicalBlocksPerPhysicalBlock = 0, OptimalTransferLengthGranularity = 0\<rparr>,
     RpmbIo := \<lparr>RpmbCid = 0, ReliableSectorCount = 0, RpmbSizeMult = 0\<rparr>\<rparr>"

definition SetSlotNode :: "'d SDHC_INSTANCE \<Rightarrow> 'd outcome" where
  "SetSlotNode s =
    (case CardFunction (CardInfo s) of
       CardFunctionSd \<Rightarrow> Some (EFI_SUCCESS, s\<lparr>SlotNode := MSG_SD_DP\<rparr>)
     | CardFunctionMmc \<Rightarrow> Some (EFI_SUCCESS, s\<lparr>SlotNode := MSG_EMMC_DP\<rparr>)
     | _ \<Rightarrow> None)"

definition InstallRpmb :: "'d sdhc_services \<Rightarrow> EFI_STATUS \<Rightarrow> 'd SDHC_INSTANCE \<Rightarrow> 'd outcome" where
  "InstallRpmb E Status s =
    (if CardFunction (CardInfo s) = CardFunctionMmc then do {
       (found, s) \<leftarrow> IsRpmbInstalledOnTheSystem E s;
       if found then Some (Status, s)
       else do {
         (Status, s) \<leftarrow> InstallOne E gEfiRpmbIoProtocolGuid s;
         if EFI_ERROR Status then Some (Status, s)
         else Some (Status,
           s\<lparr>CurrentMmcPartition := PARTITION_ACCESS (PartitionConfig (ExtCsd (CardInfo s)))\<rparr>)
       }
     } else Some (Status, s))"

text \<open>
  From the text of the device path on: the protocols of a device that is ready. The flag tells whether the
  text was allocated, which is what the exit of \<open>SoftReset\<close> frees.
\<close>

definition InstallProtocols ::
  "'d sdhc_services \<Rightarrow> 'd SDHC_INSTANCE \<Rightarrow> ((EFI_STATUS \<times> bool) \<times> 'd SDHC_INSTANCE) option" where
  "InstallProtocols E s = do {
     (allocated, s) \<leftarrow> on_device (ConvertDevicePathToText E) s;
     if \<not> allocated then Some ((EFI_OUT_OF_RESOURCES, False), s)
     else do {
       (Status, s) \<leftarrow> ok_then (InstallOne E gEfiBlockIoProtocolGuid s) (\<lambda>s. do {
         (Status, s) \<leftarrow> InstallOne E gEfiDevicePathProtocolGuid s;
         if EFI_ERROR Status then Some (Status, s) else InstallRpmb E Status s
       });
       Some ((Status, True), s)
     }
   }"

definition SoftResetBody ::
  "'d sdhc_services \<Rightarrow> 'd recovery \<Rightarrow> 'd SDHC_INSTANCE \<Rightarrow> ((EFI_STATUS \<times> bool) \<times> 'd SDHC_INSTANCE) option" where
  "SoftResetBody E R s = do {
     (Status, s) \<leftarrow> UninstallAllProtocols E s;
     if EFI_ERROR Status then Some ((Status, False), s)
     else do {
       let s = ClearMedia s;
       (present, s) \<leftarrow> on_device (IsCardPresent E) s;
       let s = s\<lparr>Media := (Media s)\<lparr>MediaPresent := present\<rparr>\<rparr>;
       if \<not> present then do {
         (Status, s) \<leftarrow> InstallOne E gEfiBlockIoProtocolGuid s;
         Some ((Status, False), s)
       } else do {
         (ro, s) \<leftarrow> on_device (IsReadOnly E) s;
         (Status, s) \<leftarrow> steps [InitializeDevice E R, SetSlotNode] (s\<lparr>Media := (Media s)\<lparr>ReadOnly := ro\<rparr>\<rparr>);
         if EFI_ERROR Status then Some ((Status, False), s)
         else InstallProtocols E s
       }
     }
   }"

text \<open>The exit: on an error, uninstall the RPMB and device path protocols; their status replaces the error.\<close>

definition SoftResetExit :: "'d sdhc_services \<Rightarrow> EFI_STATUS \<Rightarrow> 'd SDHC_INSTANCE \<Rightarrow> 'd outcome" where
  "SoftResetExit E Status s =
    (if EFI_ERROR Status then do {
       (Status, s) \<leftarrow> (if RpmbIoProtocolInstalled s then UninstallOne E gEfiRpmbIoProtocolGuid s
         else Some (Status, s));
       if DevicePathProtocolInstalled s then UninstallOne E gEfiDevicePathProtocolGuid s
       else Some (Status, s)
     } else Some (Status, s))"

definition SoftReset :: "'d sdhc_services \<Rightarrow> 'd recovery \<Rightarrow> 'd SDHC_INSTANCE \<Rightarrow> 'd outcome" where
  "SoftReset E R s = do {
     ((Status, allocated), s) \<leftarrow> SoftResetBody E R s;
     (Status, s) \<leftarrow> SoftResetExit E Status s;
     (_, s) \<leftarrow> (if allocated then on_device (FreeText E) s else Some ((), s));
     Some (Status, s)
   }"

section \<open>Recovery from errors\<close>

definition StopMultiBlock ::
  "'d sdhc_services \<Rightarrow> 'd recovery \<Rightarrow> SD_COMMAND \<Rightarrow> EFI_STATUS \<Rightarrow> 'd SDHC_INSTANCE \<Rightarrow> 'd outcome" where
  "StopMultiBlock E R Cmd Status s =
    (if Cmd = CmdWriteMultiBlock \<or> Cmd = CmdReadMultiBlock then do {
       ((Status, CardStatus), s) \<leftarrow> SdhcSendStatus E R 0 s;
       if EFI_ERROR Status then Some (Status, s)
       else if CURRENT_STATE CardStatus \<noteq> CardStateTran then SdhcStopTransmission E R s
       else Some (Status, s)
     } else Some (Status, s))"

definition ResetLines ::
  "'d sdhc_services \<Rightarrow> SD_COMMAND \<Rightarrow> 'd SDHC_INSTANCE \<Rightarrow> 'd outcome" where
  "ResetLines E Cmd s = do {
     (Status, s) \<leftarrow> on_device (SoftwareReset E SdhcResetTypeCmd) s;
     if TransferType Cmd \<noteq> SdTransferTypeNone \<and> TransferType Cmd \<noteq> SdTransferTypeUndefined
     then on_device (SoftwareReset E SdhcResetTypeData) s
     else Some (Status, s)
   }"

definition RecoverAttempt :: "'d sdhc_services \<Rightarrow> 'd recovery \<Rightarrow> 'd recovery" where
  "RecoverAttempt E R Cmd s = do {
     (Status, s) \<leftarrow> ResetLines E Cmd s;
     (Status, s) \<leftarrow> (if EFI_ERROR Status then SoftReset E R s else Some (Status, s));
     if EFI_ERROR Status then Some (Status, s)
     else StopMultiBlock E R Cmd Status s
   }"

definition RecoverBody :: "'d sdhc_services \<Rightarrow> 'd recovery \<Rightarrow> 'd recovery" where
  "RecoverBody E R Cmd s = do {
     let s = s\<lparr>ErrorRecoveryAttemptCount := ErrorRecoveryAttemptCount s + 1\<rparr>;
     (Status, s) \<leftarrow>
       (if ErrorRecoveryAttemptCount s > SDMMC_ERROR_RECOVERY_ATTEMPT_THRESHOLD
        then Some (EFI_PROTOCOL_ERROR, s) else RecoverAttempt E R Cmd s);
     Some (Status, s\<lparr>ErrorRecoveryAttemptCount := ErrorRecoveryAttemptCount s - 1\<rparr>)
   }"

text \<open>
  The attempts left at a count: the count goes up by one at each nested recovery, and a recovery
  above the threshold recurses no further. A count of \<open>2 ^ 32 - 1\<close> wraps to 0 first.
\<close>

primrec Recover :: "nat \<Rightarrow> 'd sdhc_services \<Rightarrow> 'd recovery" where
  "Recover 0 E = (\<lambda>Cmd s. None)"
| "Recover (Suc n) E = RecoverBody E (Recover n E)"

definition attempts_left :: "u32 \<Rightarrow> nat" where
  "attempts_left c = (if c = - 1 then 5 else 4 - min 3 (unat c))"

definition SdhcRecoverFromErrors :: "'d sdhc_services \<Rightarrow> 'd recovery" where
  "SdhcRecoverFromErrors E Cmd s = Recover (attempts_left (ErrorRecoveryAttemptCount s)) E Cmd s"

end
