(* ===== verification/SdMmcRun.thy ===== *)
theory SdMmcRun
  imports SdMmcReset
begin

unbundle bit_operations_syntax

text \<open>
  That the recovery from errors of the SD/MMC driver ends, and what every routine of it keeps. The routines take the recovery routine
  as an argument; \<open>agree_on\<close> relates the runs of a routine with two recovery routines, and the locale \<open>recovery_run\<close> proves for each
  routine, once, that it runs alike with two recovery routines that do, and keeps an invariant of the instance that its field updates keep. From
  this follow the recursion equation of the code and the invariant \<open>instance_ok\<close>.
\<close>

named_theorems agree \<open>rules for runs with two recovery routines that agree\<close>

definition agree_on :: "('s \<Rightarrow> bool) \<Rightarrow> ('a \<times> 's) option \<Rightarrow> ('a \<times> 's) option \<Rightarrow> bool" where
  "agree_on P m m' \<longleftrightarrow> m = m' \<and> (\<forall>r s. m = Some (r, s) \<longrightarrow> P s)"

lemma agree_onD: "agree_on P m m' \<Longrightarrow> m = m'" "agree_on P m m' \<Longrightarrow> m = Some (r, s) \<Longrightarrow> P s"
  by (simp_all add: agree_on_def)

lemma agree_None [agree]: "agree_on P None None"
  by (simp add: agree_on_def)

lemma agree_Some [agree]: "P s \<Longrightarrow> agree_on P (Some (r, s)) (Some (r, s))"
  by (simp add: agree_on_def)

lemma agree_bind2:
  "agree_on P m m' \<Longrightarrow> (\<And>a b s. P s \<Longrightarrow> agree_on P (f a b s) (f' a b s)) \<Longrightarrow>
    agree_on P (Option.bind m (\<lambda>((a, b), s). f a b s)) (Option.bind m' (\<lambda>((a, b), s). f' a b s))"
  by (cases m) (auto simp: agree_on_def)

lemma agree_bind_other:
  "agree_on Q m m' \<Longrightarrow> (\<And>r s. Q s \<Longrightarrow> agree_on P (f r s) (f' r s)) \<Longrightarrow>
    agree_on P (Option.bind m (\<lambda>(r, s). f r s)) (Option.bind m' (\<lambda>(r, s). f' r s))"
  by (cases m) (auto simp: agree_on_def)

lemmas agree_bind = agree_bind_other[where Q = P and P = P for P]

lemma agree_pure:
  "(\<And>x. e = Some x \<Longrightarrow> agree_on P (f x) (f' x)) \<Longrightarrow> agree_on P (Option.bind e f) (Option.bind e f')"
  by (cases e) (auto simp: agree_on_def)

lemma agree_if [agree]:
  "(b \<Longrightarrow> agree_on P x x') \<Longrightarrow> (\<not> b \<Longrightarrow> agree_on P y y') \<Longrightarrow>
    agree_on P (if b then x else y) (if b then x' else y')"
  by simp

lemma agree_ok_then [agree]:
  "agree_on P m m' \<Longrightarrow> (\<And>s. P s \<Longrightarrow> agree_on P (f s) (f' s)) \<Longrightarrow>
    agree_on P (ok_then m f) (ok_then m' f')"
  unfolding ok_then_def by (intro agree_bind agree)

lemma agree_steps_Nil [agree]: "P s \<Longrightarrow> agree_on P (steps [] s) (steps [] s)"
  by (simp add: agree_on_def)

lemma agree_steps_Cons [agree]:
  "(\<And>s. P s \<Longrightarrow> agree_on P (f s) (f' s)) \<Longrightarrow> (\<And>s. P s \<Longrightarrow> agree_on P (steps fs s) (steps fs' s)) \<Longrightarrow>
    P s \<Longrightarrow> agree_on P (steps (f # fs) s) (steps (f' # fs') s)"
  by (simp add: agree_ok_then)

definition RCA_16 :: "CARD_INFO \<Rightarrow> bool" where "RCA_16 c \<longleftrightarrow> unat (RCA c) < 65536"

locale instance_fields =
  fixes P :: "'d SDHC_INSTANCE \<Rightarrow> bool"
  assumes Device: "P s \<Longrightarrow> P (s\<lparr>Device := d\<rparr>)"
    and CmdResponse: "P s \<Longrightarrow> P (s\<lparr>CmdResponse := r\<rparr>)"
    and LastCmd: "P s \<Longrightarrow> P (s\<lparr>PreLastSuccessfulCmd := a, LastSuccessfulCmd := b\<rparr>)"
    and CardInfo: "P s \<Longrightarrow> (RCA_16 (CardInfo s) \<Longrightarrow> RCA_16 c) \<Longrightarrow> P (s\<lparr>CardInfo := c\<rparr>)"
    and Media: "P s \<Longrightarrow> BlockSize m \<in> {BlockSize (Media s), 0, 512} \<Longrightarrow> P (s\<lparr>Media := m\<rparr>)"
    and CurrentMmcPartition: "P s \<Longrightarrow> p < 8 \<Longrightarrow> P (s\<lparr>CurrentMmcPartition := p\<rparr>)"
    and SlotInitialized: "P s \<Longrightarrow> P (s\<lparr>SlotInitialized := i\<rparr>)"
    and SlotNode: "P s \<Longrightarrow> P (s\<lparr>SlotNode := n\<rparr>)"
    and RpmbIo: "P s \<Longrightarrow> P (s\<lparr>RpmbIo := q\<rparr>)"
    and Buffer: "P s \<Longrightarrow> P (s\<lparr>BlockBuffer := x\<rparr>)"
    and Installed: "P s \<Longrightarrow> P (set_Installed g y s)"

locale recovery_run = instance_fields P for P :: "'d SDHC_INSTANCE \<Rightarrow> bool" +
  fixes E :: "'d sdhc_services" and R R' :: "'d recovery"
  assumes recover: "P s \<Longrightarrow> agree_on P (R Cmd s) (R' Cmd s)"
begin

lemmas Slot = SlotInitialized SlotNode
lemmas fields = Device CmdResponse LastCmd CardInfo Media CurrentMmcPartition Slot RpmbIo Buffer Installed

lemma on_device_agree [agree]: "P s \<Longrightarrow> agree_on P (on_device f s) (on_device f s)"
  by (simp add: on_device_def agree Device)

lemma Helper_agree [agree]:
  assumes "P s"
  shows "agree_on P (SdhcSendCommandHelper E Cmd Arg x s) (SdhcSendCommandHelper E Cmd Arg x s)"
  unfolding SdhcSendCommandHelper_def Let_def
  by (rule agree_bind2 agree_bind agree_pure agree | simp add: assms fields)+

lemma CardInfo_upd: "P s \<Longrightarrow> (RCA_16 (CardInfo s) \<Longrightarrow> RCA_16 (f (CardInfo s))) \<Longrightarrow> P (CardInfo_update f s)"
  using CardInfo[of s "f (CardInfo s)"] by (cases s) simp

lemma CardInfo_upds:
  assumes "P s"
  shows "P (upd_CardInfo (HasExtendedOcr_update f1) s)" "P (upd_CardInfo (HighCapacity_update f2) s)"
    "P (upd_CardInfo (Ocr_update f3) s)" "P (set_CardFunction g s)" "P (upd_CardInfo (Cid_update f4) s)"
    "P (upd_CardInfo (Csd_update f5) s)" "P (upd_CardInfo (ByteCapacity_update f6) s)"
    "P (upd_CardInfo (ExtCsd_update f7) s)" "P (upd_CardInfo (CurrentSpeedMode_update f8) s)"
    "P (upd_CardInfo (\<lambda>c. c\<lparr>ByteCapacity := y, ExtCsd := z\<rparr>) s)"
    "unat r < 65536 \<Longrightarrow> P (upd_CardInfo (RCA_update (\<lambda>_. r)) s)"
  unfolding set_CardFunction_def
  by (rule CardInfo_upd, rule assms, simp add: RCA_16_def)+

lemmas upds = fields CardInfo_upds

lemma SendCommandWith_agree:
  assumes "P s" and "\<And>s. P s \<Longrightarrow> agree_on P (W s) (W' s)"
  shows "agree_on P (SendCommandWith W E R Cmd Arg s) (SendCommandWith W' E R' Cmd Arg s)"
  unfolding SendCommandWith_def
  by (rule agree_bind2 agree_bind agree recover assms | simp)+

lemma SendStatus_agree [agree]:
  "P s \<Longrightarrow> agree_on P (SdhcSendStatus E R c s) (SdhcSendStatus E R' c s)"
  unfolding SdhcSendStatus_def
  by (rule agree_bind2 agree_bind SendCommandWith_agree agree | simp)+

lemma PollTran_agree [agree]:
  "P s \<Longrightarrow> agree_on P (PollTran n E R c s) (PollTran n E R' c s)"
proof (induction n arbitrary: c s)
  case (Suc n)
  show ?case
    unfolding PollTran.simps
    by (rule agree_bind2 agree_bind agree Suc.IH | simp add: Suc.prems)+
qed (simp add: agree)

lemma Wait_agree [agree]:
  "P s \<Longrightarrow> agree_on P (SdhcWaitForTranStateAndReadyForData E R s) (SdhcWaitForTranStateAndReadyForData E R' s)"
  unfolding SdhcWaitForTranStateAndReadyForData_def
  by (rule agree_bind2 agree_bind agree | simp)+

lemma SendCommand_agree [agree]:
  "P s \<Longrightarrow> agree_on P (SdhcSendCommand E R Cmd Arg s) (SdhcSendCommand E R' Cmd Arg s)"
  unfolding SdhcSendCommand_def by (intro SendCommandWith_agree agree)

lemma Stop_agree [agree]:
  "P s \<Longrightarrow> agree_on P (SdhcStopTransmission E R s) (SdhcStopTransmission E R' s)"
  unfolding SdhcStopTransmission_def by (intro agree)

lemma FinishData_agree [agree]:
  "P s \<Longrightarrow> agree_on P (FinishData E R Cmd s) (FinishData E R' Cmd s)"
  unfolding FinishData_def by (rule agree_pure agree | simp)+

lemma DataPhase_agree [agree]:
  "P s \<Longrightarrow> agree_on P (DataPhase E Cmd n b s) (DataPhase E Cmd n b s)"
  unfolding DataPhase_def
  by (cases "TransferDirection Cmd"; simp only: SD_TRANSFER_DIRECTION.case)
     (rule agree_bind2 agree_bind agree | simp)+

lemma SendDataCommand_agree [agree]:
  "P s \<Longrightarrow> agree_on P (SdhcSendDataCommand E R Cmd Arg n b s) (SdhcSendDataCommand E R' Cmd Arg n b s)"
  unfolding SdhcSendDataCommand_def Let_def
  by (rule agree_bind2 agree_bind agree recover | simp)+

section \<open>Identification and registers\<close>

lemma simple_agree [agree]:
  assumes "P s"
  shows "agree_on P (SdhcGoIdleState E R s) (SdhcGoIdleState E R' s)"
    "agree_on P (SdhcSendOpCondSdio E R s) (SdhcSendOpCondSdio E R' s)"
    "agree_on P (SdhcSendCidAll E R s) (SdhcSendCidAll E R' s)"
    "agree_on P (SdhcSelectDevice E R s) (SdhcSelectDevice E R' s)"
    "agree_on P (SdhcDeselectDevice E R s) (SdhcDeselectDevice E R' s)"
    "agree_on P (SdhcSendAppCmd E R s) (SdhcSendAppCmd E R' s)"
    "agree_on P (SdhcSetBlockLength E R n s) (SdhcSetBlockLength E R' n s)"
    "agree_on P (SdhcSetBlockCount E R n w s) (SdhcSetBlockCount E R' n w s)"
  unfolding SdhcGoIdleState_def SdhcSendOpCondSdio_def SdhcSendCidAll_def SdhcSelectDevice_def
    SdhcDeselectDevice_def SdhcSendAppCmd_def SdhcSetBlockLength_def SdhcSetBlockCount_def
  by (intro agree assms)+

lemma SendIfCondSd_agree [agree]:
  "P s \<Longrightarrow> agree_on P (SdhcSendIfCondSd E R s) (SdhcSendIfCondSd E R' s)"
  unfolding SdhcSendIfCondSd_def Let_def by (rule agree upds | simp)+

lemma MmcOpCondDone_agree [agree]: "P s \<Longrightarrow> agree_on P (MmcOpCondDone s) (MmcOpCondDone s)"
  unfolding MmcOpCondDone_def Let_def by (rule agree upds | simp)+

lemma OpCondMmcLoop_agree [agree]:
  "P s \<Longrightarrow> agree_on P (OpCondMmcLoop n E R a s) (OpCondMmcLoop n E R' a s)"
proof (induction n arbitrary: s)
  case (Suc n)
  show ?case
    unfolding OpCondMmcLoop.simps Let_def
    by (rule agree_bind agree Suc.IH upds | simp add: Suc.prems)+
qed (simp add: agree)

lemma OpCondSdLoop_agree [agree]:
  "P s \<Longrightarrow> agree_on P (OpCondSdLoop n E R a s) (OpCondSdLoop n E R' a s)"
proof (induction n arbitrary: s)
  case (Suc n)
  show ?case
    unfolding OpCondSdLoop.simps Let_def
    by (rule agree_bind agree Suc.IH upds | simp add: Suc.prems CardInfo_upds)+
qed (simp add: agree)

lemma OpCond_agree [agree]:
  assumes "P s"
  shows "agree_on P (SdhcSendOpCondMmc E R s) (SdhcSendOpCondMmc E R' s)"
    "agree_on P (SdhcSendOpCondSd E R s) (SdhcSendOpCondSd E R' s)"
  unfolding SdhcSendOpCondMmc_def SdhcSendOpCondSd_def Let_def
  by (rule agree assms upds | simp)+

lemma QueryCardType_agree [agree]:
  "P s \<Longrightarrow> agree_on P (SdhcQueryCardType E R s) (SdhcQueryCardType E R' s)"
  unfolding SdhcQueryCardType_def Let_def
  by (rule agree_bind agree upds | simp add: CardInfo_upds)+

lemma drop_RCA: "unat (drop_bit 16 (x :: u32)) < 65536"
proof -
  have "unat (drop_bit 16 x) = unat x div 65536"
    using unsigned_less[where 'a = nat, of x]
    by (simp only: unsigned_drop_bit_eq) (simp add: drop_bit_eq_div take_bit_nat_eq_self)
  then show ?thesis using unsigned_less[where 'a = nat, of x] by simp
qed

lemma SendRelativeAddr_agree [agree]:
  "P s \<Longrightarrow> agree_on P (SdhcSendRelativeAddr E R s) (SdhcSendRelativeAddr E R' s)"
  unfolding SdhcSendRelativeAddr_def Let_def
  by (rule agree | simp add: CardInfo_upds drop_RCA)+

lemma SendCid_agree [agree]:
  "P s \<Longrightarrow> agree_on P (SdhcSendCid E R s) (SdhcSendCid E R' s)"
  unfolding SdhcSendCid_def
  by (rule agree | simp add: upds split: CARD_FUNCTION.split)+

lemma SendCsd_agree [agree]:
  "P s \<Longrightarrow> agree_on P (SdhcSendCsd E R s) (SdhcSendCsd E R' s)"
  unfolding SdhcSendCsd_def Let_def
  by (rule agree Media | simp add: CardInfo_upds split: CARD_FUNCTION.split)+

lemma SetMaxClock_agree [agree]:
  "P s \<Longrightarrow> agree_on P (SdhcSetMaxClockFrequency E s) (SdhcSetMaxClockFrequency E s)"
  unfolding SdhcSetMaxClockFrequency_def by (rule agree_pure agree | simp)+

section \<open>Extended CSD, width, speed and partition\<close>

lemma ReadBlockBuffer_agree [agree]:
  "P s \<Longrightarrow> agree_on P (ReadBlockBuffer E R Cmd s) (ReadBlockBuffer E R' Cmd s)"
  unfolding ReadBlockBuffer_def by (rule agree_bind2 agree | simp add: Buffer)+

lemma SendScrSd_agree [agree]:
  "P s \<Longrightarrow> agree_on P (SdhcSendScrSd E R s) (SdhcSendScrSd E R' s)"
  unfolding SdhcSendScrSd_def by (rule agree upds | simp)+

lemma SendExtCsdMmc_agree [agree]:
  "P s \<Longrightarrow> agree_on P (SdhcSendExtCsdMmc E R s) (SdhcSendExtCsdMmc E R' s)"
  unfolding SdhcSendExtCsdMmc_def Let_def by (rule agree RpmbIo Media upds | simp)+

lemma Switch_agree [agree]:
  assumes "P s"
  shows "agree_on P (SdhcSwitchBusWidthSd E R s) (SdhcSwitchBusWidthSd E R' s)"
    "agree_on P (SdhcSwitchSpeedModeSd E R s) (SdhcSwitchSpeedModeSd E R' s)"
    "agree_on P (SwitchPowerClass E R pc s) (SwitchPowerClass E R' pc s)"
    "agree_on P (SdhcSwitchSpeedModeMmc E R s) (SdhcSwitchSpeedModeMmc E R' s)"
  unfolding SdhcSwitchBusWidthSd_def SdhcSwitchSpeedModeSd_def SwitchPowerClass_def SdhcSwitchSpeedModeMmc_def
  by (rule agree upds | simp add: assms)+

lemma SwitchBusWidthMmc_agree [agree]:
  "P s \<Longrightarrow> agree_on P (SdhcSwitchBusWidthMmc E R s) (SdhcSwitchBusWidthMmc E R' s)"
  unfolding SdhcSwitchBusWidthMmc_def by (rule agree | simp)+

lemma PARTITION_ACCESS_less: "PARTITION_ACCESS c < 8"
  using unat_bf_get_less[of 3 0 c] by (simp add: PARTITION_ACCESS_def word_less_nat_alt)

lemma SwitchPartition_agree [agree]:
  "P s \<Longrightarrow> agree_on P (SdhcSwitchPartitionMmc E R p s) (SdhcSwitchPartitionMmc E R' p s)"
  unfolding SdhcSwitchPartitionMmc_def Let_def
  by (rule agree CurrentMmcPartition | simp | metis PARTITION_ACCESS_less)+

section \<open>Initialisation and reset\<close>

lemma CheckSpecVers_agree [agree]: "P s \<Longrightarrow> agree_on P (CheckSpecVers s) (CheckSpecVers s)"
  by (simp add: CheckSpecVers_def agree)

lemma InitializeSd_agree [agree]:
  "P s \<Longrightarrow> agree_on P (InitializeSdDevice E R s) (InitializeSdDevice E R' s)"
  unfolding InitializeSdDevice_def by (rule agree | simp)+

lemma InitializeMmc_agree [agree]:
  "P s \<Longrightarrow> agree_on P (InitializeMmcDevice E R s) (InitializeMmcDevice E R' s)"
  unfolding InitializeMmcDevice_def by (rule agree | simp)+

lemma InitializeFunction_agree [agree]:
  "P s \<Longrightarrow> agree_on P (InitializeFunction E R s) (InitializeFunction E R' s)"
  unfolding InitializeFunction_def
  by (cases "CardFunction (CardInfo s)"; simp only: CARD_FUNCTION.case) (rule agree | simp)+

lemma Finish_agree [agree]:
  assumes "P s"
  shows "agree_on P (FinishInitialization s) (FinishInitialization s)"
    "agree_on P (SetSlotNode s) (SetSlotNode s)"
  unfolding FinishInitialization_def SetSlotNode_def
  using assms Media[OF Slot(1)] by (simp_all add: agree Slot split: CARD_FUNCTION.split)

lemma InitializeDevice_agree [agree]:
  "P s \<Longrightarrow> agree_on P (InitializeDevice E R s) (InitializeDevice E R' s)"
  unfolding InitializeDevice_def by (rule agree CardInfo | simp add: RCA_16_def CARD_INFO_zero_def)+

lemma InstallOne_agree [agree]:
  assumes "P s"
  shows "agree_on P (InstallOne E g s) (InstallOne E g s)" "agree_on P (UninstallOne E g s) (UninstallOne E g s)"
  unfolding InstallOne_def UninstallOne_def
  by (rule agree_bind agree | simp add: Installed assms)+

lemma UninstallAll_agree [agree]:
  "P s \<Longrightarrow> agree_on P (UninstallAllProtocols E s) (UninstallAllProtocols E s)"
  unfolding UninstallAllProtocols_def by (rule agree | simp)+

lemma InstallRpmb_agree [agree]:
  "P s \<Longrightarrow> agree_on P (InstallRpmb E st s) (InstallRpmb E st s)"
  unfolding InstallRpmb_def IsRpmbInstalledOnTheSystem_def
  by (rule agree_bind agree CurrentMmcPartition PARTITION_ACCESS_less | simp)+

lemma InstallProtocols_agree [agree]:
  "P s \<Longrightarrow> agree_on P (InstallProtocols E s) (InstallProtocols E s)"
  unfolding InstallProtocols_def by (rule agree_bind agree | simp)+

lemma ClearMedia_P: "P s \<Longrightarrow> P (ClearMedia s)"
  using RpmbIo[OF Media[OF Slot(1)]] unfolding ClearMedia_def by simp

lemma SoftResetBody_agree [agree]:
  "P s \<Longrightarrow> agree_on P (SoftResetBody E R s) (SoftResetBody E R' s)"
  unfolding SoftResetBody_def Let_def
  by (rule agree_bind agree ClearMedia_P Media | simp)+

lemma SoftReset_agree [agree]:
  "P s \<Longrightarrow> agree_on P (SoftReset E R s) (SoftReset E R' s)"
  unfolding SoftReset_def SoftResetExit_def by (rule agree_bind2 agree_bind agree | simp)+

lemma StopMultiBlock_agree [agree]:
  "P s \<Longrightarrow> agree_on P (StopMultiBlock E R Cmd st s) (StopMultiBlock E R' Cmd st s)"
  unfolding StopMultiBlock_def by (rule agree_bind2 agree_bind agree | simp)+

lemma RecoverAttempt_agree [agree]:
  "P s \<Longrightarrow> agree_on P (RecoverAttempt E R Cmd s) (RecoverAttempt E R' Cmd s)"
  unfolding RecoverAttempt_def ResetLines_def by (rule agree_bind agree | simp)+

end

section \<open>The knot\<close>

definition at_count ::
  "('d SDHC_INSTANCE \<Rightarrow> bool) \<Rightarrow> u32 \<Rightarrow> 'd SDHC_INSTANCE \<Rightarrow> bool" where
  "at_count I c s \<longleftrightarrow> I s \<and> ErrorRecoveryAttemptCount s = c"

lemma count_set_Installed [simp]:
  "ErrorRecoveryAttemptCount (set_Installed p b s) = ErrorRecoveryAttemptCount s"
  by (simp add: set_Installed_def split: PROTOCOL.split)

lemma attempts_left_Suc: "attempts_left c = Suc (attempts_left c - 1)"
  by (auto simp: attempts_left_def min_def)

lemma unat_Suc_word: "c \<noteq> - 1 \<Longrightarrow> unat (c + 1) = Suc (unat c)" for c :: "'a::len word"
  by (metis add.commute eq_neg_iff_add_eq_0 unatSuc)

lemma attempts_left_next:
  assumes "\<not> c + 1 > (3 :: u32)"
  shows "attempts_left c - 1 = attempts_left (c + 1)"
proof (cases "c = - 1")
  case False
  have "unat (c + 1) \<le> 3"
    using assms by (simp add: word_less_nat_alt not_less)
  moreover have "c + 1 \<noteq> - 1"
  proof
    assume "c + 1 = - 1"
    then have "unat (c + 1) = unat (- 1 :: u32)" by (rule arg_cong)
    with \<open>unat (c + 1) \<le> 3\<close> show False
      by (simp add: unsigned_minus_1_eq_mask mask_eq_exp_minus_1)
  qed
  ultimately have "unat c < 3" and "c + 1 \<noteq> - 1"
    using unat_Suc_word[OF False] by auto
  then show ?thesis
    using False unat_Suc_word[OF False] by (simp add: attempts_left_def)
qed (simp add: attempts_left_def)

locale instance_invariant = instance_fields I for I :: "'d SDHC_INSTANCE \<Rightarrow> bool" +
  assumes Count: "I s \<Longrightarrow> I (s\<lparr>ErrorRecoveryAttemptCount := k\<rparr>)"
begin

lemma at_count_fields: "instance_fields (at_count I c)"
  by unfold_locales
     (simp_all add: at_count_def Device CmdResponse LastCmd CardInfo Media CurrentMmcPartition SlotInitialized SlotNode
       RpmbIo Buffer Installed)

lemma at_count_run:
  "(\<And>Cmd s. at_count I c s \<Longrightarrow> agree_on (at_count I c) (R Cmd s) (R' Cmd s)) \<Longrightarrow>
    recovery_run (at_count I c) R R'"
  using at_count_fields by (simp add: recovery_run_def recovery_run_axioms_def)

lemma RecoverBody_agree:
  assumes R: "\<And>Cmd s. \<not> c + 1 > SDMMC_ERROR_RECOVERY_ATTEMPT_THRESHOLD \<Longrightarrow> at_count I (c + 1) s \<Longrightarrow>
      agree_on (at_count I (c + 1)) (R Cmd s) (R' Cmd s)"
    and s: "at_count I c s"
  shows "agree_on (at_count I c) (RecoverBody E R Cmd s) (RecoverBody E R' Cmd s)"
proof -
  let ?s = "s\<lparr>ErrorRecoveryAttemptCount := ErrorRecoveryAttemptCount s + 1\<rparr>"
  have s1: "at_count I (c + 1) ?s" and c: "ErrorRecoveryAttemptCount ?s = c + 1"
    using s by (simp_all add: Count at_count_def)
  have *: "agree_on (at_count I (c + 1)) (RecoverAttempt E R Cmd ?s) (RecoverAttempt E R' Cmd ?s)"
    if "\<not> c + 1 > SDMMC_ERROR_RECOVERY_ATTEMPT_THRESHOLD"
    using recovery_run.RecoverAttempt_agree[OF at_count_run[OF R[OF that]] s1] .
  show ?thesis
    unfolding RecoverBody_def Let_def c
    by (rule agree_bind_other[where Q = "at_count I (c + 1)"])
       (auto intro!: agree * s1 simp: at_count_def Count)
qed

lemma Recover_keeps:
  "at_count I c s \<Longrightarrow> agree_on (at_count I c) (Recover n E Cmd s) (Recover n E Cmd s)"
proof (induction n arbitrary: c s Cmd)
  case (Suc n)
  show ?case
    unfolding Recover.simps by (rule RecoverBody_agree[OF Suc.IH Suc.prems])
qed (simp add: agree)

lemma recover_keeps:
  "at_count I c s \<Longrightarrow>
    agree_on (at_count I c) (SdhcRecoverFromErrors E Cmd s) (SdhcRecoverFromErrors E Cmd s)"
  unfolding SdhcRecoverFromErrors_def by (rule Recover_keeps)

lemma recover_equation:
  "at_count I c s \<Longrightarrow>
    SdhcRecoverFromErrors E Cmd s = RecoverBody E (SdhcRecoverFromErrors E) Cmd s"
proof -
  assume s: "at_count I c s"
  then have "SdhcRecoverFromErrors E Cmd s = Recover (Suc (attempts_left c - 1)) E Cmd s"
    unfolding SdhcRecoverFromErrors_def attempts_left_Suc[symmetric] by (simp add: at_count_def)
  also have "\<dots> = RecoverBody E (Recover (attempts_left c - 1) E) Cmd s"
    by simp
  also have "\<dots> = RecoverBody E (SdhcRecoverFromErrors E) Cmd s"
    by (rule agree_onD(1)[OF RecoverBody_agree[OF _ s]])
       (use recover_keeps[of "c + 1"] in \<open>simp add: attempts_left_next[unfolded One_nat_def] SdhcRecoverFromErrors_def at_count_def\<close>)
  finally show ?thesis .
qed

end

section \<open>The invariant of an instance\<close>

text \<open>
  The types of the fields whose C type is wider than their values: the relative card address has 16 bits, so
  that the argument \<open>RCA << 16\<close> loses none of them; a partition is one of the eight of \<open>EXT_CSD\<close>; and the block size is
  512 or, after a soft reset, 0.
\<close>

definition instance_ok :: "'d SDHC_INSTANCE \<Rightarrow> bool" where
  "instance_ok s \<longleftrightarrow> RCA_16 (CardInfo s) \<and> CurrentMmcPartition s < 8 \<and> BlockSize (Media s) \<in> {0, 512}"

lemma instance_ok_fields: "instance_fields instance_ok"
  by unfold_locales (auto simp: instance_ok_def set_Installed_def split: PROTOCOL.splits)

interpretation typed: instance_invariant instance_ok
  by (intro instance_invariant.intro instance_ok_fields instance_invariant_axioms.intro)
     (simp add: instance_ok_def)

interpretation always: instance_invariant "\<lambda>s. True"
  by unfold_locales simp_all

interpretation driver: recovery_run "at_count instance_ok c" E
    "SdhcRecoverFromErrors E" "SdhcRecoverFromErrors E" for c E
  by (rule typed.at_count_run) (rule typed.recover_keeps)

text \<open>C7: The recursion of the error recovery ends: \<open>SdhcRecoverFromErrors\<close>, defined by recursion on the attempts that its counter
  leaves, satisfies at every state the equation of the code, in which the commands that it sends recover from their errors by calling it again.\<close>

theorem SdhcRecoverFromErrors_equation:
  "SdhcRecoverFromErrors E Cmd s = RecoverBody E (SdhcRecoverFromErrors E) Cmd s"
  by (rule always.recover_equation) (simp add: at_count_def)

lemma SoftReset_keeps:
  assumes "instance_ok s" and "SoftReset E (SdhcRecoverFromErrors E) s = Some (Status, s')"
  shows "instance_ok s' \<and> ErrorRecoveryAttemptCount s' = ErrorRecoveryAttemptCount s"
  using agree_onD(2)[OF driver.SoftReset_agree assms(2)] assms(1) by (auto simp: at_count_def)

end
