(* ===== verification/SdMmcReady.thy ===== *)
theory SdMmcReady
  imports SdMmcRun
begin

unbundle bit_operations_syntax

text \<open>
  What a successful command leaves behind. A command of the SD/MMC driver recovers only when it fails, so one that
  succeeds changes the response, the record of the last commands and the device, and nothing else, whatever the
  recovery routine is. From this follows the state after a successful initialisation.
\<close>

section \<open>Successful commands\<close>

definition core where
  "core s = (CardInfo s, Media s, RpmbIo s, SlotInitialized s, SlotNode s, CurrentMmcPartition s,
     BlockBuffer s, ErrorRecoveryAttemptCount s, HostCapabilities s, DevicePathProtocolInstalled s,
     BlockIoProtocolInstalled s, RpmbIoProtocolInstalled s)"

lemma core_update [simp]:
  "core (s\<lparr>Device := d\<rparr>) = core s" "core (s\<lparr>CmdResponse := r\<rparr>) = core s"
  "core (s\<lparr>PreLastSuccessfulCmd := a, LastSuccessfulCmd := b\<rparr>) = core s"
  by (simp_all add: core_def)

lemma core_fields:
  assumes "core s' = core s"
  shows "CardInfo s' = CardInfo s" "Media s' = Media s" "RpmbIo s' = RpmbIo s"
    "SlotInitialized s' = SlotInitialized s" "SlotNode s' = SlotNode s"
    "CurrentMmcPartition s' = CurrentMmcPartition s" "BlockBuffer s' = BlockBuffer s"
    "ErrorRecoveryAttemptCount s' = ErrorRecoveryAttemptCount s"
    "HostCapabilities s' = HostCapabilities s"
    "DevicePathProtocolInstalled s' = DevicePathProtocolInstalled s"
    "BlockIoProtocolInstalled s' = BlockIoProtocolInstalled s"
    "RpmbIoProtocolInstalled s' = RpmbIoProtocolInstalled s"
  using assms by (simp_all add: core_def)

abbreviation (input) quiet :: "'d SDHC_INSTANCE \<Rightarrow> 'd SDHC_INSTANCE \<Rightarrow> bool" where
  "quiet s s' \<equiv> core s' = core s"

text \<open>\<open>ok_run Q m\<close>: when \<open>m\<close> returns without an error, it returns \<open>EFI_SUCCESS\<close> in a state with \<open>Q\<close>.\<close>

definition ok_run :: "('s \<Rightarrow> bool) \<Rightarrow> (EFI_STATUS \<times> 's) option \<Rightarrow> bool" where
  "ok_run Q m \<longleftrightarrow> (\<forall>st s. m = Some (st, s) \<longrightarrow> \<not> EFI_ERROR st \<longrightarrow> Q s)"

lemma ok_runD: "ok_run Q m \<Longrightarrow> m = Some (st, s) \<Longrightarrow> \<not> EFI_ERROR st \<Longrightarrow> Q s"
  by (simp add: ok_run_def)

lemma ok_run_Some: "(\<not> EFI_ERROR st \<Longrightarrow> Q s) \<Longrightarrow> ok_run Q (Some (st, s))"
  by (simp add: ok_run_def)

lemma ok_run_iff: "ok_run Q (Some (st, s)) \<longleftrightarrow> EFI_ERROR st \<or> Q s"
  by (auto simp: ok_run_def)

lemma ok_run_None: "ok_run Q None"
  by (simp add: ok_run_def)

lemma ok_run_then: "ok_run P m \<Longrightarrow> (\<And>s. P s \<Longrightarrow> ok_run Q (f s)) \<Longrightarrow> ok_run Q (ok_then m f)"
  unfolding ok_run_def ok_then_def by (auto split: bind_splits if_splits)

lemma ok_run_steps:
  "ok_run P (f s) \<Longrightarrow> (\<And>t. P t \<Longrightarrow> ok_run Q (steps fs t)) \<Longrightarrow> ok_run Q (steps (f # fs) s)"
  by (simp add: ok_run_then)

lemma ok_run_steps_Nil: "Q s \<Longrightarrow> ok_run Q (steps [] s)"
  by (simp add: ok_run_def)

lemma ok_run_mono: "ok_run P m \<Longrightarrow> (\<And>s. P s \<Longrightarrow> Q s) \<Longrightarrow> ok_run Q m"
  by (simp add: ok_run_def)

lemma ok_run_if: "(b \<Longrightarrow> ok_run Q x) \<Longrightarrow> (\<not> b \<Longrightarrow> ok_run Q y) \<Longrightarrow> ok_run Q (if b then x else y)"
  by simp

lemma on_device_quiet: "on_device f s = Some (r, s') \<Longrightarrow> quiet s s'"
  by (auto simp: on_device_def)

lemma on_device_last:
  "on_device f s = Some (r, s') \<Longrightarrow> quiet s s' \<and> LastSuccessfulCmd s' = LastSuccessfulCmd s"
  by (auto simp: on_device_def)

lemma first_send_last:
  "(if b then on_device f s else Some (r, s)) = Some (r', s') \<Longrightarrow>
    quiet s s' \<and> LastSuccessfulCmd s' = LastSuccessfulCmd s"
  by (auto split: if_splits simp: on_device_def)

lemma bindE:
  assumes "Option.bind m f = Some y" obtains x where "m = Some x" "f x = Some y"
  using assms by (cases m) auto

lemma Helper_run:
  assumes "SdhcSendCommandHelper E Cmd Arg x s = Some ((st, x'), s')"
  shows "quiet s s' \<and> (\<not> EFI_ERROR st \<longrightarrow> st = EFI_SUCCESS \<and> LastSuccessfulCmd s' = Some Cmd \<and>
    PreLastSuccessfulCmd s' = LastSuccessfulCmd s)"
  using assms unfolding SdhcSendCommandHelper_def Let_def
  by (auto elim!: bindE split: if_split_asm dest!: on_device_last first_send_last)

lemma SendCommandWith_ok:
  assumes "\<And>s. ok_run (quiet s) (W s)"
  shows "ok_run (quiet s) (SendCommandWith W E R Cmd Arg s)"
  using assms unfolding SendCommandWith_def ok_run_def
  by (auto elim!: bindE split: if_split_asm dest!: Helper_run)

lemma SendStatus_ok:
  assumes "SdhcSendStatus E R c s = Some ((st, c'), s')" "\<not> EFI_ERROR st"
  shows "quiet s s'"
proof -
  have "ok_run (quiet s) (SendCommandWith (\<lambda>_. None) E R CmdSendStatus (RCA_arg s) s)"
    by (rule SendCommandWith_ok) (simp add: ok_run_def)
  then show ?thesis
    using assms unfolding SdhcSendStatus_def ok_run_def by (auto elim!: bindE split: if_split_asm)
qed

lemma PollTran_ok: "ok_run (quiet s) (PollTran n E R c s)"
proof (induction n arbitrary: c s)
  case (Suc n)
  have "quiet s s'" if "PollTran (Suc n) E R c s = Some (st, s')" "\<not> EFI_ERROR st" for st s'
    using that unfolding PollTran.simps
    by (auto elim!: bindE split: if_split_asm dest!: on_device_quiet SendStatus_ok ok_runD[OF Suc.IH])
  then show ?case by (simp add: ok_run_def)
qed (simp add: ok_run_def)

lemma Wait_ok: "ok_run (quiet s) (SdhcWaitForTranStateAndReadyForData E R s)"
  unfolding SdhcWaitForTranStateAndReadyForData_def ok_run_def
  by (auto elim!: bindE split: if_split_asm dest!: SendStatus_ok ok_runD[OF PollTran_ok])

lemma SendCommand_ok: "ok_run (quiet s) (SdhcSendCommand E R Cmd Arg s)"
  unfolding SdhcSendCommand_def by (rule SendCommandWith_ok) (rule Wait_ok)

lemma Stop_ok: "ok_run (quiet s) (SdhcStopTransmission E R s)"
  unfolding SdhcStopTransmission_def by (rule SendCommand_ok)

lemma DataPhase_quiet: "DataPhase E Cmd n b s = Some ((st, b'), s') \<Longrightarrow> quiet s s'"
  unfolding DataPhase_def
  by (auto elim!: bindE split: SD_TRANSFER_DIRECTION.split_asm dest!: on_device_quiet)

lemma FinishData_ok: "ok_run (quiet s) (FinishData E R Cmd s)"
  unfolding FinishData_def ok_run_def ok_then_def
  by (auto elim!: bindE split: if_split_asm dest!: ok_runD[OF Stop_ok] ok_runD[OF Wait_ok])

lemma SendDataCommand_ok:
  assumes "SdhcSendDataCommand E R Cmd Arg n b s = Some ((st, b'), s')" "\<not> EFI_ERROR st"
  shows "quiet s s'"
  using assms unfolding SdhcSendDataCommand_def Let_def
  by (auto elim!: bindE split: if_split_asm dest!: Helper_run DataPhase_quiet ok_runD[OF FinishData_ok])

section \<open>A device that is ready\<close>

lemma ok_run_command: "(\<And>t. quiet s t \<Longrightarrow> Q t) \<Longrightarrow> ok_run Q (SdhcSendCommand E R Cmd Arg s)"
  by (rule ok_run_mono[OF SendCommand_ok])

lemma ok_run_on_device: "(\<And>t. quiet s t \<Longrightarrow> Q t) \<Longrightarrow> ok_run Q (on_device f s)"
  unfolding ok_run_def by (auto dest: on_device_quiet)

lemma ok_run_bind_pure: "(\<And>x. e = Some x \<Longrightarrow> ok_run Q (f x)) \<Longrightarrow> ok_run Q (Option.bind e f)"
  by (cases e) (simp_all add: ok_run_None)

lemma ReadBlockBuffer_ok:
  "ok_run (\<lambda>t. \<exists>b. quiet (s\<lparr>BlockBuffer := b\<rparr>) t) (ReadBlockBuffer E R Cmd s)"
  unfolding ReadBlockBuffer_def ok_run_def
  by (auto elim!: bindE dest!: SendDataCommand_ok simp: core_def)

definition ext_capacity :: "'d SDHC_INSTANCE \<Rightarrow> bool" where
  "ext_capacity s \<longleftrightarrow> ByteCapacity (CardInfo s) = ucast (SectorCount (ExtCsd (CardInfo s))) * 512 \<and>
     LastBlock (Media s) = ucast (SectorCount (ExtCsd (CardInfo s)) - 1)"

definition csd_capacity :: "'d SDHC_INSTANCE \<Rightarrow> bool" where
  "csd_capacity s \<longleftrightarrow>
     ByteCapacity (CardInfo s) = (if CSD_STRUCTURE (Csd (CardInfo s)) = 0 then CsdByteCapacity (Csd (CardInfo s))
       else Csd2ByteCapacity (Csd (CardInfo s))) \<and>
     LastBlock (Media s) = (if ByteCapacity (CardInfo s) div 512 > 0 then ByteCapacity (CardInfo s) div 512 - 1 else 0)"

text \<open>What the steps of the initialisation keep: all but the extended CSD, the capacity and the block buffer.\<close>

definition card_kept :: "'d SDHC_INSTANCE \<Rightarrow> 'd SDHC_INSTANCE \<Rightarrow> bool" where
  "card_kept s t \<longleftrightarrow> RCA (CardInfo t) = RCA (CardInfo s) \<and> CardFunction (CardInfo t) = CardFunction (CardInfo s) \<and>
     CurrentSpeedMode (CardInfo t) = CurrentSpeedMode (CardInfo s) \<and> Csd (CardInfo t) = Csd (CardInfo s) \<and>
     Cid (CardInfo t) = Cid (CardInfo s) \<and> BlockSize (Media t) = BlockSize (Media s) \<and>
     MediaPresent (Media t) = MediaPresent (Media s) \<and>
     SlotInitialized t = SlotInitialized s"

lemma card_kept_refl: "card_kept s s"
  by (simp add: card_kept_def)

lemma card_kept_trans: "card_kept s t \<Longrightarrow> card_kept t u \<Longrightarrow> card_kept s u"
  by (simp add: card_kept_def)

lemma quiet_card_kept: "quiet s t \<Longrightarrow> card_kept s t"
  by (simp add: card_kept_def core_def)

lemma SendExtCsd_ok:
  "ok_run (\<lambda>t. card_kept s t \<and> ext_capacity t) (SdhcSendExtCsdMmc E R s)"
  unfolding SdhcSendExtCsdMmc_def Let_def
  by (rule ok_run_then[OF ReadBlockBuffer_ok])
     (auto simp: ok_run_def card_kept_def ext_capacity_def core_def)

lemma ext_capacity_quiet: "quiet s t \<Longrightarrow> ext_capacity s \<Longrightarrow> ext_capacity t"
  by (simp add: ext_capacity_def core_def)

definition ext_kept :: "'d SDHC_INSTANCE \<Rightarrow> 'd SDHC_INSTANCE \<Rightarrow> bool" where
  "ext_kept s t \<longleftrightarrow> card_kept s t \<and> ext_capacity t"

lemma ext_kept_quiet: "ext_kept s t \<Longrightarrow> quiet t u \<Longrightarrow> ext_kept s u"
  by (auto simp: ext_kept_def intro: card_kept_trans quiet_card_kept ext_capacity_quiet)

lemma ext_kept_SendExtCsd: "card_kept s t \<Longrightarrow> ok_run (ext_kept s) (SdhcSendExtCsdMmc E R t)"
  by (rule ok_run_mono[OF SendExtCsd_ok]) (simp add: ext_kept_def card_kept_def)

lemma ext_kept_run:
  assumes "ext_kept s t"
  shows "ok_run (ext_kept s) (SdhcSendCommand E R Cmd Arg t)" "ok_run (ext_kept s) (on_device f t)"
    "ok_run (ext_kept s) (SdhcSendExtCsdMmc E R t)"
    apply (rule ok_run_command, rule ext_kept_quiet[OF assms], assumption)
   apply (rule ok_run_on_device, rule ext_kept_quiet[OF assms], assumption)
  using assms by (simp add: ext_kept_SendExtCsd ext_kept_def)

lemma SwitchPowerClass_ok: "ext_kept s t \<Longrightarrow> ok_run (ext_kept s) (SwitchPowerClass E R pc t)"
  unfolding SwitchPowerClass_def
  by (intro ok_run_if ok_run_then[where P = "ext_kept s"] ok_run_steps[where P = "ext_kept s"]
        ok_run_steps_Nil ext_kept_run ok_run_Some)

lemma SwitchBusWidthMmc_ok: "card_kept s t \<Longrightarrow> ok_run (ext_kept s) (SdhcSwitchBusWidthMmc E R t)"
  unfolding SdhcSwitchBusWidthMmc_def
  by (rule ok_run_steps[where P = "ext_kept s"], erule ext_kept_SendExtCsd)
     (intro ok_run_steps[where P = "ext_kept s"] ok_run_steps_Nil ext_kept_run SwitchPowerClass_ok; assumption)

lemma SetMaxClock_ok: "ok_run (quiet s) (SdhcSetMaxClockFrequency E s)"
  unfolding SdhcSetMaxClockFrequency_def
  by (intro ok_run_if ok_run_None ok_run_bind_pure ok_run_then[where P = "quiet s"] ok_run_on_device ok_run_Some)

text \<open>The state of an eMMC and of an SD card after the initialisation of its function.\<close>

definition mmc_ready :: "'d SDHC_INSTANCE \<Rightarrow> bool" where
  "mmc_ready s \<longleftrightarrow> CardFunction (CardInfo s) = CardFunctionMmc \<and> RCA (CardInfo s) = 0xCCCC \<and>
     MMC_MIN_SUPPORTED_SPEC_VERS \<le> SPEC_VERS (Csd (CardInfo s)) \<and>
     CurrentSpeedMode (CardInfo s) = CardSpeedModeHighSpeed \<and> BlockSize (Media s) = 512 \<and> ext_capacity s"

definition sd_ready :: "'d SDHC_INSTANCE \<Rightarrow> bool" where
  "sd_ready s \<longleftrightarrow> CardFunction (CardInfo s) = CardFunctionSd \<and> BlockSize (Media s) = 512 \<and> csd_capacity s"

lemma ready_quiet:
  assumes "quiet s t" shows "mmc_ready s \<Longrightarrow> mmc_ready t" "sd_ready s \<Longrightarrow> sd_ready t"
  using assms by (simp_all add: mmc_ready_def sd_ready_def ext_capacity_def csd_capacity_def core_def)

lemma SendCsd_ok:
  "ok_run (\<lambda>t. RCA (CardInfo t) = RCA (CardInfo s) \<and> CardFunction (CardInfo t) = CardFunction (CardInfo s) \<and>
     CurrentSpeedMode (CardInfo t) = CurrentSpeedMode (CardInfo s) \<and> BlockSize (Media t) = 512 \<and>
     (CardFunction (CardInfo s) = CardFunctionSd \<longrightarrow> csd_capacity t))
   (SdhcSendCsd E R s)"
  unfolding SdhcSendCsd_def Let_def
  by (rule ok_run_then[OF SendCommand_ok])
     (auto simp: ok_run_def csd_capacity_def core_def split: CARD_FUNCTION.splits)

lemma SendCid_ok:
  "ok_run (\<lambda>t. RCA (CardInfo t) = RCA (CardInfo s) \<and> CardFunction (CardInfo t) = CardFunction (CardInfo s))
   (SdhcSendCid E R s)"
  unfolding SdhcSendCid_def
  by (rule ok_run_then[OF SendCommand_ok]) (auto simp: ok_run_def core_def split: CARD_FUNCTION.splits)

lemma SendRelativeAddr_ok:
  "ok_run (\<lambda>t. CardFunction (CardInfo t) = CardFunction (CardInfo s) \<and>
     (CardFunction (CardInfo s) = CardFunctionMmc \<longrightarrow> RCA (CardInfo t) = 0xCCCC)) (SdhcSendRelativeAddr E R s)"
  unfolding SdhcSendRelativeAddr_def Let_def
  by (rule ok_run_then[OF SendCommand_ok]) (auto simp: ok_run_def core_def)

definition mmc_base :: "'d SDHC_INSTANCE \<Rightarrow> bool" where
  "mmc_base s \<longleftrightarrow> CardFunction (CardInfo s) = CardFunctionMmc \<and> RCA (CardInfo s) = 0xCCCC \<and>
     MMC_MIN_SUPPORTED_SPEC_VERS \<le> SPEC_VERS (Csd (CardInfo s)) \<and> BlockSize (Media s) = 512"

lemma mmc_base_kept: "card_kept s t \<Longrightarrow> mmc_base s \<Longrightarrow> mmc_base t"
  by (simp add: mmc_base_def card_kept_def)

lemma SwitchSpeedModeMmc_ok:
  assumes "mmc_base s"
  shows "ok_run (\<lambda>t. mmc_base t \<and> CurrentSpeedMode (CardInfo t) = CardSpeedModeHighSpeed)
    (SdhcSwitchSpeedModeMmc E R s)"
  unfolding SdhcSwitchSpeedModeMmc_def
proof (rule ok_run_then[OF SendCommand_ok])
  fix t :: "'a SDHC_INSTANCE"
  let ?t = "upd_CardInfo (CurrentSpeedMode_update (\<lambda>_. CardSpeedModeHighSpeed)) t"
  assume "quiet s t"
  then have "mmc_base ?t"
    using assms by (simp add: mmc_base_def core_def)
  then show "ok_run (\<lambda>t. mmc_base t \<and> CurrentSpeedMode (CardInfo t) = CardSpeedModeHighSpeed)
     (ok_then (SdhcSendExtCsdMmc E R ?t)
       (\<lambda>s. if HighSpeedTiming (ExtCsd (CardInfo s)) = 0 then Some (EFI_PROTOCOL_ERROR, s)
          else Some (EFI_SUCCESS, s)))"
    by (intro ok_run_then[OF SendExtCsd_ok] ok_run_if ok_run_Some)
       (auto simp: mmc_base_def card_kept_def)
qed

lemma InitializeMmc_ok:
  assumes "CardFunction (CardInfo s) = CardFunctionMmc"
  shows "ok_run mmc_ready (InitializeMmcDevice E R s)"
proof -
  let ?P0 = "\<lambda>t. CardFunction (CardInfo t) = CardFunctionMmc"
  let ?P1 = "\<lambda>t. ?P0 t \<and> RCA (CardInfo t) = 0xCCCC"
  let ?P2 = "\<lambda>t. ?P1 t \<and> BlockSize (Media t) = 512"
  let ?P5 = "\<lambda>t. mmc_base t \<and> CurrentSpeedMode (CardInfo t) = CardSpeedModeHighSpeed"
  have s1: "ok_run ?P0 (SdhcSendCidAll E R t)" if "?P0 t" for t
    unfolding SdhcSendCidAll_def by (rule ok_run_command) (use that in \<open>simp add: core_def\<close>)
  have s2: "ok_run ?P1 (SdhcSendRelativeAddr E R t)" if "?P0 t" for t
    by (rule ok_run_mono[OF SendRelativeAddr_ok]) (use that in simp)
  have s3: "ok_run ?P1 (SdhcSendCid E R t)" if "?P1 t" for t
    by (rule ok_run_mono[OF SendCid_ok]) (use that in simp)
  have s4: "ok_run ?P2 (SdhcSendCsd E R t)" if "?P1 t" for t
    by (rule ok_run_mono[OF SendCsd_ok]) (use that in simp)
  have s5: "ok_run mmc_base (CheckSpecVers t)" if "?P2 t" for t
    using that by (simp add: CheckSpecVers_def ok_run_def mmc_base_def)
  have s6: "ok_run mmc_base (SdhcSelectDevice E R t)" if "mmc_base t" for t
    unfolding SdhcSelectDevice_def
    by (rule ok_run_command) (rule mmc_base_kept[OF quiet_card_kept that], assumption)
  have s7: "ok_run mmc_base (SdhcSendExtCsdMmc E R t)" if "mmc_base t" for t
    by (rule ok_run_mono[OF SendExtCsd_ok]) (use mmc_base_kept that in blast)
  have s8: "ok_run ?P5 (SdhcSwitchSpeedModeMmc E R t)" if "mmc_base t" for t
    by (rule SwitchSpeedModeMmc_ok[OF that])
  have s9: "ok_run mmc_ready (SdhcSwitchBusWidthMmc E R t)" if "?P5 t" for t
    by (rule ok_run_mono[OF SwitchBusWidthMmc_ok[OF card_kept_refl[of t]]])
       (use that in \<open>simp add: ext_kept_def mmc_ready_def mmc_base_def card_kept_def\<close>)
  have s10: "ok_run mmc_ready (SdhcSetMaxClockFrequency E t)" if "mmc_ready t" for t
    by (rule ok_run_mono[OF SetMaxClock_ok]) (rule ready_quiet(1)[OF _ that])
  show ?thesis
    unfolding InitializeMmcDevice_def
    by (rule ok_run_steps[where P = ?P0], rule s1, rule assms,
        rule ok_run_steps[where P = ?P1], erule s2, rule ok_run_steps[where P = ?P1], erule s3,
        rule ok_run_steps[where P = ?P2], erule s4, rule ok_run_steps[where P = mmc_base], erule s5,
        rule ok_run_steps[where P = mmc_base], erule s6, rule ok_run_steps[where P = mmc_base], erule s7,
        rule ok_run_steps[where P = ?P5], erule s8, rule ok_run_steps[where P = mmc_ready], erule s9,
        rule ok_run_steps[where P = mmc_ready], erule s10, rule ok_run_steps_Nil)
qed

lemma InitializeSd_ok:
  assumes "CardFunction (CardInfo s) = CardFunctionSd"
  shows "ok_run sd_ready (InitializeSdDevice E R s)"
proof -
  let ?P0 = "\<lambda>t. CardFunction (CardInfo t) = CardFunctionSd"
  have cmd: "ok_run ?P0 (SdhcSendCommand E R Cmd Arg t)" if "?P0 t" for Cmd Arg t
    by (rule ok_run_command) (use that in \<open>simp add: core_def\<close>)
  have loop: "ok_run ?P0 (OpCondSdLoop n E R a t)" if "?P0 t" for n a t
    using that
  proof (induction n arbitrary: t)
    case (Suc n)
    show ?case
      unfolding OpCondSdLoop.simps Let_def
      by (rule ok_run_then, rule cmd, rule Suc.prems) (auto simp: on_device_def intro!: ok_run_Some Suc.IH)
  qed (simp add: ok_run_def)
  have s1: "ok_run ?P0 (SdhcSendOpCondSd E R t)" if "?P0 t" for t
    unfolding SdhcSendOpCondSd_def Let_def
    by (rule ok_run_then, rule cmd, rule that, rule loop, simp)
  have s2: "ok_run ?P0 (SdhcSendCidAll E R t)" if "?P0 t" for t
    unfolding SdhcSendCidAll_def by (rule cmd) (rule that)
  have s3: "ok_run ?P0 (SdhcSendRelativeAddr E R t)" if "?P0 t" for t
    by (rule ok_run_mono[OF SendRelativeAddr_ok]) (use that in simp)
  have s4: "ok_run ?P0 (SdhcSendCid E R t)" if "?P0 t" for t
    by (rule ok_run_mono[OF SendCid_ok]) (use that in simp)
  have s5: "ok_run sd_ready (SdhcSendCsd E R t)" if "?P0 t" for t
    by (rule ok_run_mono[OF SendCsd_ok]) (use that in \<open>simp add: sd_ready_def\<close>)
  have s6: "ok_run sd_ready (SdhcSelectDevice E R t)" if "sd_ready t" for t
    unfolding SdhcSelectDevice_def by (rule ok_run_command) (rule ready_quiet(2)[OF _ that])
  have s7: "ok_run sd_ready (SdhcSwitchBusWidthSd E R t)" if "sd_ready t" for t
    unfolding SdhcSwitchBusWidthSd_def
    by (rule ok_run_steps[where P = sd_ready], rule ok_run_command, rule ready_quiet(2)[OF _ that], assumption,
        rule ok_run_steps[where P = sd_ready], rule ok_run_on_device, rule ready_quiet(2), assumption+,
        rule ok_run_steps_Nil)
  have s8: "ok_run sd_ready (SdhcSwitchSpeedModeSd E R t)" if "sd_ready t" for t
    using that by (simp add: SdhcSwitchSpeedModeSd_def ok_run_def)
  have s9: "ok_run sd_ready (SdhcSetMaxClockFrequency E t)" if "sd_ready t" for t
    by (rule ok_run_mono[OF SetMaxClock_ok]) (rule ready_quiet(2)[OF _ that])
  show ?thesis
    unfolding InitializeSdDevice_def
    by (rule ok_run_steps[where P = ?P0], rule s1, rule assms,
        rule ok_run_steps[where P = ?P0], erule s2, rule ok_run_steps[where P = ?P0], erule s3,
        rule ok_run_steps[where P = ?P0], erule s4, rule ok_run_steps[where P = sd_ready], erule s5,
        rule ok_run_steps[where P = sd_ready], erule s6, rule ok_run_steps[where P = sd_ready], erule s7,
        rule ok_run_steps[where P = sd_ready], erule s8, rule ok_run_steps[where P = sd_ready], erule s9,
        rule ok_run_steps_Nil)
qed

definition device_ready :: "'d SDHC_INSTANCE \<Rightarrow> bool" where
  "device_ready s \<longleftrightarrow> SlotInitialized s \<and>
     (mmc_ready s \<and> MediaId (Media s) = MMC_CID_PSN (Cid (CardInfo s)) \<and> \<not> RemovableMedia (Media s) \<or>
      sd_ready s \<and> MediaId (Media s) = SD_CID_PSN (Cid (CardInfo s)) \<and> RemovableMedia (Media s))"

lemma InitializeFunction_ok: "ok_run (\<lambda>t. mmc_ready t \<or> sd_ready t) (InitializeFunction E R s)"
  unfolding InitializeFunction_def
  by (cases "CardFunction (CardInfo s)"; simp only: CARD_FUNCTION.case)
     (simp_all add: ok_run_None ok_run_iff ok_run_mono[OF InitializeMmc_ok] ok_run_mono[OF InitializeSd_ok])

lemma Finish_ok: "mmc_ready s \<or> sd_ready s \<Longrightarrow> ok_run device_ready (FinishInitialization s)"
proof (elim disjE)
  assume r: "mmc_ready s"
  then have "CardFunction (CardInfo s) = CardFunctionMmc" by (simp add: mmc_ready_def)
  with r show ?thesis
    by (simp add: FinishInitialization_def ok_run_iff device_ready_def mmc_ready_def ext_capacity_def)
next
  assume r: "sd_ready s"
  then have "CardFunction (CardInfo s) = CardFunctionSd" by (simp add: sd_ready_def)
  with r show ?thesis
    by (simp add: FinishInitialization_def ok_run_iff device_ready_def sd_ready_def csd_capacity_def)
qed

lemma InitializeDevice_ok: "ok_run device_ready (InitializeDevice E R s)"
proof -
  let ?P = "\<lambda>t. mmc_ready t \<or> sd_ready t"
  have any: "ok_run (\<lambda>t. True) m" for m :: "'d outcome"
    by (simp add: ok_run_def)
  have block: "ok_run ?P (SdhcSetBlockLength E R n t)" if "?P t" for t n
    unfolding SdhcSetBlockLength_def
    by (rule ok_run_command) (use that ready_quiet in blast)
  show ?thesis
    unfolding InitializeDevice_def
    by (rule ok_run_if, rule ok_run_None)
       (rule ok_run_steps[OF any], rule ok_run_steps[OF any], rule ok_run_steps[OF any],
        rule ok_run_steps[where P = ?P], rule InitializeFunction_ok,
        rule ok_run_steps[where P = ?P], erule block,
        rule ok_run_steps[where P = device_ready], erule Finish_ok, rule ok_run_steps_Nil)
qed

section \<open>A card\<close>

text \<open>An SD card of 4096 blocks behind a controller without state, and an instance for it.\<close>

definition sd_response :: "SD_COMMAND \<Rightarrow> 128 word" where
  "sd_response Cmd =
     (case ResponseType Cmd of
        SdResponseTypeR1 \<Rightarrow> 0x900
      | SdResponseTypeR1B \<Rightarrow> 0x900
      | SdResponseTypeR2 \<Rightarrow> 0x002600325F5980FFC0000000000000
      | SdResponseTypeR3 \<Rightarrow> 0x80FF8000
      | _ \<Rightarrow> 0x1AA)"

definition sd_card :: "unit sdhc_services" where
  "sd_card = \<lparr>SoftwareReset = (\<lambda>_ d. (EFI_SUCCESS, d)), SetClock = (\<lambda>_ d. (EFI_SUCCESS, d)),
     SetBusWidth = (\<lambda>_ d. (EFI_SUCCESS, d)), IsCardPresent = (\<lambda>d. (True, d)), IsReadOnly = (\<lambda>d. (False, d)),
     SendCommand = (\<lambda>Cmd Arg x d. ((if ResponseType Cmd = SdResponseTypeR4 then EFI_TIMEOUT else EFI_SUCCESS, \<lambda>_. 0), d)),
     ReceiveResponse = (\<lambda>Cmd r d. ((EFI_SUCCESS, sd_response Cmd), d)),
     ReadBlockData = (\<lambda>n b d. ((EFI_SUCCESS, b), d)),
     WriteBlockData = (\<lambda>n b d. (EFI_SUCCESS, d)), Stall = (\<lambda>_ d. (EFI_SUCCESS, d)),
     InstallProtocol = (\<lambda>_ d. (EFI_SUCCESS, d)), UninstallProtocol = (\<lambda>_ d. (EFI_SUCCESS, d)),
     LocateRpmbIo = (\<lambda>d. (EFI_NOT_FOUND, d)), ConvertDevicePathToText = (\<lambda>d. (True, d)),
     FreeText = (\<lambda>d. ((), d))\<rparr>"

definition new_instance :: "'d \<Rightarrow> 'd SDHC_INSTANCE" where
  "new_instance d = \<lparr>SlotInitialized = False, SlotNode = SLOT_NODE_NONE,
     Media = gSdhcMediaTemplate\<lparr>MediaPresent := True\<rparr>,
     RpmbIo = \<lparr>RpmbCid = 0, ReliableSectorCount = 0, RpmbSizeMult = 0\<rparr>,
     HostCapabilities = \<lparr>MaximumBlockSize = 512, MaximumBlockCount = 2\<rparr>,
     DevicePathProtocolInstalled = False, BlockIoProtocolInstalled = False, RpmbIoProtocolInstalled = False,
     CurrentMmcPartition = 0, CardInfo = CARD_INFO_zero, BlockBuffer = (\<lambda>_. 0), CmdResponse = 0,
     PreLastSuccessfulCmd = None, LastSuccessfulCmd = None, ErrorRecoveryAttemptCount = 0, Device = d\<rparr>"

lemma Device_unit: "Device_update (\<lambda>_. ()) s = s"
  by (cases s) simp

lemma sd_card_command:
  assumes "Cmd \<noteq> CmdSwitchMmc" "Cmd \<noteq> CmdSwitchSd" "ResponseType Cmd \<noteq> SdResponseTypeR4"
    and "ResponseType Cmd \<in> {SdResponseTypeR1, SdResponseTypeR1B} \<Longrightarrow> CardFunction (CardInfo s) = CardFunctionSd"
  shows "SdhcSendCommand sd_card R Cmd Arg s = Some (EFI_SUCCESS, s\<lparr>CmdResponse := sd_response Cmd,
     PreLastSuccessfulCmd := LastSuccessfulCmd s, LastSuccessfulCmd := Some Cmd\<rparr>)"
proof -
  have r: "IsCardStatusError s' (ucast (sd_response Cmd)) = Some 0"
    if "ResponseType Cmd \<in> {SdResponseTypeR1, SdResponseTypeR1B}" "CardFunction (CardInfo s') = CardFunctionSd" for s' :: "unit SDHC_INSTANCE"
    using that by (auto simp: IsCardStatusError_def sd_response_def)
  have a: "ResponseType CmdAppSd = SdResponseTypeR1"
    by (simp add: SD_COMMANDS)
  show ?thesis
    using assms r[of "s\<lparr>CmdResponse := sd_response Cmd\<rparr>"]
    by (auto simp add: SdhcSendCommand_def SendCommandWith_def SdhcSendCommandHelper_def on_device_def sd_card_def XfrInfo_set_def Let_def a Device_unit
        IsCardStatusError_def)
qed

lemma sd_card_services:
  "on_device (SoftwareReset sd_card t) s = Some (EFI_SUCCESS, s)"
  "on_device (SetClock sd_card f) s = Some (EFI_SUCCESS, s)"
  "on_device (SetBusWidth sd_card w) s = Some (EFI_SUCCESS, s)"
  by (simp_all add: on_device_def sd_card_def Device_unit)

lemma sd_card_sdio:
  "SdhcSendCommand sd_card (\<lambda>Cmd s. Some (EFI_SUCCESS, s)) CmdSendOpCondSdio Arg s = Some (EFI_TIMEOUT, s)"
  by (simp add: SdhcSendCommand_def SendCommandWith_def SdhcSendCommandHelper_def on_device_def sd_card_def XfrInfo_set_def
      Let_def SD_COMMANDS Device_unit)

abbreviation (input) sent :: "128 word \<Rightarrow> SD_COMMAND \<Rightarrow> unit SDHC_INSTANCE \<Rightarrow> (EFI_STATUS \<times> unit SDHC_INSTANCE) option" where
  "sent r Cmd s \<equiv> Some (EFI_SUCCESS, s\<lparr>CmdResponse := r, PreLastSuccessfulCmd := LastSuccessfulCmd s, LastSuccessfulCmd := Some Cmd\<rparr>)"

lemma sd_card_commands:
  fixes R Arg
  defines "send \<equiv> \<lambda>Cmd s. SdhcSendCommand sd_card R Cmd Arg s"
  shows "send CmdGoIdleState s = sent 0x1AA CmdGoIdleState s"
    "send CmdSendIfCondSd s = sent 0x1AA CmdSendIfCondSd s"
    "send CmdAppSendOpCondSd s = sent 0x80FF8000 CmdAppSendOpCondSd s"
    "send CmdSendCidAll s = sent 0x002600325F5980FFC0000000000000 CmdSendCidAll s"
    "send CmdSendRelativeAddr s = sent 0x1AA CmdSendRelativeAddr s"
    "send CmdSendCid s = sent 0x002600325F5980FFC0000000000000 CmdSendCid s"
    "send CmdSendCsd s = sent 0x002600325F5980FFC0000000000000 CmdSendCsd s"
    "CardFunction (CardInfo s) = CardFunctionSd \<Longrightarrow> send CmdSelect s = sent 0x900 CmdSelect s"
    "CardFunction (CardInfo s) = CardFunctionSd \<Longrightarrow> send CmdAppSetBusWidthSd s = sent 0x900 CmdAppSetBusWidthSd s"
    "CardFunction (CardInfo s) = CardFunctionSd \<Longrightarrow> send CmdSetBlockLength s = sent 0x900 CmdSetBlockLength s"
  unfolding send_def by (subst sd_card_command; simp add: SD_COMMANDS sd_response_def)+

lemmas sd_run = ok_then_def sd_card_sdio sd_card_commands sd_card_services set_CardFunction_def Let_def bf_set_def bf_get_def
  mask_eq_exp_minus_1

lemma sd_query:
  "SdhcQueryCardType sd_card (\<lambda>Cmd s. Some (EFI_SUCCESS, s)) s =
     Some (EFI_SUCCESS, s\<lparr>CardInfo := (CardInfo s)\<lparr>HasExtendedOcr := True, CardFunction := CardFunctionSd\<rparr>,
       CmdResponse := 0x1AA, PreLastSuccessfulCmd := Some CmdGoIdleState, LastSuccessfulCmd := Some CmdSendIfCondSd\<rparr>)"
  by (simp add: SdhcQueryCardType_def SdhcGoIdleState_def SdhcSendIfCondSd_def SdhcSendOpCondSdio_def
      CheckPattern_def VoltageSupplied_def sd_run)

lemma sd_op_cond:
  "CardFunction (CardInfo s) = CardFunctionSd \<Longrightarrow> HasExtendedOcr (CardInfo s) \<Longrightarrow>
   SdhcSendOpCondSd sd_card R s = Some (EFI_SUCCESS, s\<lparr>CardInfo := (CardInfo s)\<lparr>HighCapacity := False, Ocr := 0x80FF8000\<rparr>,
     CmdResponse := 0x80FF8000, PreLastSuccessfulCmd := Some CmdAppSendOpCondSd, LastSuccessfulCmd := Some CmdAppSendOpCondSd\<rparr>)"
  using OpCondSdLoop.simps(2)[of 199 sd_card R]
  by (simp add: SdhcSendOpCondSd_def PowerUp_def CCS_def sd_run)

lemma sd_csd_fields:
  "CSD_STRUCTURE 0x002600325F5980FFC0000000000000 = 0"
  "CsdByteCapacity 0x002600325F5980FFC0000000000000 = 0x200000"
  "TRAN_SPEED 0x002600325F5980FFC0000000000000 = 0x32"
  by code_simp+

lemma sd_csd:
  "CardFunction (CardInfo s) = CardFunctionSd \<Longrightarrow> \<exists>s'. SdhcSendCsd sd_card R s = Some (EFI_SUCCESS, s') \<and>
    CardFunction (CardInfo s') = CardFunctionSd \<and> Csd (CardInfo s') = 0x002600325F5980FFC0000000000000 \<and>
    CurrentSpeedMode (CardInfo s') = CurrentSpeedMode (CardInfo s) \<and> LastBlock (Media s') = 4095"
  by (simp add: SdhcSendCsd_def ok_then_def sd_card_commands Let_def sd_csd_fields)

lemma sd_clock:
  "CardFunction (CardInfo s) = CardFunctionSd \<Longrightarrow> Csd (CardInfo s) = 0x002600325F5980FFC0000000000000 \<Longrightarrow>
    CurrentSpeedMode (CardInfo s) = CardSpeedModeNormalSpeed \<Longrightarrow> SdhcSetMaxClockFrequency sd_card s = Some (EFI_SUCCESS, s)"
  by (simp add: SdhcSetMaxClockFrequency_def CalculateCardMaxFreq_def sd_csd_fields TransferRateBitPerSecond_def
      TimeValue_def ok_then_def sd_card_services)

lemma ok_then_success: "ok_then (Some (EFI_SUCCESS, s)) f = f s"
  by (simp add: ok_then_def)

lemma steps_join: "steps xs s = Some (EFI_SUCCESS, t) \<Longrightarrow> steps ys t = r \<Longrightarrow> steps (xs @ ys) s = r"
  by (induction xs arbitrary: s) (auto simp: ok_then_def split: bind_splits if_splits)

lemma sd_function:
  assumes "CardFunction (CardInfo s) = CardFunctionSd" and "CurrentSpeedMode (CardInfo s) = CardSpeedModeNormalSpeed"
    and "HasExtendedOcr (CardInfo s)"
  obtains s' where "InitializeSdDevice sd_card R s = Some (EFI_SUCCESS, s')"
    "CardFunction (CardInfo s') = CardFunctionSd" "LastBlock (Media s') = 4095"
proof -
  let ?r = "(CardInfo s)\<lparr>HighCapacity := False, Ocr := 0x80FF8000, RCA := 0, Cid := 0x002600325F5980FFC0000000000000\<rparr>"
  obtain t where t: "steps [SdhcSendOpCondSd sd_card R, SdhcSendCidAll sd_card R, SdhcSendRelativeAddr sd_card R,
      SdhcSendCid sd_card R] s = Some (EFI_SUCCESS, t)" "CardFunction (CardInfo t) = CardFunctionSd"
    "CurrentSpeedMode (CardInfo t) = CardSpeedModeNormalSpeed"
    using assms by (simp add: sd_op_cond SdhcSendCidAll_def SdhcSendRelativeAddr_def SdhcSendCid_def sd_run)
  obtain u where u: "SdhcSendCsd sd_card R t = Some (EFI_SUCCESS, u)" "CardFunction (CardInfo u) = CardFunctionSd"
    "Csd (CardInfo u) = 0x002600325F5980FFC0000000000000" "CurrentSpeedMode (CardInfo u) = CardSpeedModeNormalSpeed"
    "LastBlock (Media u) = 4095"
    using sd_csd[OF t(2)] t(3) by auto
  obtain v where v: "steps [SdhcSelectDevice sd_card R, SdhcSwitchBusWidthSd sd_card R, SdhcSwitchSpeedModeSd sd_card R,
      SdhcSetMaxClockFrequency sd_card] u = Some (EFI_SUCCESS, v)"
    "CardFunction (CardInfo v) = CardFunctionSd" "LastBlock (Media v) = 4095"
    using u by (simp add: SdhcSelectDevice_def SdhcSwitchBusWidthSd_def SdhcSwitchSpeedModeSd_def ok_then_def
        sd_card_commands sd_card_services sd_clock)
  have "steps ([SdhcSendOpCondSd sd_card R, SdhcSendCidAll sd_card R, SdhcSendRelativeAddr sd_card R,
      SdhcSendCid sd_card R] @ SdhcSendCsd sd_card R # [SdhcSelectDevice sd_card R, SdhcSwitchBusWidthSd sd_card R,
      SdhcSwitchSpeedModeSd sd_card R, SdhcSetMaxClockFrequency sd_card]) s = Some (EFI_SUCCESS, v)"
    by (rule steps_join[OF t(1)]) (simp only: steps.simps(2)[of "SdhcSendCsd sd_card R"] u(1) ok_then_success v(1))
  then have "InitializeSdDevice sd_card R s = Some (EFI_SUCCESS, v)"
    unfolding InitializeSdDevice_def append.simps .
  then show thesis by (rule that) (fact v)+
qed

lemma sd_initialised:
  assumes "\<not> SlotInitialized s" and "MediaPresent (Media s)"
  shows "\<exists>s'. InitializeDevice sd_card (\<lambda>Cmd s. Some (EFI_SUCCESS, s)) s = Some (EFI_SUCCESS, s') \<and>
    CardFunction (CardInfo s') = CardFunctionSd \<and> LastBlock (Media s') = 4095"
proof -
  let ?R = "\<lambda>Cmd s. Some (EFI_SUCCESS, s)"
  let ?s = "s\<lparr>CardInfo := CARD_INFO_zero\<lparr>CurrentSpeedMode := CardSpeedModeNormalSpeed\<rparr>\<rparr>"
  obtain t where q: "SdhcQueryCardType sd_card ?R ?s = Some (EFI_SUCCESS, t)"
    and t: "CardFunction (CardInfo t) = CardFunctionSd" "CurrentSpeedMode (CardInfo t) = CardSpeedModeNormalSpeed"
      "HasExtendedOcr (CardInfo t)"
    unfolding sd_query by simp
  obtain u where u: "InitializeSdDevice sd_card ?R t = Some (EFI_SUCCESS, u)"
    "CardFunction (CardInfo u) = CardFunctionSd" "LastBlock (Media u) = 4095"
    by (rule sd_function[OF t])
  show ?thesis
    unfolding InitializeDevice_def steps.simps sd_card_services ok_then_success q InitializeFunction_def
    using u t assms by (simp add: SdhcSetBlockLength_def sd_card_commands ok_then_def FinishInitialization_def)
qed

section \<open>Properties\<close>

text \<open>C8: After an initialisation that returns without an error the slot is ready: its card is an eMMC with its relative address, of a
  specification version from 4 on, in high speed, with the capacity of its extended CSD, or an SD card with the capacity of its
  CSD; the block size is 512 and the media identifier is the serial number of the card. This holds for every controller and every recovery routine.\<close>

theorem InitializeDevice_ready:
  assumes "InitializeDevice E R s = Some (Status, s')" and "\<not> EFI_ERROR Status"
  shows "device_ready s'"
  using InitializeDevice_ok assms by (rule ok_runD)

lemma InitializeDevice_ready_witness:
  "\<exists>s'. InitializeDevice sd_card (\<lambda>Cmd s. Some (EFI_SUCCESS, s)) (new_instance ()) = Some (EFI_SUCCESS, s') \<and>
    device_ready s' \<and> LastBlock (Media s') = 4095"
  using sd_initialised[of "new_instance ()"] InitializeDevice_ready
  by (fastforce simp: new_instance_def)

text \<open>C26: A soft reset keeps the ranges of the instance that its C types do not express (a 16-bit relative card address, a partition below
  8, a block size of 0 or 512) and leaves the counter of the recovery attempts as it was, although it sends commands that may recover.\<close>

theorem SoftReset_typed:
  assumes "instance_ok s" and "SoftReset E (SdhcRecoverFromErrors E) s = Some (Status, s')"
  shows "instance_ok s' \<and> ErrorRecoveryAttemptCount s' = ErrorRecoveryAttemptCount s"
  using SoftReset_keeps[OF assms] .

lemma SoftReset_typed_witness:
  "\<exists>s'. SoftReset (sd_card\<lparr>IsCardPresent := (\<lambda>d. (False, d))\<rparr>) (SdhcRecoverFromErrors (sd_card\<lparr>IsCardPresent := (\<lambda>d. (False, d))\<rparr>))
     (new_instance ()) = Some (EFI_SUCCESS, s') \<and> instance_ok s' \<and> BlockSize (Media s') = 0"
proof -
  have "instance_ok (new_instance ())"
    by (simp add: instance_ok_def new_instance_def CARD_INFO_zero_def gSdhcMediaTemplate_def RCA_16_def)
  moreover obtain s' where "SoftReset (sd_card\<lparr>IsCardPresent := (\<lambda>d. (False, d))\<rparr>)
      (SdhcRecoverFromErrors (sd_card\<lparr>IsCardPresent := (\<lambda>d. (False, d))\<rparr>)) (new_instance ()) = Some (EFI_SUCCESS, s')"
    "BlockSize (Media s') = 0"
    by (simp add: SoftReset_def SoftResetBody_def SoftResetExit_def UninstallAllProtocols_def UninstallOne_def InstallOne_def
        Installed_def set_Installed_def ok_then_def on_device_def sd_card_def new_instance_def ClearMedia_def Let_def)
  ultimately show ?thesis
    using SoftReset_typed by fastforce
qed

end
