(* ===== verification/SdMmcCard.thy ===== *)
theory SdMmcCard
  imports SdMmcReady
begin

unbundle bit_operations_syntax

text \<open>
  The SD/MMC driver on a controller and a card that answer: what its commands, its waiting and its data commands do, for any
  effect of the commands on the card. \<open>SdMmcIo\<close> uses it for a card of blocks, \<open>SdMmcRpmb\<close> for one with a replay protected partition.
\<close>

section \<open>Cards that answer\<close>

text \<open>
  The contract of the SDHC protocol: in a world with \<open>Q\<close> each command succeeds and leads to such a world, related by \<open>T\<close>, and a
  response of type R1 says that the card is ready for data in its transfer state.
\<close>

definition responsive ::
  "'d sdhc_services \<Rightarrow> ('d \<Rightarrow> bool) \<Rightarrow> (SD_COMMAND \<Rightarrow> u32 \<Rightarrow> 'd \<Rightarrow> 'd \<Rightarrow> bool) \<Rightarrow> bool" where
  "responsive E Q T \<longleftrightarrow> (\<forall>d Cmd Arg x r. Q d \<longrightarrow> (\<exists>d1 r' d2.
     SendCommand E Cmd Arg x d = ((EFI_SUCCESS, case x of None \<Rightarrow> (\<lambda>_. 0) | Some i \<Rightarrow> XfrBuffer i), d1) \<and>
     ReceiveResponse E Cmd r d1 = ((EFI_SUCCESS, r'), d2) \<and> Q d2 \<and> T Cmd Arg d d2 \<and>
     (ResponseType Cmd \<in> {SdResponseTypeR1, SdResponseTypeR1B} \<longrightarrow> ucast r' = (0x900 :: u32))))"

definition identified :: "'d SDHC_INSTANCE \<Rightarrow> bool" where
  "identified s \<longleftrightarrow> CardFunction (CardInfo s) \<in> {CardFunctionSd, CardFunctionMmc}"

lemma identified_core: "core t = core s \<Longrightarrow> identified t = identified s"
  by (simp add: identified_def core_def)

definition command_step ::
  "('d \<Rightarrow> bool) \<Rightarrow> (SD_COMMAND \<Rightarrow> u32 \<Rightarrow> 'd \<Rightarrow> 'd \<Rightarrow> bool) \<Rightarrow> SD_COMMAND \<Rightarrow> u32 \<Rightarrow> 'd SDHC_INSTANCE \<Rightarrow>
    'd SDHC_INSTANCE \<Rightarrow> bool" where
  "command_step Q T Cmd Arg s s' \<longleftrightarrow> Q (Device s') \<and> T Cmd Arg (Device s) (Device s') \<and> core s' = core s \<and>
     LastSuccessfulCmd s' = Some Cmd \<and> PreLastSuccessfulCmd s' = LastSuccessfulCmd s"

lemma command_stepD:
  assumes "command_step Q T Cmd Arg s s'"
  shows "Q (Device s')" "T Cmd Arg (Device s) (Device s')" "core s' = core s" "LastSuccessfulCmd s' = Some Cmd"
    "PreLastSuccessfulCmd s' = LastSuccessfulCmd s"
  using assms by (simp_all add: command_step_def)

lemma XfrInfo_set_same: "XfrInfo_set (Some i) (XfrBuffer i) = Some i"
  by (simp add: XfrInfo_set_def within_def)

lemma IsCardStatusError_900: "identified s \<Longrightarrow> IsCardStatusError s 0x900 = Some 0"
  by (auto simp: IsCardStatusError_def identified_def)

lemma Helper_answers:
  assumes card: "responsive E Q T" and Q: "Q (Device s)" and f: "identified s" and c: "Class Cmd \<noteq> SdCommandClassApp"
  obtains s' where "SdhcSendCommandHelper E Cmd Arg x s = Some ((EFI_SUCCESS, x), s')" "command_step Q T Cmd Arg s s'"
    "ResponseType Cmd \<in> {SdResponseTypeR1, SdResponseTypeR1B} \<Longrightarrow> ucast (CmdResponse s') = (0x900 :: u32)"
proof -
  obtain d1 r d2 where 1: "SendCommand E Cmd Arg x (Device s) =
      ((EFI_SUCCESS, case x of None \<Rightarrow> (\<lambda>_. 0) | Some i \<Rightarrow> XfrBuffer i), d1)"
    "ReceiveResponse E Cmd (CmdResponse s) d1 = ((EFI_SUCCESS, r), d2)" "Q d2" "T Cmd Arg (Device s) d2"
    "ResponseType Cmd \<in> {SdResponseTypeR1, SdResponseTypeR1B} \<longrightarrow> ucast r = (0x900 :: u32)"
    using card Q unfolding responsive_def by meson
  have x: "XfrInfo_set x (case x of None \<Rightarrow> (\<lambda>_. 0) | Some i \<Rightarrow> XfrBuffer i) = x"
    by (cases x) (simp_all add: XfrInfo_set_same, simp add: XfrInfo_set_def)
  let ?s = "s\<lparr>Device := d2, CmdResponse := r\<rparr>"
  have "identified ?s"
    using f by (simp add: identified_def)
  then have e: "(if ResponseType Cmd = SdResponseTypeR1 \<or> ResponseType Cmd = SdResponseTypeR1B
      then IsCardStatusError ?s (ucast (CmdResponse ?s)) else Some 0) = Some 0"
    using 1(5) IsCardStatusError_900[of ?s] by simp
  have run: "SdhcSendCommandHelper E Cmd Arg x s = Some ((EFI_SUCCESS, x),
     s\<lparr>Device := d2, CmdResponse := r, PreLastSuccessfulCmd := LastSuccessfulCmd s, LastSuccessfulCmd := Some Cmd\<rparr>)"
    using 1(1,2) c e by (simp add: SdhcSendCommandHelper_def on_device_def Let_def x)
  show thesis
    by (rule that[OF run]) (use 1 in \<open>simp_all add: core_def command_step_def\<close>)
qed

lemma command_kinds:
  "Class CmdSendStatus = SdCommandClassStandard" "ResponseType CmdSendStatus = SdResponseTypeR1"
  "TransferType CmdSendStatus = SdTransferTypeNone"
  "Class CmdStopTransmission = SdCommandClassStandard" "ResponseType CmdStopTransmission = SdResponseTypeR1B"
  "TransferType CmdStopTransmission = SdTransferTypeNone"
  "CmdStopTransmission \<noteq> CmdSwitchMmc" "CmdStopTransmission \<noteq> CmdSwitchSd"
  "CmdSendStatus \<noteq> CmdSwitchMmc" "CmdSendStatus \<noteq> CmdSwitchSd" "CmdSendStatus \<noteq> CmdStopTransmission"
  by (simp_all add: SD_COMMANDS)

lemma TranAndReady_900: "TranAndReady 0x900"
  by (simp add: TranAndReady_def READY_FOR_DATA_def CURRENT_STATE_def bf_get_def)

lemma SendStatus_answers:
  assumes "responsive E Q T" "Q (Device s)" "identified s"
  obtains s' where "SdhcSendStatus E R c s = Some ((EFI_SUCCESS, 0x900), s')"
    "command_step Q T CmdSendStatus (RCA_arg s) s s'"
proof -
  have c: "Class CmdSendStatus \<noteq> SdCommandClassApp"
    by (simp add: command_kinds)
  obtain s' where *: "SdhcSendCommandHelper E CmdSendStatus (RCA_arg s) None s = Some ((EFI_SUCCESS, None), s')"
    "command_step Q T CmdSendStatus (RCA_arg s) s s'" "ucast (CmdResponse s') = (0x900 :: u32)"
    using Helper_answers[OF assms c, where x = None and Arg = "RCA_arg s"] command_kinds(2) by blast
  show thesis
    by (rule that[of s']) (use * in \<open>simp_all add: SdhcSendStatus_def SendCommandWith_def command_kinds\<close>)
qed

lemma Wait_answers:
  assumes "responsive E Q T" "Q (Device s)" "identified s"
  obtains s' where "SdhcWaitForTranStateAndReadyForData E R s = Some (EFI_SUCCESS, s')"
    "command_step Q T CmdSendStatus (RCA_arg s) s s'"
proof -
  obtain s' where *: "SdhcSendStatus E R 0 s = Some ((EFI_SUCCESS, 0x900), s')"
      "command_step Q T CmdSendStatus (RCA_arg s) s s'"
    by (rule SendStatus_answers[OF assms])
  have "PollTran (Suc 199) E R 0x900 s' = Some (EFI_SUCCESS, s')"
    by (simp only: PollTran.simps TranAndReady_900 if_True)
  with * show thesis
    by (intro that[of s']) (simp_all add: SdhcWaitForTranStateAndReadyForData_def)
qed

lemma SendCommand_answers:
  assumes "responsive E Q T" "Q (Device s)" "identified s"
    and "Class Cmd \<noteq> SdCommandClassApp" "Cmd \<noteq> CmdSwitchMmc" "Cmd \<noteq> CmdSwitchSd"
  obtains s' where "SdhcSendCommand E R Cmd Arg s = Some (EFI_SUCCESS, s')" "command_step Q T Cmd Arg s s'"
proof -
  obtain s' where *: "SdhcSendCommandHelper E Cmd Arg None s = Some ((EFI_SUCCESS, None), s')" "command_step Q T Cmd Arg s s'"
    by (rule Helper_answers[OF assms(1-4)])
  show thesis
    by (rule that[OF _ *(2)]) (use * assms(5,6) in \<open>simp add: SdhcSendCommand_def SendCommandWith_def\<close>)
qed

lemma Switch_answers:
  assumes "responsive E Q T" "Q (Device s)" "identified s"
  obtains t s' where "SdhcSendCommand E R CmdSwitchMmc Arg s = Some (EFI_SUCCESS, s')"
    "command_step Q T CmdSwitchMmc Arg s t" "command_step Q T CmdSendStatus (RCA_arg t) t s'"
proof -
  have c: "Class CmdSwitchMmc \<noteq> SdCommandClassApp"
    by (simp add: SD_COMMANDS)
  obtain t where *: "SdhcSendCommandHelper E CmdSwitchMmc Arg None s = Some ((EFI_SUCCESS, None), t)"
      "command_step Q T CmdSwitchMmc Arg s t"
    by (rule Helper_answers[OF assms c])
  have "identified t"
    using identified_core[OF command_stepD(3)[OF *(2)]] assms(3) by simp
  then obtain s' where "SdhcWaitForTranStateAndReadyForData E R t = Some (EFI_SUCCESS, s')"
      "command_step Q T CmdSendStatus (RCA_arg t) t s'"
    by (rule Wait_answers[OF assms(1) command_stepD(1)[OF *(2)]])
  then show thesis
    by (intro that[OF _ *(2)]) (simp_all add: SdhcSendCommand_def SendCommandWith_def *(1))
qed

lemma Stop_answers:
  assumes "responsive E Q T" "Q (Device s)" "identified s"
  obtains s' where "SdhcStopTransmission E R s = Some (EFI_SUCCESS, s')"
    "command_step Q T CmdStopTransmission (RCA_arg s) s s'"
  by (rule SendCommand_answers[OF assms, where Cmd = CmdStopTransmission and Arg = "RCA_arg s" and R = R])
     (simp_all add: command_kinds SdhcStopTransmission_def that)

section \<open>Data commands without a stop\<close>

text \<open>
  A data command that needs no STOP_TRANSMISSION: of a single block, or after SET_BLOCK_COUNT. \<open>U\<close> relates the world after the
  command to the one after the transfer and gives the buffer.
\<close>

definition stopless :: "SD_COMMAND \<Rightarrow> 'd SDHC_INSTANCE \<Rightarrow> bool" where
  "stopless Cmd s \<longleftrightarrow> Class Cmd \<noteq> SdCommandClassApp \<and>
     (Cmd = CmdWriteMultiBlock \<or> Cmd = CmdReadMultiBlock \<longrightarrow> LastSuccessfulCmd s = Some CmdSetBlockCount)"

lemma NeedsStop_stopless:
  "stopless Cmd s \<Longrightarrow> PreLastSuccessfulCmd t = LastSuccessfulCmd s \<Longrightarrow> LastSuccessfulCmd t = Some Cmd \<Longrightarrow>
    NeedsStop Cmd t = Some False"
  by (auto simp: NeedsStop_def stopless_def CmdsAreEqual_eq)

lemma SendDataCommand_answers:
  assumes card: "responsive E Q T" and s: "Q (Device s)" "identified s" "stopless Cmd s" "n mod 512 = 0"
    and data: "\<And>t. Q (Device t) \<Longrightarrow> T Cmd Arg (Device s) (Device t) \<Longrightarrow>
      \<exists>b' d'. DataPhase E Cmd n buf t = Some ((EFI_SUCCESS, b'), t\<lparr>Device := d'\<rparr>) \<and> Q d' \<and> U (Device t) b' d'"
  obtains b' d1 d2 a s' where "SdhcSendDataCommand E R Cmd Arg n buf s = Some ((EFI_SUCCESS, b'), s')"
    "T Cmd Arg (Device s) d1" "U d1 b' d2" "T CmdSendStatus a d2 (Device s')" "Q (Device s')" "core s' = core s"
proof -
  let ?x = "Some \<lparr>XfrBlockSize = 512, XfrBlockCount = n div 512, XfrBuffer = buf\<rparr>"
  have c: "Class Cmd \<noteq> SdCommandClassApp"
    using s(3) by (simp add: stopless_def)
  obtain t where t: "SdhcSendCommandHelper E Cmd Arg ?x s = Some ((EFI_SUCCESS, ?x), t)" "command_step Q T Cmd Arg s t"
    by (rule Helper_answers[OF card s(1,2) c])
  obtain b' d' where d: "DataPhase E Cmd n buf t = Some ((EFI_SUCCESS, b'), t\<lparr>Device := d'\<rparr>)" "Q d'" "U (Device t) b' d'"
    using data[OF command_stepD(1,2)[OF t(2)]] by blast
  let ?t = "t\<lparr>Device := d'\<rparr>"
  have "NeedsStop Cmd ?t = Some False"
    by (rule NeedsStop_stopless[OF s(3)]) (use command_stepD(4,5)[OF t(2)] in simp_all)
  moreover have "identified ?t"
    using identified_core[of ?t s] command_stepD(3)[OF t(2)] s(2) by simp
  then obtain u where u: "SdhcWaitForTranStateAndReadyForData E R ?t = Some (EFI_SUCCESS, u)"
      "command_step Q T CmdSendStatus (RCA_arg ?t) ?t u"
    using Wait_answers[OF card, of ?t R] d(2) by auto
  ultimately have f: "FinishData E R Cmd ?t = Some (EFI_SUCCESS, u)"
    by (simp add: FinishData_def ok_then_def)
  show thesis
    by (rule that[of b' u "Device t" d' "RCA_arg ?t"])
       (use t d u f s(4) command_stepD[OF t(2)] command_stepD[OF u(2)] in \<open>simp_all add: SdhcSendDataCommand_def\<close>)
qed

end
