(* ===== verification/SdMmcIo.thy ===== *)
theory SdMmcIo
  imports SdMmcCard
begin

unbundle bit_operations_syntax

text \<open>
  The block I/O protocol of the SD/MMC driver, \<open>src/Microsoft/MsPkg/Drivers/SdMmcDxe/BlockIo.c\<close>. A request is cut
  in transfers of at most \<open>MaximumBlockCount\<close> blocks, each of which is tried three times. A buffer is its address
  with its contents; 0 is \<open>NULL\<close>. \<open>None\<close> is a failed \<open>ASSERT\<close>, a division by a block size that a soft
  reset has cleared in the middle of a request, or a loop that does not end, which is that of a transfer size of 0.

  On a controller and a card that work, a read returns the blocks of the card and a write stores them, whatever
  the number of transfers. The statistics and benchmarks of the file are compiled out.
\<close>

section \<open>Requests\<close>

definition chunk_of :: "nat \<Rightarrow> buffer \<Rightarrow> buffer" where
  "chunk_of off buf = (\<lambda>i. buf (off + i))"

definition put_chunk :: "nat \<Rightarrow> nat \<Rightarrow> buffer \<Rightarrow> buffer \<Rightarrow> buffer" where
  "put_chunk off n new buf = (\<lambda>i. if off \<le> i \<and> i < off + n then new (i - off) else buf i)"

text \<open>The retries of one transfer; the argument \<open>Status\<close> is the status of the last try.\<close>

primrec SendRetry ::
  "nat \<Rightarrow> EFI_STATUS \<Rightarrow> 'd sdhc_services \<Rightarrow> 'd recovery \<Rightarrow> SD_COMMAND \<Rightarrow> u32 \<Rightarrow> u32 \<Rightarrow> buffer \<Rightarrow>
    'd SDHC_INSTANCE \<Rightarrow> ((EFI_STATUS \<times> buffer) \<times> 'd SDHC_INSTANCE) option" where
  "SendRetry 0 Status E R Cmd CurrentLba n buf s = Some ((Status, buf), s)"
| "SendRetry (Suc k) Status E R Cmd CurrentLba n buf s = do {
     ((Status, buf), s) \<leftarrow> SdhcSendDataCommand E R Cmd CurrentLba n buf s;
     if EFI_ERROR Status then SendRetry k Status E R Cmd CurrentLba n buf s
     else Some ((Status, buf), s)
   }"

abbreviation (input) DataCommandRetryCount :: nat where "DataCommandRetryCount \<equiv> 3"

definition TransferChunk ::
  "'d sdhc_services \<Rightarrow> 'd recovery \<Rightarrow> SD_COMMAND \<Rightarrow> u32 \<Rightarrow> u32 \<Rightarrow> nat \<Rightarrow> buffer \<Rightarrow>
    'd SDHC_INSTANCE \<Rightarrow> ((EFI_STATUS \<times> buffer) \<times> 'd SDHC_INSTANCE) option" where
  "TransferChunk E R Cmd CurrentLba n off Buffer s = do {
     ((Status, c), s) \<leftarrow> SendRetry DataCommandRetryCount EFI_SUCCESS E R Cmd CurrentLba n (chunk_of off Buffer) s;
     Some ((Status, put_chunk off (unat n) c Buffer), s)
   }"

partial_function (option) IoLoop ::
  "'d sdhc_services \<Rightarrow> 'd recovery \<Rightarrow> SD_COMMAND \<Rightarrow> u32 \<Rightarrow> EFI_STATUS \<Rightarrow> u32 \<Rightarrow> u32 \<Rightarrow> nat \<Rightarrow> buffer \<Rightarrow>
    'd SDHC_INSTANCE \<Rightarrow> ((EFI_STATUS \<times> buffer) \<times> 'd SDHC_INSTANCE) option" where
  "IoLoop E R Cmd MaxTransferSize Status BytesRemaining CurrentLba off Buffer s =
    (if BytesRemaining = 0 then Some ((Status, Buffer), s)
     else do {
       let CurrentBufferSize = (if BytesRemaining < MaxTransferSize then BytesRemaining else MaxTransferSize);
       ((Status, Buffer), s) \<leftarrow> TransferChunk E R Cmd CurrentLba CurrentBufferSize off Buffer s;
       if BlockSize (Media s) = 0 then None
       else IoLoop E R Cmd MaxTransferSize Status (BytesRemaining - CurrentBufferSize)
         (CurrentLba + CurrentBufferSize div BlockSize (Media s)) (off + unat CurrentBufferSize) Buffer s
     })"

definition IoCommand :: "SD_TRANSFER_DIRECTION \<Rightarrow> u32 \<Rightarrow> SD_COMMAND" where
  "IoCommand d BlockCount =
    (if d = SdTransferDirectionRead then if BlockCount = 1 then CmdReadSingleBlock else CmdReadMultiBlock
     else if BlockCount = 1 then CmdWriteSingleBlock else CmdWriteMultiBlock)"

text \<open>The checks of a request: \<open>Inl\<close> the status it ends with, or \<open>Inr\<close> the block count of a request that goes on.\<close>

definition IoCheck ::
  "SD_TRANSFER_DIRECTION \<Rightarrow> u32 \<Rightarrow> u64 \<Rightarrow> u64 \<Rightarrow> u64 \<Rightarrow> 'd SDHC_INSTANCE \<Rightarrow> (EFI_STATUS + u32) option" where
  "IoCheck d mid Lba BufferSize Buffer s = (let m = Media s; BlockCount = ucast (BufferSize div ucast (BlockSize m)) in
    if MediaId m \<noteq> mid then Some (Inl EFI_MEDIA_CHANGED)
    else if Buffer = 0 then Some (Inl EFI_INVALID_PARAMETER)
    else if \<not> MediaPresent m then Some (Inl EFI_NO_MEDIA)
    else if BufferSize = 0 then Some (Inl EFI_SUCCESS)
    else if d = SdTransferDirectionWrite \<and> ReadOnly m then Some (Inl EFI_WRITE_PROTECTED)
    else if BlockSize m = 0 then None
    else if BufferSize mod ucast (BlockSize m) \<noteq> 0 then Some (Inl EFI_BAD_BUFFER_SIZE)
    else if Lba + ucast BlockCount - 1 > LastBlock m then Some (Inl EFI_INVALID_PARAMETER)
    else if IoAlign m > 2 \<and> Buffer AND (ucast (IoAlign m) - 1) \<noteq> 0 then Some (Inl EFI_INVALID_PARAMETER)
    else Some (Inr BlockCount))"

text \<open>
  A buffer size of a multiple of \<open>2 ^ 32\<close> leaves no bytes to transfer after its conversion, and the code returns a status
  that it has not set.
\<close>

definition IoBlocks ::
  "'d sdhc_services \<Rightarrow> 'd recovery \<Rightarrow> SD_TRANSFER_DIRECTION \<Rightarrow> u32 \<Rightarrow> u64 \<Rightarrow> u64 \<Rightarrow> u64 \<Rightarrow> buffer \<Rightarrow>
    'd SDHC_INSTANCE \<Rightarrow> ((EFI_STATUS \<times> buffer) \<times> 'd SDHC_INSTANCE) option" where
  "IoBlocks E R d mid Lba BufferSize Buffer b s = do {
     c \<leftarrow> IoCheck d mid Lba BufferSize Buffer s;
     case c of
       Inl Status \<Rightarrow> Some ((Status, b), s)
     | Inr BlockCount \<Rightarrow>
         if (ucast BufferSize :: u32) = 0 then None
         else IoLoop E R (IoCommand d BlockCount)
           (MaximumBlockCount (HostCapabilities s) * BlockSize (Media s)) EFI_SUCCESS (ucast BufferSize)
           (ucast Lba) 0 b s
   }"

definition BlockIoReset :: "'d sdhc_services \<Rightarrow> 'd SDHC_INSTANCE \<Rightarrow> 'd outcome" where
  "BlockIoReset E s = SoftReset E (SdhcRecoverFromErrors E) s"

definition BlockIoReadBlocks where
  "BlockIoReadBlocks E = IoBlocks E (SdhcRecoverFromErrors E) SdTransferDirectionRead"

definition BlockIoWriteBlocks where
  "BlockIoWriteBlocks E = IoBlocks E (SdhcRecoverFromErrors E) SdTransferDirectionWrite"

definition BlockIoFlushBlocks :: "'d SDHC_INSTANCE \<Rightarrow> EFI_STATUS" where
  "BlockIoFlushBlocks s = EFI_SUCCESS"

section \<open>A controller and a card that work\<close>

text \<open>
  The contract of the SDHC protocol for such a card: \<open>Q\<close> holds of the world of the controller; \<open>at\<close> is the byte address of
  the last data command and \<open>content\<close> the bytes of the card. A high-capacity card takes the argument of a data command as a block
  number, in its sector mode; a standard-capacity card takes it as a byte address (\<open>SD_OCR_ACCESS\<close> in \<open>SdMmcHw.h\<close>).
\<close>

definition data_address :: "bool \<Rightarrow> u32 \<Rightarrow> nat" where
  "data_address high Arg = (if high then 512 * unat Arg else unat Arg)"

definition block_step :: "bool \<Rightarrow> ('d \<Rightarrow> nat) \<Rightarrow> ('d \<Rightarrow> nat \<Rightarrow> u8) \<Rightarrow> SD_COMMAND \<Rightarrow> u32 \<Rightarrow> 'd \<Rightarrow> 'd \<Rightarrow> bool" where
  "block_step high at content Cmd Arg d d' \<longleftrightarrow>
     content d' = content d \<and> (TransferType Cmd \<noteq> SdTransferTypeNone \<longrightarrow> at d' = data_address high Arg)"

definition block_card ::
  "'d sdhc_services \<Rightarrow> ('d \<Rightarrow> bool) \<Rightarrow> bool \<Rightarrow> ('d \<Rightarrow> nat) \<Rightarrow> ('d \<Rightarrow> nat \<Rightarrow> u8) \<Rightarrow> bool" where
  "block_card E Q high at content \<longleftrightarrow> responsive E Q (block_step high at content) \<and> (\<forall>d. Q d \<longrightarrow>
     (\<forall>n b. \<exists>b' d'. ReadBlockData E n b d = ((EFI_SUCCESS, b'), d') \<and> Q d' \<and> content d' = content d \<and>
        (\<forall>i < unat n. b' i = content d (at d + i))) \<and>
     (\<forall>n b. \<exists>d'. WriteBlockData E n b d = (EFI_SUCCESS, d') \<and> Q d' \<and>
        content d' = put_chunk (at d) (unat n) b (content d)))"

text \<open>\<open>card_step\<close>: a step of the driver on a working card that leaves the card and the instance as they are.\<close>

definition card_step ::
  "('d \<Rightarrow> bool) \<Rightarrow> ('d \<Rightarrow> nat \<Rightarrow> u8) \<Rightarrow> 'd SDHC_INSTANCE \<Rightarrow> 'd SDHC_INSTANCE \<Rightarrow> bool" where
  "card_step Q content s s' \<longleftrightarrow> Q (Device s') \<and> content (Device s') = content (Device s) \<and> core s' = core s \<and>
     LastSuccessfulCmd s' \<noteq> None"

lemma card_step_trans: "card_step Q c s t \<Longrightarrow> card_step Q c t u \<Longrightarrow> card_step Q c s u"
  by (simp add: card_step_def)

lemma card_step_command: "command_step Q (block_step high at content) Cmd Arg s s' \<Longrightarrow> card_step Q content s s'"
  by (simp add: card_step_def command_step_def block_step_def)

lemma FinishData_card:
  assumes card: "responsive E Q (block_step high at content)" and Q: "Q (Device s)" and f: "identified s"
    and l: "LastSuccessfulCmd s \<noteq> None" and p: "PreLastSuccessfulCmd s \<noteq> None"
  obtains s' where "FinishData E R Cmd s = Some (EFI_SUCCESS, s')" "card_step Q content s s'"
proof -
  have "NeedsStop Cmd s \<noteq> None"
    using l p by (auto simp: NeedsStop_def)
  then obtain b where b: "NeedsStop Cmd s = Some b"
    by auto
  obtain t where t: "(if b then SdhcStopTransmission E R s else Some (EFI_SUCCESS, s)) = Some (EFI_SUCCESS, t)"
      "card_step Q content s t"
  proof (cases b)
    case True
    then show thesis using that Stop_answers[OF card Q f, of R] card_step_command by metis
  next
    case False
    then show thesis using that[of s] Q l by (simp add: card_step_def)
  qed
  then have tq: "Q (Device t)" and tf: "identified t"
    using f identified_core[of t s] by (simp_all add: card_step_def)
  obtain u where u: "SdhcWaitForTranStateAndReadyForData E R t = Some (EFI_SUCCESS, u)" "card_step Q content t u"
    using Wait_answers[OF card tq tf, of R] card_step_command by metis
  show thesis
    by (rule that[of u]) (use b t u in \<open>auto simp: FinishData_def ok_then_def intro: card_step_trans\<close>)
qed

section \<open>Transfers on a working card\<close>

text \<open>What \<open>n\<close> bytes between byte \<open>a\<close> of the card and offset \<open>off\<close> of the buffer change in the buffer and in the card.\<close>

definition io_effect ::
  "SD_TRANSFER_DIRECTION \<Rightarrow> nat \<Rightarrow> nat \<Rightarrow> nat \<Rightarrow> buffer \<times> (nat \<Rightarrow> u8) \<Rightarrow> buffer \<times> (nat \<Rightarrow> u8)" where
  "io_effect d a off n bc =
    (if d = SdTransferDirectionRead
     then (put_chunk off n (chunk_of a (snd bc)) (fst bc), snd bc)
     else (fst bc, put_chunk a n (chunk_of off (fst bc)) (snd bc)))"



lemma io_effect_0 [simp]: "io_effect d a off 0 bc = bc"
proof -
  have "put_chunk a 0 f g = g" for a f g
    by (rule ext) (auto simp: put_chunk_def)
  then show ?thesis by (simp add: io_effect_def)
qed

lemma unat_ucast_32_64: "unat (ucast (n :: u32) :: u64) = unat n"
  using unsigned_less[where 'a = nat, of n] by (simp add: unsigned_ucast_eq take_bit_nat_eq_self)

lemma DataPhase_card:
  assumes card: "block_card E Q high at content" and Q: "Q (Device t)"
    and d: "TransferDirection Cmd = d" "d \<noteq> SdTransferDirectionUndefined"
    and e: "e = io_effect d (at (Device t)) 0 (unat n) (buf, content (Device t))"
  obtains d' where "DataPhase E Cmd n buf t = Some ((EFI_SUCCESS, fst e), t\<lparr>Device := d'\<rparr>)" "Q d'" "content d' = snd e"
proof (cases d)
  case SdTransferDirectionRead
  obtain b d' where r: "ReadBlockData E (ucast n) buf (Device t) = ((EFI_SUCCESS, b), d')" "Q d'"
      "content d' = content (Device t)" "\<forall>i < unat n. b i = content (Device t) (at (Device t) + i)"
    using card Q unfolding block_card_def unat_ucast_32_64[of n, symmetric] by meson
  have "within (unat n) b buf = put_chunk 0 (unat n) (chunk_of (at (Device t)) (content (Device t))) buf"
    using r(4) by (auto simp: within_def put_chunk_def chunk_of_def)
  then show thesis
    using that[of d'] r d(1) SdTransferDirectionRead
    by (simp add: DataPhase_def on_device_def e io_effect_def)
next
  case SdTransferDirectionWrite
  obtain d' where r: "WriteBlockData E (ucast n) buf (Device t) = (EFI_SUCCESS, d')" "Q d'"
      "content d' = put_chunk (at (Device t)) (unat n) buf (content (Device t))"
    using card Q unfolding block_card_def unat_ucast_32_64[of n, symmetric] by meson
  then show thesis
    using that[of d'] d(1) SdTransferDirectionWrite
    by (simp add: DataPhase_def on_device_def e io_effect_def chunk_of_def)
qed (use d in simp)

lemma SendDataCommand_card:
  assumes card: "block_card E Q high at content" and Q: "Q (Device s)"
    and f: "identified s"
    and l: "LastSuccessfulCmd s \<noteq> None"
    and cmd: "Class Cmd \<noteq> SdCommandClassApp" "TransferType Cmd \<noteq> SdTransferTypeNone"
      "TransferDirection Cmd = d" "d \<noteq> SdTransferDirectionUndefined"
    and n: "n mod 512 = 0"
  obtains s' where "SdhcSendDataCommand E R Cmd lba n buf s =
      Some ((EFI_SUCCESS, fst (io_effect d (data_address high lba) 0 (unat n) (buf, content (Device s)))), s')"
    "Q (Device s')" "content (Device s') = snd (io_effect d (data_address high lba) 0 (unat n) (buf, content (Device s)))"
    "core s' = core s" "LastSuccessfulCmd s' \<noteq> None"
proof -
  let ?x = "Some \<lparr>XfrBlockSize = 512, XfrBlockCount = n div 512, XfrBuffer = buf\<rparr>"
  let ?r = "io_effect d (data_address high lba) 0 (unat n) (buf, content (Device s))"
  have resp: "responsive E Q (block_step high at content)"
    using card by (simp add: block_card_def)
  obtain t where t: "SdhcSendCommandHelper E Cmd lba ?x s = Some ((EFI_SUCCESS, ?x), t)"
      "command_step Q (block_step high at content) Cmd lba s t"
    by (rule Helper_answers[OF resp Q f cmd(1)])
  note st = command_stepD[OF t(2), unfolded block_step_def]
  obtain d' where d': "DataPhase E Cmd n buf t = Some ((EFI_SUCCESS, fst ?r), t\<lparr>Device := d'\<rparr>)" "Q d'"
      "content d' = snd ?r"
    by (rule DataPhase_card[OF card st(1) cmd(3,4), of ?r n buf]) (use st cmd(2) in simp_all)
  obtain u where u: "FinishData E R Cmd (t\<lparr>Device := d'\<rparr>) = Some (EFI_SUCCESS, u)"
      "card_step Q content (t\<lparr>Device := d'\<rparr>) u"
    by (rule FinishData_card[OF resp, where s = "t\<lparr>Device := d'\<rparr>" and R = R and Cmd = Cmd])
       (use d' st f l identified_core[OF st(3)] in \<open>simp_all add: identified_def\<close>)
  show thesis
    by (rule that[of u]) (use t(1) st(3) d' u n in \<open>simp_all add: SdhcSendDataCommand_def card_step_def\<close>)
qed

lemma io_effect_chunk:
  assumes "d \<noteq> SdTransferDirectionUndefined"
  shows "(put_chunk off n (fst (io_effect d a 0 n (chunk_of off buf, c))) buf,
      snd (io_effect d a 0 n (chunk_of off buf, c))) = io_effect d a off n (buf, c)"
proof -
  have "put_chunk off n (put_chunk 0 n f (chunk_of off buf)) buf = put_chunk off n f buf" for f
    by (rule ext) (auto simp: put_chunk_def)
  moreover have "put_chunk off n (chunk_of off buf) buf = buf"
    by (rule ext) (auto simp: put_chunk_def chunk_of_def)
  ultimately show ?thesis
    using assms by (cases d) (simp_all add: io_effect_def, simp add: chunk_of_def)
qed

text \<open>An instance that can serve requests: the card has a function, a command has succeeded before, and blocks have 512 bytes.\<close>

definition io_ready :: "('d \<Rightarrow> bool) \<Rightarrow> 'd SDHC_INSTANCE \<Rightarrow> bool" where
  "io_ready Q s \<longleftrightarrow> Q (Device s) \<and> identified s \<and>
     LastSuccessfulCmd s \<noteq> None \<and> BlockSize (Media s) = 512"

definition data_command :: "SD_TRANSFER_DIRECTION \<Rightarrow> SD_COMMAND \<Rightarrow> bool" where
  "data_command d Cmd \<longleftrightarrow> Class Cmd \<noteq> SdCommandClassApp \<and> TransferType Cmd \<noteq> SdTransferTypeNone \<and>
     TransferDirection Cmd = d \<and> d \<noteq> SdTransferDirectionUndefined"

lemma IoCommand_data: "d \<noteq> SdTransferDirectionUndefined \<Longrightarrow> data_command d (IoCommand d n)"
  by (cases d) (simp_all add: data_command_def IoCommand_def SD_COMMANDS)

lemma TransferChunk_card:
  assumes card: "block_card E Q high at content" and s: "io_ready Q s" and cmd: "data_command d Cmd" and n: "n mod 512 = 0"
  obtains s' where "TransferChunk E R Cmd lba n off buf s =
      Some ((EFI_SUCCESS, fst (io_effect d (data_address high lba) off (unat n) (buf, content (Device s)))), s')"
    "content (Device s') = snd (io_effect d (data_address high lba) off (unat n) (buf, content (Device s)))"
    "core s' = core s" "io_ready Q s'"
proof -
  let ?e = "io_effect d (data_address high lba) 0 (unat n) (chunk_of off buf, content (Device s))"
  obtain s' where *: "SdhcSendDataCommand E R Cmd lba n (chunk_of off buf) s = Some ((EFI_SUCCESS, fst ?e), s')"
    "Q (Device s')" "content (Device s') = snd ?e" "core s' = core s" "LastSuccessfulCmd s' \<noteq> None"
    by (rule SendDataCommand_card[OF card _ _ _ _ _ _ _ n, where s = s and Cmd = Cmd and d = d and R = R
          and lba = lba and buf = "chunk_of off buf"])
       (use s cmd in \<open>simp_all add: io_ready_def data_command_def\<close>)
  have e: "put_chunk off (unat n) (fst ?e) buf = fst (io_effect d (data_address high lba) off (unat n) (buf, content (Device s)))"
      "snd ?e = snd (io_effect d (data_address high lba) off (unat n) (buf, content (Device s)))"
    using io_effect_chunk[of d off "unat n" "data_address high lba" buf "content (Device s)"] cmd
    by (auto simp: data_command_def prod_eq_iff)
  have "SendRetry 3 EFI_SUCCESS E R Cmd lba n (chunk_of off buf) s = Some ((EFI_SUCCESS, fst ?e), s')"
    by (simp add: numeral_3_eq_3 *(1))
  then have "TransferChunk E R Cmd lba n off buf s =
      Some ((EFI_SUCCESS, fst (io_effect d (data_address high lba) off (unat n) (buf, content (Device s)))), s')"
    by (simp add: TransferChunk_def e)
  then show thesis
    by (rule that) (use * s in \<open>simp_all add: e io_ready_def identified_def core_def\<close>)
qed

lemma mod_512: "n mod 512 = 0 \<longleftrightarrow> 512 dvd unat n" for n :: u32
proof -
  have "unat (n mod 512) = unat n mod 512" by (simp add: unat_mod)
  then show ?thesis by (metis dvd_eq_mod_eq_0 unat_eq_zero)
qed



section \<open>Block I/O on a working card\<close>

text \<open>A request within the medium, for a host whose transfer size fits in 32 bits.\<close>

definition request_ok ::
  "SD_TRANSFER_DIRECTION \<Rightarrow> u32 \<Rightarrow> u64 \<Rightarrow> u64 \<Rightarrow> u64 \<Rightarrow> 'd SDHC_INSTANCE \<Rightarrow> bool" where
  "request_ok d mid Lba BufferSize Buffer s \<longleftrightarrow>
     d \<noteq> SdTransferDirectionUndefined \<and> mid = MediaId (Media s) \<and> Buffer \<noteq> 0 \<and> MediaPresent (Media s) \<and>
     (d = SdTransferDirectionWrite \<longrightarrow> \<not> ReadOnly (Media s)) \<and>
     0 < unat BufferSize \<and> 512 dvd unat BufferSize \<and> unat BufferSize < 2 ^ 32 \<and>
     unat Lba + unat BufferSize div 512 \<le> unat (LastBlock (Media s)) + 1 \<and> unat (LastBlock (Media s)) + 1 < 2 ^ 32 \<and>
     (IoAlign (Media s) > 2 \<longrightarrow> Buffer AND (ucast (IoAlign (Media s)) - 1) = 0) \<and>
     0 < unat (MaximumBlockCount (HostCapabilities s)) \<and> unat (MaximumBlockCount (HostCapabilities s)) < 2 ^ 23"

lemma unat_ucast_64_32: "unat (x :: u64) < 2 ^ 32 \<Longrightarrow> unat (ucast x :: u32) = unat x"
  by (simp add: unsigned_ucast_eq take_bit_nat_eq_self)

lemma IoCheck_ok:
  assumes "request_ok d mid Lba BufferSize Buffer s" "BlockSize (Media s) = 512"
  obtains c where "IoCheck d mid Lba BufferSize Buffer s = Some (Inr c)" "unat c = unat BufferSize div 512"
proof -
  let ?c = "ucast (BufferSize div 512) :: u32"
  have d: "unat (BufferSize div 512) = unat BufferSize div 512" by (simp add: unat_div)
  have c: "unat ?c = unat BufferSize div 512"
    using assms by (simp add: unat_ucast_64_32 d request_ok_def)
  have "unat BufferSize div 512 > 0"
    using assms by (auto simp: request_ok_def dvd_def)
  then have "unat (Lba + ucast ?c - 1) = unat Lba + unat BufferSize div 512 - 1"
    using assms by (simp add: request_ok_def unat_sub_if' unat_word_ariths unat_ucast_32_64 c)
  then have r: "\<not> Lba + ucast ?c - 1 > LastBlock (Media s)"
    using assms by (auto simp: request_ok_def word_less_nat_alt)
  have m: "BufferSize mod 512 = 0"
    using assms by (simp add: request_ok_def unat_mod dvd_eq_mod_eq_0 flip: unat_eq_zero)
  have z: "BufferSize \<noteq> 0" using assms by (auto simp: request_ok_def)
  have "IoCheck d mid Lba BufferSize Buffer s = Some (Inr ?c)"
    using assms r m z by (simp add: IoCheck_def request_ok_def Let_def)
  then show thesis using that c by blast
qed


text \<open>A request of one transfer, on a card of either capacity.\<close>

lemma IoBlocks_one:
  assumes card: "block_card E Q high at content" and s: "io_ready Q s" and r: "request_ok d mid Lba BufferSize Buffer s"
    and one: "unat BufferSize \<le> 512 * unat (MaximumBlockCount (HostCapabilities s))"
  obtains s' where "IoBlocks E R d mid Lba BufferSize Buffer b s =
      Some ((EFI_SUCCESS, fst (io_effect d (data_address high (ucast Lba)) 0 (unat BufferSize) (b, content (Device s)))), s')"
    "content (Device s') = snd (io_effect d (data_address high (ucast Lba)) 0 (unat BufferSize) (b, content (Device s)))"
proof -
  let ?M = "MaximumBlockCount (HostCapabilities s) * BlockSize (Media s)" and ?n = "ucast BufferSize :: u32"
  have bs: "BlockSize (Media s) = 512" using s by (simp add: io_ready_def)
  obtain c where c: "IoCheck d mid Lba BufferSize Buffer s = Some (Inr c)"
    using IoCheck_ok[OF r bs] by metis
  have M: "unat ?M = 512 * unat (MaximumBlockCount (HostCapabilities s))"
    using r by (simp add: bs request_ok_def unat_word_ariths)
  have n: "unat ?n = unat BufferSize" using r by (simp add: request_ok_def unat_ucast_64_32)
  have n0: "?n \<noteq> 0" using n r by (auto simp: request_ok_def)
  have m: "(if ?n < ?M then ?n else ?M) = ?n"
    using one n M by (auto simp: word_less_nat_alt word_unat_eq_iff)
  have cmd: "data_command d (IoCommand d c)" using r by (intro IoCommand_data) (simp add: request_ok_def)
  have n512: "?n mod 512 = 0" using r n by (simp add: mod_512 request_ok_def)
  let ?e = "io_effect d (data_address high (ucast Lba)) 0 (unat ?n) (b, content (Device s))"
  obtain t where t: "TransferChunk E R (IoCommand d c) (ucast Lba) ?n 0 b s = Some ((EFI_SUCCESS, fst ?e), t)"
    "content (Device t) = snd ?e" "io_ready Q t"
    by (rule TransferChunk_card[OF card s cmd n512, where R = R and lba = "ucast Lba" and off = 0 and buf = b])
  have bt: "BlockSize (Media t) = 512" using t(3) by (simp add: io_ready_def)
  have "IoLoop E R (IoCommand d c) ?M EFI_SUCCESS ?n (ucast Lba) 0 b s = Some ((EFI_SUCCESS, fst ?e), t)"
    using n0 by (subst IoLoop.simps) (simp only: Let_def m if_False, simp add: t(1) bt IoLoop.simps)
  then show thesis
    using that t(2) c n0 by (simp add: IoBlocks_def n)
qed


section \<open>A concrete card\<close>

text \<open>A controller whose world is the address of the last data command and the bytes of the card.\<close>

definition memory_card :: "bool \<Rightarrow> (nat \<times> (nat \<Rightarrow> u8)) sdhc_services" where
  "memory_card high = \<lparr>SoftwareReset = (\<lambda>_ d. (EFI_SUCCESS, d)), SetClock = (\<lambda>_ d. (EFI_SUCCESS, d)),
     SetBusWidth = (\<lambda>_ d. (EFI_SUCCESS, d)), IsCardPresent = (\<lambda>d. (True, d)), IsReadOnly = (\<lambda>d. (False, d)),
     SendCommand = (\<lambda>Cmd Arg x d. ((EFI_SUCCESS, case x of None \<Rightarrow> (\<lambda>_. 0) | Some i \<Rightarrow> XfrBuffer i),
       if TransferType Cmd = SdTransferTypeNone then d else (data_address high Arg, snd d))),
     ReceiveResponse = (\<lambda>Cmd r d. ((EFI_SUCCESS, 0x900), d)),
     ReadBlockData = (\<lambda>n b d. ((EFI_SUCCESS, chunk_of (fst d) (snd d)), d)),
     WriteBlockData = (\<lambda>n b d. (EFI_SUCCESS, (fst d, put_chunk (fst d) (unat n) b (snd d)))),
     Stall = (\<lambda>_ d. (EFI_SUCCESS, d)), InstallProtocol = (\<lambda>_ d. (EFI_SUCCESS, d)),
     UninstallProtocol = (\<lambda>_ d. (EFI_SUCCESS, d)), LocateRpmbIo = (\<lambda>d. (EFI_NOT_FOUND, d)),
     ConvertDevicePathToText = (\<lambda>d. (True, d)), FreeText = (\<lambda>d. ((), d))\<rparr>"

lemma memory_card_ok: "block_card (memory_card high) (\<lambda>d. True) high fst snd"
  unfolding block_card_def responsive_def block_step_def by (auto simp: memory_card_def chunk_of_def)

definition card_instance :: "'d \<Rightarrow> 'd SDHC_INSTANCE" where
  "card_instance d = \<lparr>SlotInitialized = True, SlotNode = MSG_SD_DP,
     Media = gSdhcMediaTemplate\<lparr>MediaId := 7, MediaPresent := True, LastBlock := 99\<rparr>,
     RpmbIo = \<lparr>RpmbCid = 0, ReliableSectorCount = 0, RpmbSizeMult = 0\<rparr>,
     HostCapabilities = \<lparr>MaximumBlockSize = 512, MaximumBlockCount = 2\<rparr>,
     DevicePathProtocolInstalled = True, BlockIoProtocolInstalled = True, RpmbIoProtocolInstalled = False,
     CurrentMmcPartition = 0, CardInfo = CARD_INFO_zero\<lparr>CardFunction := CardFunctionSd, HighCapacity := True, RCA := 1\<rparr>,
     BlockBuffer = (\<lambda>_. 0), CmdResponse = 0, PreLastSuccessfulCmd = Some CmdSetBlockLength,
     LastSuccessfulCmd = Some CmdSendStatus, ErrorRecoveryAttemptCount = 0, Device = d\<rparr>"



section \<open>Properties\<close>





text \<open>C99: The driver gives the number of the first block as the address of every card, and never asks \<open>HighCapacity\<close>, which the initialisation
  has set. On a standard-capacity card, which the initialisation accepts and which takes byte addresses, a request of one transfer
  succeeds with the wrong bytes: block \<open>Lba\<close> is read from and written to byte \<open>Lba\<close> of the card, not byte \<open>512 * Lba\<close>.\<close>

theorem BlockIo_byte_card:
  assumes "block_card E Q False at content" and "io_ready Q s"
    and "request_ok SdTransferDirectionWrite mid Lba BufferSize Buffer s"
    and "unat BufferSize \<le> 512 * unat (MaximumBlockCount (HostCapabilities s))"
  shows "(\<exists>b' s'. BlockIoReadBlocks E mid Lba BufferSize Buffer b s = Some ((EFI_SUCCESS, b'), s') \<and>
      (\<forall>i < unat BufferSize. b' i = content (Device s) (unat Lba + i))) \<and>
    (\<exists>s'. BlockIoWriteBlocks E mid Lba BufferSize Buffer b s = Some ((EFI_SUCCESS, b), s') \<and>
      (\<forall>i. content (Device s') i = (if unat Lba \<le> i \<and> i < unat Lba + unat BufferSize then b (i - unat Lba) else content (Device s) i)))"
proof -
  have r: "request_ok SdTransferDirectionRead mid Lba BufferSize Buffer s" using assms(3) by (simp add: request_ok_def)
  have "0 < unat BufferSize div 512" using assms(3) by (auto simp: request_ok_def dvd_def)
  then have l: "data_address False (ucast Lba) = unat Lba"
    using assms(3) by (simp add: data_address_def request_ok_def unat_ucast_64_32)
  obtain t where t: "IoBlocks E (SdhcRecoverFromErrors E) SdTransferDirectionRead mid Lba BufferSize Buffer b s =
      Some ((EFI_SUCCESS, fst (io_effect SdTransferDirectionRead (unat Lba) 0 (unat BufferSize) (b, content (Device s)))), t)"
    by (rule IoBlocks_one[OF assms(1,2) r assms(4), where R = "SdhcRecoverFromErrors E" and b = b, unfolded l])
  obtain u where u: "IoBlocks E (SdhcRecoverFromErrors E) SdTransferDirectionWrite mid Lba BufferSize Buffer b s =
      Some ((EFI_SUCCESS, fst (io_effect SdTransferDirectionWrite (unat Lba) 0 (unat BufferSize) (b, content (Device s)))), u)"
    "content (Device u) = snd (io_effect SdTransferDirectionWrite (unat Lba) 0 (unat BufferSize) (b, content (Device s)))"
    by (rule IoBlocks_one[OF assms(1-4), where R = "SdhcRecoverFromErrors E" and b = b, unfolded l])
  show ?thesis
    using t u by (auto simp: BlockIoReadBlocks_def BlockIoWriteBlocks_def io_effect_def put_chunk_def chunk_of_def)
qed

lemma BlockIo_byte_card_witness:
  "\<exists>b' s'. BlockIoReadBlocks (memory_card False) 7 10 1024 0x1000 (\<lambda>_. 0) (upd_CardInfo (HighCapacity_update (\<lambda>_. False))
      (card_instance (0, word_of_nat))) = Some ((EFI_SUCCESS, b'), s') \<and> b' 1 = 11"
proof -
  let ?s = "upd_CardInfo (HighCapacity_update (\<lambda>_. False)) (card_instance (0 :: nat, word_of_nat :: nat \<Rightarrow> u8))"
  have "io_ready (\<lambda>d. True) ?s" "request_ok SdTransferDirectionWrite 7 10 1024 0x1000 ?s"
    "unat (1024 :: u64) \<le> 512 * unat (MaximumBlockCount (HostCapabilities ?s))"
    by (simp_all add: io_ready_def identified_def request_ok_def card_instance_def gSdhcMediaTemplate_def)
  from BlockIo_byte_card[OF memory_card_ok this, of "\<lambda>_. 0"] obtain b' s' where
    "BlockIoReadBlocks (memory_card False) 7 10 1024 0x1000 (\<lambda>_. 0) ?s = Some ((EFI_SUCCESS, b'), s')"
    "\<forall>i < unat (1024 :: u64). b' i = snd (Device ?s) (unat (10 :: u64) + i)" by blast
  moreover from this(2)[rule_format, of 1] have "b' 1 = 11" by (simp add: card_instance_def)
  ultimately show ?thesis by blast
qed

text \<open>C30: The status of a request is that of its last transfer. When a request takes more than one transfer and the first one
  fails all its tries, the request still returns \<open>EFI_SUCCESS\<close> if the rest of it succeeds, with what the failed transfer left in the buffer.\<close>

theorem IoBlocks_error_lost:
  assumes "IoCheck d mid Lba BufferSize Buffer s = Some (Inr c)"
    and "M = MaximumBlockCount (HostCapabilities s) * BlockSize (Media s)"
    and "M \<noteq> 0" and "M < ucast BufferSize"
    and "TransferChunk E R (IoCommand d c) (ucast Lba) M 0 b s = Some ((Status, b1), t)"
    and "BlockSize (Media t) = 512"
    and "IoLoop E R (IoCommand d c) M EFI_SUCCESS (ucast BufferSize - M) (ucast Lba + M div 512) (unat M) b1 t =
      Some ((EFI_SUCCESS, b2), u)"
  shows "IoBlocks E R d mid Lba BufferSize Buffer b s = Some ((EFI_SUCCESS, b2), u)"
proof -
  have ne: "(ucast BufferSize :: u32) \<noteq> 0" and rest: "(ucast BufferSize :: u32) - M \<noteq> 0"
    and nl: "\<not> (ucast BufferSize :: u32) < M"
    using assms(4) by auto
  have start: "IoLoop E R Cmd M st n lba off buf v = IoLoop E R Cmd M st' n lba off buf v"
    if "n \<noteq> 0" for Cmd st st' n lba off buf v
    using that by (simp add: IoLoop.simps[of E R Cmd M _ n])
  have "IoLoop E R (IoCommand d c) M EFI_SUCCESS (ucast BufferSize) (ucast Lba) 0 b s =
      IoLoop E R (IoCommand d c) M Status (ucast BufferSize - M) (ucast Lba + M div 512) (unat M) b1 t"
    using assms(5,6) ne nl by (subst IoLoop.simps) (simp add: Let_def)
  also have "\<dots> = Some ((EFI_SUCCESS, b2), u)"
    using start[OF rest] assms(7) by metis
  finally show ?thesis
    using assms(1,2) ne by (simp add: IoBlocks_def)
qed

text \<open>A card like \<open>memory_card\<close> whose reads of blocks below 12 fail.\<close>

definition broken_card :: "(nat \<times> (nat \<Rightarrow> u8)) sdhc_services" where
  "broken_card = memory_card True\<lparr>ReadBlockData := (\<lambda>n b d.
     if fst d < 6144 then ((EFI_DEVICE_ERROR, b), d) else ((EFI_SUCCESS, chunk_of (fst d) (snd d)), d))\<rparr>"

text \<open>The range check of a request is exact when \<open>Lba\<close> plus the block count fits in 64 bits; beyond, the last block is computed
  modulo \<open>2 ^ 64\<close>, so that a request that wraps around is accepted.\<close>

theorem IoCheck_range:
  assumes "MediaId (Media s) = mid" "Buffer \<noteq> 0" "MediaPresent (Media s)" "BlockSize (Media s) = 512"
    "IoAlign (Media s) \<le> 2" "d = SdTransferDirectionRead" "unat BufferSize = 512 * n" "0 < n" "n < 2 ^ 32"
  shows "IoCheck d mid Lba BufferSize Buffer s =
    Some (if (unat Lba + n - 1) mod 2 ^ 64 \<le> unat (LastBlock (Media s)) then Inr (word_of_nat n)
      else Inl EFI_INVALID_PARAMETER)"
proof -
  have c: "ucast (BufferSize div 512) = (word_of_nat n :: u32)"
    using assms by (intro word_unat_eq_iff[THEN iffD2]) (simp add: unsigned_ucast_eq unat_div unsigned_of_nat)
  have n: "unat (word_of_nat n :: u32) = n"
    using assms by (simp add: unsigned_of_nat take_bit_nat_eq_self)
  have w: "ucast (word_of_nat n :: u32) = (word_of_nat n :: u64)"
    using n assms(9) by (simp add: word_unat_eq_iff unat_ucast_32_64 unsigned_of_nat take_bit_nat_eq_self)
  have "unat (Lba + ucast (word_of_nat n :: u32) - 1) = (unat Lba + n - 1) mod 2 ^ 64"
  proof -
    have "Lba + ucast (word_of_nat n :: u32) - 1 = word_of_nat (unat Lba + n - 1)"
      using assms(8) by (simp add: of_nat_diff w)
    then show ?thesis by (simp add: unsigned_of_nat take_bit_eq_mod)
  qed
  moreover have "BufferSize mod 512 = 0" "BufferSize \<noteq> 0"
    using assms by (auto simp: unat_mod simp flip: unat_eq_zero)
  ultimately show ?thesis
    using assms by (simp add: IoCheck_def Let_def c word_le_nat_alt word_less_nat_alt not_less)
qed

lemma IoCheck_range_witness:
  "IoCheck SdTransferDirectionRead 7 (- 1) 1024 0x1000 ((card_instance ())\<lparr>Media := (Media (card_instance ()))\<lparr>IoAlign := 1\<rparr>\<rparr>) =
     Some (Inr 2)"
  using IoCheck_range[where s = "(card_instance ())\<lparr>Media := (Media (card_instance ()))\<lparr>IoAlign := 1\<rparr>\<rparr>"
      and mid = 7 and Buffer = "0x1000" and n = 2 and Lba = "- 1" and BufferSize = 1024 and d = SdTransferDirectionRead]
  by (simp add: card_instance_def gSdhcMediaTemplate_def unsigned_minus_1_eq_mask mask_eq_exp_minus_1)

lemma same_chunk [simp]: "within n b b = b" "chunk_of 0 b = b" "put_chunk 0 n b b = b"
  by (auto simp: within_def chunk_of_def put_chunk_def)

lemmas broken_run = broken_card_def memory_card_def data_address_def card_instance_def gSdhcMediaTemplate_def SdhcSendDataCommand_def
  SdhcSendCommandHelper_def on_device_def Let_def XfrInfo_set_def DataPhase_def SD_COMMANDS
  IsCardStatusError_def numeral_3_eq_3 TransferChunk_def

definition broken_state :: "nat \<Rightarrow> SD_COMMAND \<Rightarrow> SD_COMMAND \<Rightarrow> (nat \<Rightarrow> u8) \<Rightarrow> (nat \<times> (nat \<Rightarrow> u8)) SDHC_INSTANCE" where
  "broken_state n p l c = (card_instance (n, c))\<lparr>CmdResponse := 0x900, PreLastSuccessfulCmd := Some p,
     LastSuccessfulCmd := Some l\<rparr>"

lemma broken_first:
  "TransferChunk broken_card (\<lambda>Cmd s. Some (EFI_SUCCESS, s)) CmdReadMultiBlock 10 1024 0 b (card_instance (0, c)) =
    Some ((EFI_DEVICE_ERROR, b), broken_state 5120 CmdReadMultiBlock CmdReadMultiBlock c)"
  by (simp add: broken_run broken_state_def)

lemma broken_second:
  "TransferChunk broken_card (\<lambda>Cmd s. Some (EFI_SUCCESS, s)) CmdReadMultiBlock 12 1024 1024 b
     (broken_state 5120 CmdReadMultiBlock CmdReadMultiBlock c) =
    Some ((EFI_SUCCESS, put_chunk 1024 1024 (chunk_of 6144 c) b), broken_state 6144 CmdStopTransmission CmdSendStatus c)"
proof -
  have p: "PollTran 200 E R 0x900 s = Some (EFI_SUCCESS, s)" for E R s
    using PollTran.simps(2)[of 199 E R "0x900" s] by (simp add: TranAndReady_900)
  have "put_chunk 1024 1024 (within 1024 (chunk_of 6144 c) b') b = put_chunk 1024 1024 (chunk_of 6144 c) b" for b'
    by (rule ext) (auto simp: put_chunk_def within_def)
  then show ?thesis
    by (simp add: broken_run broken_state_def FinishData_def NeedsStop_def ok_then_def SdhcStopTransmission_def
        SdhcSendCommand_def SendCommandWith_def SdhcWaitForTranStateAndReadyForData_def SdhcSendStatus_def p)
qed

lemma IoBlocks_error_lost_witness:
  "\<exists>b2 u. IoBlocks broken_card (\<lambda>Cmd s. Some (EFI_SUCCESS, s)) SdTransferDirectionRead 7 10 2048 0x1000 (\<lambda>_. 0)
     (card_instance (0, \<lambda>_. 1)) = Some ((EFI_SUCCESS, b2), u) \<and> b2 0 = 0"
proof -
  let ?b = "put_chunk 1024 1024 (chunk_of 6144 (\<lambda>_. 1)) (\<lambda>_. 0)" and ?c = "\<lambda>_ :: nat. 1 :: u8"
  have t: "BlockSize (Media (broken_state n p l c)) = 512" for n p l c
    by (simp add: broken_state_def card_instance_def gSdhcMediaTemplate_def)
  have "IoLoop broken_card (\<lambda>Cmd s. Some (EFI_SUCCESS, s)) CmdReadMultiBlock 1024 EFI_SUCCESS 1024 12 1024 (\<lambda>_. 0)
      (broken_state 5120 CmdReadMultiBlock CmdReadMultiBlock ?c) =
    Some ((EFI_SUCCESS, ?b), broken_state 6144 CmdStopTransmission CmdSendStatus ?c)"
    by (subst IoLoop.simps, simp add: broken_second t, subst IoLoop.simps, simp)
  moreover have "IoCheck SdTransferDirectionRead 7 10 2048 0x1000 (card_instance (0, ?c)) = Some (Inr 4)"
    by (simp add: IoCheck_def card_instance_def gSdhcMediaTemplate_def)
  moreover have "1024 = MaximumBlockCount (HostCapabilities (card_instance (0 :: nat, ?c))) * BlockSize (Media (card_instance (0 :: nat, ?c)))"
    by (simp add: card_instance_def gSdhcMediaTemplate_def)
  moreover have "IoCommand SdTransferDirectionRead 4 = CmdReadMultiBlock"
    by (simp add: IoCommand_def)
  ultimately have "IoBlocks broken_card (\<lambda>Cmd s. Some (EFI_SUCCESS, s)) SdTransferDirectionRead 7 10 2048 0x1000 (\<lambda>_. 0)
      (card_instance (0, ?c)) = Some ((EFI_SUCCESS, ?b), broken_state 6144 CmdStopTransmission CmdSendStatus ?c)"
    by (intro IoBlocks_error_lost[where c = 4 and M = 1024 and ?b1.0 = "\<lambda>_. 0" and Status = EFI_DEVICE_ERROR
          and t = "broken_state 5120 CmdReadMultiBlock CmdReadMultiBlock ?c"]) (simp_all add: broken_first t)
  moreover have "?b 0 = 0"
    by (simp add: put_chunk_def)
  ultimately show ?thesis
    by blast
qed

end
