(* ===== verification/SdMmcRpmb.thy ===== *)
theory SdMmcRpmb
  imports SdMmcCard
begin

unbundle bit_operations_syntax

text \<open>
  The RPMB I/O protocol of the SD/MMC driver, \<open>src/Microsoft/MsPkg/Drivers/SdMmcDxe/RpmbIo.c\<close>: requests to the replay protected
  partition of an eMMC. A packet is its 512 bytes, a pointer is its address, and 0 is \<open>NULL\<close>; request and response
  are taken to lie in different memory, and the request is not written. The dump of packets only prints.
\<close>

section \<open>Packets\<close>

definition Uint16ToRpmbBytes :: "u16 \<Rightarrow> u8 \<times> u8" where
  "Uint16ToRpmbBytes Value = (ucast (drop_bit 8 Value), ucast (Value AND 0xF))"

definition RpmbBytesToUint16 :: "u8 \<times> u8 \<Rightarrow> u16" where
  "RpmbBytesToUint16 RpmbBytes = push_bit 8 (ucast (fst RpmbBytes)) OR ucast (snd RpmbBytes)"

text \<open>The member \<open>RequestOrResponseType\<close>, the last of \<open>EFI_RPMB_DATA_PACKET\<close>.\<close>

definition RequestOrResponseType :: "buffer \<Rightarrow> u8 \<times> u8" where
  "RequestOrResponseType p = (p 510, p 511)"

abbreviation (input) EFI_RPMB_REQUEST_PROGRAM_KEY :: u16 where "EFI_RPMB_REQUEST_PROGRAM_KEY \<equiv> 1"
abbreviation (input) EFI_RPMB_REQUEST_COUNTER_VALUE :: u16 where "EFI_RPMB_REQUEST_COUNTER_VALUE \<equiv> 2"
abbreviation (input) EFI_RPMB_REQUEST_AUTH_WRITE :: u16 where "EFI_RPMB_REQUEST_AUTH_WRITE \<equiv> 3"
abbreviation (input) EFI_RPMB_REQUEST_AUTH_READ :: u16 where "EFI_RPMB_REQUEST_AUTH_READ \<equiv> 4"
abbreviation (input) EFI_RPMB_REQUEST_RESULT_REQUEST :: u8 where "EFI_RPMB_REQUEST_RESULT_REQUEST \<equiv> 5"

definition ResultRequest :: buffer where
  "ResultRequest = (\<lambda>i. if i = 511 then EFI_RPMB_REQUEST_RESULT_REQUEST else 0)"

record EFI_RPMB_DATA_BUFFER =
  Packets :: u64
  PacketCount :: u64
  Contents :: buffer

type_synonym 'd rpmb_outcome = "((EFI_STATUS \<times> buffer) \<times> 'd SDHC_INSTANCE) option"

section \<open>Requests\<close>

text \<open>The response of \<open>RpmbRead\<close> is its packet count with the bytes of its packets, which the result has after the call.\<close>

definition RpmbRead ::
  "'d sdhc_services \<Rightarrow> 'd recovery \<Rightarrow> buffer \<Rightarrow> u64 \<Rightarrow> buffer \<Rightarrow> 'd SDHC_INSTANCE \<Rightarrow> 'd rpmb_outcome" where
  "RpmbRead E R Request n Response s = do {
     (Status, s) \<leftarrow> SdhcSetBlockCount E R 1 False s;
     if EFI_ERROR Status then Some ((Status, Response), s)
     else do {
       ((Status, _), s) \<leftarrow> SdhcSendDataCommand E R CmdWriteMultiBlock 0 512 Request s;
       if EFI_ERROR Status then Some ((Status, Response), s)
       else do {
         (Status, s) \<leftarrow> SdhcSetBlockCount E R (ucast n) False s;
         if EFI_ERROR Status then Some ((Status, Response), s)
         else do {
           ((Status, Response), s) \<leftarrow> SdhcSendDataCommand E R CmdReadMultiBlock 0 (ucast (n * 512)) Response s;
           if EFI_ERROR Status then Some ((Status, Response), s) else Some ((EFI_SUCCESS, Response), s)
         }
       }
     }
   }"

definition RpmbWrite ::
  "'d sdhc_services \<Rightarrow> 'd recovery \<Rightarrow> u64 \<Rightarrow> buffer \<Rightarrow> 'd SDHC_INSTANCE \<Rightarrow> 'd outcome" where
  "RpmbWrite E R n Request s = do {
     (Status, s) \<leftarrow> SdhcSetBlockCount E R (ucast n) True s;
     if EFI_ERROR Status then Some (Status, s)
     else do {
       ((Status, _), s) \<leftarrow> SdhcSendDataCommand E R CmdWriteMultiBlock 0 (ucast (n * 512)) Request s;
       if EFI_ERROR Status then Some (Status, s) else Some (EFI_SUCCESS, s)
     }
   }"

definition RpmbQueryResult ::
  "'d sdhc_services \<Rightarrow> 'd recovery \<Rightarrow> buffer \<Rightarrow> 'd SDHC_INSTANCE \<Rightarrow> 'd rpmb_outcome" where
  "RpmbQueryResult E R Response s = do {
     ((Status, Response), s) \<leftarrow> RpmbRead E R ResultRequest 1 Response s;
     if EFI_ERROR Status then Some ((Status, Response), s) else Some ((EFI_SUCCESS, Response), s)
   }"

text \<open>A write followed by the query of its result, which the key programming and the authenticated write share.\<close>

definition RpmbWriteAndQuery ::
  "'d sdhc_services \<Rightarrow> 'd recovery \<Rightarrow> u64 \<Rightarrow> buffer \<Rightarrow> buffer \<Rightarrow> 'd SDHC_INSTANCE \<Rightarrow> 'd rpmb_outcome" where
  "RpmbWriteAndQuery E R n Request Response s = do {
     (Status, s) \<leftarrow> RpmbWrite E R n Request s;
     if EFI_ERROR Status then Some ((Status, Response), s)
     else do {
       ((Status, Response), s) \<leftarrow> RpmbQueryResult E R Response s;
       if EFI_ERROR Status then Some ((Status, Response), s) else Some ((EFI_SUCCESS, Response), s)
     }
   }"

definition RpmbProgramKeyRequest ::
  "'d sdhc_services \<Rightarrow> 'd recovery \<Rightarrow> buffer \<Rightarrow> buffer \<Rightarrow> 'd SDHC_INSTANCE \<Rightarrow> 'd rpmb_outcome" where
  "RpmbProgramKeyRequest E R = RpmbWriteAndQuery E R 1"

definition RpmbReadCounterRequest ::
  "'d sdhc_services \<Rightarrow> 'd recovery \<Rightarrow> buffer \<Rightarrow> buffer \<Rightarrow> 'd SDHC_INSTANCE \<Rightarrow> 'd rpmb_outcome" where
  "RpmbReadCounterRequest E R Request Response s = do {
     ((Status, Response), s) \<leftarrow> RpmbRead E R Request 1 Response s;
     if EFI_ERROR Status then Some ((Status, Response), s) else Some ((EFI_SUCCESS, Response), s)
   }"

definition RpmbAuthenticatedWriteRequest ::
  "'d sdhc_services \<Rightarrow> 'd recovery \<Rightarrow> u64 \<Rightarrow> buffer \<Rightarrow> buffer \<Rightarrow> 'd SDHC_INSTANCE \<Rightarrow> 'd rpmb_outcome" where
  "RpmbAuthenticatedWriteRequest E R = RpmbWriteAndQuery E R"

definition RpmbAuthenticatedReadRequest ::
  "'d sdhc_services \<Rightarrow> 'd recovery \<Rightarrow> buffer \<Rightarrow> u64 \<Rightarrow> buffer \<Rightarrow> 'd SDHC_INSTANCE \<Rightarrow> 'd rpmb_outcome" where
  "RpmbAuthenticatedReadRequest E R Request n Response s = do {
     ((Status, Response), s) \<leftarrow> RpmbRead E R Request n Response s;
     if EFI_ERROR Status then Some ((Status, Response), s) else Some ((EFI_SUCCESS, Response), s)
   }"

text \<open>The \<open>switch\<close> over the request type in \<open>RpmbRequest\<close>.\<close>

definition RpmbDispatch ::
  "'d sdhc_services \<Rightarrow> 'd recovery \<Rightarrow> EFI_RPMB_DATA_BUFFER \<Rightarrow> EFI_RPMB_DATA_BUFFER \<Rightarrow> 'd SDHC_INSTANCE \<Rightarrow> 'd rpmb_outcome" where
  "RpmbDispatch E R Request Response s =
    (let RequestType = RpmbBytesToUint16 (RequestOrResponseType (Contents Request)) in
     if RequestType = EFI_RPMB_REQUEST_PROGRAM_KEY then RpmbProgramKeyRequest E R (Contents Request) (Contents Response) s
     else if RequestType = EFI_RPMB_REQUEST_COUNTER_VALUE then
       RpmbReadCounterRequest E R (Contents Request) (Contents Response) s
     else if RequestType = EFI_RPMB_REQUEST_AUTH_READ then
       RpmbAuthenticatedReadRequest E R (Contents Request) (PacketCount Response) (Contents Response) s
     else if RequestType = EFI_RPMB_REQUEST_AUTH_WRITE then
       RpmbAuthenticatedWriteRequest E R (PacketCount Request) (Contents Request) (Contents Response) s
     else None)"

definition RpmbRequest ::
  "'d sdhc_services \<Rightarrow> 'd recovery \<Rightarrow> EFI_RPMB_DATA_BUFFER \<Rightarrow> EFI_RPMB_DATA_BUFFER \<Rightarrow> 'd SDHC_INSTANCE \<Rightarrow> 'd rpmb_outcome" where
  "RpmbRequest E R Request Response s = do {
     let CurrentPartition = CurrentMmcPartition s;
     (SwitchStatus, s) \<leftarrow> SdhcSwitchPartitionMmc E R MmcExtCsdPartitionAccessRpmb s;
     if EFI_ERROR SwitchStatus then Some ((SwitchStatus, Contents Response), s)
     else if PacketCount Request = 0 \<or> Packets Request = 0 then None
     else do {
       ((Status, r), s) \<leftarrow> RpmbDispatch E R Request Response s;
       (SwitchStatus, s) \<leftarrow> SdhcSwitchPartitionMmc E R CurrentPartition s;
       Some ((if EFI_ERROR Status then Status else SwitchStatus, r), s)
     }
   }"

section \<open>The protocol\<close>

text \<open>\<open>This\<close> and the pointers come as addresses; a buffer comes with what it points to.\<close>

definition RpmbType :: "buffer \<Rightarrow> u16" where
  "RpmbType p = RpmbBytesToUint16 (RequestOrResponseType p)"

definition RpmbIoProgramKey ::
  "'d sdhc_services \<Rightarrow> u64 \<Rightarrow> u64 \<times> buffer \<Rightarrow> u64 \<times> buffer \<Rightarrow> 'd SDHC_INSTANCE \<Rightarrow> 'd rpmb_outcome" where
  "RpmbIoProgramKey E This ProgrammingRequest ResultResponse s =
    (if This = 0 \<or> fst ProgrammingRequest = 0 \<or> fst ResultResponse = 0
     then Some ((EFI_INVALID_PARAMETER, snd ResultResponse), s)
     else if RpmbType (snd ProgrammingRequest) \<noteq> EFI_RPMB_REQUEST_PROGRAM_KEY
     then Some ((EFI_INVALID_PARAMETER, snd ResultResponse), s)
     else RpmbRequest E (SdhcRecoverFromErrors E)
       \<lparr>Packets = fst ProgrammingRequest, PacketCount = 1, Contents = snd ProgrammingRequest\<rparr>
       \<lparr>Packets = fst ResultResponse, PacketCount = 1, Contents = snd ResultResponse\<rparr> s)"

definition RpmbIoReadCounter ::
  "'d sdhc_services \<Rightarrow> u64 \<Rightarrow> u64 \<times> buffer \<Rightarrow> u64 \<times> buffer \<Rightarrow> 'd SDHC_INSTANCE \<Rightarrow> 'd rpmb_outcome" where
  "RpmbIoReadCounter E This ReadRequest ReadResponse s =
    (if This = 0 \<or> fst ReadRequest = 0 \<or> fst ReadResponse = 0
     then Some ((EFI_INVALID_PARAMETER, snd ReadResponse), s)
     else if RpmbType (snd ReadRequest) \<noteq> EFI_RPMB_REQUEST_COUNTER_VALUE
     then Some ((EFI_INVALID_PARAMETER, snd ReadResponse), s)
     else RpmbRequest E (SdhcRecoverFromErrors E)
       \<lparr>Packets = fst ReadRequest, PacketCount = 1, Contents = snd ReadRequest\<rparr>
       \<lparr>Packets = fst ReadResponse, PacketCount = 1, Contents = snd ReadResponse\<rparr> s)"

definition RpmbIoAuthenticatedWrite ::
  "'d sdhc_services \<Rightarrow> u64 \<Rightarrow> u64 \<times> EFI_RPMB_DATA_BUFFER \<Rightarrow> u64 \<times> buffer \<Rightarrow> 'd SDHC_INSTANCE \<Rightarrow> 'd rpmb_outcome" where
  "RpmbIoAuthenticatedWrite E This Request Response s =
    (if This = 0 \<or> fst Request = 0 \<or> fst Response = 0
     then Some ((EFI_INVALID_PARAMETER, snd Response), s)
     else if Packets (snd Request) = 0 \<or> PacketCount (snd Request) = 0
     then Some ((EFI_INVALID_PARAMETER, snd Response), s)
     else if RpmbType (Contents (snd Request)) \<noteq> EFI_RPMB_REQUEST_AUTH_WRITE
     then Some ((EFI_INVALID_PARAMETER, snd Response), s)
     else RpmbRequest E (SdhcRecoverFromErrors E) (snd Request)
       \<lparr>Packets = fst Response, PacketCount = 1, Contents = snd Response\<rparr> s)"

definition RpmbIoAuthenticatedRead ::
  "'d sdhc_services \<Rightarrow> u64 \<Rightarrow> u64 \<times> buffer \<Rightarrow> u64 \<times> EFI_RPMB_DATA_BUFFER \<Rightarrow> 'd SDHC_INSTANCE \<Rightarrow> 'd rpmb_outcome" where
  "RpmbIoAuthenticatedRead E This ReadRequest ReadResponse s =
    (if This = 0 \<or> fst ReadRequest = 0 \<or> fst ReadResponse = 0
     then Some ((EFI_INVALID_PARAMETER, Contents (snd ReadResponse)), s)
     else if Packets (snd ReadResponse) = 0 \<or> PacketCount (snd ReadResponse) = 0
     then Some ((EFI_INVALID_PARAMETER, Contents (snd ReadResponse)), s)
     else if RpmbType (snd ReadRequest) \<noteq> EFI_RPMB_REQUEST_AUTH_READ
     then Some ((EFI_INVALID_PARAMETER, Contents (snd ReadResponse)), s)
     else RpmbRequest E (SdhcRecoverFromErrors E)
       \<lparr>Packets = fst ReadRequest, PacketCount = 1, Contents = snd ReadRequest\<rparr> (snd ReadResponse) s)"

section \<open>The partition\<close>

lemma SwitchPartition_selects:
  "ok_run (\<lambda>t. CurrentMmcPartition t = p \<and> PARTITION_ACCESS (PartitionConfig (ExtCsd (CardInfo t))) = p)
    (SdhcSwitchPartitionMmc E R p s)"
  unfolding SdhcSwitchPartitionMmc_def Let_def
  by (rule ok_run_then[where P = "\<lambda>t. True"], simp add: ok_run_def, rule ok_run_then[where P = "\<lambda>t. True"])
     (simp_all add: ok_run_def)

section \<open>An eMMC with a replay protected partition\<close>

text \<open>
  The contract of the controller with such a card. \<open>part\<close> is the \<open>PARTITION_CONFIG\<close> byte, \<open>cmd\<close> the last data command, \<open>count\<close> the
  argument of the SET_BLOCK_COUNT just before it, and \<open>frames\<close> the requests written to the RPMB partition since a state the card has no
  part in; \<open>answer\<close> gives the response to the last of them, which is what a read returns. STOP_TRANSMISSION may lose a request, and
  transfers count only in the RPMB partition, for the number of blocks that SET_BLOCK_COUNT has given in its low 16 bits. A key and an
  authenticated write must be reliable writes, which bit 31 of that argument says, and the other requests must not.
\<close>

definition frame :: "u64 \<Rightarrow> buffer \<Rightarrow> buffer" where
  "frame n b = within (unat n) b (\<lambda>_. 0)"

definition rpmb_step ::
  "('d \<Rightarrow> u8) \<Rightarrow> ('d \<Rightarrow> SD_COMMAND) \<Rightarrow> ('d \<Rightarrow> u32) \<Rightarrow> ('d \<Rightarrow> buffer list) \<Rightarrow> SD_COMMAND \<Rightarrow> u32 \<Rightarrow> 'd \<Rightarrow> 'd \<Rightarrow> bool" where
  "rpmb_step part cmd count frames Cmd Arg d d' \<longleftrightarrow>
     part d' = (if Cmd = CmdSwitchMmc \<and> bf_get 16 8 Arg = MmcExtCsdBitIndexPartitionConfig then ucast (bf_get 8 8 Arg) else part d) \<and>
     (Cmd \<noteq> CmdStopTransmission \<longrightarrow> frames d' = frames d) \<and>
     (TransferType Cmd \<noteq> SdTransferTypeNone \<longrightarrow> cmd d' = Cmd) \<and>
     count d' = (if Cmd = CmdSetBlockCount then Arg
       else if Cmd = CmdReadMultiBlock \<or> Cmd = CmdWriteMultiBlock then count d else 0)"

definition counted :: "u32 \<Rightarrow> u64 \<Rightarrow> bool \<Rightarrow> bool" where
  "counted c n reliable \<longleftrightarrow> 512 * unat (c AND 0xFFFF) = unat n \<and> bit c 31 = reliable"

definition reliable_request :: "buffer \<Rightarrow> bool" where
  "reliable_request b \<longleftrightarrow> RpmbType b = EFI_RPMB_REQUEST_PROGRAM_KEY \<or> RpmbType b = EFI_RPMB_REQUEST_AUTH_WRITE"

definition rpmb_card ::
  "'d sdhc_services \<Rightarrow> ('d \<Rightarrow> bool) \<Rightarrow> ('d \<Rightarrow> u8) \<Rightarrow> ('d \<Rightarrow> SD_COMMAND) \<Rightarrow> ('d \<Rightarrow> u32) \<Rightarrow> ('d \<Rightarrow> buffer list) \<Rightarrow>
    (buffer list \<Rightarrow> buffer) \<Rightarrow> bool" where
  "rpmb_card E Q part cmd count frames answer \<longleftrightarrow> responsive E Q (rpmb_step part cmd count frames) \<and> (\<forall>d. Q d \<longrightarrow>
     (\<forall>n b. \<exists>b' d'. ReadBlockData E n b d = ((EFI_SUCCESS, b'), d') \<and> Q d' \<and> part d' = part d \<and> frames d' = frames d \<and>
        (cmd d = CmdSendExtCsdMmc \<longrightarrow> b' 179 = part d) \<and>
        (cmd d = CmdReadMultiBlock \<and> PARTITION_ACCESS (part d) = MmcExtCsdPartitionAccessRpmb \<and> counted (count d) n False \<longrightarrow>
           (\<forall>i < unat n. b' i = answer (frames d) i))) \<and>
     (\<forall>n b. \<exists>d'. WriteBlockData E n b d = (EFI_SUCCESS, d') \<and> Q d' \<and> part d' = part d \<and>
        (cmd d = CmdWriteMultiBlock \<and> PARTITION_ACCESS (part d) = MmcExtCsdPartitionAccessRpmb \<and>
           counted (count d) n (reliable_request b) \<longrightarrow> frames d' = frames d @ [frame n b])))"

text \<open>What SET_BLOCK_COUNT sends for \<open>n\<close> packets.\<close>

lemma counted_arg:
  assumes "unat n < 65536" and "unat m = 512 * unat n"
  shows "counted (if w then ucast (n :: u64) OR push_bit 31 1 else ucast n) m w"
proof -
  have c: "unat (ucast n :: u32) = unat n" using assms(1) by (simp add: unsigned_ucast_eq take_bit_nat_eq_self)
  have "(ucast n :: u32) AND 0xFFFF = ucast n"
  proof -
    have m: "(0xFFFF :: u32) = mask 16" by (simp add: mask_eq_exp_minus_1)
    have "take_bit 16 (ucast n :: u32) = ucast n"
      using c assms(1) by (simp only: word_unat_eq_iff unsigned_take_bit_eq) (simp add: take_bit_nat_eq_self)
    then show ?thesis unfolding m by (simp only: take_bit_eq_mask)
  qed
  moreover have "(push_bit 31 1 :: u32) AND 0xFFFF = 0" by simp
  moreover have "\<not> bit (ucast n :: u32) 31"
  proof -
    have "\<not> bit (unat (ucast n :: u32)) 31" using c assms(1) by (simp add: bit_iff_odd)
    then show ?thesis by (simp add: bit_unsigned_iff)
  qed
  ultimately show ?thesis
    using c assms(2) by (simp add: counted_def bit.conj_disj_distrib2 bit_or_iff bit_push_bit_iff)
qed

lemma SWITCH_arg:
  fixes v :: u8
  shows "bf_get 16 8 (MMC_SWITCH_CMD_ARG 3 179 (ucast v)) = 179"
    "ucast (bf_get 8 8 (MMC_SWITCH_CMD_ARG 3 179 (ucast v))) = v"
proof -
  have "ucast (take_bit 8 (ucast v :: u32)) = v"
    by (rule bit_word_eqI) (simp add: bit_simps)
  then show "bf_get 16 8 (MMC_SWITCH_CMD_ARG 3 179 (ucast v)) = 179"
    "ucast (bf_get 8 8 (MMC_SWITCH_CMD_ARG 3 179 (ucast v))) = v"
    by (simp_all add: MMC_SWITCH_CMD_ARG_def bf_get_set_other bf_get_set_same)
qed

lemma PARTITION_ACCESS_set: "p < 8 \<Longrightarrow> PARTITION_ACCESS (set_PARTITION_ACCESS p c) = p"
  by (simp add: PARTITION_ACCESS_def set_PARTITION_ACCESS_def bf_get_set_same word_unat_eq_iff unsigned_take_bit_eq
      take_bit_nat_eq_self word_less_nat_alt)

lemma rpmb_responsive: "rpmb_card E Q part cmd count frames answer \<Longrightarrow> responsive E Q (rpmb_step part cmd count frames)"
  by (simp add: rpmb_card_def)

lemma rpmb_read:
  assumes "rpmb_card E Q part cmd count frames answer" "Q d"
  shows "\<exists>b' d'. ReadBlockData E n b d = ((EFI_SUCCESS, b'), d') \<and> Q d' \<and> part d' = part d \<and> frames d' = frames d \<and>
    (cmd d = CmdSendExtCsdMmc \<longrightarrow> b' 179 = part d) \<and>
    (cmd d = CmdReadMultiBlock \<and> PARTITION_ACCESS (part d) = 3 \<and> counted (count d) n False \<longrightarrow>
      (\<forall>i < unat n. b' i = answer (frames d) i))"
  using assms unfolding rpmb_card_def by blast

lemma rpmb_write:
  assumes "rpmb_card E Q part cmd count frames answer" "Q d"
  shows "\<exists>d'. WriteBlockData E n b d = (EFI_SUCCESS, d') \<and> Q d' \<and> part d' = part d \<and>
    (cmd d = CmdWriteMultiBlock \<and> PARTITION_ACCESS (part d) = 3 \<and> counted (count d) n (reliable_request b) \<longrightarrow>
      frames d' = frames d @ [frame n b])"
  using assms unfolding rpmb_card_def by blast

lemma rpmb_commands:
  "TransferType CmdSendExtCsdMmc = SdTransferTypeSingleBlock" "TransferDirection CmdSendExtCsdMmc = SdTransferDirectionRead"
  "Class CmdSendExtCsdMmc = SdCommandClassStandard" "CmdSendExtCsdMmc \<noteq> CmdSwitchMmc"
  "CmdSendExtCsdMmc \<noteq> CmdStopTransmission" "CmdSendExtCsdMmc \<noteq> CmdReadMultiBlock" "CmdSendExtCsdMmc \<noteq> CmdWriteMultiBlock"
  "CmdSwitchMmc \<noteq> CmdStopTransmission" "CmdSetBlockCount \<noteq> CmdSwitchMmc" "CmdSetBlockCount \<noteq> CmdSwitchSd"
  "CmdSetBlockCount \<noteq> CmdStopTransmission" "Class CmdSetBlockCount = SdCommandClassStandard"
  "Class CmdReadMultiBlock = SdCommandClassStandard" "Class CmdWriteMultiBlock = SdCommandClassStandard"
  "TransferType CmdReadMultiBlock = SdTransferTypeMultiBlock" "TransferType CmdWriteMultiBlock = SdTransferTypeMultiBlock"
  "TransferDirection CmdReadMultiBlock = SdTransferDirectionRead" "TransferDirection CmdWriteMultiBlock = SdTransferDirectionWrite"
  "CmdReadMultiBlock \<noteq> CmdSwitchMmc" "CmdWriteMultiBlock \<noteq> CmdSwitchMmc"
  "CmdReadMultiBlock \<noteq> CmdStopTransmission" "CmdWriteMultiBlock \<noteq> CmdStopTransmission"
  "CmdReadMultiBlock \<noteq> CmdSetBlockCount" "CmdWriteMultiBlock \<noteq> CmdSetBlockCount"
  by (simp_all add: SD_COMMANDS)

lemma rpmb_status: "rpmb_step part cmd count frames CmdSendStatus a d d' \<Longrightarrow> part d' = part d \<and> frames d' = frames d"
  by (simp add: rpmb_step_def command_kinds)

lemma ExtCsd_rpmb:
  assumes card: "rpmb_card E Q part cmd count frames answer" and s: "Q (Device s)" "identified s"
  obtains s' where "SdhcSendExtCsdMmc E R s = Some (EFI_SUCCESS, s')" "Q (Device s')" "identified s'"
    "part (Device s') = part (Device s)" "frames (Device s') = frames (Device s)"
    "PartitionConfig (ExtCsd (CardInfo s')) = part (Device s)"
proof -
  let ?U = "\<lambda>d b' d'. part d' = part d \<and> frames d' = frames d \<and> b' 179 = part d"
  have data: "\<exists>b' d'. DataPhase E CmdSendExtCsdMmc 512 (BlockBuffer s) t = Some ((EFI_SUCCESS, b'), t\<lparr>Device := d'\<rparr>) \<and> Q d' \<and>
      ?U (Device t) b' d'"
    if t: "Q (Device t)" "rpmb_step part cmd count frames CmdSendExtCsdMmc (RCA_arg s) (Device s) (Device t)" for t
  proof -
    obtain b' d' where "ReadBlockData E 512 (BlockBuffer s) (Device t) = ((EFI_SUCCESS, b'), d')" "Q d'"
      "part d' = part (Device t)" "frames d' = frames (Device t)" "cmd (Device t) = CmdSendExtCsdMmc \<longrightarrow> b' 179 = part (Device t)"
      using rpmb_read[OF card t(1), of 512 "BlockBuffer s"] by blast
    then show ?thesis
      using t(2) by (auto simp add: DataPhase_def on_device_def rpmb_commands rpmb_step_def within_def)
  qed
  have "stopless CmdSendExtCsdMmc s"
    by (simp add: stopless_def rpmb_commands)
  then obtain b' d1 d2 a s' where *:
    "SdhcSendDataCommand E R CmdSendExtCsdMmc (RCA_arg s) 512 (BlockBuffer s) s = Some ((EFI_SUCCESS, b'), s')"
    "rpmb_step part cmd count frames CmdSendExtCsdMmc (RCA_arg s) (Device s) d1" "?U d1 b' d2"
    "rpmb_step part cmd count frames CmdSendStatus a d2 (Device s')" "Q (Device s')" "core s' = core s"
    by (rule SendDataCommand_answers[OF rpmb_responsive[OF card] s, where Cmd = CmdSendExtCsdMmc and Arg = "RCA_arg s"
          and n = 512 and buf = "BlockBuffer s" and U = ?U and R = R])
       (simp, rule data, assumption, assumption, rule that, assumption+)
  show thesis
    by (rule that, simp add: SdhcSendExtCsdMmc_def ReadBlockBuffer_def ok_then_def *(1) Let_def)
       (use * s(2) rpmb_status[OF *(4)] in
         \<open>simp_all add: rpmb_step_def rpmb_commands identified_def core_def within_def PartitionConfig_def\<close>)
qed

lemma SwitchPartition_rpmb:
  assumes card: "rpmb_card E Q part cmd count frames answer" and s: "Q (Device s)" "identified s" and p: "p < 8"
  obtains s' where "SdhcSwitchPartitionMmc E R p s = Some (EFI_SUCCESS, s')" "Q (Device s')" "identified s'"
    "PARTITION_ACCESS (part (Device s')) = p" "frames (Device s') = frames (Device s)" "CurrentMmcPartition s' = p"
    "PARTITION_ACCESS (PartitionConfig (ExtCsd (CardInfo s'))) = p"
proof -
  let ?c = "set_PARTITION_ACCESS p (PartitionConfig (ExtCsd (CardInfo s)))"
  let ?a = "MMC_SWITCH_CMD_ARG MmcSwitchCmdAccessTypeWriteByte MmcExtCsdBitIndexPartitionConfig (ucast ?c)"
  obtain t u where u: "SdhcSendCommand E R CmdSwitchMmc ?a s = Some (EFI_SUCCESS, u)"
    "command_step Q (rpmb_step part cmd count frames) CmdSwitchMmc ?a s t"
    "command_step Q (rpmb_step part cmd count frames) CmdSendStatus (RCA_arg t) t u"
    by (rule Switch_answers[OF rpmb_responsive[OF card] s])
  have "part (Device t) = ?c" "frames (Device t) = frames (Device s)"
    using command_stepD(2)[OF u(2)] by (simp_all add: rpmb_step_def SWITCH_arg rpmb_commands)
  then have pu: "part (Device u) = ?c" "frames (Device u) = frames (Device s)"
    using rpmb_status[OF command_stepD(2)[OF u(3)]] by simp_all
  have "identified u"
    using s(2) command_stepD(3)[OF u(2)] command_stepD(3)[OF u(3)] identified_core by metis
  then obtain v where v: "SdhcSendExtCsdMmc E R u = Some (EFI_SUCCESS, v)" "Q (Device v)" "identified v"
    "part (Device v) = part (Device u)" "frames (Device v) = frames (Device u)"
    "PartitionConfig (ExtCsd (CardInfo v)) = part (Device u)"
    by (rule ExtCsd_rpmb[OF card command_stepD(1)[OF u(3)]])
  show thesis
    by (rule that, simp add: SdhcSwitchPartitionMmc_def u(1) v(1) ok_then_def Let_def v(6) pu PARTITION_ACCESS_set[OF p])
       (use v pu in \<open>simp_all add: PARTITION_ACCESS_set[OF p] identified_def\<close>)
qed

section \<open>Exchanges in the RPMB partition\<close>

definition in_rpmb :: "('d \<Rightarrow> bool) \<Rightarrow> ('d \<Rightarrow> u8) \<Rightarrow> 'd SDHC_INSTANCE \<Rightarrow> bool" where
  "in_rpmb Q part s \<longleftrightarrow> Q (Device s) \<and> identified s \<and> PARTITION_ACCESS (part (Device s)) = MmcExtCsdPartitionAccessRpmb"

lemma SetBlockCount_rpmb:
  assumes card: "rpmb_card E Q part cmd count frames answer" and s: "in_rpmb Q part s"
  obtains s' where "SdhcSetBlockCount E R n w s = Some (EFI_SUCCESS, s')" "in_rpmb Q part s'" "core s' = core s"
    "frames (Device s') = frames (Device s)" "LastSuccessfulCmd s' = Some CmdSetBlockCount"
    "count (Device s') = (if w then n OR push_bit 31 1 else n)"
proof -
  have Q: "Q (Device s)" and f: "identified s"
    using s by (simp_all add: in_rpmb_def)
  obtain s' where *: "SdhcSendCommand E R CmdSetBlockCount (if w then n OR push_bit 31 1 else n) s = Some (EFI_SUCCESS, s')"
    "command_step Q (rpmb_step part cmd count frames) CmdSetBlockCount (if w then n OR push_bit 31 1 else n) s s'"
    by (rule SendCommand_answers[OF rpmb_responsive[OF card] Q f, where Cmd = CmdSetBlockCount])
       (simp_all add: rpmb_commands)
  note d = command_stepD[OF *(2), unfolded rpmb_step_def]
  show thesis
    by (rule that[of s'])
       (use * d s identified_core[OF d(3)] in \<open>simp_all add: SdhcSetBlockCount_def in_rpmb_def rpmb_commands\<close>)
qed

lemma SendFrames_rpmb:
  assumes card: "rpmb_card E Q part cmd count frames answer" and s: "in_rpmb Q part s"
    and l: "LastSuccessfulCmd s = Some CmdSetBlockCount" and n: "n mod 512 = 0"
    and k: "counted (count (Device s)) (ucast n) (reliable_request b)"
  obtains b' s' where "SdhcSendDataCommand E R CmdWriteMultiBlock 0 n b s = Some ((EFI_SUCCESS, b'), s')" "in_rpmb Q part s'"
    "core s' = core s" "frames (Device s') = frames (Device s) @ [frame (ucast n) b]"
proof -
  let ?U = "\<lambda>d b' d'. part d' = part d \<and> frames d' = frames d @ [frame (ucast n) b]"
  have data: "\<exists>b' d'. DataPhase E CmdWriteMultiBlock n b t = Some ((EFI_SUCCESS, b'), t\<lparr>Device := d'\<rparr>) \<and> Q d' \<and>
      ?U (Device t) b' d'"
    if t: "Q (Device t)" "rpmb_step part cmd count frames CmdWriteMultiBlock 0 (Device s) (Device t)" for t
  proof -
    obtain d' where "WriteBlockData E (ucast n) b (Device t) = (EFI_SUCCESS, d')" "Q d'" "part d' = part (Device t)"
      "cmd (Device t) = CmdWriteMultiBlock \<and> PARTITION_ACCESS (part (Device t)) = 3 \<and>
        counted (count (Device t)) (ucast n) (reliable_request b) \<longrightarrow> frames d' = frames (Device t) @ [frame (ucast n) b]"
      using rpmb_write[OF card t(1), of "ucast n" b] by blast
    then show ?thesis
      using t(2) s k by (auto simp: DataPhase_def on_device_def rpmb_commands rpmb_step_def in_rpmb_def)
  qed
  have Q: "Q (Device s)" and f: "identified s"
    using s by (simp_all add: in_rpmb_def)
  have "stopless CmdWriteMultiBlock s"
    by (simp add: stopless_def rpmb_commands l)
  then obtain b' d1 d2 a s' where *: "SdhcSendDataCommand E R CmdWriteMultiBlock 0 n b s = Some ((EFI_SUCCESS, b'), s')"
    "rpmb_step part cmd count frames CmdWriteMultiBlock 0 (Device s) d1" "?U d1 b' d2"
    "rpmb_step part cmd count frames CmdSendStatus a d2 (Device s')" "Q (Device s')" "core s' = core s"
    by (rule SendDataCommand_answers[OF rpmb_responsive[OF card] Q f, where Cmd = CmdWriteMultiBlock and Arg = 0
          and n = n and buf = b and U = ?U and R = R]) (use n data in simp_all)
  show thesis
    by (rule that[OF *(1)])
       (use * s rpmb_status[OF *(4)] identified_core[OF *(6)] in \<open>simp_all add: rpmb_step_def rpmb_commands in_rpmb_def\<close>)
qed

lemma ReceiveFrames_rpmb:
  assumes card: "rpmb_card E Q part cmd count frames answer" and s: "in_rpmb Q part s"
    and l: "LastSuccessfulCmd s = Some CmdSetBlockCount" and n: "n mod 512 = 0" and k: "counted (count (Device s)) (ucast n) False"
  obtains b' s' where "SdhcSendDataCommand E R CmdReadMultiBlock 0 n b s = Some ((EFI_SUCCESS, b'), s')" "in_rpmb Q part s'"
    "core s' = core s" "frames (Device s') = frames (Device s)" "b' = within (unat n) (answer (frames (Device s))) b"
proof -
  let ?U = "\<lambda>d b' d'. part d' = part d \<and> frames d' = frames d \<and> b' = within (unat n) (answer (frames d)) b"
  have u: "unat (ucast n :: u64) = unat n"
    using unsigned_less[where 'a = nat, of n] by (simp add: unsigned_ucast_eq take_bit_nat_eq_self)
  have data: "\<exists>b' d'. DataPhase E CmdReadMultiBlock n b t = Some ((EFI_SUCCESS, b'), t\<lparr>Device := d'\<rparr>) \<and> Q d' \<and>
      ?U (Device t) b' d'"
    if t: "Q (Device t)" "rpmb_step part cmd count frames CmdReadMultiBlock 0 (Device s) (Device t)" for t
  proof -
    obtain b' d' where r: "ReadBlockData E (ucast n) b (Device t) = ((EFI_SUCCESS, b'), d')" "Q d'" "part d' = part (Device t)"
      "frames d' = frames (Device t)"
      "cmd (Device t) = CmdReadMultiBlock \<and> PARTITION_ACCESS (part (Device t)) = 3 \<and> counted (count (Device t)) (ucast n) False \<longrightarrow>
        (\<forall>i < unat (ucast n :: u64). b' i = answer (frames (Device t)) i)"
      using rpmb_read[OF card t(1), of "ucast n" b] by blast
    then have "within (unat n) b' b = within (unat n) (answer (frames (Device t))) b"
      using t(2) s k by (auto simp: rpmb_step_def rpmb_commands in_rpmb_def within_def u)
    with r show ?thesis
      by (auto simp: DataPhase_def on_device_def rpmb_commands)
  qed
  have Q: "Q (Device s)" and f: "identified s"
    using s by (simp_all add: in_rpmb_def)
  have "stopless CmdReadMultiBlock s"
    by (simp add: stopless_def rpmb_commands l)
  then obtain b' d1 d2 a s' where *: "SdhcSendDataCommand E R CmdReadMultiBlock 0 n b s = Some ((EFI_SUCCESS, b'), s')"
    "rpmb_step part cmd count frames CmdReadMultiBlock 0 (Device s) d1" "?U d1 b' d2"
    "rpmb_step part cmd count frames CmdSendStatus a d2 (Device s')" "Q (Device s')" "core s' = core s"
    by (rule SendDataCommand_answers[OF rpmb_responsive[OF card] Q f, where Cmd = CmdReadMultiBlock and Arg = 0
          and n = n and buf = b and U = ?U and R = R]) (use n data in simp_all)
  show thesis
    by (rule that[OF *(1)])
       (use * s rpmb_status[OF *(4)] identified_core[OF *(6)] in \<open>simp_all add: rpmb_step_def rpmb_commands in_rpmb_def\<close>)
qed

lemma unat_frames: "unat (ucast (n * 512 :: u64) :: u32) = (unat n * 512) mod 4294967296"
proof -
  have "unat (ucast (n * 512 :: u64) :: u32) = (unat n * 512) mod 18446744073709551616 mod 4294967296"
    by (simp add: unsigned_ucast_eq take_bit_eq_mod unat_word_ariths)
  also have "\<dots> = (unat n * 512) mod 4294967296"
    by (rule mod_mod_cancel) simp
  finally show ?thesis .
qed

lemma frames_mod: "(ucast (n * 512 :: u64) :: u32) mod 512 = 0"
proof -
  have "(unat n * 512) mod 4294967296 mod 512 = (unat n * 512) mod 512"
    by (rule mod_mod_cancel) simp
  then have "unat ((ucast (n * 512 :: u64) :: u32) mod 512) = 0"
    by (simp add: unat_mod unat_frames)
  then show ?thesis by (simp only: unat_eq_zero)
qed

text \<open>A number of packets that SET_BLOCK_COUNT can give.\<close>

abbreviation (input) fits :: "u64 \<Rightarrow> bool" where "fits n \<equiv> unat n < 65536"

lemma unat_frames_fits: "fits n \<Longrightarrow> unat (ucast (n * 512 :: u64) :: u32) = unat n * 512"
  by (simp add: unat_frames)

lemma ucast_frames_fits: "fits n \<Longrightarrow> ucast (ucast (n * 512 :: u64) :: u32) = n * 512"
  by (simp add: word_unat_eq_iff unsigned_ucast_eq take_bit_eq_mod unat_word_ariths)

lemma counted_frames:
  "fits n \<Longrightarrow> c = (if w then ucast n OR push_bit 31 1 else ucast n) \<Longrightarrow> counted c (ucast (ucast (n * 512 :: u64) :: u32)) w"
  using counted_arg[of n "n * 512" w] by (simp add: ucast_frames_fits unat_word_ariths)

lemma RpmbRead_rpmb:
  assumes card: "rpmb_card E Q part cmd count frames answer" and s: "in_rpmb Q part s" and n: "fits n"
    and q: "\<not> reliable_request Request"
  obtains s' where "RpmbRead E R Request n Response s =
      Some ((EFI_SUCCESS, within (unat n * 512) (answer (frames (Device s) @ [frame 512 Request])) Response), s')"
    "in_rpmb Q part s'" "core s' = core s" "frames (Device s') = frames (Device s) @ [frame 512 Request]"
proof -
  obtain t where t: "SdhcSetBlockCount E R 1 False s = Some (EFI_SUCCESS, t)" "in_rpmb Q part t" "core t = core s"
    "frames (Device t) = frames (Device s)" "LastSuccessfulCmd t = Some CmdSetBlockCount" "count (Device t) = 1"
    using SetBlockCount_rpmb[OF card s, of R 1 False] by auto
  have k: "counted (count (Device t)) (ucast (512 :: u32)) (reliable_request Request)" using t(6) q by (simp add: counted_def)
  obtain b u where u: "SdhcSendDataCommand E R CmdWriteMultiBlock 0 512 Request t = Some ((EFI_SUCCESS, b), u)"
    "in_rpmb Q part u" "core u = core t" "frames (Device u) = frames (Device t) @ [frame 512 Request]"
    using SendFrames_rpmb[OF card t(2,5) _ k, of R] by auto
  obtain v where v: "SdhcSetBlockCount E R (ucast n) False u = Some (EFI_SUCCESS, v)" "in_rpmb Q part v" "core v = core u"
    "frames (Device v) = frames (Device u)" "LastSuccessfulCmd v = Some CmdSetBlockCount" "count (Device v) = ucast n"
    using SetBlockCount_rpmb[OF card u(2), of R "ucast n" False] by auto
  have kv: "counted (count (Device v)) (ucast (ucast (n * 512) :: u32)) False" by (rule counted_frames[OF n]) (simp add: v(6))
  obtain c w where w: "SdhcSendDataCommand E R CmdReadMultiBlock 0 (ucast (n * 512)) Response v = Some ((EFI_SUCCESS, c), w)"
    "in_rpmb Q part w" "core w = core v" "frames (Device w) = frames (Device v)"
    "c = within (unat (ucast (n * 512) :: u32)) (answer (frames (Device v))) Response"
    by (rule ReceiveFrames_rpmb[OF card v(2,5) frames_mod kv])
  show thesis
    by (rule that[of w])
       (use t u v w in \<open>simp_all add: RpmbRead_def unat_frames_fits[OF n]\<close>)
qed

lemma RpmbWrite_rpmb:
  assumes card: "rpmb_card E Q part cmd count frames answer" and s: "in_rpmb Q part s" and n: "fits n"
    and q: "reliable_request Request"
  obtains s' where "RpmbWrite E R n Request s = Some (EFI_SUCCESS, s')" "in_rpmb Q part s'" "core s' = core s"
    "frames (Device s') = frames (Device s) @ [frame (n * 512) Request]"
proof -
  obtain t where t: "SdhcSetBlockCount E R (ucast n) True s = Some (EFI_SUCCESS, t)" "in_rpmb Q part t" "core t = core s"
    "frames (Device t) = frames (Device s)" "LastSuccessfulCmd t = Some CmdSetBlockCount" "count (Device t) = ucast n OR push_bit 31 1"
    using SetBlockCount_rpmb[OF card s, of R "ucast n" True] by auto
  have k: "counted (count (Device t)) (ucast (ucast (n * 512) :: u32)) (reliable_request Request)"
    using counted_frames[OF n, of "count (Device t)" True] t(6) q by simp
  obtain b u where u: "SdhcSendDataCommand E R CmdWriteMultiBlock 0 (ucast (n * 512)) Request t = Some ((EFI_SUCCESS, b), u)"
    "in_rpmb Q part u" "core u = core t"
    "frames (Device u) = frames (Device t) @ [frame (ucast (ucast (n * 512) :: u32)) Request]"
    by (rule SendFrames_rpmb[OF card t(2,5) frames_mod k])
  show thesis
    by (rule that[of u]) (use t u in \<open>simp_all add: RpmbWrite_def ucast_frames_fits[OF n]\<close>)
qed

lemma ResultRequest_type: "\<not> reliable_request ResultRequest"
  by (simp add: reliable_request_def ResultRequest_def RpmbType_def RpmbBytesToUint16_def RequestOrResponseType_def)

lemma RpmbWriteAndQuery_rpmb:
  assumes card: "rpmb_card E Q part cmd count frames answer" and s: "in_rpmb Q part s" and n: "fits n"
    and q: "reliable_request Request"
  obtains s' where "RpmbWriteAndQuery E R n Request Response s =
      Some ((EFI_SUCCESS, within 512 (answer (frames (Device s) @ [frame (n * 512) Request, frame 512 ResultRequest])) Response), s')"
    "in_rpmb Q part s'" "core s' = core s"
    "frames (Device s') = frames (Device s) @ [frame (n * 512) Request, frame 512 ResultRequest]"
proof -
  obtain t where t: "RpmbWrite E R n Request s = Some (EFI_SUCCESS, t)" "in_rpmb Q part t" "core t = core s"
    "frames (Device t) = frames (Device s) @ [frame (n * 512) Request]"
    by (rule RpmbWrite_rpmb[OF card s n q])
  obtain u where u: "RpmbRead E R ResultRequest 1 Response t =
      Some ((EFI_SUCCESS, within (unat (1 :: u64) * 512) (answer (frames (Device t) @ [frame 512 ResultRequest])) Response), u)"
    "in_rpmb Q part u" "core u = core t" "frames (Device u) = frames (Device t) @ [frame 512 ResultRequest]"
    by (rule RpmbRead_rpmb[OF card t(2) _ ResultRequest_type, where n = 1]) simp
  show thesis
    by (rule that[of u]) (use t u in \<open>simp_all add: RpmbWriteAndQuery_def RpmbQueryResult_def\<close>)
qed

text \<open>The frames that a request of each type sends, and the number of bytes of its response.\<close>

definition exchange_frames :: "EFI_RPMB_DATA_BUFFER \<Rightarrow> buffer list" where
  "exchange_frames Request =
    (if RpmbType (Contents Request) = EFI_RPMB_REQUEST_PROGRAM_KEY
     then [frame 512 (Contents Request), frame 512 ResultRequest]
     else if RpmbType (Contents Request) = EFI_RPMB_REQUEST_AUTH_WRITE
     then [frame (PacketCount Request * 512) (Contents Request), frame 512 ResultRequest]
     else [frame 512 (Contents Request)])"

definition exchange_bytes :: "EFI_RPMB_DATA_BUFFER \<Rightarrow> EFI_RPMB_DATA_BUFFER \<Rightarrow> nat" where
  "exchange_bytes Request Response =
    (if RpmbType (Contents Request) = EFI_RPMB_REQUEST_AUTH_READ then unat (PacketCount Response) * 512 else 512)"

lemma RpmbDispatch_rpmb:
  assumes card: "rpmb_card E Q part cmd count frames answer" and s: "in_rpmb Q part s"
    and n: "fits (PacketCount Request)" "fits (PacketCount Response)"
    and t: "RpmbType (Contents Request) \<in> {1, 2, 3, 4}"
  obtains s' where "RpmbDispatch E R Request Response s = Some ((EFI_SUCCESS, within (exchange_bytes Request Response)
      (answer (frames (Device s) @ exchange_frames Request)) (Contents Response)), s')"
    "in_rpmb Q part s'" "core s' = core s" "frames (Device s') = frames (Device s) @ exchange_frames Request"
proof -
  let ?q = "Contents Request" and ?r = "Contents Response"
  have one: "fits (1 :: u64)" by simp
  consider "RpmbType ?q = 1" | "RpmbType ?q = 2" | "RpmbType ?q = 3" | "RpmbType ?q = 4"
    using t by auto
  then show thesis
  proof cases
    case 1
    then have rel: "reliable_request ?q" by (simp add: reliable_request_def)
    show thesis
      by (rule RpmbWriteAndQuery_rpmb[OF card s one rel, of R ?r], rule that)
         (use 1 in \<open>simp_all add: RpmbDispatch_def RpmbType_def RpmbProgramKeyRequest_def exchange_frames_def exchange_bytes_def\<close>)
  next
    case 2
    then have rel: "\<not> reliable_request ?q" by (simp add: reliable_request_def)
    show thesis
      by (rule RpmbRead_rpmb[OF card s one rel, of R ?r], rule that)
         (use 2 in \<open>simp_all add: RpmbDispatch_def RpmbType_def RpmbReadCounterRequest_def exchange_frames_def exchange_bytes_def\<close>)
  next
    case 3
    then have rel: "reliable_request ?q" by (simp add: reliable_request_def)
    show thesis
      by (rule RpmbWriteAndQuery_rpmb[OF card s n(1) rel, of R ?r], rule that)
         (use 3 in \<open>simp_all add: RpmbDispatch_def RpmbType_def RpmbAuthenticatedWriteRequest_def exchange_frames_def exchange_bytes_def\<close>)
  next
    case 4
    then have rel: "\<not> reliable_request ?q" by (simp add: reliable_request_def)
    show thesis
      by (rule RpmbRead_rpmb[OF card s n(2) rel, of R ?r], rule that)
         (use 4 in \<open>simp_all add: RpmbDispatch_def RpmbType_def RpmbAuthenticatedReadRequest_def exchange_frames_def exchange_bytes_def\<close>)
  qed
qed

lemma RpmbRequest_result:
  assumes "rpmb_card E Q part cmd count frames answer" and "Q (Device s)" and "identified s" and "CurrentMmcPartition s < 8"
    and "Packets Request \<noteq> 0" and "0 < unat (PacketCount Request)" and "unat (PacketCount Request) < 65536"
    and "unat (PacketCount Response) < 65536" and "RpmbType (Contents Request) \<in> {1, 2, 3, 4}"
  shows "\<exists>s'. RpmbRequest E R Request Response s = Some ((EFI_SUCCESS, within (exchange_bytes Request Response)
      (answer (frames (Device s) @ exchange_frames Request)) (Contents Response)), s') \<and>
    frames (Device s') = frames (Device s) @ exchange_frames Request \<and>
    PARTITION_ACCESS (part (Device s')) = CurrentMmcPartition s \<and> CurrentMmcPartition s' = CurrentMmcPartition s"
proof -
  obtain t where t: "SdhcSwitchPartitionMmc E R 3 s = Some (EFI_SUCCESS, t)" "Q (Device t)" "identified t"
    "PARTITION_ACCESS (part (Device t)) = 3" "frames (Device t) = frames (Device s)" "CurrentMmcPartition t = 3"
    "PARTITION_ACCESS (PartitionConfig (ExtCsd (CardInfo t))) = 3"
    by (rule SwitchPartition_rpmb[OF assms(1-3), where p = 3 and R = R]) simp
  have "in_rpmb Q part t"
    using t by (simp add: in_rpmb_def)
  then obtain u where u: "RpmbDispatch E R Request Response t = Some ((EFI_SUCCESS, within (exchange_bytes Request Response)
      (answer (frames (Device t) @ exchange_frames Request)) (Contents Response)), u)"
    "in_rpmb Q part u" "core u = core t" "frames (Device u) = frames (Device t) @ exchange_frames Request"
    by (rule RpmbDispatch_rpmb[OF assms(1) _ assms(7-9)])
  obtain v where v: "SdhcSwitchPartitionMmc E R (CurrentMmcPartition s) u = Some (EFI_SUCCESS, v)"
    "PARTITION_ACCESS (part (Device v)) = CurrentMmcPartition s" "frames (Device v) = frames (Device u)"
    "CurrentMmcPartition v = CurrentMmcPartition s"
    using SwitchPartition_rpmb[OF assms(1) _ _ assms(4), of u R] u(2) by (metis in_rpmb_def)
  show ?thesis
    by (rule exI[of _ v]) (use t u v assms(5,6) in \<open>auto simp: RpmbRequest_def\<close>)
qed

section \<open>A concrete card\<close>

text \<open>
  A card that answers with the last frame written; its world is the partition byte, the last data command, the block count and the frames.
  It takes a frame only when its block count and kind of write are right.
\<close>

type_synonym echo_world = "u8 \<times> SD_COMMAND \<times> u32 \<times> buffer list"

definition echo_card :: "echo_world sdhc_services" where
  "echo_card = \<lparr>SoftwareReset = (\<lambda>_ d. (EFI_SUCCESS, d)), SetClock = (\<lambda>_ d. (EFI_SUCCESS, d)),
     SetBusWidth = (\<lambda>_ d. (EFI_SUCCESS, d)), IsCardPresent = (\<lambda>d. (True, d)), IsReadOnly = (\<lambda>d. (False, d)),
     SendCommand = (\<lambda>Cmd Arg x (p, c, k, f). ((EFI_SUCCESS, case x of None \<Rightarrow> (\<lambda>_. 0) | Some i \<Rightarrow> XfrBuffer i),
       (if Cmd = CmdSwitchMmc \<and> bf_get 16 8 Arg = 179 then ucast (bf_get 8 8 Arg) else p,
        if TransferType Cmd = SdTransferTypeNone then c else Cmd,
        if Cmd = CmdSetBlockCount then Arg else if Cmd = CmdReadMultiBlock \<or> Cmd = CmdWriteMultiBlock then k else 0,
        if Cmd = CmdStopTransmission then [] else f))),
     ReceiveResponse = (\<lambda>Cmd r d. ((EFI_SUCCESS, 0x900), d)),
     ReadBlockData = (\<lambda>n b (p, c, k, f). ((EFI_SUCCESS,
       if c = CmdSendExtCsdMmc then (\<lambda>i. if i = 179 then p else 0) else if counted k n False then last f else (\<lambda>_. 0)), p, c, k, f)),
     WriteBlockData = (\<lambda>n b (p, c, k, f). (EFI_SUCCESS, p, c, k, if counted k n (reliable_request b) then f @ [frame n b] else f)),
     Stall = (\<lambda>_ d. (EFI_SUCCESS, d)), InstallProtocol = (\<lambda>_ d. (EFI_SUCCESS, d)),
     UninstallProtocol = (\<lambda>_ d. (EFI_SUCCESS, d)), LocateRpmbIo = (\<lambda>d. (EFI_NOT_FOUND, d)),
     ConvertDevicePathToText = (\<lambda>d. (True, d)), FreeText = (\<lambda>d. ((), d))\<rparr>"

lemma echo_card_ok: "rpmb_card echo_card (\<lambda>d. True) fst (\<lambda>d. fst (snd d)) (\<lambda>d. fst (snd (snd d))) (\<lambda>d. snd (snd (snd d))) last"
  unfolding rpmb_card_def responsive_def rpmb_step_def
  by (auto simp: echo_card_def rpmb_commands rpmb_commands(6)[symmetric])

definition emmc_instance :: "echo_world SDHC_INSTANCE" where
  "emmc_instance = set_CardFunction CardFunctionMmc (new_instance (1, CmdSendExtCsdMmc, 0, []))\<lparr>CurrentMmcPartition := 1\<rparr>"

section \<open>Properties\<close>

text \<open>C9: On a controller and a card that work, a request of each type sends its frames to the RPMB partition, a write also the request for
  its result, returns the answer of the card to them, and leaves the card in the partition it was in before.\<close>

theorem RpmbRequest_exchange:
  assumes "rpmb_card E Q part cmd count frames answer" and "Q (Device s)" and "identified s" and "CurrentMmcPartition s < 8"
    and "Packets Request \<noteq> 0" and "0 < unat (PacketCount Request)" and "unat (PacketCount Request) < 65536"
    and "unat (PacketCount Response) < 65536" and "RpmbType (Contents Request) \<in> {1, 2, 3, 4}"
  shows "\<exists>s'. RpmbRequest E R Request Response s = Some ((EFI_SUCCESS, within (exchange_bytes Request Response)
      (answer (frames (Device s) @ exchange_frames Request)) (Contents Response)), s') \<and>
    frames (Device s') = frames (Device s) @ exchange_frames Request \<and>
    PARTITION_ACCESS (part (Device s')) = CurrentMmcPartition s \<and> CurrentMmcPartition s' = CurrentMmcPartition s"
  using RpmbRequest_result[OF assms] .

lemma RpmbRequest_exchange_witness:
  "\<exists>r s'. RpmbRequest echo_card (\<lambda>Cmd s. Some (EFI_SUCCESS, s))
      \<lparr>Packets = 0x1000, PacketCount = 1, Contents = (\<lambda>i. if i = 510 then 0 else if i = 511 then 2 else 7)\<rparr>
      \<lparr>Packets = 0x2000, PacketCount = 1, Contents = (\<lambda>_. 0)\<rparr> emmc_instance = Some ((EFI_SUCCESS, r), s') \<and>
    r 0 = 7 \<and> r 512 = 0 \<and> PARTITION_ACCESS (fst (Device s')) = 1"
proof -
  let ?q = "\<lparr>Packets = 0x1000 :: u64, PacketCount = 1 :: u64, Contents = (\<lambda>i. if i = 510 then 0 else if i = 511 then 2 else 7)\<rparr>"
  let ?r = "\<lparr>Packets = 0x2000 :: u64, PacketCount = 1 :: u64, Contents = (\<lambda>_. 0)\<rparr>"
  have t: "RpmbType (Contents ?q) = 2"
    by (simp add: RpmbType_def RpmbBytesToUint16_def RequestOrResponseType_def)
  have e: "identified emmc_instance" "CurrentMmcPartition emmc_instance = 1"
    by (simp_all add: emmc_instance_def identified_def set_CardFunction_def new_instance_def)
  obtain s' where "RpmbRequest echo_card (\<lambda>Cmd s. Some (EFI_SUCCESS, s)) ?q ?r emmc_instance = Some ((EFI_SUCCESS,
      within (exchange_bytes ?q ?r) (last (snd (snd (snd (Device emmc_instance))) @ exchange_frames ?q)) (Contents ?r)), s')"
    "PARTITION_ACCESS (fst (Device s')) = 1"
    using RpmbRequest_exchange[OF echo_card_ok, where s = emmc_instance and Request = ?q and Response = ?r
        and R = "\<lambda>Cmd s. Some (EFI_SUCCESS, s)"] e t by auto
  moreover have "exchange_bytes ?q ?r = 512" "exchange_frames ?q = [frame 512 (Contents ?q)]"
    unfolding exchange_bytes_def exchange_frames_def t by simp_all
  ultimately show ?thesis
    by (intro exI[of _ "within 512 (frame 512 (Contents ?q)) (Contents ?r)"] exI[of _ s']) (simp add: within_def frame_def)
qed

text \<open>C31: Whatever the controller and the card do, an RPMB request that returns without an error has left the eMMC in the partition
  that was selected before: the driver's record of it and the extended CSD last read agree with it.\<close>

theorem RpmbRequest_restores:
  assumes "RpmbRequest E R Request Response s = Some ((Status, r), s')" and "\<not> EFI_ERROR Status"
  shows "CurrentMmcPartition s' = CurrentMmcPartition s \<and>
    PARTITION_ACCESS (PartitionConfig (ExtCsd (CardInfo s'))) = CurrentMmcPartition s"
  using assms ok_runD[OF SwitchPartition_selects]
  by (fastforce simp: RpmbRequest_def Let_def split: bind_splits if_splits prod.splits)

lemma RpmbRequest_restores_witness:
  "\<exists>r s'. RpmbRequest echo_card (\<lambda>Cmd s. Some (EFI_SUCCESS, s))
      \<lparr>Packets = 0x1000, PacketCount = 1, Contents = (\<lambda>i. if i = 511 then 4 else 0)\<rparr>
      \<lparr>Packets = 0x2000, PacketCount = 1, Contents = (\<lambda>_. 0)\<rparr> emmc_instance = Some ((EFI_SUCCESS, r), s') \<and>
    PARTITION_ACCESS (PartitionConfig (ExtCsd (CardInfo s'))) = 1"
proof -
  let ?q = "\<lparr>Packets = 0x1000 :: u64, PacketCount = 1 :: u64, Contents = (\<lambda>i. if i = 511 then 4 else 0)\<rparr>"
  let ?r = "\<lparr>Packets = 0x2000 :: u64, PacketCount = 1 :: u64, Contents = (\<lambda>_. 0)\<rparr>"
  have t: "RpmbType (Contents ?q) = 4"
    by (simp add: RpmbType_def RpmbBytesToUint16_def RequestOrResponseType_def)
  have e: "identified emmc_instance" "CurrentMmcPartition emmc_instance = 1"
    by (simp_all add: emmc_instance_def identified_def set_CardFunction_def new_instance_def)
  obtain r s' where "RpmbRequest echo_card (\<lambda>Cmd s. Some (EFI_SUCCESS, s)) ?q ?r emmc_instance = Some ((EFI_SUCCESS, r), s')"
    using RpmbRequest_result[OF echo_card_ok, where s = emmc_instance and Request = ?q and Response = ?r
        and R = "\<lambda>Cmd s. Some (EFI_SUCCESS, s)"] e t by auto
  with RpmbRequest_restores[OF this] e(2) show ?thesis
    by auto
qed

text \<open>C32: The two conversions of a 16-bit field of a packet agree exactly on the values whose bits 4 to 7 are clear:
  \<open>Uint16ToRpmbBytes\<close> masks the low byte with \<open>0xF\<close>.\<close>

theorem RpmbBytes_roundtrip:
  "RpmbBytesToUint16 (Uint16ToRpmbBytes v) = v AND 0xFF0F \<and> (RpmbBytesToUint16 (Uint16ToRpmbBytes v) = v \<longleftrightarrow> v AND 0xF0 = 0)"
proof -
  have m: "(0xF :: u16) = mask 4" "(0xFF0F :: u16) = NOT (push_bit 4 (mask 4))" "(0xF0 :: u16) = push_bit 4 (mask 4)"
    by (simp_all add: mask_eq_exp_minus_1)
  have r: "RpmbBytesToUint16 (Uint16ToRpmbBytes v) = v AND 0xFF0F"
    unfolding RpmbBytesToUint16_def Uint16ToRpmbBytes_def fst_conv snd_conv m
    by (rule bit_word_eqI) (auto simp: bit_simps)
  moreover have "v AND 0xFF0F = v \<longleftrightarrow> v AND 0xF0 = 0"
    unfolding m by (auto simp: bit_eq_iff bit_simps)
  ultimately show ?thesis by simp
qed

end
