(* ===== verification/SdMmcSlot.thy ===== *)
theory SdMmcSlot
  imports SdMmcReady
begin

unbundle bit_operations_syntax

text \<open>
  Instances of the SD/MMC driver and the detection of cards (\<open>SdMmc.c\<close>): the creation of an instance, and the timer callback that resets each
  instance whose card has come or gone. The instances share the boot services: the pool is a list of controllers with their instances, and the
  world goes from one to the next. Also how \<open>SoftReset\<close> reports its errors.
\<close>

section \<open>Instances\<close>

text \<open>
  \<open>CreateSdhcInstance\<close> with the outcomes of its two allocations and the capabilities that the controller reports. The result is the
  instance, or \<open>None\<close> for \<open>NULL\<close>, with the next identifier; no instance is a failed \<open>ASSERT\<close>.
\<close>

definition SdhcInstance_zero :: "SDHC_CAPABILITIES \<Rightarrow> 'd \<Rightarrow> 'd SDHC_INSTANCE" where
  "SdhcInstance_zero caps d = \<lparr>SlotInitialized = False, SlotNode = SLOT_NODE_NONE, Media = gSdhcMediaTemplate,
     RpmbIo = \<lparr>RpmbCid = 0, ReliableSectorCount = 0, RpmbSizeMult = 0\<rparr>, HostCapabilities = caps,
     DevicePathProtocolInstalled = False, BlockIoProtocolInstalled = False, RpmbIoProtocolInstalled = False,
     CurrentMmcPartition = 0, CardInfo = CARD_INFO_zero, BlockBuffer = (\<lambda>_. 0), CmdResponse = 0,
     PreLastSuccessfulCmd = None, LastSuccessfulCmd = None, ErrorRecoveryAttemptCount = 0, Device = d\<rparr>"

definition CreateSdhcInstance ::
  "bool \<Rightarrow> bool \<Rightarrow> SDHC_CAPABILITIES \<Rightarrow> u32 \<Rightarrow> 'd \<Rightarrow> ('d SDHC_INSTANCE option \<times> u32) option" where
  "CreateSdhcInstance instance_allocated media_allocated caps NextId d =
    (if \<not> instance_allocated then Some (None, NextId)
     else if MaximumBlockSize caps = 0 \<or> MaximumBlockCount caps = 0 then None
     else if MaximumBlockSize caps < SD_BLOCK_LENGTH_BYTES then Some (None, NextId)
     else if \<not> media_allocated then Some (None, NextId)
     else Some (Some (SdhcInstance_zero caps d), NextId + 1))"

section \<open>Detection of cards\<close>

definition CheckCard :: "'d sdhc_services \<Rightarrow> 'd SDHC_INSTANCE \<Rightarrow> 'd SDHC_INSTANCE option" where
  "CheckCard E s = do {
     (present, s) \<leftarrow> on_device (IsCardPresent E) s;
     let CardEjected = MediaPresent (Media s) \<and> \<not> present;
     let CardInserted = \<not> MediaPresent (Media s) \<and> present;
     if CardEjected \<or> CardInserted then do {
       (Status, s) \<leftarrow> SoftReset E (SdhcRecoverFromErrors E) s;
       Some s
     } else Some s
   }"

fun CheckCardsCallback ::
  "('d sdhc_services \<times> 'd SDHC_INSTANCE) list \<Rightarrow> 'd \<Rightarrow> (('d sdhc_services \<times> 'd SDHC_INSTANCE) list \<times> 'd) option" where
  "CheckCardsCallback [] d = Some ([], d)"
| "CheckCardsCallback ((E, s) # pool) d = do {
     s \<leftarrow> CheckCard E (s\<lparr>Device := d\<rparr>);
     (pool, d) \<leftarrow> CheckCardsCallback pool (Device s);
     Some ((E, s) # pool, d)
   }"

section \<open>The result of a soft reset\<close>

lemma UninstallOne_ok: "ok_run (\<lambda>t. \<not> Installed p t) (UninstallOne E p s)"
  by (auto simp: ok_run_def UninstallOne_def on_device_def Installed_def set_Installed_def split: PROTOCOL.splits if_splits)

lemma Installed_set: "Installed q (set_Installed p b s) = (if p = q then b else Installed q s)"
  by (cases p; cases q) (simp_all add: Installed_def set_Installed_def)

text \<open>What a soft reset without an error in its body leaves: an empty slot with its block protocol, or a ready device with its protocols.\<close>

definition slot_empty :: "'d SDHC_INSTANCE \<Rightarrow> bool" where
  "slot_empty s \<longleftrightarrow> \<not> SlotInitialized s \<and> \<not> MediaPresent (Media s) \<and> BlockIoProtocolInstalled s \<and> BlockSize (Media s) = 0"

definition slot_ready :: "'d SDHC_INSTANCE \<Rightarrow> bool" where
  "slot_ready s \<longleftrightarrow> device_ready s \<and> BlockIoProtocolInstalled s \<and> DevicePathProtocolInstalled s \<and>
     SlotNode s = (if CardFunction (CardInfo s) = CardFunctionMmc then MSG_EMMC_DP else MSG_SD_DP)"

lemma ready_frame [simp]:
  "device_ready (s\<lparr>Device := d\<rparr>) = device_ready s" "device_ready (s\<lparr>CurrentMmcPartition := c\<rparr>) = device_ready s"
  "device_ready (s\<lparr>SlotNode := n\<rparr>) = device_ready s" "device_ready (s\<lparr>BlockIoProtocolInstalled := b\<rparr>) = device_ready s"
  "device_ready (s\<lparr>DevicePathProtocolInstalled := b\<rparr>) = device_ready s"
  "device_ready (s\<lparr>RpmbIoProtocolInstalled := b\<rparr>) = device_ready s"
  by (simp_all add: device_ready_def mmc_ready_def sd_ready_def ext_capacity_def csd_capacity_def)

lemma fields_frame [simp]:
  "CardInfo (set_Installed p b s) = CardInfo s" "SlotNode (set_Installed p b s) = SlotNode s"
  "Media (set_Installed p b s) = Media s" "SlotInitialized (set_Installed p b s) = SlotInitialized s"
  by (simp_all add: set_Installed_def split: PROTOCOL.split)

text \<open>The device with its node: what holds before its protocols are installed.\<close>

definition noded :: "'d SDHC_INSTANCE \<Rightarrow> bool" where
  "noded s \<longleftrightarrow> device_ready s \<and> SlotNode s = (if CardFunction (CardInfo s) = CardFunctionMmc then MSG_EMMC_DP else MSG_SD_DP)"

lemma SetSlotNode_ok: "device_ready s \<Longrightarrow> ok_run noded (SetSlotNode s)"
  by (auto simp: ok_run_def SetSlotNode_def noded_def split: CARD_FUNCTION.splits)

lemma InstallRpmb_ok: "slot_ready s \<Longrightarrow> ok_run slot_ready (InstallRpmb E Status s)"
  by (auto simp: InstallRpmb_def IsRpmbInstalledOnTheSystem_def InstallOne_def on_device_def ok_run_def slot_ready_def
      set_Installed_def)

lemma InstallPath_ok:
  assumes "noded s" and "BlockIoProtocolInstalled s"
  shows "ok_run slot_ready (do {
      (Status, s) \<leftarrow> InstallOne E gEfiDevicePathProtocolGuid s;
      if EFI_ERROR Status then Some (Status, s) else InstallRpmb E Status s
    })"
proof -
  have "slot_ready (s\<lparr>Device := d, DevicePathProtocolInstalled := True\<rparr>)" for d
    using assms by (simp add: noded_def slot_ready_def)
  from InstallRpmb_ok[OF this] show ?thesis
    by (simp add: InstallOne_def on_device_def set_Installed_def ok_run_iff)
qed

lemma InstallProtocols_ok:
  assumes n: "noded s" and run: "InstallProtocols E s = Some ((Status, a), t)" "\<not> EFI_ERROR Status"
  shows "slot_ready t"
proof -
  have block: "ok_run (\<lambda>s. noded s \<and> BlockIoProtocolInstalled s) (InstallOne E gEfiBlockIoProtocolGuid u)" if "noded u" for u
    using that by (auto simp: InstallOne_def on_device_def noded_def set_Installed_def ok_run_iff)
  let ?s = "s\<lparr>Device := snd (ConvertDevicePathToText E (Device s))\<rparr>"
  have "noded ?s"
    using n by (simp add: noded_def)
  then have "ok_run slot_ready (ok_then (InstallOne E gEfiBlockIoProtocolGuid ?s) (\<lambda>s. do {
      (Status, s) \<leftarrow> InstallOne E gEfiDevicePathProtocolGuid s;
      if EFI_ERROR Status then Some (Status, s) else InstallRpmb E Status s
    }))"
    by (rule ok_run_then[OF block]) (simp add: InstallPath_ok)
  then show ?thesis
    using run by (auto simp: InstallProtocols_def on_device_def dest: ok_runD split: bind_splits if_splits)
qed

lemma UninstallAll_ok: "ok_run (\<lambda>s. \<not> DevicePathProtocolInstalled s) (UninstallAllProtocols E s)"
proof -
  have any: "ok_run (\<lambda>s. True) m" for m :: "'b outcome"
    by (simp add: ok_run_def)
  have last: "ok_run (\<lambda>s. \<not> DevicePathProtocolInstalled s) (UninstallOne E gEfiDevicePathProtocolGuid s)" for s
    using UninstallOne_ok[of gEfiDevicePathProtocolGuid E s] by (simp add: Installed_def)
  show ?thesis
    unfolding UninstallAllProtocols_def
    by (rule ok_run_steps[OF any], rule ok_run_steps[OF any], rule ok_run_steps, rule last, rule ok_run_steps_Nil)
qed

lemma SoftResetBody_ok:
  assumes run: "SoftResetBody E R s = Some ((Status, a), t)" "\<not> EFI_ERROR Status"
  shows "slot_ready t \<or> slot_empty t \<and> \<not> DevicePathProtocolInstalled t"
proof -
  have init: "ok_run noded (steps [InitializeDevice E R, SetSlotNode] u)" for u
    by (rule ok_run_steps[OF InitializeDevice_ok], rule ok_run_steps, erule SetSlotNode_ok, rule ok_run_steps_Nil)
  obtain Status1 s1 where u: "UninstallAllProtocols E s = Some (Status1, s1)"
    using run(1) by (auto simp: SoftResetBody_def split: bind_splits)
  have e: "\<not> EFI_ERROR Status1"
    using run u by (auto simp: SoftResetBody_def)
  have d: "\<not> DevicePathProtocolInstalled s1"
    by (rule ok_runD[OF UninstallAll_ok u e])
  let ?p = "fst (IsCardPresent E (Device (ClearMedia s1)))"
  show ?thesis
  proof (cases ?p)
    case True
    then obtain Status2 u2 v where
      v: "steps [InitializeDevice E R, SetSlotNode] u2 = Some (Status2, v)"
      and r: "(if EFI_ERROR Status2 then Some ((Status2, False), v) else InstallProtocols E v) = Some ((Status, a), t)"
      using run u e by (auto simp: SoftResetBody_def on_device_def Let_def simp del: steps.simps split: bind_splits if_splits)
    then have "\<not> EFI_ERROR Status2"
      using run(2) by auto
    then have "noded v" and "InstallProtocols E v = Some ((Status, a), t)"
      using ok_runD[OF init v] r by simp_all
    then show ?thesis
      using InstallProtocols_ok run(2) by blast
  next
    case False
    then show ?thesis
      using run u e d
      by (auto simp: SoftResetBody_def on_device_def Let_def InstallOne_def ClearMedia_def slot_empty_def set_Installed_def
          split: if_splits)
  qed
qed

lemma ready_Device [simp]: "slot_ready (s\<lparr>Device := d\<rparr>) = slot_ready s"
  by (simp add: slot_ready_def)

lemma SoftResetExit_path:
  "SoftResetExit E Status s = Some (Status', t) \<Longrightarrow> EFI_ERROR Status \<Longrightarrow> \<not> EFI_ERROR Status' \<Longrightarrow> \<not> DevicePathProtocolInstalled t"
  by (auto simp: SoftResetExit_def UninstallOne_def on_device_def Installed_def set_Installed_def split: bind_splits if_splits)

section \<open>Properties\<close>

text \<open>C27: When a soft reset returns without an error and has left the device path installed, the slot is ready: its card is initialised, the
  block protocol is installed too, and the device path names its kind. A reset that returns without an error and without the path found no card,
  or has lost an error.\<close>

theorem SoftReset_ready:
  assumes "SoftReset E R s = Some (Status, s')" and "\<not> EFI_ERROR Status" and "DevicePathProtocolInstalled s'"
  shows "slot_ready s'"
proof -
  obtain Status1 a t where b: "SoftResetBody E R s = Some ((Status1, a), t)"
    using assms(1) by (auto simp: SoftReset_def split: bind_splits)
  obtain Status2 u where x: "SoftResetExit E Status1 t = Some (Status2, u)"
    using assms(1) b by (auto simp: SoftReset_def split: bind_splits)
  have s': "\<exists>d. s' = u\<lparr>Device := d\<rparr>" and st: "Status = Status2"
    using assms(1) b x by (auto simp: SoftReset_def on_device_def split: if_splits)
      (metis SDHC_INSTANCE.surjective SDHC_INSTANCE.update_convs(16) old.unit.exhaust)
  have p: "DevicePathProtocolInstalled u"
    using s' assms(3) by auto
  then have e: "\<not> EFI_ERROR Status1"
    using SoftResetExit_path[OF x] assms(2) st by blast
  then have "u = t"
    using x by (simp add: SoftResetExit_def)
  then have "slot_ready u"
    using SoftResetBody_ok[OF b e] p by blast
  then show ?thesis
    using s' by auto
qed

lemma SoftReset_ready_witness:
  "\<exists>s'. SoftReset sd_card (\<lambda>Cmd s. Some (EFI_SUCCESS, s)) (new_instance ()) = Some (EFI_SUCCESS, s') \<and>
    slot_ready s' \<and> SlotNode s' = MSG_SD_DP"
proof -
  let ?R = "\<lambda>Cmd s. Some (EFI_SUCCESS, s)"
  let ?s = "(ClearMedia (new_instance ()))\<lparr>Media := (Media (ClearMedia (new_instance ())))\<lparr>MediaPresent := True, ReadOnly := False\<rparr>\<rparr>"
  obtain t where t: "InitializeDevice sd_card ?R ?s = Some (EFI_SUCCESS, t)" "CardFunction (CardInfo t) = CardFunctionSd"
    using sd_initialised[of ?s] by (auto simp: ClearMedia_def)
  then obtain s' where s': "SoftReset sd_card ?R (new_instance ()) = Some (EFI_SUCCESS, s')" "DevicePathProtocolInstalled s'"
      "SlotNode s' = MSG_SD_DP"
    by (simp add: SoftReset_def SoftResetBody_def SoftResetExit_def UninstallAllProtocols_def UninstallOne_def Installed_def
        new_instance_def ok_then_def on_device_def sd_card_def ClearMedia_def Let_def SetSlotNode_def InstallProtocols_def
        InstallOne_def InstallRpmb_def set_Installed_def)
  then show ?thesis
    using SoftReset_ready by fastforce
qed

text \<open>C28: The exit of a soft reset loses errors: when its body fails while the device path is installed and the RPMB protocol is not, the
  status of taking the path away replaces the error, so that the reset reports success for a slot that is not ready.\<close>

theorem SoftReset_error_lost:
  assumes "SoftResetBody E R s = Some ((Err, a), t)" and "EFI_ERROR Err"
    and "DevicePathProtocolInstalled t" and "\<not> RpmbIoProtocolInstalled t"
    and "fst (UninstallProtocol E gEfiDevicePathProtocolGuid (Device t)) = EFI_SUCCESS"
  shows "\<exists>s'. SoftReset E R s = Some (EFI_SUCCESS, s') \<and> \<not> DevicePathProtocolInstalled s' \<and> SlotInitialized s' = SlotInitialized t"
  using assms
  by (auto simp: SoftReset_def SoftResetExit_def UninstallOne_def on_device_def Installed_def set_Installed_def)

definition stuck_card :: "unit sdhc_services" where
  "stuck_card = sd_card\<lparr>UninstallProtocol := (\<lambda>p d. (if p = gEfiBlockIoProtocolGuid then EFI_DEVICE_ERROR else EFI_SUCCESS, d))\<rparr>"

definition used_instance :: "unit SDHC_INSTANCE" where
  "used_instance = (new_instance ())\<lparr>SlotInitialized := True, BlockIoProtocolInstalled := True, DevicePathProtocolInstalled := True\<rparr>"

lemma SoftReset_error_lost_witness:
  "\<exists>s'. SoftReset stuck_card (SdhcRecoverFromErrors stuck_card) used_instance = Some (EFI_SUCCESS, s') \<and>
    \<not> DevicePathProtocolInstalled s' \<and> SlotInitialized s'"
proof -
  have "SoftResetBody stuck_card (SdhcRecoverFromErrors stuck_card) used_instance = Some ((EFI_DEVICE_ERROR, False), used_instance)"
    by (simp add: SoftResetBody_def UninstallAllProtocols_def UninstallOne_def on_device_def Installed_def ok_then_def
        stuck_card_def used_instance_def new_instance_def)
  from SoftReset_error_lost[OF this] show ?thesis
    by (simp add: used_instance_def new_instance_def stuck_card_def)
qed

text \<open>The timer callback leaves every instance alone whose controller reports the presence that its media has: it resets nothing, and the
  pool is the same but for the world that went through the calls.\<close>

theorem CheckCardsCallback_settled:
  assumes "\<forall>(E, s) \<in> set pool. \<forall>d. fst (IsCardPresent E d) = MediaPresent (Media s)"
  shows "\<exists>pool' d'. CheckCardsCallback pool d = Some (pool', d') \<and>
    list_all2 (\<lambda>(E, s) (E', s'). E' = E \<and> (\<exists>d. s' = s\<lparr>Device := d\<rparr>)) pool pool'"
  using assms
proof (induction pool arbitrary: d)
  case (Cons c pool)
  obtain E s where c: "c = (E, s)" by force
  have "CheckCard E (s\<lparr>Device := d\<rparr>) = Some (s\<lparr>Device := snd (IsCardPresent E d)\<rparr>)"
    using Cons.prems by (simp add: CheckCard_def on_device_def Let_def c)
  moreover obtain pool' d' where "CheckCardsCallback pool (snd (IsCardPresent E d)) = Some (pool', d')"
      "list_all2 (\<lambda>(E, s) (E', s'). E' = E \<and> (\<exists>d. s' = s\<lparr>Device := d\<rparr>)) pool pool'"
    using Cons.IH[of "snd (IsCardPresent E d)"] Cons.prems by auto
  ultimately show ?case
    by (auto simp: c)
qed simp

lemma CheckCardsCallback_settled_witness:
  "\<exists>s'. CheckCardsCallback [(sd_card, new_instance ())] () = Some ([(sd_card, s')], ()) \<and> BlockIoProtocolInstalled s' = False"
proof -
  obtain pool' where "CheckCardsCallback [(sd_card, new_instance ())] () = Some (pool', ())"
    "list_all2 (\<lambda>(E, s) (E', s'). E' = E \<and> (\<exists>d. s' = s\<lparr>Device := d\<rparr>)) [(sd_card, new_instance ())] pool'"
    using CheckCardsCallback_settled[of "[(sd_card, new_instance ())]" "()"]
    by (auto simp: sd_card_def new_instance_def)
  then show ?thesis
    by (auto simp: list_all2_Cons1 new_instance_def)
qed

end
