(* ===== verification/OpteeClientMem.thy ===== *)
theory OpteeClientMem
  imports Bytes
begin

unbundle bit_operations_syntax

text \<open>
  The shared memory of the OP-TEE client library (\<open>OpteeClientMem.c\<close>, \<open>OpteeClientApiInitialize\<close>): blocks for messages and buffers are
  taken from a region that the GCD services of the DXE core hand out. A block carries a header in front of the pointer that the caller
  gets, and free memory is filled with a fence, so that an allocation notices who wrote where he should not. The GCD services are a
  parameter, on a state of their own.
\<close>

section \<open>State and constants\<close>

datatype EFI_GCD_MEMORY_TYPE = EfiGcdMemoryTypeNonExistent | EfiGcdMemoryTypeReserved | EfiGcdMemoryTypeSystemMemory
  | EfiGcdMemoryTypeMemoryMappedIo | EfiGcdMemoryTypePersistent | EfiGcdMemoryTypeMoreReliable

datatype EFI_GCD_ALLOCATE_TYPE = EfiGcdAllocateAddress | EfiGcdAllocateMaxAddressSearchTopDown

record 'g gcd_services =
  AddMemorySpace :: "EFI_GCD_MEMORY_TYPE \<Rightarrow> u64 \<Rightarrow> u64 \<Rightarrow> 'g \<Rightarrow> EFI_STATUS \<times> 'g"
  AllocateMemorySpace :: "EFI_GCD_ALLOCATE_TYPE \<Rightarrow> nat \<Rightarrow> u64 \<Rightarrow> u64 \<Rightarrow> 'g \<Rightarrow> (EFI_STATUS \<times> u64) \<times> 'g"
  FreeMemorySpace :: "u64 \<Rightarrow> u64 \<Rightarrow> 'g \<Rightarrow> EFI_STATUS \<times> 'g"
  GetMemorySpaceDescriptor :: "u64 \<Rightarrow> 'g \<Rightarrow> (EFI_STATUS \<times> EFI_GCD_MEMORY_TYPE \<times> u64) \<times> 'g"

record OPTEE_PCD =
  PcdTrustZoneSharedMemoryBase :: u64
  PcdTrustZoneSharedMemorySize :: u64
  AssertStops :: bool

record 'g optee_client =
  Memory :: memory
  gDriverImageHandle :: u64
  mSharedMemAllocationCount :: u64
  mSharedMemAllocSize :: u64
  Gcd :: 'g

definition OPTEE_SHM_RESERVED_SIZE :: u64 where "OPTEE_SHM_RESERVED_SIZE = 4096"
definition OPTEE_SHM_START :: "OPTEE_PCD \<Rightarrow> u64" where
  "OPTEE_SHM_START pcd = PcdTrustZoneSharedMemoryBase pcd + OPTEE_SHM_RESERVED_SIZE"
definition OPTEE_SHM_SIZE :: "OPTEE_PCD \<Rightarrow> u64" where
  "OPTEE_SHM_SIZE pcd = PcdTrustZoneSharedMemorySize pcd - OPTEE_SHM_RESERVED_SIZE"
definition OPTEE_SHM_END :: "OPTEE_PCD \<Rightarrow> u64" where
  "OPTEE_SHM_END pcd = OPTEE_SHM_START pcd + OPTEE_SHM_SIZE pcd"
definition OPTEE_SHM_SIGNATURE :: u32 where "OPTEE_SHM_SIGNATURE = 0x43454554"
definition OPTEE_SHM_FREE_FENCE :: u8 where "OPTEE_SHM_FREE_FENCE = 0xCC"
definition OPTEE_SHM_ALLOC_ALIGN :: u64 where "OPTEE_SHM_ALLOC_ALIGN = 4096"
definition OPTEE_SHM_ALLOC_ALIGN_SHIFT :: nat where "OPTEE_SHM_ALLOC_ALIGN_SHIFT = 12"
definition OPTEE_CLIENT_MEM_BYTE_ALIGNMENT :: u64 where "OPTEE_CLIENT_MEM_BYTE_ALIGNMENT = 16"
definition sizeof_MEM_HEADER :: u64 where "sizeof_MEM_HEADER = 32"

lemmas shm_constants = OPTEE_SHM_RESERVED_SIZE_def OPTEE_SHM_SIGNATURE_def OPTEE_SHM_FREE_FENCE_def OPTEE_SHM_ALLOC_ALIGN_def
  OPTEE_SHM_ALLOC_ALIGN_SHIFT_def OPTEE_CLIENT_MEM_BYTE_ALIGNMENT_def sizeof_MEM_HEADER_def

text \<open>
  \<open>OPTEE_CLIENT_MEM_HEADER\<close> in memory: the signature at offset 0, the owner at 8, the size at 16, and the address at 24, 32 bytes in all.
\<close>

definition HeaderSignature :: "memory \<Rightarrow> u64 \<Rightarrow> u32" where "HeaderSignature m h = rd 4 m h"
definition HeaderSize :: "memory \<Rightarrow> u64 \<Rightarrow> u64" where "HeaderSize m h = rd 8 m (h + 16)"
definition HeaderAddress :: "memory \<Rightarrow> u64 \<Rightarrow> u64" where "HeaderAddress m h = rd 8 m (h + 24)"

definition WriteHeader :: "u64 \<Rightarrow> u64 \<Rightarrow> u64 \<Rightarrow> memory \<Rightarrow> memory" where
  "WriteHeader h BlockSize BaseAddress m =
     wr 8 BaseAddress (h + 24) (wr 8 BlockSize (h + 16) (wr 4 OPTEE_SHM_SIGNATURE h (SetMem m h sizeof_MEM_HEADER 0)))"

section \<open>Powers of two and the fence\<close>

definition IsPowerOf2 :: "u64 \<Rightarrow> bool" where
  "IsPowerOf2 Num \<longleftrightarrow> Num \<noteq> 0 \<and> (Num AND (NOT Num + 1)) = Num"

function ExponentLoop :: "nat \<Rightarrow> u64 \<Rightarrow> nat" where
  "ExponentLoop Exponent Num =
    (if Num AND 1 = 0 \<and> 1 < Num then ExponentLoop (Exponent + 1) (drop_bit 1 Num) else Exponent)"
  by auto

termination
proof (relation "measure (\<lambda>(_, Num). unat Num)")
  fix Exponent and Num :: u64
  assume "Num AND 1 = 0 \<and> 1 < Num"
  then have "0 < unat Num" by (simp add: word_less_nat_alt)
  then have "unat (drop_bit 1 Num) < unat Num"
    by (simp add: drop_bit_eq_div unat_div)
  then show "((Exponent + 1, drop_bit 1 Num), Exponent, Num) \<in> measure (\<lambda>(_, Num). unat Num)"
    by simp
qed simp

definition GetPowerOf2Exponent :: "OPTEE_PCD \<Rightarrow> u64 \<Rightarrow> nat option" where
  "GetPowerOf2Exponent pcd Num = do { ASSERT (AssertStops pcd) (IsPowerOf2 Num); Some (ExponentLoop 0 Num) }"

text \<open>The two loops run a pointer up to the end of the region, which they reach even if the region wraps.\<close>

lemma loop_closer: "Mem \<noteq> End \<Longrightarrow> unat (End - (Mem + 1)) < unat (End - Mem)" for Mem End :: u64
proof -
  assume "Mem \<noteq> End"
  then have "End - Mem \<noteq> 0" by simp
  then have "unat (End - Mem - 1) < unat (End - Mem)" by (simp add: unat_minus_one unat_gt_0)
  then show ?thesis by (simp add: diff_diff_eq)
qed

function MarkLoop :: "u64 \<Rightarrow> u64 \<Rightarrow> memory \<Rightarrow> memory" where
  "MarkLoop Mem End m = (if Mem \<noteq> End then MarkLoop (Mem + 1) End (m(Mem := OPTEE_SHM_FREE_FENCE)) else m)"
  by auto

termination
  by (relation "measure (\<lambda>(Mem, End, _). unat (End - Mem))") (simp_all add: loop_closer)

definition MarkSharedMemoryRegionAsFree :: "u64 \<Rightarrow> u64 \<Rightarrow> memory \<Rightarrow> memory" where
  "MarkSharedMemoryRegionAsFree Address Size m = MarkLoop Address (Address + Size) m"

function FreeLoop :: "u64 \<Rightarrow> u64 \<Rightarrow> memory \<Rightarrow> bool" where
  "FreeLoop Mem End m =
    (if Mem \<noteq> End then (if m Mem \<noteq> OPTEE_SHM_FREE_FENCE then False else FreeLoop (Mem + 1) End m) else True)"
  by auto

termination
  by (relation "measure (\<lambda>(Mem, End, _). unat (End - Mem))") (simp_all add: loop_closer)

definition IsSharedMemoryRegionFree :: "u64 \<Rightarrow> u64 \<Rightarrow> memory \<Rightarrow> bool" where
  "IsSharedMemoryRegionFree Address Size m = FreeLoop Address (Address + Size) m"

declare ExponentLoop.simps [simp del] MarkLoop.simps [simp del] FreeLoop.simps [simp del]

section \<open>Initialisation\<close>

definition GcdSharedMemoryInit ::
  "OPTEE_PCD \<Rightarrow> 'g gcd_services \<Rightarrow> ('g, 'z) optee_client_scheme \<Rightarrow> (EFI_STATUS \<times> ('g, 'z) optee_client_scheme) option" where
  "GcdSharedMemoryInit pcd G s = do {
     ASSERT (AssertStops pcd) (OPTEE_SHM_START pcd mod 4096 = 0);
     ASSERT (AssertStops pcd) (OPTEE_SHM_SIZE pcd mod 4096 = 0);
     let (Status, g) = AddMemorySpace G EfiGcdMemoryTypeReserved (OPTEE_SHM_START pcd) (OPTEE_SHM_SIZE pcd) (Gcd s) in
       if EFI_ERROR Status then Some (Status, s\<lparr>Gcd := g\<rparr>)
       else let ((Status, BaseAddress), g) = AllocateMemorySpace G EfiGcdAllocateAddress 0 (OPTEE_SHM_SIZE pcd) (OPTEE_SHM_START pcd) g in
         if EFI_ERROR Status then Some (Status, s\<lparr>Gcd := g\<rparr>)
         else do {
           ASSERT (AssertStops pcd) (BaseAddress = OPTEE_SHM_START pcd);
           let (_, g) = FreeMemorySpace G (OPTEE_SHM_START pcd) (OPTEE_SHM_SIZE pcd) g in
             Some (Status, s\<lparr>Memory := MarkSharedMemoryRegionAsFree BaseAddress (OPTEE_SHM_SIZE pcd) (Memory s), Gcd := g\<rparr>)
         }
   }"

definition CheckType :: "OPTEE_PCD \<Rightarrow> EFI_GCD_MEMORY_TYPE \<times> u64 \<Rightarrow> EFI_STATUS \<Rightarrow> 's \<Rightarrow> (EFI_STATUS \<times> 's) option" where
  "CheckType pcd d Status s =
    (if fst d \<noteq> EfiGcdMemoryTypeReserved
     then do { ASSERT (AssertStops pcd) (OPTEE_SHM_START pcd = snd d); Some (EFI_OUT_OF_RESOURCES, s) }
     else Some (Status, s))"

definition OpteeClientMemInit ::
  "OPTEE_PCD \<Rightarrow> 'g gcd_services \<Rightarrow> ('g, 'z) optee_client_scheme \<Rightarrow> (EFI_STATUS \<times> ('g, 'z) optee_client_scheme) option" where
  "OpteeClientMemInit pcd G s =
    (let ((Status, d), g) = GetMemorySpaceDescriptor G (OPTEE_SHM_START pcd) (Gcd s); s = s\<lparr>Gcd := g\<rparr> in
     if Status = EFI_NOT_FOUND \<or> \<not> EFI_ERROR Status \<and> fst d = EfiGcdMemoryTypeNonExistent
     then do {
       (Status, s) \<leftarrow> GcdSharedMemoryInit pcd G s;
       if EFI_ERROR Status then Some (Status, s)
       else let ((Status, d), g) = GetMemorySpaceDescriptor G (OPTEE_SHM_START pcd) (Gcd s); s = s\<lparr>Gcd := g\<rparr> in
         if EFI_ERROR Status then Some (Status, s) else CheckType pcd d Status s
     }
     else if EFI_ERROR Status then Some (EFI_OUT_OF_RESOURCES, s)
     else CheckType pcd d Status s)"

definition OpteeClientApiInitialize ::
  "OPTEE_PCD \<Rightarrow> 'g gcd_services \<Rightarrow> u64 \<Rightarrow> ('g, 'z) optee_client_scheme \<Rightarrow> (EFI_STATUS \<times> ('g, 'z) optee_client_scheme) option" where
  "OpteeClientApiInitialize pcd G ImageHandle s = do {
     ASSERT (AssertStops pcd) (gDriverImageHandle s = 0);
     OpteeClientMemInit pcd G (s\<lparr>gDriverImageHandle := ImageHandle\<rparr>)
   }"

section \<open>Allocation\<close>

definition InternalMemAlloc ::
  "OPTEE_PCD \<Rightarrow> 'g gcd_services \<Rightarrow> u64 \<Rightarrow> u64 \<Rightarrow> ('g, 'z) optee_client_scheme \<Rightarrow> (u64 \<times> ('g, 'z) optee_client_scheme) option" where
  "InternalMemAlloc pcd G Size ByteAlignment s = do {
     ASSERT (AssertStops pcd) (gDriverImageHandle s \<noteq> 0);
     if ByteAlignment \<noteq> 0 \<and> \<not> IsPowerOf2 ByteAlignment \<or> OPTEE_SHM_ALLOC_ALIGN < ByteAlignment
     then do { ASSERT (AssertStops pcd) False; Some (0, s) }
     else
       let ByteAlignment = OPTEE_SHM_ALLOC_ALIGN;
           BlockSize = sizeof_MEM_HEADER + Size + (ByteAlignment - 1);
           ((Status, BaseAddress), g) = AllocateMemorySpace G EfiGcdAllocateMaxAddressSearchTopDown OPTEE_SHM_ALLOC_ALIGN_SHIFT
             BlockSize (OPTEE_SHM_END pcd) (Gcd s);
           s = s\<lparr>Gcd := g\<rparr>
       in if EFI_ERROR Status then Some (0, s)
       else do {
         ASSERT (AssertStops pcd) (OPTEE_SHM_START pcd \<le> BaseAddress);
         ASSERT (AssertStops pcd) (BaseAddress + BlockSize \<le> OPTEE_SHM_END pcd);
         if \<not> IsSharedMemoryRegionFree BaseAddress BlockSize (Memory s)
         then do { ASSERT (AssertStops pcd) False; Some (0, s) }
         else do {
           let UserBaseAddress = (BaseAddress + sizeof_MEM_HEADER + (ByteAlignment - 1)) AND NOT (ByteAlignment - 1);
           ASSERT (AssertStops pcd) (OPTEE_SHM_START pcd < UserBaseAddress);
           ASSERT (AssertStops pcd) (UserBaseAddress + Size \<le> OPTEE_SHM_END pcd);
           ASSERT (AssertStops pcd) (UserBaseAddress mod ByteAlignment = 0);
           Some (UserBaseAddress,
             s\<lparr>Memory := WriteHeader (UserBaseAddress - sizeof_MEM_HEADER) BlockSize BaseAddress (Memory s),
               mSharedMemAllocationCount := mSharedMemAllocationCount s + 1,
               mSharedMemAllocSize := mSharedMemAllocSize s + BlockSize\<rparr>)
         }
       }
   }"

definition OpteeClientMemAlloc ::
  "OPTEE_PCD \<Rightarrow> 'g gcd_services \<Rightarrow> u64 \<Rightarrow> ('g, 'z) optee_client_scheme \<Rightarrow> (u64 \<times> ('g, 'z) optee_client_scheme) option" where
  "OpteeClientMemAlloc pcd G Size = InternalMemAlloc pcd G Size OPTEE_CLIENT_MEM_BYTE_ALIGNMENT"

definition OpteeClientAlignedMemAlloc ::
  "OPTEE_PCD \<Rightarrow> 'g gcd_services \<Rightarrow> u64 \<Rightarrow> u64 \<Rightarrow> ('g, 'z) optee_client_scheme \<Rightarrow> (u64 \<times> ('g, 'z) optee_client_scheme) option" where
  "OpteeClientAlignedMemAlloc pcd G Size ByteAlignment = InternalMemAlloc pcd G Size ByteAlignment"

definition OpteeClientMemFree ::
  "'g gcd_services \<Rightarrow> u64 \<Rightarrow> ('g, 'z) optee_client_scheme \<Rightarrow> EFI_STATUS \<times> ('g, 'z) optee_client_scheme" where
  "OpteeClientMemFree G Mem s =
    (let Header = Mem - sizeof_MEM_HEADER in
     if HeaderSignature (Memory s) Header \<noteq> OPTEE_SHM_SIGNATURE then (EFI_INVALID_PARAMETER, s)
     else
       let Address = HeaderAddress (Memory s) Header; Size = HeaderSize (Memory s) Header;
           s = s\<lparr>Memory := MarkSharedMemoryRegionAsFree Address Size (Memory s)\<rparr>;
           (Status, g) = FreeMemorySpace G Address Size (Gcd s);
           s = s\<lparr>Gcd := g\<rparr>
       in if EFI_ERROR Status then (Status, s)
       else (Status, s\<lparr>mSharedMemAllocationCount := mSharedMemAllocationCount s - 1,
         mSharedMemAllocSize := mSharedMemAllocSize s - Size\<rparr>))"

definition OpteeClientApiFinalize :: "OPTEE_PCD \<Rightarrow> ('g, 'z) optee_client_scheme \<Rightarrow> unit option" where
  "OpteeClientApiFinalize pcd s =
    (if mSharedMemAllocationCount s \<noteq> 0 \<or> mSharedMemAllocSize s \<noteq> 0 then ASSERT (AssertStops pcd) False else Some ())"

section \<open>Lemmas\<close>

lemma unat_push_bit_1: "k < 64 \<Longrightarrow> unat (push_bit k 1 :: u64) = 2 ^ k"
  using power_strict_increasing[of k 64 "2 :: nat"]
  unfolding unsigned_push_bit_eq by (simp add: push_bit_eq_mult take_bit_nat_eq_self)

lemma ExponentLoop_push: "k < 64 \<Longrightarrow> ExponentLoop e (push_bit k 1) = e + k"
proof (induction k arbitrary: e)
  case (Suc k)
  have "(2 :: nat) ^ 1 \<le> 2 ^ Suc k" by (rule power_increasing) auto
  then have l: "1 < (push_bit (Suc k) 1 :: u64)"
    using unat_push_bit_1[OF Suc.prems] by (simp only: word_less_nat_alt) (simp del: power_Suc)
  have a: "(push_bit (Suc k) 1 :: u64) AND 1 = 0" by (rule bit_word_eqI) (auto simp: bit_simps)
  have d: "drop_bit 1 (push_bit (Suc k) 1 :: u64) = push_bit k 1"
    using Suc.prems by (intro bit_word_eqI) (auto simp: bit_simps)
  have "ExponentLoop e (push_bit (Suc k) 1) = ExponentLoop (e + 1) (push_bit k 1)"
    by (subst ExponentLoop.simps) (simp only: l a d if_True simp_thms)
  then show ?case
    using Suc by simp
qed (simp add: ExponentLoop.simps)

lemma lowest_bit_odd: "odd n \<Longrightarrow> n AND - n = 1" for n :: u64
proof -
  assume "odd n"
  then have "even (NOT n)" by simp
  then have "- n = NOT n OR 1" by (simp add: or_one_eq minus_eq_not_plus_1)
  then have "n AND - n = n AND 1"
    by (auto intro!: bit_word_eqI simp: bit_simps)
  then show ?thesis using \<open>odd n\<close> by (simp add: and_one_eq odd_iff_mod_2_eq_one)
qed

lemma lowest_bit_shift: "push_bit k n AND - push_bit k n = push_bit k (n AND - n)" for n :: u64
  by (simp add: push_bit_minus push_bit_and)

lemma push_bit_1_inject:
  fixes a b :: u64
  assumes "push_bit 1 a = push_bit 1 b" "\<not> bit a 63" "\<not> bit b 63"
  shows "a = b"
proof (rule bit_word_eqI)
  fix i assume i: "i < LENGTH(64)"
  have "bit (push_bit 1 a) (Suc i) = bit (push_bit 1 b) (Suc i)" using assms(1) by simp
  then have "i < 63 \<Longrightarrow> bit a i = bit b i" by (simp only: bit_push_bit_iff) simp
  then show "bit a i = bit b i" using i assms(2,3) by (cases "i = 63") auto
qed

lemma lowest_bit: "n \<noteq> 0 \<Longrightarrow> n AND - n = n \<Longrightarrow> \<exists>k < 64. n = push_bit k (1 :: u64)"
proof (induction "unat n" arbitrary: n rule: less_induct)
  case less
  show ?case
  proof (cases "even n")
    case False
    then have "n = 1" using less.prems lowest_bit_odd by metis
    then show ?thesis by (intro exI[of _ 0]) simp
  next
    case True
    let ?m = "drop_bit 1 n"
    have n: "n = push_bit 1 ?m"
      using True bit_unat[of n 0] push_drop_id[of 1 n] by (simp add: bit_0)
    have m: "?m \<noteq> 0" using n less.prems(1) by auto
    have e: "push_bit 1 (?m AND - ?m) = push_bit 1 ?m"
      using less.prems(2) n lowest_bit_shift by metis
    have t: "\<not> bit ?m 63" using bit_imp_le_length[of n 64] by (auto simp: bit_drop_bit_eq)
    have u: "\<not> bit (?m AND - ?m) 63" using t unfolding bit_and_iff by blast
    from e u t have "?m AND - ?m = ?m" by (rule push_bit_1_inject)
    moreover have "unat ?m < unat n"
      using less.prems(1) by (simp add: drop_bit_eq_div unat_div unat_gt_0)
    ultimately obtain k where "k < 64" "?m = push_bit k 1" using less.hyps m by blast
    then have "n = push_bit (Suc k) 1" using n by (simp add: push_bit_double)
    moreover have "Suc k < 64"
    proof (rule ccontr)
      assume "\<not> Suc k < 64"
      then have "n = 0" using \<open>n = push_bit (Suc k) 1\<close> by (intro bit_word_eqI) (auto simp: bit_simps)
      then show False using less.prems(1) by simp
    qed
    ultimately show ?thesis by blast
  qed
qed

lemma IsPowerOf2_iff: "IsPowerOf2 n \<longleftrightarrow> (\<exists>k < 64. n = push_bit k 1)"
proof
  assume "IsPowerOf2 n"
  then show "\<exists>k < 64. n = push_bit k 1"
    using lowest_bit[of n] by (simp add: IsPowerOf2_def minus_eq_not_plus_1)
next
  assume "\<exists>k < 64. n = push_bit k 1"
  then obtain k where k: "k < 64" "n = push_bit k 1" by blast
  then have "n \<noteq> 0" using unat_push_bit_1[OF k(1)] by auto
  moreover have "n AND - n = n"
    using lowest_bit_shift[of k 1] lowest_bit_odd[of 1] k(2) by simp
  ultimately show "IsPowerOf2 n" by (simp add: IsPowerOf2_def minus_eq_not_plus_1)
qed

text \<open>The fence loops, as a block operation and a predicate on the region.\<close>

lemma mark_step: "Mem \<noteq> End \<Longrightarrow> a - Mem < End - Mem \<longleftrightarrow> a = Mem \<or> a - (Mem + 1) < End - (Mem + 1)" for a :: u64
proof -
  assume "Mem \<noteq> End"
  then have e: "End - Mem \<noteq> 0" by simp
  have x: "x < n \<longleftrightarrow> x = 0 \<or> x - 1 < n - 1" if "n \<noteq> 0" for x n :: u64
    using that by (cases "x = 0") (auto simp: word_less_nat_alt unat_minus_one word_neq_0_conv)
  show ?thesis
    using x[OF e, of "a - Mem"] by (simp add: diff_diff_eq)
qed

lemma MarkLoop_eq: "MarkLoop Mem End m = (\<lambda>a. if a - Mem < End - Mem then OPTEE_SHM_FREE_FENCE else m a)"
proof (induction Mem End m rule: MarkLoop.induct)
  case (1 Mem End m)
  show ?case
  proof (cases "Mem = End")
    case False
    then have "MarkLoop Mem End m = MarkLoop (Mem + 1) End (m(Mem := OPTEE_SHM_FREE_FENCE))"
      by (subst MarkLoop.simps) simp
    then show ?thesis
      using 1[OF False] mark_step[OF False] by (auto simp: fun_eq_iff)
  qed (subst MarkLoop.simps, simp)
qed

lemma Mark_SetMem: "MarkSharedMemoryRegionAsFree a n m = SetMem m a n OPTEE_SHM_FREE_FENCE"
  by (simp add: MarkSharedMemoryRegionAsFree_def MarkLoop_eq SetMem_def)

lemma FreeLoop_iff: "FreeLoop Mem End m \<longleftrightarrow> (\<forall>a. a - Mem < End - Mem \<longrightarrow> m a = OPTEE_SHM_FREE_FENCE)"
proof (induction Mem End m rule: FreeLoop.induct)
  case (1 Mem End m)
  show ?case
  proof (cases "Mem = End")
    case False
    then have "FreeLoop Mem End m \<longleftrightarrow> m Mem = OPTEE_SHM_FREE_FENCE \<and> FreeLoop (Mem + 1) End m"
      by (subst FreeLoop.simps) simp
    then show ?thesis
      using 1[OF False] mark_step[OF False] by auto
  qed (subst FreeLoop.simps, simp)
qed

lemma IsFree_iff: "IsSharedMemoryRegionFree a n m \<longleftrightarrow> (\<forall>x. x - a < n \<longrightarrow> m x = OPTEE_SHM_FREE_FENCE)"
  by (simp add: IsSharedMemoryRegionFree_def FreeLoop_iff)

text \<open>Cyclic ranges as intervals, when they do not wrap.\<close>

lemma in_range: "unat b + unat n \<le> 2 ^ 64 \<Longrightarrow> x - b < n \<longleftrightarrow> unat b \<le> unat x \<and> unat x < unat b + unat n" for x :: u64
proof -
  assume b: "unat b + unat n \<le> 2 ^ 64"
  show ?thesis
  proof (cases "unat b \<le> unat x")
    case True
    then have "unat (x - b) = unat x - unat b" by (simp add: unat_sub word_le_nat_alt)
    then show ?thesis using True by (auto simp: word_less_nat_alt)
  next
    case False
    then have "unat (x - b) = 2 ^ 64 + unat x - unat b"
      using unsigned_less[where 'a = nat, of b] by (simp add: unat_sub_if')
    then show ?thesis using False b by (auto simp: word_less_nat_alt)
  qed
qed

lemma page_aligned: "take_bit 12 b = 0 \<longleftrightarrow> unat b mod 4096 = 0" for b :: u64
  by (simp add: take_bit_eq_mod unat_mod flip: unat_eq_0)

lemma mod_page: "b mod 4096 = 0 \<longleftrightarrow> unat b mod 4096 = 0" for b :: u64
  by (simp add: unat_mod flip: unat_eq_0)

lemma user_pointer:
  assumes "unat b mod 4096 = 0" and b: "unat b + 4127 < 2 ^ 64"
  shows "(b + sizeof_MEM_HEADER + (OPTEE_SHM_ALLOC_ALIGN - 1)) AND NOT (OPTEE_SHM_ALLOC_ALIGN - 1) = b + 4096"
proof -
  have "unat ((b + 4127) AND NOT (mask 12)) = 4096 * (unat (b + 4127) div 4096)"
    using unat_AND_NOT_mask[of "b + 4127" 12] by simp
  moreover have "unat (b + 4127) = unat b + 4127" using b by (simp add: unat_word_ariths)
  moreover have "unat (b + 4096) = unat b + 4096" using b by (simp add: unat_word_ariths)
  moreover have "4096 * ((unat b + 4127) div 4096) = unat b + 4096"
  proof -
    obtain q where "unat b = 4096 * q" using assms(1) by blast
    then show ?thesis by (simp add: div_nat_eqI)
  qed
  ultimately have "(b + 4127) AND NOT (mask 12) = b + 4096" by (simp add: word_unat_eq_iff)
  moreover have "b + sizeof_MEM_HEADER + (OPTEE_SHM_ALLOC_ALIGN - 1) = b + 4127" by (simp add: shm_constants)
  moreover have "OPTEE_SHM_ALLOC_ALIGN - 1 = mask 12" by (simp add: shm_constants mask_eq_exp_minus_1)
  ultimately show ?thesis by (simp only:)
qed

section \<open>The heap\<close>

text \<open>
  What the GCD services document, with \<open>blocks\<close> as the allocated ranges of a state: an allocation returns a range that is aligned, below
  the given address when the search is from the top, and apart from all the others; a range that is freed as it was allocated is gone.
  The \<open>held\<close> blocks are those in the shared region.
\<close>

type_synonym block = "u64 \<times> u64"

definition apart :: "block \<Rightarrow> block \<Rightarrow> bool" where
  "apart q r \<longleftrightarrow> unat (fst q) + unat (snd q) \<le> unat (fst r) \<or> unat (fst r) + unat (snd r) \<le> unat (fst q)"

definition covers :: "block \<Rightarrow> u64 \<Rightarrow> bool" where
  "covers q x \<longleftrightarrow> unat (fst q) \<le> unat x \<and> unat x < unat (fst q) + unat (snd q)"

definition gcd_contract :: "'g gcd_services \<Rightarrow> ('g \<Rightarrow> block set) \<Rightarrow> bool" where
  "gcd_contract G blocks \<longleftrightarrow>
    (\<forall>t shift n a g. case AllocateMemorySpace G t shift n a g of ((Status, b), g') \<Rightarrow>
      if EFI_ERROR Status then blocks g' = blocks g
      else blocks g' = insert (b, n) (blocks g) \<and> unat b mod 2 ^ shift = 0 \<and> unat b + unat n \<le> 2 ^ 64 \<and>
        (t = EfiGcdAllocateMaxAddressSearchTopDown \<longrightarrow> unat b + unat n \<le> unat a + 1) \<and>
        (t = EfiGcdAllocateAddress \<longrightarrow> b = a) \<and> (\<forall>q \<in> blocks g. apart (b, n) q)) \<and>
    (\<forall>b n g. case FreeMemorySpace G b n g of (Status, g') \<Rightarrow>
      if EFI_ERROR Status then blocks g' = blocks g \<and> (b, n) \<notin> blocks g else blocks g' = blocks g - {(b, n)}) \<and>
    (\<forall>t b n g. blocks (snd (AddMemorySpace G t b n g)) = blocks g) \<and>
    (\<forall>b g. blocks (snd (GetMemorySpaceDescriptor G b g)) = blocks g)"

definition region :: "OPTEE_PCD \<Rightarrow> block" where
  "region pcd = (OPTEE_SHM_START pcd, OPTEE_SHM_SIZE pcd)"

definition region_ok :: "OPTEE_PCD \<Rightarrow> bool" where
  "region_ok pcd \<longleftrightarrow> unat (OPTEE_SHM_START pcd) + unat (OPTEE_SHM_SIZE pcd) + 1 < 2 ^ 64"

definition inside :: "OPTEE_PCD \<Rightarrow> block \<Rightarrow> bool" where
  "inside pcd q \<longleftrightarrow> unat (OPTEE_SHM_START pcd) \<le> unat (fst q) \<and> unat (fst q) + unat (snd q) \<le> unat (OPTEE_SHM_END pcd) \<and>
     0 < unat (snd q)"

text \<open>
  Reserved memory comes out of the address space that has been added to the GCD as reserved. \<open>reserved\<close> is the set of those addresses in a
  state: only adding a memory space changes it. Up to the end of the shared region, the region is all of it that the platform has.
\<close>

definition gcd_spaces :: "'g gcd_services \<Rightarrow> ('g \<Rightarrow> u64 set) \<Rightarrow> bool" where
  "gcd_spaces G reserved \<longleftrightarrow>
    (\<forall>t shift n a g. case AllocateMemorySpace G t shift n a g of ((Status, b), g') \<Rightarrow>
      reserved g' = reserved g \<and> (\<not> EFI_ERROR Status \<longrightarrow> (\<forall>x. covers (b, n) x \<longrightarrow> x \<in> reserved g))) \<and>
    (\<forall>b n g. reserved (snd (FreeMemorySpace G b n g)) = reserved g) \<and>
    (\<forall>t b n g. case AddMemorySpace G t b n g of (Status, g') \<Rightarrow> reserved g' =
      (if \<not> EFI_ERROR Status \<and> t = EfiGcdMemoryTypeReserved then reserved g \<union> {x. covers (b, n) x} else reserved g)) \<and>
    (\<forall>b g. reserved (snd (GetMemorySpaceDescriptor G b g)) = reserved g)"

definition only_region :: "OPTEE_PCD \<Rightarrow> u64 set \<Rightarrow> bool" where
  "only_region pcd A \<longleftrightarrow> (\<forall>x \<in> A. unat x \<le> unat (OPTEE_SHM_END pcd) \<longrightarrow> covers (region pcd) x)"

definition held :: "OPTEE_PCD \<Rightarrow> ('g \<Rightarrow> block set) \<Rightarrow> ('g, 'z) optee_client_scheme \<Rightarrow> block set" where
  "held pcd blocks s = {q \<in> blocks (Gcd s). inside pcd q}"

text \<open>The header of a block ends at the pointer, one page into the block; the bytes of the caller follow.\<close>

definition user_ptr :: "block \<Rightarrow> u64" where "user_ptr q = fst q + 4096"

definition user_area :: "block \<Rightarrow> u64 \<Rightarrow> bool" where
  "user_area q x \<longleftrightarrow> unat (fst q) + 4096 \<le> unat x \<and> unat x + 31 < unat (fst q) + unat (snd q)"

definition block_ok :: "memory \<Rightarrow> block \<Rightarrow> bool" where
  "block_ok m q \<longleftrightarrow> unat (fst q) mod 4096 = 0 \<and> 4127 \<le> unat (snd q) \<and>
     HeaderSignature m (fst q + 4064) = OPTEE_SHM_SIGNATURE \<and> HeaderSize m (fst q + 4064) = snd q \<and>
     HeaderAddress m (fst q + 4064) = fst q"

definition shm_ok :: "OPTEE_PCD \<Rightarrow> ('g \<Rightarrow> block set) \<Rightarrow> ('g, 'z) optee_client_scheme \<Rightarrow> bool" where
  "shm_ok pcd blocks s \<longleftrightarrow> gDriverImageHandle s \<noteq> 0 \<and>
     (\<forall>q \<in> blocks (Gcd s). inside pcd q \<or> apart q (region pcd)) \<and>
     (\<forall>q \<in> held pcd blocks s. block_ok (Memory s) q) \<and>
     (\<forall>q \<in> held pcd blocks s. \<forall>r \<in> held pcd blocks s. q = r \<or> apart q r) \<and>
     (\<forall>x. covers (region pcd) x \<longrightarrow> (\<forall>q \<in> held pcd blocks s. \<not> covers q x) \<longrightarrow> Memory s x = OPTEE_SHM_FREE_FENCE) \<and>
     mSharedMemAllocationCount s = word_of_nat (card (held pcd blocks s)) \<and>
     mSharedMemAllocSize s = (\<Sum>q \<in> held pcd blocks s. snd q)"

lemma unat_END: "region_ok pcd \<Longrightarrow> unat (OPTEE_SHM_END pcd) = unat (OPTEE_SHM_START pcd) + unat (OPTEE_SHM_SIZE pcd)"
  by (simp add: region_ok_def OPTEE_SHM_END_def unat_word_ariths)

lemma inside_covers: "region_ok pcd \<Longrightarrow> inside pcd q \<Longrightarrow> covers q x \<Longrightarrow> covers (region pcd) x"
  by (simp add: unat_END inside_def covers_def region_def)

lemma apart_covers: "apart q r \<Longrightarrow> covers q x \<Longrightarrow> \<not> covers r x"
  by (auto simp: apart_def covers_def)

lemma blocks_apart_sym: "apart q r \<longleftrightarrow> apart r q"
  by (auto simp: apart_def)

lemma user_covers: "user_area q x \<Longrightarrow> covers q x"
  by (simp add: user_area_def covers_def)

lemma header_area:
  fixes b :: u64
  assumes "unat b + unat l < 2 ^ 64" "4127 \<le> unat (l :: u64)" "i < 32"
  shows "unat (b + 4064 + word_of_nat i) = unat b + 4064 + i"
proof -
  have "unat (b + 4064) = unat b + 4064" using assms by (simp add: unat_word_ariths)
  moreover have "unat (word_of_nat i :: u64) = i" using assms(3) by (simp add: unat_word_of_nat64)
  ultimately show ?thesis using assms by (simp add: unat_word_ariths(1)[of "b + 4064"])
qed

lemma block_ok_cong:
  assumes "block_ok m q" and "unat (fst q) + unat (snd q) < 2 ^ 64"
    and "\<And>x. covers q x \<Longrightarrow> \<not> user_area q x \<Longrightarrow> m' x = m x"
  shows "block_ok m' q"
proof -
  obtain b l where q: "q = (b, l)" by fastforce
  have l: "4127 \<le> unat l" using assms(1) q by (simp add: block_ok_def)
  have same: "m' (b + 4064 + word_of_nat i) = m (b + 4064 + word_of_nat i)" if "i < 32" for i
    using header_area[of b l i] assms(2) l that q
    by (intro assms(3)) (simp_all add: covers_def user_area_def)
  have s2: "m' (b + 4064 + word_of_nat off + word_of_nat i) = m (b + 4064 + word_of_nat off + word_of_nat i)"
    if "off + i < 32" for off i
    using same[OF that] by (simp add: add.assoc)
  have "rd 4 m' (b + 4064) = (rd 4 m (b + 4064) :: u32)"
    by (rule rd_cong) (simp add: same)
  moreover have "rd 8 m' (b + 4064 + 16) = (rd 8 m (b + 4064 + 16) :: u64)"
    by (rule rd_cong) (use s2[of 16] in simp)
  moreover have "rd 8 m' (b + 4064 + 24) = (rd 8 m (b + 4064 + 24) :: u64)"
    by (rule rd_cong) (use s2[of 24] in simp)
  ultimately show ?thesis
    using assms(1) by (simp add: q block_ok_def HeaderSignature_def HeaderSize_def HeaderAddress_def)
qed

lemma WriteHeader_apart:
  assumes "\<not> x - h < 32"
  shows "WriteHeader h n b m x = m x"
proof -
  have "x - h < 32" if "x - (h + c) < k" "unat c + unat k \<le> 32" for c k :: u64
    by (rule sub_range[OF that(1)]) (use that(2) in simp)
  from this[of 24 8] this[of 16 8] this[of 0 4] assms show ?thesis
    by (auto simp: WriteHeader_def wr_def SetMem_def shm_constants)
qed

lemma WriteHeader_reads:
  "HeaderSignature (WriteHeader h n b m) h = OPTEE_SHM_SIGNATURE"
  "HeaderSize (WriteHeader h n b m) h = n" "HeaderAddress (WriteHeader h n b m) h = b"
proof -
  show "HeaderAddress (WriteHeader h n b m) h = b"
    by (simp add: HeaderAddress_def WriteHeader_def rd_wr_full)
  show "HeaderSize (WriteHeader h n b m) h = n"
    by (simp add: HeaderSize_def WriteHeader_def rd_wr_full rd_wr_apart[of 16 8 24 8, where p = h, simplified])
  show "HeaderSignature (WriteHeader h n b m) h = OPTEE_SHM_SIGNATURE"
    by (simp add: HeaderSignature_def WriteHeader_def rd_wr_full rd_wr_apart[of 0 4 24 8, where p = h, simplified]
        rd_wr_apart[of 0 4 16 8, where p = h, simplified])
qed

text \<open>The state when a block has just been added or removed.\<close>

lemma covers_END: "region_ok pcd \<Longrightarrow> inside pcd q \<Longrightarrow> unat (fst q) + unat (snd q) + 1 < 2 ^ 64"
  by (simp add: inside_def unat_END) (simp add: region_ok_def)

lemma shm_okI:
  assumes "held pcd blocks s = Q" and "gDriverImageHandle s \<noteq> 0"
    and "\<And>q. q \<in> blocks (Gcd s) \<Longrightarrow> inside pcd q \<or> apart q (region pcd)"
    and "\<And>q. q \<in> Q \<Longrightarrow> block_ok (Memory s) q" and "\<And>q r. q \<in> Q \<Longrightarrow> r \<in> Q \<Longrightarrow> q \<noteq> r \<Longrightarrow> apart q r"
    and "\<And>x. covers (region pcd) x \<Longrightarrow> \<forall>q \<in> Q. \<not> covers q x \<Longrightarrow> Memory s x = OPTEE_SHM_FREE_FENCE"
    and "mSharedMemAllocationCount s = word_of_nat (card Q)" and "mSharedMemAllocSize s = (\<Sum>q \<in> Q. snd q)"
  shows "shm_ok pcd blocks s"
  unfolding shm_ok_def assms(1) using assms(2-) by blast

lemma shm_ok_fence:
  "shm_ok pcd blocks s \<Longrightarrow> covers (region pcd) x \<Longrightarrow> \<forall>q \<in> held pcd blocks s. \<not> covers q x \<Longrightarrow> Memory s x = OPTEE_SHM_FREE_FENCE"
  unfolding shm_ok_def by blast

lemma shm_ok_counts:
  assumes "shm_ok pcd blocks s"
  shows "gDriverImageHandle s \<noteq> 0" and "q \<in> blocks (Gcd s) \<Longrightarrow> inside pcd q \<or> apart q (region pcd)"
    and "mSharedMemAllocationCount s = word_of_nat (card (held pcd blocks s))"
    and "mSharedMemAllocSize s = (\<Sum>q \<in> held pcd blocks s. snd q)"
  using assms unfolding shm_ok_def by blast+

lemma shm_okD:
  assumes "shm_ok pcd blocks s" and "q \<in> held pcd blocks s"
  shows "block_ok (Memory s) q" and "inside pcd q" and "r \<in> held pcd blocks s \<Longrightarrow> q \<noteq> r \<Longrightarrow> apart q r"
  using assms unfolding shm_ok_def by (blast, simp add: held_def, blast)

lemma held_block_ok:
  assumes r: "region_ok pcd" and h: "shm_ok pcd blocks s" and q: "q \<in> held pcd blocks s"
    and m: "\<And>x. covers q x \<Longrightarrow> \<not> user_area q x \<Longrightarrow> m' x = Memory s x"
  shows "block_ok m' q"
  by (rule block_ok_cong[OF shm_okD(1)[OF h q] _ m]) (use covers_END[OF r shm_okD(2)[OF h q]] in simp_all)

lemma shm_ok_add:
  assumes r: "region_ok pcd" and h: "shm_ok pcd blocks s" and q: "inside pcd q" "\<forall>r \<in> blocks (Gcd s). apart q r"
    and ok: "block_ok (Memory s') q" and m: "\<And>x. \<not> covers q x \<Longrightarrow> Memory s' x = Memory s x"
    and g: "blocks (Gcd s') = insert q (blocks (Gcd s))" "gDriverImageHandle s' = gDriverImageHandle s"
    and c: "mSharedMemAllocationCount s' = mSharedMemAllocationCount s + 1"
      "mSharedMemAllocSize s' = mSharedMemAllocSize s + snd q"
  shows "q \<notin> held pcd blocks s \<and> held pcd blocks s' = insert q (held pcd blocks s) \<and> shm_ok pcd blocks s'"
proof (intro conjI)
  have ap: "\<forall>r \<in> held pcd blocks s. apart q r" using q by (simp add: held_def)
  have "\<not> apart q q" using ok by (auto simp: apart_def block_ok_def)
  then show n: "q \<notin> held pcd blocks s" using ap by auto
  show h': "held pcd blocks s' = insert q (held pcd blocks s)"
    using q(1) by (auto simp: held_def g)
  have "block_ok (Memory s') r" if "r \<in> held pcd blocks s" for r
    using held_block_ok[OF r h that, of "Memory s'"] ap m that by (metis apart_covers)
  note old = this
  show "shm_ok pcd blocks s'"
  proof (rule shm_okI[OF h'])
    show "block_ok (Memory s') r" if "r \<in> insert q (held pcd blocks s)" for r
      using that old ok by blast
    show "apart r t" if "r \<in> insert q (held pcd blocks s)" "t \<in> insert q (held pcd blocks s)" "r \<noteq> t" for r t
      using that ap shm_okD(3)[OF h] blocks_apart_sym by blast
    show "Memory s' x = OPTEE_SHM_FREE_FENCE" if "covers (region pcd) x" "\<forall>r \<in> insert q (held pcd blocks s). \<not> covers r x" for x
      using shm_ok_fence[OF h that(1)] that(2) m by simp
    show "inside pcd r \<or> apart r (region pcd)" if "r \<in> blocks (Gcd s')" for r
      using that shm_ok_counts(2)[OF h, of r] q(1) g(1) by auto
  qed (use n shm_ok_counts[OF h] in \<open>simp_all add: g c add.commute\<close>)
qed

lemma shm_ok_remove:
  assumes r: "region_ok pcd" and h: "shm_ok pcd blocks s" and q: "q \<in> held pcd blocks s"
    and m: "\<And>x. Memory s' x = (if covers q x then OPTEE_SHM_FREE_FENCE else Memory s x)"
    and g: "blocks (Gcd s') = blocks (Gcd s) - {q}" "gDriverImageHandle s' = gDriverImageHandle s"
    and c: "mSharedMemAllocationCount s' = mSharedMemAllocationCount s - 1"
      "mSharedMemAllocSize s' = mSharedMemAllocSize s - snd q"
  shows "held pcd blocks s' = held pcd blocks s - {q} \<and> shm_ok pcd blocks s'"
proof (intro conjI)
  show h': "held pcd blocks s' = held pcd blocks s - {q}"
    by (auto simp: held_def g)
  have fin: "finite (held pcd blocks s)" by simp
  have "block_ok (Memory s') r" if "r \<in> held pcd blocks s" "r \<noteq> q" for r
    using held_block_ok[OF r h that(1), of "Memory s'"] shm_okD(3)[OF h that(1) q that(2)] m by (metis apart_covers)
  note old = this
  have "card (held pcd blocks s) = Suc (card (held pcd blocks s - {q}))"
    using card_Suc_Diff1[OF fin q] by simp
  moreover have "(\<Sum>r \<in> held pcd blocks s. snd r) = snd q + (\<Sum>r \<in> held pcd blocks s - {q}. snd r)"
    by (rule sum.remove[OF fin q])
  moreover show "shm_ok pcd blocks s'"
  proof (rule shm_okI[OF h'])
    show "block_ok (Memory s') r" if "r \<in> held pcd blocks s - {q}" for r
      using that old by blast
    show "apart r t" if "r \<in> held pcd blocks s - {q}" "t \<in> held pcd blocks s - {q}" "r \<noteq> t" for r t
      using that shm_okD(3)[OF h] by blast
    show "Memory s' x = OPTEE_SHM_FREE_FENCE" if "covers (region pcd) x" "\<forall>r \<in> held pcd blocks s - {q}. \<not> covers r x" for x
      using shm_ok_fence[OF h that(1)] that(2) m by (cases "covers q x") auto
    show "inside pcd r \<or> apart r (region pcd)" if "r \<in> blocks (Gcd s')" for r
      using that shm_ok_counts(2)[OF h] g(1) by blast
  qed (use calculation shm_ok_counts[OF h] in \<open>simp_all add: g c\<close>)
qed

lemma shm_ok_cong:
  assumes "shm_ok pcd blocks s" and "region_ok pcd"
    and "blocks (Gcd s') = blocks (Gcd s)" "gDriverImageHandle s' = gDriverImageHandle s"
    "mSharedMemAllocationCount s' = mSharedMemAllocationCount s" "mSharedMemAllocSize s' = mSharedMemAllocSize s"
    and "\<And>x. covers (region pcd) x \<Longrightarrow> \<forall>q \<in> held pcd blocks s. \<not> user_area q x \<Longrightarrow> Memory s' x = Memory s x"
  shows "held pcd blocks s' = held pcd blocks s \<and> shm_ok pcd blocks s'"
proof
  show h': "held pcd blocks s' = held pcd blocks s" by (simp add: held_def assms(3))
  have u: "Memory s' x = Memory s x" if "q \<in> held pcd blocks s" "covers q x" "\<not> user_area q x" for q x
  proof (rule assms(7))
    show "covers (region pcd) x"
      using inside_covers[OF assms(2) shm_okD(2)[OF assms(1) that(1)]] that(2) .
    show "\<forall>r \<in> held pcd blocks s. \<not> user_area r x"
      using that shm_okD(3)[OF assms(1) that(1)] apart_covers user_covers by metis
  qed
  show "shm_ok pcd blocks s'"
  proof (rule shm_okI[OF h'])
    show "block_ok (Memory s') q" if "q \<in> held pcd blocks s" for q
      by (rule held_block_ok[OF assms(2,1) that u[OF that]])
    show "Memory s' x = OPTEE_SHM_FREE_FENCE" if "covers (region pcd) x" "\<forall>q \<in> held pcd blocks s. \<not> covers q x" for x
      using shm_ok_fence[OF assms(1) that] assms(7)[OF that(1)] that(2) user_covers by metis
    show "apart q r" if "q \<in> held pcd blocks s" "r \<in> held pcd blocks s" "q \<noteq> r" for q r
      using shm_okD(3)[OF assms(1) that(1,2,3)] .
  qed (use shm_ok_counts[OF assms(1)] assms in simp_all)
qed

text \<open>Allocation: what it asks of the GCD services, and what it makes of their answer.\<close>

definition size_fits :: "u64 \<Rightarrow> bool" where "size_fits Size \<longleftrightarrow> unat Size + 4127 < 2 ^ 64"

lemma BlockSize: "sizeof_MEM_HEADER + Size + (OPTEE_SHM_ALLOC_ALIGN - 1) = Size + 4127"
  by (simp add: shm_constants)

lemma unat_BlockSize: "size_fits Size \<Longrightarrow> unat (Size + 4127) = unat Size + 4127"
  by (simp add: size_fits_def unat_word_ariths)

lemma allocated:
  assumes "gcd_contract G blocks" and "AllocateMemorySpace G t shift n a g = ((Status, b), g')"
  shows "EFI_ERROR Status \<Longrightarrow> blocks g' = blocks g"
    and "\<not> EFI_ERROR Status \<Longrightarrow> blocks g' = insert (b, n) (blocks g)"
    and "\<not> EFI_ERROR Status \<Longrightarrow> unat b mod 2 ^ shift = 0"
    and "\<not> EFI_ERROR Status \<Longrightarrow> t = EfiGcdAllocateMaxAddressSearchTopDown \<Longrightarrow> unat b + unat n \<le> unat a + 1"
    and "\<not> EFI_ERROR Status \<Longrightarrow> t = EfiGcdAllocateAddress \<Longrightarrow> b = a"
    and "\<not> EFI_ERROR Status \<Longrightarrow> q \<in> blocks g \<Longrightarrow> apart (b, n) q"
  using assms(1)[unfolded gcd_contract_def, THEN conjunct1, THEN spec, of t, THEN spec, of shift,
    THEN spec, of n, THEN spec, of a, THEN spec, of g] assms(2) by auto

lemma unat_END_less: "region_ok pcd \<Longrightarrow> unat (OPTEE_SHM_END pcd) + 1 < 2 ^ 64"
  by (simp add: unat_END) (simp add: region_ok_def)

lemma Alloc_block:
  assumes "region_ok pcd" and "size_fits Size" and "unat b mod 4096 = 0" and "unat b + unat (Size + 4127) \<le> unat (OPTEE_SHM_END pcd) + 1"
    and "\<not> b < OPTEE_SHM_START pcd" and "\<not> OPTEE_SHM_END pcd < b + (Size + 4127)"
  shows "inside pcd (b, Size + 4127)"
    and "(b + sizeof_MEM_HEADER + (OPTEE_SHM_ALLOC_ALIGN - 1)) AND NOT (OPTEE_SHM_ALLOC_ALIGN - 1) = b + 4096"
    and "block_ok (WriteHeader (b + 4096 - sizeof_MEM_HEADER) (Size + 4127) b m) (b, Size + 4127)"
    and "\<not> covers (b, Size + 4127) x \<or> user_area (b, Size + 4127) x \<Longrightarrow> WriteHeader (b + 4096 - sizeof_MEM_HEADER) (Size + 4127) b m x = m x"
    and "b + 4096 \<noteq> 0"
proof -
  have n: "unat (Size + 4127) = unat Size + 4127" by (rule unat_BlockSize[OF assms(2)])
  have e: "unat b + unat Size + 4127 < 2 ^ 64" using unat_END_less[OF assms(1)] assms(4) n by linarith
  then have "unat (b + (Size + 4127)) = unat b + unat (Size + 4127)" using n by (simp add: unat_word_ariths(1)[of b])
  then show "inside pcd (b, Size + 4127)"
    using assms(5,6) n by (simp add: inside_def word_less_nat_alt word_le_nat_alt)
  show "(b + sizeof_MEM_HEADER + (OPTEE_SHM_ALLOC_ALIGN - 1)) AND NOT (OPTEE_SHM_ALLOC_ALIGN - 1) = b + 4096"
    by (rule user_pointer[OF assms(3)]) (use e in simp)
  have h: "b + 4096 - sizeof_MEM_HEADER = b + 4064" by (simp add: shm_constants)
  show "block_ok (WriteHeader (b + 4096 - sizeof_MEM_HEADER) (Size + 4127) b m) (b, Size + 4127)"
    using assms(3) n unfolding h by (simp add: block_ok_def WriteHeader_reads)
  show "WriteHeader (b + 4096 - sizeof_MEM_HEADER) (Size + 4127) b m x = m x"
    if "\<not> covers (b, Size + 4127) x \<or> user_area (b, Size + 4127) x"
  proof (unfold h, rule WriteHeader_apart)
    have "unat (b + 4064) = unat b + 4064" using e by (simp add: unat_word_ariths)
    then show "\<not> x - (b + 4064) < 32"
      using that e n in_range[of "b + 4064" 32 x] by (simp add: covers_def user_area_def) linarith
  qed
  have "unat (b + 4096) = unat b + 4096" using e by (simp add: unat_word_ariths)
  then show "b + 4096 \<noteq> 0" by auto
qed

text \<open>An answer that lies in the region: the bytes are fenced, and no assertion fails.\<close>

definition answers_in :: "OPTEE_PCD \<Rightarrow> 'g gcd_services \<Rightarrow> ('g, 'z) optee_client_scheme \<Rightarrow> u64 \<Rightarrow> bool" where
  "answers_in pcd G s n \<longleftrightarrow>
    (case AllocateMemorySpace G EfiGcdAllocateMaxAddressSearchTopDown 12 n (OPTEE_SHM_END pcd) (Gcd s) of
      ((Status, b), g) \<Rightarrow> EFI_ERROR Status \<or> inside pcd (b, n))"

lemma spaces_inside:
  assumes G: "gcd_contract G blocks" and r: "region_ok pcd" and sp: "gcd_spaces G reserved" "only_region pcd (reserved (Gcd s))" and n: "n \<noteq> 0"
  shows "answers_in pcd G s n"
proof -
  obtain Status b g where a: "AllocateMemorySpace G EfiGcdAllocateMaxAddressSearchTopDown 12 n (OPTEE_SHM_END pcd) (Gcd s) = ((Status, b), g)"
    by (metis prod.exhaust)
  have "inside pcd (b, n)" if e: "\<not> EFI_ERROR Status"
  proof -
    have top: "unat b + unat n \<le> unat (OPTEE_SHM_END pcd) + 1" using allocated(4)[OF G a e] by simp
    have n0: "0 < unat n" using n by (simp add: unat_gt_0)
    have "x \<in> reserved (Gcd s)" if "covers (b, n) x" for x
      using sp(1)[unfolded gcd_spaces_def, THEN conjunct1, THEN spec, of EfiGcdAllocateMaxAddressSearchTopDown, THEN spec, of 12,
          THEN spec, of n, THEN spec, of "OPTEE_SHM_END pcd", THEN spec, of "Gcd s"] a e that by auto
    then have c: "covers (region pcd) x" if "covers (b, n) x" for x
      using sp(2) top that by (auto simp: only_region_def covers_def)
    have "unat (word_of_nat (unat b + unat n - 1) :: u64) = unat b + unat n - 1"
      using top unat_END_less[OF r] by (intro unat_word_of_nat64) linarith
    then have "covers (b, n) b" "covers (b, n) (word_of_nat (unat b + unat n - 1))" using n0 by (auto simp: covers_def)
    from this[THEN c] show ?thesis
      using n0 \<open>unat (word_of_nat (unat b + unat n - 1)) = unat b + unat n - 1\<close>
      by (simp add: inside_def covers_def region_def unat_END[OF r]) arith
  qed
  then show ?thesis using a by (auto simp: answers_in_def)
qed

lemma Alloc_inside:
  assumes G: "gcd_contract G blocks" and r: "region_ok pcd" and f: "size_fits Size" and h: "shm_ok pcd blocks s"
    and a: "AllocateMemorySpace G EfiGcdAllocateMaxAddressSearchTopDown 12 (Size + 4127) (OPTEE_SHM_END pcd) (Gcd s) = ((Status, b), g)"
    and e: "\<not> EFI_ERROR Status" and i: "inside pcd (b, Size + 4127)"
  shows "\<not> b < OPTEE_SHM_START pcd" and "\<not> OPTEE_SHM_END pcd < b + (Size + 4127)" and "IsSharedMemoryRegionFree b (Size + 4127) (Memory s)"
    and "OPTEE_SHM_START pcd < b + 4096" and "b + 4096 + Size \<le> OPTEE_SHM_END pcd" and "(b + 4096) mod OPTEE_SHM_ALLOC_ALIGN = 0"
    and "unat b + unat (Size + 4127) \<le> unat (OPTEE_SHM_END pcd) + 1"
proof -
  note ok = allocated[OF G a]
  let ?q = "(b, Size + 4127)"
  have n: "unat (Size + 4127) = unat Size + 4127" by (rule unat_BlockSize[OF f])
  have in_r: "unat (OPTEE_SHM_START pcd) \<le> unat b" "unat b + unat Size + 4127 \<le> unat (OPTEE_SHM_END pcd)"
    using i n by (simp_all add: inside_def)
  have lt: "unat b + unat Size + 4127 < 2 ^ 64" using in_r(2) unat_END_less[OF r] by linarith
  have w: "unat (b + (Size + 4127)) = unat b + unat Size + 4127" "unat (b + 4096) = unat b + 4096"
    "unat (b + 4096 + Size) = unat b + 4096 + unat Size"
    using lt n by (simp_all add: unat_word_ariths(1)[of b] unat_word_ariths(1)[of "b + 4096"])
  have al: "unat b mod 4096 = 0" using ok(3)[OF e] by simp
  show "IsSharedMemoryRegionFree b (Size + 4127) (Memory s)"
  proof (unfold IsFree_iff, intro allI impI)
    fix x assume "x - b < Size + 4127"
    then have c: "covers ?q x" using in_range[of b "Size + 4127" x] lt n by (simp add: covers_def)
    have "\<forall>q \<in> held pcd blocks s. \<not> covers q x"
    proof
      fix q assume "q \<in> held pcd blocks s"
      then show "\<not> covers q x" by (intro apart_covers[OF ok(6)[OF e] c]) (simp add: held_def)
    qed
    then show "Memory s x = OPTEE_SHM_FREE_FENCE"
      by (rule shm_ok_fence[OF h inside_covers[OF r i c]])
  qed
  show "(b + 4096) mod OPTEE_SHM_ALLOC_ALIGN = 0" using al w(2) by (simp add: shm_constants mod_page)
  show "\<not> b < OPTEE_SHM_START pcd" "\<not> OPTEE_SHM_END pcd < b + (Size + 4127)" "OPTEE_SHM_START pcd < b + 4096"
    "b + 4096 + Size \<le> OPTEE_SHM_END pcd" "unat b + unat (Size + 4127) \<le> unat (OPTEE_SHM_END pcd) + 1"
    using in_r w n by (simp_all add: word_less_nat_alt word_le_nat_alt)
qed

text \<open>An allocation does not assert when the block lies in the region.\<close>

abbreviation alloc_state :: "u64 \<Rightarrow> u64 \<Rightarrow> 'g \<Rightarrow> ('g, 'z) optee_client_scheme \<Rightarrow> ('g, 'z) optee_client_scheme" where
  "alloc_state b n g s \<equiv> s\<lparr>Gcd := g, Memory := WriteHeader (b + 4096 - sizeof_MEM_HEADER) n b (Memory s),
     mSharedMemAllocationCount := mSharedMemAllocationCount s + 1, mSharedMemAllocSize := mSharedMemAllocSize s + n\<rparr>"

lemma InternalMemAlloc_eq:
  assumes G: "gcd_contract G blocks" and r: "region_ok pcd" and f: "size_fits Size" and h: "shm_ok pcd blocks s"
    and al: "ByteAlignment = 0 \<or> IsPowerOf2 ByteAlignment \<and> ByteAlignment \<le> OPTEE_SHM_ALLOC_ALIGN"
    and a: "AllocateMemorySpace G EfiGcdAllocateMaxAddressSearchTopDown 12 (Size + 4127) (OPTEE_SHM_END pcd) (Gcd s) = ((Status, b), g)"
    and i: "\<not> EFI_ERROR Status \<Longrightarrow> inside pcd (b, Size + 4127)"
  shows "InternalMemAlloc pcd G Size ByteAlignment s =
    Some (if EFI_ERROR Status then (0, s\<lparr>Gcd := g\<rparr>) else (b + 4096, alloc_state b (Size + 4127) g s))"
proof (cases "EFI_ERROR Status")
  case True
  then show ?thesis
    using a al shm_ok_counts(1)[OF h] by (auto simp: InternalMemAlloc_def BlockSize OPTEE_SHM_ALLOC_ALIGN_SHIFT_def Let_def)
next
  case False
  note I = Alloc_inside[OF G r f h a False i[OF False]]
  have "unat b mod 4096 = 0" using allocated(3)[OF G a False] by simp
  note B = Alloc_block(2)[OF r f this I(7,1,2)]
  show ?thesis
    using a al shm_ok_counts(1)[OF h] False I(1-6)
    unfolding InternalMemAlloc_def BlockSize OPTEE_SHM_ALLOC_ALIGN_SHIFT_def Let_def
    by (auto simp: B not_less)
qed

lemma InternalMemAlloc_cases:
  assumes G: "gcd_contract G blocks" and r: "region_ok pcd" and f: "size_fits Size" and h: "shm_ok pcd blocks s"
    and i: "AssertStops pcd \<or> answers_in pcd G s (Size + 4127)"
    and run: "InternalMemAlloc pcd G Size ByteAlignment s = Some (p, s')"
  obtains (full) "p = 0" "Memory s' = Memory s" "held pcd blocks s' = held pcd blocks s" "shm_ok pcd blocks s'"
    | (block) q where "snd q = Size + 4127" "p = user_ptr q" "p \<noteq> 0" "q \<notin> held pcd blocks s"
      "held pcd blocks s' = insert q (held pcd blocks s)" "shm_ok pcd blocks s'"
      "\<And>x. \<not> covers q x \<or> user_area q x \<Longrightarrow> Memory s' x = Memory s x"
      "IsSharedMemoryRegionFree (fst q) (snd q) (Memory s)"
proof -
  obtain Status b g where a: "AllocateMemorySpace G EfiGcdAllocateMaxAddressSearchTopDown 12 (Size + 4127)
      (OPTEE_SHM_END pcd) (Gcd s) = ((Status, b), g)"
    by (metis prod.exhaust)
  note ok = allocated[OF G a]
  show thesis
  proof (cases "ByteAlignment = 0 \<or> IsPowerOf2 ByteAlignment \<and> ByteAlignment \<le> OPTEE_SHM_ALLOC_ALIGN")
    case False
    then have "p = 0 \<and> s' = s"
      using run by (auto simp: InternalMemAlloc_def not_le bind_eq_Some_conv split: if_splits)
    then show thesis using h by (intro full) auto
  next
    case al: True
    have ins: "inside pcd (b, Size + 4127)" if e: "\<not> EFI_ERROR Status"
    proof (cases "AssertStops pcd")
      case True
      have "\<not> b < OPTEE_SHM_START pcd" "\<not> OPTEE_SHM_END pcd < b + (Size + 4127)"
        using run a e al True unfolding InternalMemAlloc_def BlockSize OPTEE_SHM_ALLOC_ALIGN_SHIFT_def Let_def
        by (auto simp: bind_eq_Some_conv not_less split: if_splits)
      then show ?thesis using Alloc_block(1)[OF r f] ok(3,4)[OF e] by simp
    next
      case False
      then show ?thesis using i a e by (auto simp: answers_in_def)
    qed
    have eq: "InternalMemAlloc pcd G Size ByteAlignment s =
        Some (if EFI_ERROR Status then (0, s\<lparr>Gcd := g\<rparr>) else (b + 4096, alloc_state b (Size + 4127) g s))"
      by (rule InternalMemAlloc_eq[OF G r f h al a]) (rule ins)
    show thesis
    proof (cases "EFI_ERROR Status")
      case True
      then have s': "p = 0" "s' = s\<lparr>Gcd := g\<rparr>" using run eq by auto
      have "held pcd blocks s' = held pcd blocks s \<and> shm_ok pcd blocks s'"
        using ok(1)[OF True] s' by (intro shm_ok_cong[OF h r]) auto
      then show thesis using s' by (intro full) auto
    next
      case False
      have al: "unat b mod 4096 = 0" using ok(3)[OF False] by simp
      note I = Alloc_inside[OF G r f h a False ins[OF False]]
      note B = Alloc_block[OF r f al I(7,1,2)]
      have "(p, s') = (b + 4096, alloc_state b (Size + 4127) g s)" using run unfolding eq by (simp only: False if_False option.inject)
      then have s': "p = b + 4096" "s' = alloc_state b (Size + 4127) g s" by (simp_all only: prod.inject)
      let ?q = "(b, Size + 4127)"
      have "?q \<notin> held pcd blocks s \<and> held pcd blocks s' = insert ?q (held pcd blocks s) \<and> shm_ok pcd blocks s'"
        by (rule shm_ok_add[OF r h B(1)]) (use ok(2,6)[OF False] B(3,4) s' in auto)
      then show thesis
        using s' B(4,5) I(3) by (intro block[of ?q]) (auto simp: user_ptr_def)
    qed
  qed
qed

lemma freed:
  assumes "gcd_contract G blocks" and "FreeMemorySpace G b n g = (Status, g')"
  shows "EFI_ERROR Status \<Longrightarrow> blocks g' = blocks g \<and> (b, n) \<notin> blocks g"
    and "\<not> EFI_ERROR Status \<Longrightarrow> blocks g' = blocks g - {(b, n)}"
  using assms(1)[unfolded gcd_contract_def, THEN conjunct2, THEN conjunct1, THEN spec, of b, THEN spec, of n, THEN spec, of g] assms(2) by auto

lemma OpteeClientMemFree_block:
  assumes G: "gcd_contract G blocks" and r: "region_ok pcd" and h: "shm_ok pcd blocks s" and q: "q \<in> held pcd blocks s"
  obtains Status s' where "OpteeClientMemFree G (user_ptr q) s = (Status, s')" "\<not> EFI_ERROR Status" "shm_ok pcd blocks s'"
    "held pcd blocks s' = held pcd blocks s - {q}"
    "\<And>x. Memory s' x = (if covers q x then OPTEE_SHM_FREE_FENCE else Memory s x)"
proof -
  obtain b l where bl: "q = (b, l)" by fastforce
  have p: "user_ptr q - sizeof_MEM_HEADER = b + 4064"
    by (simp add: bl user_ptr_def shm_constants)
  have hd: "HeaderSignature (Memory s) (b + 4064) = OPTEE_SHM_SIGNATURE" "HeaderSize (Memory s) (b + 4064) = l"
    "HeaderAddress (Memory s) (b + 4064) = b"
    using shm_okD(1)[OF h q] by (simp_all add: bl block_ok_def)
  obtain Status g where f: "FreeMemorySpace G b l (Gcd s) = (Status, g)" by fastforce
  have in_g: "(b, l) \<in> blocks (Gcd s)" using q by (simp add: bl held_def)
  have e: "\<not> EFI_ERROR Status" and g: "blocks g = blocks (Gcd s) - {q}"
    using freed[OF G f] in_g by (auto simp: bl)
  define s' where "s' = s\<lparr>Memory := MarkSharedMemoryRegionAsFree b l (Memory s), Gcd := g,
      mSharedMemAllocationCount := mSharedMemAllocationCount s - 1, mSharedMemAllocSize := mSharedMemAllocSize s - l\<rparr>"
  have run: "OpteeClientMemFree G (user_ptr q) s = (Status, s')"
    using e f hd by (simp add: OpteeClientMemFree_def Let_def p s'_def)
  have "unat b + unat l < 2 ^ 64"
    using covers_END[OF r shm_okD(2)[OF h q]] by (simp add: bl)
  then have m: "Memory s' x = (if covers q x then OPTEE_SHM_FREE_FENCE else Memory s x)" for x
    by (simp add: s'_def Mark_SetMem SetMem_def covers_def bl in_range)
  have "held pcd blocks s' = held pcd blocks s - {q} \<and> shm_ok pcd blocks s'"
    by (rule shm_ok_remove[OF r h q m]) (use g in \<open>simp_all add: s'_def bl\<close>)
  then show thesis using that[OF run e] m by blast
qed

text \<open>Initialisation by the first driver: the whole region is allocated, fenced and freed.\<close>

lemma unchanged:
  assumes "gcd_contract G blocks"
  shows "AddMemorySpace G t b n g = (Status, g') \<Longrightarrow> blocks g' = blocks g"
    and "GetMemorySpaceDescriptor G b g = (d, g') \<Longrightarrow> blocks g' = blocks g"
  using assms[unfolded gcd_contract_def, THEN conjunct2, THEN conjunct2] by (metis snd_conv)+

text \<open>
  A GCD that takes the region over from the first driver: the region is not in its map, adding and allocating it succeeds, and afterwards it
  is reserved memory.
\<close>

definition gcd_accepts :: "OPTEE_PCD \<Rightarrow> 'g gcd_services \<Rightarrow> 'g \<Rightarrow> bool" where
  "gcd_accepts pcd G g0 \<longleftrightarrow>
    (let ((Status0, d0), g1) = GetMemorySpaceDescriptor G (OPTEE_SHM_START pcd) g0;
         (Status1, g2) = AddMemorySpace G EfiGcdMemoryTypeReserved (OPTEE_SHM_START pcd) (OPTEE_SHM_SIZE pcd) g1;
         ((Status2, b), g3) = AllocateMemorySpace G EfiGcdAllocateAddress 0 (OPTEE_SHM_SIZE pcd) (OPTEE_SHM_START pcd) g2;
         (_, g4) = FreeMemorySpace G (OPTEE_SHM_START pcd) (OPTEE_SHM_SIZE pcd) g3;
         ((Status4, d4), g5) = GetMemorySpaceDescriptor G (OPTEE_SHM_START pcd) g4
     in (Status0 = EFI_NOT_FOUND \<or> \<not> EFI_ERROR Status0 \<and> fst d0 = EfiGcdMemoryTypeNonExistent) \<and> \<not> EFI_ERROR Status1 \<and>
       \<not> EFI_ERROR Status2 \<and> \<not> EFI_ERROR Status4 \<and> fst d4 = EfiGcdMemoryTypeReserved)"

lemma spaces_unchanged:
  assumes "gcd_spaces G reserved"
  shows "AllocateMemorySpace G t shift n a g = ((Status, b), g') \<Longrightarrow> reserved g' = reserved g"
    and "FreeMemorySpace G b n g = (Status, g') \<Longrightarrow> reserved g' = reserved g"
    and "GetMemorySpaceDescriptor G b g = (d, g') \<Longrightarrow> reserved g' = reserved g"
    and "AddMemorySpace G EfiGcdMemoryTypeReserved b n g = (Status, g') \<Longrightarrow> reserved g' \<subseteq> reserved g \<union> {x. covers (b, n) x}"
proof -
  show "AllocateMemorySpace G t shift n a g = ((Status, b), g') \<Longrightarrow> reserved g' = reserved g"
    using assms[unfolded gcd_spaces_def, THEN conjunct1, THEN spec, of t, THEN spec, of shift, THEN spec, of n, THEN spec, of a, THEN spec, of g]
    by auto
  show "FreeMemorySpace G b n g = (Status, g') \<Longrightarrow> reserved g' = reserved g"
    using assms[unfolded gcd_spaces_def, THEN conjunct2, THEN conjunct1] by (metis snd_conv)
  show "GetMemorySpaceDescriptor G b g = (d, g') \<Longrightarrow> reserved g' = reserved g"
    using assms[unfolded gcd_spaces_def, THEN conjunct2, THEN conjunct2, THEN conjunct2] by (metis snd_conv)
  show "AddMemorySpace G EfiGcdMemoryTypeReserved b n g = (Status, g') \<Longrightarrow> reserved g' \<subseteq> reserved g \<union> {x. covers (b, n) x}"
    using assms[unfolded gcd_spaces_def, THEN conjunct2, THEN conjunct2, THEN conjunct1, THEN spec, of EfiGcdMemoryTypeReserved,
        THEN spec, of b, THEN spec, of n, THEN spec, of g] by auto
qed

lemma Initialize_ok:
  assumes G: "gcd_contract G blocks" and r: "region_ok pcd" and acc: "gcd_accepts pcd G (Gcd s)"
    and page: "OPTEE_SHM_START pcd mod 4096 = 0" "OPTEE_SHM_SIZE pcd mod 4096 = 0" and i: "ImageHandle \<noteq> 0" "gDriverImageHandle s = 0"
    and c: "mSharedMemAllocationCount s = 0" "mSharedMemAllocSize s = 0"
  obtains Status s0 where "OpteeClientApiInitialize pcd G ImageHandle s = Some (Status, s0)" "\<not> EFI_ERROR Status" "shm_ok pcd blocks s0"
    "held pcd blocks s0 = {}"
    "\<And>reserved. gcd_spaces G reserved \<Longrightarrow> \<forall>x \<in> reserved (Gcd s). unat (OPTEE_SHM_END pcd) < unat x \<Longrightarrow> only_region pcd (reserved (Gcd s0))"
proof -
  let ?a = "OPTEE_SHM_START pcd" and ?n = "OPTEE_SHM_SIZE pcd"
  obtain Status0 d0 g1 where q0: "GetMemorySpaceDescriptor G ?a (Gcd s) = ((Status0, d0), g1)" by (metis prod.exhaust)
  obtain Status1 g2 where q1: "AddMemorySpace G EfiGcdMemoryTypeReserved ?a ?n g1 = (Status1, g2)" by fastforce
  obtain Status2 b g3 where q2: "AllocateMemorySpace G EfiGcdAllocateAddress 0 ?n ?a g2 = ((Status2, b), g3)" by (metis prod.exhaust)
  obtain Status3 g4 where q3: "FreeMemorySpace G ?a ?n g3 = (Status3, g4)" by fastforce
  obtain Status4 d4 g5 where q4: "GetMemorySpaceDescriptor G ?a g4 = ((Status4, d4), g5)" by (metis prod.exhaust)
  have st: "Status0 = EFI_NOT_FOUND \<or> \<not> EFI_ERROR Status0 \<and> fst d0 = EfiGcdMemoryTypeNonExistent" "\<not> EFI_ERROR Status1"
    "\<not> EFI_ERROR Status2" "\<not> EFI_ERROR Status4" "fst d4 = EfiGcdMemoryTypeReserved"
    using acc q0 q1 q2 q3 q4 by (simp_all add: gcd_accepts_def)
  have b: "b = ?a" using allocated(5)[OF G q2 st(3)] by simp
  define s0 where "s0 = s\<lparr>gDriverImageHandle := ImageHandle, Memory := MarkSharedMemoryRegionAsFree ?a ?n (Memory s), Gcd := g5\<rparr>"
  have run: "OpteeClientApiInitialize pcd G ImageHandle s = Some (Status4, s0)"
    using st page i b q0 q1 q2 q3 q4
    by (auto simp: OpteeClientApiInitialize_def OpteeClientMemInit_def GcdSharedMemoryInit_def CheckType_def Let_def s0_def)
  have "blocks g3 = insert (region pcd) (blocks (Gcd s))" and ap: "\<forall>q \<in> blocks (Gcd s). apart (region pcd) q"
    using allocated(2,6)[OF G q2 st(3)] unchanged(2)[OF G q0] unchanged(1)[OF G q1] b by (auto simp: region_def)
  then have g: "blocks g5 \<subseteq> blocks (Gcd s)"
    using freed[OF G q3] unchanged(2)[OF G q4] by (cases "EFI_ERROR Status3"; auto simp: region_def)
  have "\<not> inside pcd q" if "apart (region pcd) q" for q
    using that by (auto simp: inside_def apart_def region_def unat_END[OF r])
  then have h': "held pcd blocks s0 = {}"
    using g ap by (auto simp: s0_def held_def)
  have ok: "shm_ok pcd blocks s0"
  proof (rule shm_okI[OF h'])
    show "inside pcd q \<or> apart q (region pcd)" if "q \<in> blocks (Gcd s0)" for q
      using that g ap blocks_apart_sym by (auto simp: s0_def)
    show "Memory s0 x = OPTEE_SHM_FREE_FENCE" if "covers (region pcd) x" for x
      using that r in_range[of ?a ?n x]
      by (simp add: s0_def Mark_SetMem SetMem_def covers_def region_def region_ok_def)
  qed (simp_all add: s0_def i c)
  have "only_region pcd (reserved (Gcd s0))"
    if sp: "gcd_spaces G reserved" and x: "\<forall>x \<in> reserved (Gcd s). unat (OPTEE_SHM_END pcd) < unat x" for reserved
    using spaces_unchanged(3)[OF sp q0] spaces_unchanged(4)[OF sp q1] spaces_unchanged(1)[OF sp q2] spaces_unchanged(2)[OF sp q3]
      spaces_unchanged(3)[OF sp q4] x by (auto simp: only_region_def s0_def region_def not_less[symmetric])
  then show thesis using that[OF run st(4) ok h'] by blast
qed

text \<open>
  How the client may use the memory: allocate, free a block it holds, and write to its blocks. A request is for a size that does not
  wrap around when the header and the alignment are added, that is for less than \<open>2 ^ 64 - 4127\<close> bytes.
\<close>

inductive shm_step :: "OPTEE_PCD \<Rightarrow> 'g gcd_services \<Rightarrow> ('g \<Rightarrow> block set) \<Rightarrow> 'g optee_client \<Rightarrow> 'g optee_client \<Rightarrow> bool"
  for pcd G blocks where
  alloc: "size_fits Size \<Longrightarrow> InternalMemAlloc pcd G Size ByteAlignment s = Some (p, s') \<Longrightarrow> shm_step pcd G blocks s s'"
| free: "q \<in> held pcd blocks s \<Longrightarrow> OpteeClientMemFree G (user_ptr q) s = (Status, s') \<Longrightarrow> shm_step pcd G blocks s s'"
| user_write: "q \<in> held pcd blocks s \<Longrightarrow> user_area q x \<Longrightarrow> shm_step pcd G blocks s (s\<lparr>Memory := (Memory s)(x := v)\<rparr>)"

lemma alloc_Gcd:
  assumes "InternalMemAlloc pcd G Size ByteAlignment s = Some (p, s')" and "gcd_spaces G reserved"
  shows "reserved (Gcd s') = reserved (Gcd s)"
proof -
  obtain Status b g where a: "AllocateMemorySpace G EfiGcdAllocateMaxAddressSearchTopDown 12 (Size + 4127)
      (OPTEE_SHM_END pcd) (Gcd s) = ((Status, b), g)"
    by (metis prod.exhaust)
  have "Gcd s' \<in> {Gcd s, g}"
    using assms(1) unfolding InternalMemAlloc_def BlockSize OPTEE_SHM_ALLOC_ALIGN_SHIFT_def Let_def a prod.case
    by (auto dest!: ASSERT_passed split: if_splits)
  then show ?thesis using spaces_unchanged(1)[OF assms(2) a] by auto
qed

lemma free_Gcd:
  "OpteeClientMemFree G p s = (Status, s') \<Longrightarrow> gcd_spaces G reserved \<Longrightarrow> reserved (Gcd s') = reserved (Gcd s)"
  using spaces_unchanged(2)[of G reserved] by (auto simp: OpteeClientMemFree_def Let_def split: if_splits prod.splits)

text \<open>In a release build the answers of the GCD must lie in the region; in a debug build an assertion stops any other one.\<close>

definition placed :: "OPTEE_PCD \<Rightarrow> 'g gcd_services \<Rightarrow> ('g \<Rightarrow> u64 set) \<Rightarrow> 'g \<Rightarrow> bool" where
  "placed pcd G reserved g \<longleftrightarrow> AssertStops pcd \<or> gcd_spaces G reserved \<and> only_region pcd (reserved g)"

lemma placed_answers:
  assumes "gcd_contract G blocks" and "region_ok pcd" and "size_fits Size" and "placed pcd G reserved (Gcd s)"
  shows "AssertStops pcd \<or> answers_in pcd G s (Size + 4127)"
proof -
  have "Size + 4127 \<noteq> 0" using unat_BlockSize[OF assms(3)] by auto
  then show ?thesis using spaces_inside[OF assms(1,2), of reserved s "Size + 4127"] assms(4) by (auto simp: placed_def)
qed

lemma shm_step_ok:
  assumes "shm_step pcd G blocks s s'" and G: "gcd_contract G blocks" and r: "region_ok pcd" and h: "shm_ok pcd blocks s"
    and pl: "placed pcd G reserved (Gcd s)"
  shows "shm_ok pcd blocks s' \<and> placed pcd G reserved (Gcd s')"
  using assms(1)
proof cases
  case (alloc Size ByteAlignment p)
  have "shm_ok pcd blocks s'"
    by (rule InternalMemAlloc_cases[OF G r alloc(1) h placed_answers[OF G r alloc(1) pl] alloc(2)])
  then show ?thesis using alloc_Gcd[OF alloc(2), of reserved] pl by (auto simp: placed_def)
next
  case (free q Status)
  then show ?thesis
    using OpteeClientMemFree_block[OF G r h free(1)] free_Gcd[OF free(2)] pl by (metis prod.inject placed_def)
next
  case (user_write q x v)
  then show ?thesis
    using shm_ok_cong[OF h r, of s', THEN conjunct2] pl by (simp add: user_write(1)) (metis user_write(2,3))
qed

lemma shm_steps_ok:
  assumes "(shm_step pcd G blocks)\<^sup>*\<^sup>* s s'" and "gcd_contract G blocks" and "region_ok pcd" and "shm_ok pcd blocks s"
    and "placed pcd G reserved (Gcd s)"
  shows "shm_ok pcd blocks s'"
proof -
  have "shm_ok pcd blocks s' \<and> placed pcd G reserved (Gcd s')"
    using assms by (induction rule: rtranclp_induct) (auto dest: shm_step_ok)
  then show ?thesis by blast
qed

lemma held_card: 
  assumes "shm_ok pcd blocks s" shows "card (held pcd blocks s) < 2 ^ 64"
proof -
  have "inj_on fst (held pcd blocks s)"
  proof (rule inj_onI, rule ccontr)
    fix q r assume q: "q \<in> held pcd blocks s" "r \<in> held pcd blocks s" "fst q = fst r" "q \<noteq> r"
    then have "apart q r" using shm_okD(3)[OF assms] by blast
    moreover have "0 < unat (snd q)" "0 < unat (snd r)" using q by (simp_all add: held_def inside_def)
    ultimately show False using q(3) by (simp add: apart_def)
  qed
  then have "card (held pcd blocks s) = card (fst ` held pcd blocks s)" by (simp add: card_image)
  also have "\<dots> < card (UNIV :: u64 set)"
  proof (rule psubset_card_mono)
    have "unat (1 :: u64) mod 4096 \<noteq> 0" by simp
    then have "1 \<notin> fst ` held pcd blocks s"
      using shm_okD(1)[OF assms] unfolding block_ok_def by fastforce
    then show "fst ` held pcd blocks s \<subset> UNIV" by blast
  qed simp
  finally show ?thesis by (simp add: card_word)
qed

lemma Finalize_iff:
  assumes "shm_ok pcd blocks s"
  shows "OpteeClientApiFinalize pcd s = Some () \<longleftrightarrow> held pcd blocks s = {} \<or> \<not> AssertStops pcd"
proof (cases "held pcd blocks s = {}")
  case True
  then show ?thesis using shm_ok_counts[OF assms] by (simp add: OpteeClientApiFinalize_def)
next
  case False
  have "unat (mSharedMemAllocationCount s) = card (held pcd blocks s)"
    unfolding shm_ok_counts(3)[OF assms] by (rule unat_word_of_nat64[OF held_card[OF assms]])
  moreover have "card (held pcd blocks s) \<noteq> 0" using False by simp
  ultimately have "mSharedMemAllocationCount s \<noteq> 0" by auto
  then show ?thesis using False by (simp add: OpteeClientApiFinalize_def)
qed

lemma InternalMemAlloc_returns:
  assumes "gcd_contract G blocks" and "region_ok pcd" and "size_fits Size" and "shm_ok pcd blocks s"
    and "ByteAlignment = 0 \<or> IsPowerOf2 ByteAlignment \<and> ByteAlignment \<le> OPTEE_SHM_ALLOC_ALIGN"
    and "AllocateMemorySpace G EfiGcdAllocateMaxAddressSearchTopDown 12 (Size + 4127) (OPTEE_SHM_END pcd) (Gcd s) = ((Status, b), g)"
    and "\<not> EFI_ERROR Status \<Longrightarrow> inside pcd (b, Size + 4127)"
  shows "\<exists>s'. InternalMemAlloc pcd G Size ByteAlignment s = Some (if EFI_ERROR Status then 0 else b + 4096, s')"
  using InternalMemAlloc_eq[OF assms] by simp

section \<open>A GCD\<close>

text \<open>
  A simple provider: the state is the list of the reserved memory spaces and the list of the allocated blocks. A search from the top takes
  the place below the lowest block, as long as it is in one of the spaces.
\<close>

definition lowest :: "block list \<Rightarrow> u64 \<Rightarrow> u64" where
  "lowest g a = foldr min (map fst g) a"

definition no_wrap :: "u64 \<Rightarrow> u64 \<Rightarrow> bool" where "no_wrap b n \<longleftrightarrow> unat b + unat n \<le> 2 ^ 64"

definition in_space :: "block list \<Rightarrow> block \<Rightarrow> bool" where
  "in_space spaces q \<longleftrightarrow> (\<exists>r \<in> set spaces. unat (fst r) \<le> unat (fst q) \<and> unat (fst q) + unat (snd q) \<le> unat (fst r) + unat (snd r))"

type_synonym stack_state = "block list \<times> block list"

definition stack_gcd :: "stack_state gcd_services" where
  "stack_gcd = \<lparr>AddMemorySpace = (\<lambda>t b n (spaces, g).
       if t = EfiGcdMemoryTypeReserved then (EFI_SUCCESS, (b, n) # spaces, g) else (EFI_UNSUPPORTED, spaces, g)),
     AllocateMemorySpace = (\<lambda>t shift n a (spaces, g).
       case t of
         EfiGcdAllocateMaxAddressSearchTopDown \<Rightarrow>
           (if n \<le> lowest g a \<and> in_space spaces ((lowest g a - n) AND NOT (mask shift), n)
            then let b = (lowest g a - n) AND NOT (mask shift) in ((EFI_SUCCESS, b), spaces, (b, n) # g)
            else ((EFI_NOT_FOUND, 0), spaces, g))
       | EfiGcdAllocateAddress \<Rightarrow>
           (if unat a mod 2 ^ shift = 0 \<and> no_wrap a n \<and> in_space spaces (a, n) \<and> (\<forall>q \<in> set g. apart (a, n) q)
            then ((EFI_SUCCESS, a), spaces, (a, n) # g)
            else ((EFI_NOT_FOUND, 0), spaces, g))),
     FreeMemorySpace = (\<lambda>b n (spaces, g).
       if (b, n) \<in> set g then (EFI_SUCCESS, spaces, removeAll (b, n) g) else (EFI_NOT_FOUND, spaces, g)),
     GetMemorySpaceDescriptor = (\<lambda>a g.
       ((if in_space (fst g) (a, 1) then (EFI_SUCCESS, EfiGcdMemoryTypeReserved, a)
         else (EFI_SUCCESS, EfiGcdMemoryTypeNonExistent, 0)), g))\<rparr>"

lemma lowest_le: "unat (lowest g a) \<le> unat a" "q \<in> set g \<Longrightarrow> unat (lowest g a) \<le> unat (fst q)"
  by (induction g) (auto simp: lowest_def min_def word_le_nat_alt)

lemma unat_mask_le: "unat (w AND NOT (mask k)) \<le> unat w" for w :: u64
  unfolding unat_AND_NOT_mask by simp

abbreviation (input) stack_blocks :: "stack_state \<Rightarrow> block set" where
  "stack_blocks g \<equiv> set (snd g)"

definition stack_reserved :: "stack_state \<Rightarrow> u64 set" where
  "stack_reserved g = {x. \<exists>r \<in> set (fst g). covers r x}"

lemma in_space_covers:
  assumes "in_space spaces q" and "covers q x" shows "\<exists>r \<in> set spaces. covers r x"
proof -
  obtain r where "r \<in> set spaces" "unat (fst r) \<le> unat (fst q)" "unat (fst q) + unat (snd q) \<le> unat (fst r) + unat (snd r)"
    using assms(1) by (auto simp: in_space_def)
  moreover from this have "covers r x" using assms(2) by (simp add: covers_def)
  ultimately show ?thesis by blast
qed

lemma stack_gcd_spaces: "gcd_spaces stack_gcd stack_reserved"
  unfolding gcd_spaces_def stack_gcd_def
  by (auto simp: Let_def stack_reserved_def split: EFI_GCD_ALLOCATE_TYPE.split) (meson in_space_covers)+

lemma stack_gcd_ok: "gcd_contract stack_gcd stack_blocks"
proof -
  have "unat ((lowest g a - n) AND NOT (mask shift)) + unat n \<le> unat (lowest g a)" if "n \<le> lowest g a" for n a shift and g :: "block list"
    using unat_mask_le[of "lowest g a - n" shift] that by (simp add: unat_sub word_le_nat_alt)
  moreover have "unat (w AND NOT (mask shift)) mod 2 ^ shift = 0" for w :: u64 and shift
    unfolding unat_AND_NOT_mask by simp
  moreover note lowest_le
  moreover have "unat w \<le> 2 ^ 64" for w :: u64 using unsigned_less[where 'a = nat, of w] by simp
  ultimately show ?thesis
    unfolding gcd_contract_def stack_gcd_def
    by (auto simp: Let_def apart_def no_wrap_def split: EFI_GCD_ALLOCATE_TYPE.split) (meson le_trans le_SucI)+
qed

definition demo_pcd :: OPTEE_PCD where
  "demo_pcd = \<lparr>PcdTrustZoneSharedMemoryBase = 0xF000, PcdTrustZoneSharedMemorySize = 0x11000, AssertStops = True\<rparr>"

definition demo_client :: "stack_state optee_client" where
  "demo_client = \<lparr>Memory = (\<lambda>_. 0), gDriverImageHandle = 0, mSharedMemAllocationCount = 0, mSharedMemAllocSize = 0, Gcd = ([], [])\<rparr>"

lemmas demo_region = demo_pcd_def OPTEE_SHM_START_def OPTEE_SHM_SIZE_def OPTEE_SHM_END_def OPTEE_SHM_RESERVED_SIZE_def

lemma demo_region_ok: "region_ok demo_pcd"
  by (simp add: region_ok_def demo_region)

definition demo_start :: "stack_state optee_client" where
  "demo_start = \<lparr>Memory = MarkSharedMemoryRegionAsFree 0x10000 0x10000 (\<lambda>_. 0), gDriverImageHandle = 1,
     mSharedMemAllocationCount = 0, mSharedMemAllocSize = 0, Gcd = ([(0x10000, 0x10000)], [])\<rparr>"

lemma demo_started: "OpteeClientApiInitialize demo_pcd stack_gcd 1 demo_client = Some (EFI_SUCCESS, demo_start)"
  by (simp add: OpteeClientApiInitialize_def OpteeClientMemInit_def GcdSharedMemoryInit_def stack_gcd_def demo_region
      demo_client_def demo_start_def no_wrap_def in_space_def CheckType_def Let_def)

section \<open>Properties\<close>

text \<open>The exponent of a number is computed exactly for the powers of two, and the computation ends for every number: it returns \<open>k\<close> for
  \<open>2 ^ k\<close>, and fails its assertion for all other numbers.\<close>

theorem GetPowerOf2Exponent_iff:
  assumes "AssertStops pcd"
  shows "GetPowerOf2Exponent pcd n = Some k \<longleftrightarrow> k < 64 \<and> n = push_bit k 1"
proof -
  have "k = j" if "push_bit k 1 = (push_bit j 1 :: u64)" "k < 64" "j < 64" for k j
  proof -
    have "(2 :: nat) ^ k = 2 ^ j" using that unat_push_bit_1 by metis
    then show ?thesis by simp
  qed
  then show ?thesis
    using assms ExponentLoop_push[of _ 0] by (auto simp: GetPowerOf2Exponent_def IsPowerOf2_iff bind_eq_Some_conv)
qed

text \<open>C6: The first driver that initialises the library gets sound shared memory, whether the GCD does not know the region or has it as not
  existent, and the memory stays sound whatever sequence of allocations (of less than \<open>2 ^ 64 - 4127\<close> bytes), frees and writes of the client
  to its own blocks follows: the blocks are apart and in the region, every header still describes its block, free memory is fenced, and
  the counters are the number and the size of the blocks. So with assertions the library finalises exactly when every block has been freed.
  A build without assertions relies on the region being the only reserved memory up to its end.\<close>

theorem OpteeShm_run:
  assumes "gcd_contract G blocks" and "region_ok pcd" and "gcd_accepts pcd G (Gcd s)"
    and "OPTEE_SHM_START pcd mod 4096 = 0" and "OPTEE_SHM_SIZE pcd mod 4096 = 0" and "ImageHandle \<noteq> 0" and "gDriverImageHandle s = 0"
    and "mSharedMemAllocationCount s = 0" and "mSharedMemAllocSize s = 0"
    and "AssertStops pcd \<or> gcd_spaces G reserved \<and> (\<forall>x \<in> reserved (Gcd s). unat (OPTEE_SHM_END pcd) < unat x)"
  shows "\<exists>Status s0. OpteeClientApiInitialize pcd G ImageHandle s = Some (Status, s0) \<and> \<not> EFI_ERROR Status \<and>
    held pcd blocks s0 = {} \<and>
    (\<forall>s'. (shm_step pcd G blocks)\<^sup>*\<^sup>* s0 s' \<longrightarrow> shm_ok pcd blocks s' \<and>
      (OpteeClientApiFinalize pcd s' = Some () \<longleftrightarrow> held pcd blocks s' = {} \<or> \<not> AssertStops pcd))"
proof -
  obtain Status s0 where s0: "OpteeClientApiInitialize pcd G ImageHandle s = Some (Status, s0)" "\<not> EFI_ERROR Status"
    "shm_ok pcd blocks s0" "held pcd blocks s0 = {}" "placed pcd G reserved (Gcd s0)"
    by (rule Initialize_ok[OF assms(1-9)]) (use assms(10) in \<open>auto simp: placed_def\<close>)
  then show ?thesis using shm_steps_ok[OF _ assms(1,2) s0(3,5)] Finalize_iff by blast
qed

text \<open>The first allocation in the region of the example.\<close>

lemma demo_accepts:
  "gcd_accepts demo_pcd stack_gcd (Gcd demo_client)" "OPTEE_SHM_START demo_pcd mod 4096 = 0" "OPTEE_SHM_SIZE demo_pcd mod 4096 = 0"
  "gDriverImageHandle demo_client = 0" "mSharedMemAllocationCount demo_client = 0" "mSharedMemAllocSize demo_client = 0"
  by (simp_all add: gcd_accepts_def stack_gcd_def demo_region demo_client_def no_wrap_def in_space_def Let_def)

lemma demo_start_ok: "shm_ok demo_pcd stack_blocks demo_start" "held demo_pcd stack_blocks demo_start = {}"
  by (rule Initialize_ok[OF stack_gcd_ok demo_region_ok demo_accepts(1-3), of 1], use demo_accepts(4-6) demo_started in simp_all)+

lemma demo_alloc:
  "AllocateMemorySpace stack_gcd EfiGcdAllocateMaxAddressSearchTopDown 12 (16 + 4127) (OPTEE_SHM_END demo_pcd) (Gcd demo_start) =
    ((EFI_SUCCESS, 0x1E000), [(0x10000, 0x10000)], [(0x1E000, 4143)])"
  by (simp add: stack_gcd_def demo_region demo_start_def lowest_def mask_eq_exp_minus_1 in_space_def)

lemma OpteeShm_run_witness:
  "\<exists>s p. InternalMemAlloc demo_pcd stack_gcd 16 0 demo_start = Some (p, s) \<and> p = 0x1F000 \<and>
     shm_ok demo_pcd stack_blocks s \<and> OpteeClientApiFinalize demo_pcd s = None"
proof -
  obtain s where s: "InternalMemAlloc demo_pcd stack_gcd 16 0 demo_start = Some (0x1F000, s)"
    using InternalMemAlloc_returns[OF stack_gcd_ok demo_region_ok _ demo_start_ok(1) _ demo_alloc, of 0]
    by (auto simp: size_fits_def inside_def demo_region)
  then have st: "(shm_step demo_pcd stack_gcd stack_blocks)\<^sup>*\<^sup>* demo_start s"
    using shm_step.alloc[of 16 demo_pcd stack_gcd 0 demo_start] by (auto simp: size_fits_def)
  have a: "AssertStops demo_pcd" by (simp add: demo_pcd_def)
  have "shm_ok demo_pcd stack_blocks s \<and> (OpteeClientApiFinalize demo_pcd s = Some () \<longleftrightarrow> held demo_pcd stack_blocks s = {})"
    using OpteeShm_run[OF stack_gcd_ok demo_region_ok demo_accepts(1-3), of 1 stack_reserved] demo_accepts(4-6) demo_started st a by auto
  moreover have "held demo_pcd stack_blocks s \<noteq> {}"
    by (rule InternalMemAlloc_cases[OF stack_gcd_ok demo_region_ok _ demo_start_ok(1) disjI1[OF a] s]) (auto simp: size_fits_def)
  ultimately show ?thesis using s by auto
qed

text \<open>C34: A request that the GCD services can serve from the region gets a new block: its pointer is on a page boundary, its bytes lie in
  the region, apart from every block that is held, they are still fenced, and the memory outside the block is as it was. No assertion
  fails. When the GCD services refuse, the pointer is null.\<close>

theorem OpteeClientMemAlloc_block:
  assumes "gcd_contract G blocks" and "region_ok pcd" and "shm_ok pcd blocks s" and "unat Size + 4127 < 2 ^ 64"
    and "AllocateMemorySpace G EfiGcdAllocateMaxAddressSearchTopDown 12 (Size + 4127) (OPTEE_SHM_END pcd) (Gcd s) = ((Status, b), g)"
    and "\<not> EFI_ERROR Status \<Longrightarrow> inside pcd (b, Size + 4127)"
  shows "\<exists>p s'. OpteeClientMemAlloc pcd G Size s = Some (p, s') \<and> shm_ok pcd blocks s' \<and>
    (if EFI_ERROR Status then p = 0 \<and> Memory s' = Memory s \<and> held pcd blocks s' = held pcd blocks s
     else \<exists>q. p = user_ptr q \<and> p \<noteq> 0 \<and> p mod 4096 = 0 \<and> q \<notin> held pcd blocks s \<and>
       held pcd blocks s' = insert q (held pcd blocks s) \<and> (\<forall>r \<in> held pcd blocks s. apart q r) \<and>
       (\<forall>x. x - p < Size \<longrightarrow> user_area q x \<and> Memory s' x = OPTEE_SHM_FREE_FENCE) \<and>
       (\<forall>x. \<not> covers q x \<longrightarrow> Memory s' x = Memory s x))"
proof -
  note f = assms(4)[folded size_fits_def]
  have "IsPowerOf2 16" by (simp add: IsPowerOf2_def)
  then obtain p s' where run: "InternalMemAlloc pcd G Size OPTEE_CLIENT_MEM_BYTE_ALIGNMENT s = Some (p, s')"
      and p: "p = (if EFI_ERROR Status then 0 else b + 4096)"
    using InternalMemAlloc_returns[OF assms(1,2) f assms(3) _ assms(5,6), of 16]
    by (auto simp: OPTEE_CLIENT_MEM_BYTE_ALIGNMENT_def OPTEE_SHM_ALLOC_ALIGN_def)
  have i: "AssertStops pcd \<or> answers_in pcd G s (Size + 4127)" using assms(5,6) by (auto simp: answers_in_def)
  from assms(1,2) f assms(3) i run show ?thesis
  proof (cases rule: InternalMemAlloc_cases)
    case full
    have "unat b + 4127 < 2 ^ 64" if "\<not> EFI_ERROR Status"
      using covers_END[OF assms(2) assms(6)[OF that]] unat_BlockSize[OF f] by simp
    then have "EFI_ERROR Status" using full(1) p by (auto simp: word_unat_eq_iff unat_word_ariths split: if_splits)
    then show ?thesis using run full by (auto simp: OpteeClientMemAlloc_def)
  next
    case (block q)
    then have e: "\<not> EFI_ERROR Status" using p by auto
    obtain c where q: "q = (c, Size + 4127)" using block(1) by (metis prod.collapse)
    have bq: "block_ok (Memory s') q" and qi: "inside pcd q" using shm_okD(1,2)[OF block(6), of q] block(5) by auto
    have c: "unat c mod 4096 = 0" "unat c + (unat Size + 4127) < 2 ^ 64"
      using bq covers_END[OF assms(2) qi] unat_BlockSize[OF f] by (simp_all add: q block_ok_def)
    have u: "unat (c + 4096) = unat c + 4096" using c by (simp add: unat_word_ariths)
    have pp: "p = c + 4096" using block(2) by (simp add: q user_ptr_def)
    have x: "user_area q x \<and> Memory s' x = OPTEE_SHM_FREE_FENCE" if "x - p < Size" for x
    proof -
      have ua: "user_area q x"
        using that in_range[of p Size x] u c(2) unat_BlockSize[OF f] by (simp add: pp q user_area_def)
      moreover have "x - c < Size + 4127"
        using user_covers[OF ua] in_range[of c "Size + 4127" x] c(2) unat_BlockSize[OF f] by (simp add: q covers_def)
      ultimately show ?thesis using block(7)[of x] block(8) by (simp add: q IsFree_iff)
    qed
    have "p mod 4096 = 0" using c(1) u by (simp add: pp mod_page)
    have "\<forall>r \<in> held pcd blocks s. apart q r"
      using shm_okD(3)[OF block(6), of q] block(4,5) by blast
    have "\<forall>x. \<not> covers q x \<longrightarrow> Memory s' x = Memory s x" using block(7) by blast
    have "\<forall>x. x - p < Size \<longrightarrow> user_area q x \<and> Memory s' x = OPTEE_SHM_FREE_FENCE" using x by blast
    have "\<exists>q. p = user_ptr q \<and> p \<noteq> 0 \<and> p mod 4096 = 0 \<and> q \<notin> held pcd blocks s \<and>
       held pcd blocks s' = insert q (held pcd blocks s) \<and> (\<forall>r \<in> held pcd blocks s. apart q r) \<and>
       (\<forall>x. x - p < Size \<longrightarrow> user_area q x \<and> Memory s' x = OPTEE_SHM_FREE_FENCE) \<and>
       (\<forall>x. \<not> covers q x \<longrightarrow> Memory s' x = Memory s x)"
      by (intro exI[of _ q] conjI; fact)
    then show ?thesis
      unfolding OpteeClientMemAlloc_def by (intro exI[of _ p] exI[of _ s']) (simp only: run block(6) e if_False simp_thms)
  qed
qed

lemma fence_signature: "rd 4 (\<lambda>_. OPTEE_SHM_FREE_FENCE) h \<noteq> OPTEE_SHM_SIGNATURE"
proof -
  have "(4 :: nat) = Suc (Suc (Suc (Suc 0)))" by simp
  then have "rd 4 (\<lambda>_. OPTEE_SHM_FREE_FENCE) h = (0xCCCCCCCC :: u32)"
    by (simp only: rd.simps OPTEE_SHM_FREE_FENCE_def) code_simp
  then show ?thesis by (simp add: OPTEE_SHM_SIGNATURE_def)
qed

lemma OpteeClientMemAlloc_block_witness:
  "\<exists>p s. OpteeClientMemAlloc demo_pcd stack_gcd 16 demo_start = Some (p, s) \<and> p \<noteq> 0 \<and> Memory s p = OPTEE_SHM_FREE_FENCE"
proof -
  have "inside demo_pcd (0x1E000, 16 + 4127)" by (simp add: inside_def demo_region)
  from OpteeClientMemAlloc_block[OF stack_gcd_ok demo_region_ok demo_start_ok(1) _ demo_alloc this]
  show ?thesis by (auto simp: Let_def)
qed

text \<open>C35: Freeing what was just allocated succeeds and undoes the allocation: the memory, with the fence in the block, the blocks and the
  counters are what they were. Freeing it once more is refused, with nothing changed. This is for a size that does not wrap around with
  the header and the alignment, below \<open>2 ^ 64 - 4127\<close>, in builds with and without assertions.\<close>

theorem OpteeClientMemAlloc_free:
  assumes "gcd_contract G blocks" and "region_ok pcd" and "shm_ok pcd blocks s" and "unat Size + 4127 < 2 ^ 64"
    and "InternalMemAlloc pcd G Size ByteAlignment s = Some (p, s1)" and "p \<noteq> 0"
  shows "\<exists>Status s2. OpteeClientMemFree G p s1 = (Status, s2) \<and> \<not> EFI_ERROR Status \<and> Memory s2 = Memory s \<and>
    held pcd blocks s2 = held pcd blocks s \<and> mSharedMemAllocationCount s2 = mSharedMemAllocationCount s \<and>
    mSharedMemAllocSize s2 = mSharedMemAllocSize s \<and> OpteeClientMemFree G p s2 = (EFI_INVALID_PARAMETER, s2)"
proof -
  note n = unat_BlockSize[OF assms(4)[folded size_fits_def]]
  obtain Status b g where a: "AllocateMemorySpace G EfiGcdAllocateMaxAddressSearchTopDown 12 (Size + 4127)
      (OPTEE_SHM_END pcd) (Gcd s) = ((Status, b), g)"
    by (metis prod.exhaust)
  let ?u = "(b + sizeof_MEM_HEADER + (OPTEE_SHM_ALLOC_ALIGN - 1)) AND NOT (OPTEE_SHM_ALLOC_ALIGN - 1)"
  have run: "\<not> EFI_ERROR Status" "IsSharedMemoryRegionFree b (Size + 4127) (Memory s)" "p = ?u"
    "s1 = s\<lparr>Gcd := g, Memory := WriteHeader (?u - sizeof_MEM_HEADER) (Size + 4127) b (Memory s),
       mSharedMemAllocationCount := mSharedMemAllocationCount s + 1, mSharedMemAllocSize := mSharedMemAllocSize s + (Size + 4127)\<rparr>"
    using assms(5,6) a unfolding InternalMemAlloc_def BlockSize OPTEE_SHM_ALLOC_ALIGN_SHIFT_def Let_def
    by (auto simp: bind_eq_Some_conv split: if_splits)
  note al = allocated[OF assms(1) a]
  have top: "unat b + unat Size + 4127 < 2 ^ 64" using al(4)[OF run(1)] unat_END_less[OF assms(2)] n by simp
  have page: "unat b mod 4096 = 0" using al(3)[OF run(1)] by simp
  have u: "?u = b + 4096" by (rule user_pointer[OF page]) (use top in simp)
  have hdr: "b + 4096 - sizeof_MEM_HEADER = b + 4064" by (simp add: sizeof_MEM_HEADER_def)
  have new: "(b, Size + 4127) \<notin> blocks (Gcd s)"
  proof
    assume "(b, Size + 4127) \<in> blocks (Gcd s)"
    then have "apart (b, Size + 4127) (b, Size + 4127)" using al(6)[OF run(1)] by blast
    then show False using n by (simp add: apart_def)
  qed
  obtain Status2 g2 where f: "FreeMemorySpace G b (Size + 4127) g = (Status2, g2)" by fastforce
  have f2: "\<not> EFI_ERROR Status2" "blocks g2 = blocks (Gcd s)" using freed[OF assms(1) f] al(2)[OF run(1)] new by auto
  define s2 where "s2 = s1\<lparr>Memory := MarkSharedMemoryRegionAsFree b (Size + 4127) (Memory s1), Gcd := g2,
      mSharedMemAllocationCount := mSharedMemAllocationCount s1 - 1, mSharedMemAllocSize := mSharedMemAllocSize s1 - (Size + 4127)\<rparr>"
  have free: "OpteeClientMemFree G p s1 = (Status2, s2)"
    using f f2(1) by (simp add: OpteeClientMemFree_def run(3,4) u hdr WriteHeader_reads s2_def Let_def)
  have fence: "Memory s2 x = OPTEE_SHM_FREE_FENCE" if "x - b < Size + 4127" for x
    using that by (simp add: s2_def Mark_SetMem SetMem_def)
  have in_b: "x - b < Size + 4127" if "x - (b + 4064) < 32" for x
  proof -
    have "unat (b + 4064) = unat b + 4064" using top by (simp add: unat_word_ariths)
    then show ?thesis using that top n in_range[of "b + 4064" 32 x] in_range[of b "Size + 4127" x] by simp
  qed
  have "Memory s2 = Memory s"
  proof
    fix x
    show "Memory s2 x = Memory s x"
    proof (cases "x - b < Size + 4127")
      case True
      then show ?thesis using fence run(2) by (simp add: IsFree_iff)
    next
      case False
      then have "\<not> x - (b + 4064) < 32" using in_b by blast
      then show ?thesis using False by (simp add: s2_def Mark_SetMem SetMem_def run(4) u hdr WriteHeader_apart)
    qed
  qed
  moreover have "held pcd blocks s2 = held pcd blocks s" using f2(2) by (simp add: held_def s2_def)
  moreover have "Memory s2 (p - sizeof_MEM_HEADER + word_of_nat i) = OPTEE_SHM_FREE_FENCE" if "i < 4" for i
  proof (rule fence[OF in_b])
    have "word_of_nat i < (32 :: u64)" using that by (simp add: word_less_nat_alt unat_word_of_nat64)
    then show "p - sizeof_MEM_HEADER + word_of_nat i - (b + 4064) < 32" by (simp add: run(3) u hdr)
  qed
  then have "HeaderSignature (Memory s2) (p - sizeof_MEM_HEADER) = rd 4 (\<lambda>_. OPTEE_SHM_FREE_FENCE) (p - sizeof_MEM_HEADER)"
    unfolding HeaderSignature_def by (rule rd_cong)
  then have "OpteeClientMemFree G p s2 = (EFI_INVALID_PARAMETER, s2)"
    by (simp add: OpteeClientMemFree_def fence_signature)
  moreover have "mSharedMemAllocationCount s2 = mSharedMemAllocationCount s" "mSharedMemAllocSize s2 = mSharedMemAllocSize s"
    by (simp_all add: s2_def run(4))
  ultimately show ?thesis using free f2(1) by blast
qed

lemma OpteeClientMemAlloc_free_witness:
  "\<exists>s1 s2. InternalMemAlloc demo_pcd stack_gcd 16 0 demo_start = Some (0x1F000, s1) \<and>
     OpteeClientMemFree stack_gcd 0x1F000 s1 = (EFI_SUCCESS, s2) \<and> mSharedMemAllocationCount s2 = 0"
proof -
  have "inside demo_pcd (0x1E000, 16 + 4127)" by (simp add: inside_def demo_region)
  then obtain s1 where s1: "InternalMemAlloc demo_pcd stack_gcd 16 0 demo_start = Some (0x1F000, s1)"
    using InternalMemAlloc_returns[OF stack_gcd_ok demo_region_ok _ demo_start_ok(1) _ demo_alloc, of 0] by (auto simp: size_fits_def)
  obtain Status s2 where s2: "OpteeClientMemFree stack_gcd 0x1F000 s1 = (Status, s2)" "\<not> EFI_ERROR Status"
    "mSharedMemAllocationCount s2 = mSharedMemAllocationCount demo_start"
    using OpteeClientMemAlloc_free[OF stack_gcd_ok demo_region_ok demo_start_ok(1) _ s1] by auto
  have "Status = EFI_SUCCESS"
    using s2(1,2) by (auto simp: OpteeClientMemFree_def stack_gcd_def Let_def split: if_splits prod.splits)
  then show ?thesis using s1 s2 by (auto simp: demo_start_def)
qed

text \<open>C36: The size of a block is computed without a check for overflow. A request for nearly all of the address space becomes one for
  at most 4064 bytes: it succeeds, with a header and a pointer that lie outside the block that was allocated.\<close>

theorem OpteeClientMemAlloc_wraps:
  assumes "region_ok pcd" and "gDriverImageHandle s \<noteq> 0" and n: "0 < n" "n \<le> 4064" and "\<not> EFI_ERROR Status"
    and "AllocateMemorySpace G EfiGcdAllocateMaxAddressSearchTopDown 12 n (OPTEE_SHM_END pcd) (Gcd s) = ((Status, b), g)"
    and "unat b mod 4096 = 0" and "b \<noteq> 0" and "OPTEE_SHM_START pcd \<le> b" and "unat b + 4127 \<le> unat (OPTEE_SHM_END pcd)"
    and "\<forall>x. x - b < n \<longrightarrow> Memory s x = OPTEE_SHM_FREE_FENCE"
  shows "2 ^ 64 - 4127 \<le> unat (n - 4127) \<and>
    (\<exists>s'. OpteeClientMemAlloc pcd G (n - 4127) s = Some (b + 4096, s') \<and>
      HeaderSize (Memory s') (b + 4064) = n \<and> (\<forall>x. covers (b, n) x \<longrightarrow> unat x < unat (b + 4064)))"
proof -
  let ?Size = "n - 4127"
  have u: "unat n \<le> 4064" "0 < unat n" using n by (simp_all add: word_le_nat_alt word_less_nat_alt)
  then have big: "unat ?Size = 2 ^ 64 + unat n - 4127" by (simp add: unat_sub_if')
  have e: "unat b + 4127 < 2 ^ 64" using unat_END_less[OF assms(1)] assms(10) by linarith
  have "4096 \<le> unat b"
  proof -
    obtain q where "unat b = 4096 * q" using assms(7) by blast
    moreover have "unat b \<noteq> 0" using assms(8) by (simp add: unat_eq_zero)
    ultimately show ?thesis by (cases q) auto
  qed
  then have w: "unat (b + n) = unat b + unat n" "unat (b + 4096) = unat b + 4096" "unat (b + 4064) = unat b + 4064"
    "unat (b + 4096 + ?Size) = unat b + unat n - 31"
    using u e by (simp_all add: unat_word_ariths(1)[of b] unat_sub_if')
  have user: "(b + sizeof_MEM_HEADER + (OPTEE_SHM_ALLOC_ALIGN - 1)) AND NOT (OPTEE_SHM_ALLOC_ALIGN - 1) = b + 4096"
    by (rule user_pointer[OF assms(7) e])
  let ?s' = "s\<lparr>Gcd := g, Memory := WriteHeader (b + 4064) n b (Memory s),
      mSharedMemAllocationCount := mSharedMemAllocationCount s + 1, mSharedMemAllocSize := mSharedMemAllocSize s + n\<rparr>"
  have al: "IsPowerOf2 16" by (simp add: IsPowerOf2_def)
  have page: "(b + 4096) mod 4096 = 0" using assms(7) w(2) by (simp add: mod_page)
  have "IsSharedMemoryRegionFree b n (Memory s)" using assms(11) by (simp add: IsFree_iff)
  moreover have "OPTEE_SHM_START pcd \<le> b" "b + n \<le> OPTEE_SHM_END pcd" "OPTEE_SHM_START pcd < b + 4096"
    "b + 4096 + ?Size \<le> OPTEE_SHM_END pcd"
    using assms(9,10) w u by (simp_all add: word_less_nat_alt word_le_nat_alt)
  ultimately have "OpteeClientMemAlloc pcd G ?Size s = Some (b + 4096, ?s')"
    using assms(2,5,6) user page al
    by (simp add: OpteeClientMemAlloc_def InternalMemAlloc_def BlockSize OPTEE_SHM_ALLOC_ALIGN_SHIFT_def Let_def
        OPTEE_CLIENT_MEM_BYTE_ALIGNMENT_def OPTEE_SHM_ALLOC_ALIGN_def sizeof_MEM_HEADER_def add.commute[of 4064 b])
  moreover have "HeaderSize (Memory ?s') (b + 4064) = n" by (simp add: WriteHeader_reads)
  moreover have "covers (b, n) x \<Longrightarrow> unat x < unat (b + 4064)" for x using u w(3) by (simp add: covers_def)
  ultimately show ?thesis using big by auto
qed

lemma OpteeClientMemAlloc_wraps_witness:
  "\<exists>s. OpteeClientMemAlloc demo_pcd stack_gcd (- 4096) (demo_start\<lparr>Gcd := ([(0x10000, 0x10000)], [(0x1E000, 4143)])\<rparr>) = Some (0x1E000, s) \<and>
     HeaderSize (Memory s) 0x1DFE0 = 31"
proof -
  let ?s = "demo_start\<lparr>Gcd := ([(0x10000, 0x10000)], [(0x1E000, 4143)])\<rparr>"
  have a: "AllocateMemorySpace stack_gcd EfiGcdAllocateMaxAddressSearchTopDown 12 31 (OPTEE_SHM_END demo_pcd) (Gcd ?s) =
      ((EFI_SUCCESS, 0x1D000), [(0x10000, 0x10000)], [(0x1D000, 31), (0x1E000, 4143)])"
    by (simp add: stack_gcd_def demo_region demo_start_def lowest_def mask_eq_exp_minus_1 in_space_def)
  have "x - 0x10000 < (0x10000 :: u64)" if "x - 0x1D000 < 31" for x :: u64
    using that in_range[of "0x1D000" 31 x] in_range[of "0x10000" "0x10000" x] by simp
  then have "\<forall>x. x - 0x1D000 < 31 \<longrightarrow> Memory ?s x = OPTEE_SHM_FREE_FENCE"
    by (simp add: demo_start_def Mark_SetMem SetMem_def)
  from OpteeClientMemAlloc_wraps[OF demo_region_ok _ _ _ _ a _ _ _ _ this] show ?thesis
    by (auto simp: demo_start_def demo_region)
qed

end
