(* ===== verification/OpteeRpc.thy ===== *)
theory OpteeRpc
  imports OpteeClientMem SdMmcRpmb
begin

unbundle bit_operations_syntax

text \<open>
  Requests of the secure world to the OP-TEE client library (\<open>Arm/OpteeClientRPC.c\<close>): shared memory, trusted applications from
  the firmware volumes, the RPMB partition, the time. A request comes in the registers of a call that returns, or in a message
  (\<open>struct optee_msg_arg\<close>, \<open>optee_msg.h\<close>) whose address is in them. The secure world, the firmware volumes, the RPMB
  protocol and the performance counter are a parameter, on a state of their own.
\<close>

section \<open>Registers, messages and services\<close>

record ARM_SMC_ARGS =
  Arg0 :: u64
  Arg1 :: u64
  Arg2 :: u64
  Arg3 :: u64
  Arg4 :: u64
  Arg5 :: u64
  Arg6 :: u64
  Arg7 :: u64

text \<open>A GUID: three fields in the order of the bytes of the machine, and eight bytes.\<close>

record EFI_GUID =
  Data1 :: u32
  Data2 :: u16
  Data3 :: u16
  Data4 :: u64

record 'w EFI_RPMB_IO_PROTOCOL =
  RpmbProtocolAddress :: u64
  Cid :: "u8 list"
  ProtocolReliableSectorCount :: u8
  ProtocolRpmbSizeMult :: u8
  ProgramKey :: "u64 \<Rightarrow> u64 \<times> buffer \<Rightarrow> u64 \<times> buffer \<Rightarrow> 'w \<Rightarrow> ((EFI_STATUS \<times> buffer) \<times> 'w) option"
  ReadCounter :: "u64 \<Rightarrow> u64 \<times> buffer \<Rightarrow> u64 \<times> buffer \<Rightarrow> 'w \<Rightarrow> ((EFI_STATUS \<times> buffer) \<times> 'w) option"
  AuthenticatedWrite :: "u64 \<Rightarrow> u64 \<times> EFI_RPMB_DATA_BUFFER \<Rightarrow> u64 \<times> buffer \<Rightarrow> 'w \<Rightarrow> ((EFI_STATUS \<times> buffer) \<times> 'w) option"
  AuthenticatedRead :: "u64 \<Rightarrow> u64 \<times> buffer \<Rightarrow> u64 \<times> EFI_RPMB_DATA_BUFFER \<Rightarrow> 'w \<Rightarrow> ((EFI_STATUS \<times> buffer) \<times> 'w) option"

record ('g, 'w) optee_services =
  Pcd :: OPTEE_PCD
  GcdServices :: "'g gcd_services"
  ArmCallSmc :: "ARM_SMC_ARGS \<Rightarrow> memory \<Rightarrow> 'w \<Rightarrow> ARM_SMC_ARGS \<times> memory \<times> 'w"
  GetSectionFromAnyFv :: "EFI_GUID \<Rightarrow> 'w \<Rightarrow> (EFI_STATUS \<times> u8 list) \<times> 'w"
  LocateRpmbProtocol :: "'w \<Rightarrow> (EFI_STATUS \<times> 'w EFI_RPMB_IO_PROTOCOL) \<times> 'w"
  GetPerformanceCounter :: "'w \<Rightarrow> u64 \<times> 'w"
  PerformanceCounterFrequency :: u64

record ('g, 'w) optee = "'g optee_client" +
  World :: 'w

definition TEEC_SUCCESS :: u32 where "TEEC_SUCCESS = 0"
definition TEEC_ERROR_GENERIC :: u32 where "TEEC_ERROR_GENERIC = 0xFFFF0000"
definition TEEC_ERROR_BAD_PARAMETERS :: u32 where "TEEC_ERROR_BAD_PARAMETERS = 0xFFFF0006"
definition TEEC_ERROR_BAD_STATE :: u32 where "TEEC_ERROR_BAD_STATE = 0xFFFF0007"
definition TEEC_ERROR_ITEM_NOT_FOUND :: u32 where "TEEC_ERROR_ITEM_NOT_FOUND = 0xFFFF0008"
definition TEEC_ERROR_NOT_IMPLEMENTED :: u32 where "TEEC_ERROR_NOT_IMPLEMENTED = 0xFFFF0009"
definition TEEC_ERROR_NOT_SUPPORTED :: u32 where "TEEC_ERROR_NOT_SUPPORTED = 0xFFFF000A"
definition TEEC_ERROR_OUT_OF_MEMORY :: u32 where "TEEC_ERROR_OUT_OF_MEMORY = 0xFFFF000C"
definition TEEC_ERROR_COMMUNICATION :: u32 where "TEEC_ERROR_COMMUNICATION = 0xFFFF000E"
definition TEEC_ORIGIN_API :: u32 where "TEEC_ORIGIN_API = 1"
definition TEEC_ORIGIN_COMMS :: u32 where "TEEC_ORIGIN_COMMS = 2"

lemmas teec_codes = TEEC_SUCCESS_def TEEC_ERROR_GENERIC_def TEEC_ERROR_BAD_PARAMETERS_def TEEC_ERROR_BAD_STATE_def
  TEEC_ERROR_ITEM_NOT_FOUND_def TEEC_ERROR_NOT_IMPLEMENTED_def TEEC_ERROR_NOT_SUPPORTED_def TEEC_ERROR_OUT_OF_MEMORY_def
  TEEC_ERROR_COMMUNICATION_def

text \<open>
  \<open>struct optee_msg_arg\<close> at an address: eight 32-bit fields, then the parameters, of 32 bytes each: the attributes, and a union of three
  64-bit words, which are \<open>a\<close>, \<open>b\<close>, \<open>c\<close> of a value and \<open>buf_ptr\<close>, \<open>size\<close>, \<open>shm_ref\<close> of a temporary memory reference.
\<close>

definition msg_cmd :: "memory \<Rightarrow> u64 \<Rightarrow> u32" where "msg_cmd m p = rd 4 m p"
definition msg_ret :: "memory \<Rightarrow> u64 \<Rightarrow> u32" where "msg_ret m p = rd 4 m (p + 20)"
definition msg_ret_origin :: "memory \<Rightarrow> u64 \<Rightarrow> u32" where "msg_ret_origin m p = rd 4 m (p + 24)"
definition msg_session :: "memory \<Rightarrow> u64 \<Rightarrow> u32" where "msg_session m p = rd 4 m (p + 8)"
definition msg_num_params :: "memory \<Rightarrow> u64 \<Rightarrow> u32" where "msg_num_params m p = rd 4 m (p + 28)"
definition msg_param :: "u64 \<Rightarrow> nat \<Rightarrow> u64" where "msg_param p i = p + 32 + 32 * word_of_nat i"
definition param_attr :: "memory \<Rightarrow> u64 \<Rightarrow> u64" where "param_attr m q = rd 8 m q"
definition param_word :: "memory \<Rightarrow> u64 \<Rightarrow> nat \<Rightarrow> u64" where "param_word m q i = rd 8 m (q + 8 + 8 * word_of_nat i)"
definition set_param_attr :: "u64 \<Rightarrow> u64 \<Rightarrow> memory \<Rightarrow> memory" where "set_param_attr q v m = wr 8 v q m"
definition set_param_word :: "u64 \<Rightarrow> nat \<Rightarrow> u64 \<Rightarrow> memory \<Rightarrow> memory" where
  "set_param_word q i v m = wr 8 v (q + 8 + 8 * word_of_nat i) m"
definition set_msg_ret :: "u64 \<Rightarrow> u32 \<Rightarrow> memory \<Rightarrow> memory" where "set_msg_ret p v m = wr 4 v (p + 20) m"
definition set_msg_ret_origin :: "u64 \<Rightarrow> u32 \<Rightarrow> memory \<Rightarrow> memory" where "set_msg_ret_origin p v m = wr 4 v (p + 24) m"

definition OPTEE_MSG_ATTR_TYPE_NONE :: u64 where "OPTEE_MSG_ATTR_TYPE_NONE = 0"
definition OPTEE_MSG_ATTR_TYPE_VALUE_INPUT :: u64 where "OPTEE_MSG_ATTR_TYPE_VALUE_INPUT = 1"
definition OPTEE_MSG_ATTR_TYPE_VALUE_OUTPUT :: u64 where "OPTEE_MSG_ATTR_TYPE_VALUE_OUTPUT = 2"
definition OPTEE_MSG_ATTR_TYPE_TMEM_INPUT :: u64 where "OPTEE_MSG_ATTR_TYPE_TMEM_INPUT = 9"
definition OPTEE_MSG_ATTR_TYPE_TMEM_OUTPUT :: u64 where "OPTEE_MSG_ATTR_TYPE_TMEM_OUTPUT = 10"
definition OPTEE_MSG_ATTR_GET_TYPE :: "u64 \<Rightarrow> u64" where "OPTEE_MSG_ATTR_GET_TYPE a = a AND 0xFF"

lemmas msg_types = OPTEE_MSG_ATTR_TYPE_NONE_def OPTEE_MSG_ATTR_TYPE_VALUE_INPUT_def OPTEE_MSG_ATTR_TYPE_VALUE_OUTPUT_def
  OPTEE_MSG_ATTR_TYPE_TMEM_INPUT_def OPTEE_MSG_ATTR_TYPE_TMEM_OUTPUT_def

definition SWAP_B16 :: "u16 \<Rightarrow> u16" where
  "SWAP_B16 v = (push_bit 8 v AND 0xFF00) OR (drop_bit 8 v AND 0x00FF)"

definition SWAP_B32 :: "u32 \<Rightarrow> u32" where
  "SWAP_B32 v = (push_bit 24 v AND 0xFF000000) OR (push_bit 8 v AND 0x00FF0000) OR (drop_bit 8 v AND 0x0000FF00)
     OR (drop_bit 24 v AND 0x000000FF)"

section \<open>Requests in the registers\<close>

text \<open>\<open>ADDRESS64\<close>: an address as its two halves.\<close>

definition H32 :: "u64 \<Rightarrow> u32" where "H32 a = ucast (drop_bit 32 a)"
definition L32 :: "u64 \<Rightarrow> u32" where "L32 a = ucast a"
definition ADDRESS64 :: "u32 \<Rightarrow> u32 \<Rightarrow> u64" where "ADDRESS64 h l = push_bit 32 (ucast h) OR ucast l"

definition OpteeRpcAlloc ::
  "('g, 'w) optee_services \<Rightarrow> ARM_SMC_ARGS \<Rightarrow> ('g, 'w) optee \<Rightarrow> ((u32 \<times> ARM_SMC_ARGS) \<times> ('g, 'w) optee) option" where
  "OpteeRpcAlloc S args s = do {
     (Address, s) \<leftarrow> (if Arg1 args \<noteq> 0 then OpteeClientMemAlloc (Pcd S) (GcdServices S) (Arg1 args) s else Some (0, s));
     if Arg1 args \<noteq> 0 \<and> Address = 0 then Some ((TEEC_ERROR_OUT_OF_MEMORY, args), s)
     else Some ((TEEC_SUCCESS, args\<lparr>Arg1 := ucast (H32 Address), Arg2 := ucast (L32 Address),
       Arg4 := ucast (H32 Address), Arg5 := ucast (L32 Address)\<rparr>), s)
   }"

definition OpteeRpcFree ::
  "('g, 'w) optee_services \<Rightarrow> ARM_SMC_ARGS \<Rightarrow> ('g, 'w) optee \<Rightarrow> (u32 \<times> ARM_SMC_ARGS) \<times> ('g, 'w) optee" where
  "OpteeRpcFree S args s =
    (let (Status, s) = OpteeClientMemFree (GcdServices S) (ADDRESS64 (ucast (Arg1 args)) (ucast (Arg2 args))) s in
     ((if EFI_ERROR Status then TEEC_ERROR_BAD_PARAMETERS else TEEC_SUCCESS, args), s))"

section \<open>Trusted applications\<close>

definition StoreBytes :: "u8 list \<Rightarrow> u64 \<Rightarrow> memory \<Rightarrow> memory" where
  "StoreBytes xs b m = (\<lambda>a. if unat (a - b) < length xs then xs ! unat (a - b) else m a)"

definition TaGuid :: "memory \<Rightarrow> u64 \<Rightarrow> EFI_GUID" where
  "TaGuid m u = \<lparr>Data1 = SWAP_B32 (rd 4 m u), Data2 = SWAP_B16 (rd 2 m (u + 4)), Data3 = SWAP_B16 (rd 2 m (u + 6)),
     Data4 = rd 8 m (u + 8)\<rparr>"

text \<open>The exit of a command that fills in the result of its message.\<close>

definition CmdExit :: "u64 \<Rightarrow> u32 \<Rightarrow> ('g, 'w) optee \<Rightarrow> u32 \<times> ('g, 'w) optee" where
  "CmdExit p TeecResult s = (TeecResult,
     s\<lparr>Memory := set_msg_ret_origin p TEEC_ORIGIN_API (set_msg_ret p TeecResult (Memory s))\<rparr>)"

definition OpteeRpcCmdLoadTa :: "('g, 'w) optee_services \<Rightarrow> u64 \<Rightarrow> ('g, 'w) optee \<Rightarrow> u32 \<times> ('g, 'w) optee" where
  "OpteeRpcCmdLoadTa S p s =
    (if msg_num_params (Memory s) p \<noteq> 2 then CmdExit p TEEC_ERROR_BAD_PARAMETERS s
     else if OPTEE_MSG_ATTR_GET_TYPE (param_attr (Memory s) (msg_param p 0)) \<noteq> OPTEE_MSG_ATTR_TYPE_VALUE_INPUT
       \<or> OPTEE_MSG_ATTR_GET_TYPE (param_attr (Memory s) (msg_param p 1)) \<noteq> OPTEE_MSG_ATTR_TYPE_TMEM_OUTPUT
     then CmdExit p TEEC_ERROR_BAD_PARAMETERS s
     else let TaUuid = TaGuid (Memory s) (msg_param p 0 + 8);
         TaBufferSize = param_word (Memory s) (msg_param p 1) 1;
         ((Status, Image), w) = GetSectionFromAnyFv S TaUuid (World s); s = s\<lparr>World := w\<rparr>
       in if EFI_ERROR Status then CmdExit p TEEC_ERROR_ITEM_NOT_FOUND s
       else if unat TaBufferSize < length Image
       then CmdExit p TEEC_SUCCESS (s\<lparr>Memory := set_param_word (msg_param p 1) 1 (word_of_nat (length Image)) (Memory s)\<rparr>)
       else CmdExit p TEEC_SUCCESS
         (s\<lparr>Memory := StoreBytes Image (param_word (Memory s) (msg_param p 1) 0) (Memory s)\<rparr>))"

section \<open>The RPMB partition\<close>

definition RpcRpmbBytesToUint16 :: "memory \<Rightarrow> u64 \<Rightarrow> u16" where
  "RpcRpmbBytesToUint16 m a = push_bit 8 (ucast (m a)) OR ucast (m (a + 1))"

definition packet :: "memory \<Rightarrow> u64 \<Rightarrow> buffer" where "packet m a = (\<lambda>i. m (a + word_of_nat i))"

definition set_packet :: "u64 \<Rightarrow> buffer \<Rightarrow> memory" where "set_packet a b = (\<lambda>x. b (unat (x - a)))"

definition RpmbReply ::
  "u64 \<Rightarrow> u64 \<Rightarrow> ('g, 'w) optee \<Rightarrow> ((EFI_STATUS \<times> buffer) \<times> 'w) option \<Rightarrow> (u32 \<times> ('g, 'w) optee) option" where
  "RpmbReply p Response s r = do {
     ((Status, b), w) \<leftarrow> r;
     Some (CmdExit p (if EFI_ERROR Status then TEEC_ERROR_GENERIC else TEEC_SUCCESS)
       (s\<lparr>Memory := set_packet Response b, World := w\<rparr>))
   }"

definition RpmbDataRequest ::
  "bool \<Rightarrow> 'w EFI_RPMB_IO_PROTOCOL \<Rightarrow> u64 \<Rightarrow> u64 \<Rightarrow> u64 \<Rightarrow> ('g, 'w) optee \<Rightarrow> (u32 \<times> ('g, 'w) optee) option" where
  "RpmbDataRequest stops Protocol p Req Response s =
    (let m = Memory s; Request = Req + 6; RequestMsgType = RpcRpmbBytesToUint16 m (Request + 510);
         This = RpmbProtocolAddress Protocol in
     if RequestMsgType = EFI_RPMB_REQUEST_PROGRAM_KEY
     then RpmbReply p Response s (ProgramKey Protocol This (Request, packet m Request) (Response, packet m Response) (World s))
     else if RequestMsgType = EFI_RPMB_REQUEST_COUNTER_VALUE
     then RpmbReply p Response s (ReadCounter Protocol This (Request, packet m Request) (Response, packet m Response) (World s))
     else if RequestMsgType = EFI_RPMB_REQUEST_AUTH_WRITE
     then RpmbReply p Response s (AuthenticatedWrite Protocol This
       (1, \<lparr>Packets = Request, PacketCount = ucast (RpcRpmbBytesToUint16 m (Request + 506)), Contents = packet m Request\<rparr>)
       (Response, packet m Response) (World s))
     else if RequestMsgType = EFI_RPMB_REQUEST_AUTH_READ
     then RpmbReply p Response s (AuthenticatedRead Protocol This (Request, packet m Request)
       (1, \<lparr>Packets = Response, PacketCount = ucast (rd 2 m (Req + 4) :: u16), Contents = packet m Response\<rparr>) (World s))
     else do { ASSERT stops False; Some (CmdExit p TEEC_ERROR_BAD_PARAMETERS s) })"

definition RpmbDevInfo :: "'w EFI_RPMB_IO_PROTOCOL \<Rightarrow> u64 \<Rightarrow> memory \<Rightarrow> memory" where
  "RpmbDevInfo Protocol a m =
     (StoreBytes (Cid Protocol) a m)(a + 17 := ProtocolReliableSectorCount Protocol, a + 16 := ProtocolRpmbSizeMult Protocol,
       a + 18 := 0)"

definition OpteeRpcCmdRpmb :: "('g, 'w) optee_services \<Rightarrow> u64 \<Rightarrow> ('g, 'w) optee \<Rightarrow> (u32 \<times> ('g, 'w) optee) option" where
  "OpteeRpcCmdRpmb S p s =
    (if msg_num_params (Memory s) p \<noteq> 2 then Some (CmdExit p TEEC_ERROR_BAD_PARAMETERS s)
     else if OPTEE_MSG_ATTR_GET_TYPE (param_attr (Memory s) (msg_param p 0)) \<noteq> OPTEE_MSG_ATTR_TYPE_TMEM_INPUT
       \<or> OPTEE_MSG_ATTR_GET_TYPE (param_attr (Memory s) (msg_param p 1)) \<noteq> OPTEE_MSG_ATTR_TYPE_TMEM_OUTPUT
     then Some (CmdExit p TEEC_ERROR_BAD_PARAMETERS s)
     else let ((Status, Protocol), w) = LocateRpmbProtocol S (World s); s = s\<lparr>World := w\<rparr> in
       if EFI_ERROR Status then Some (CmdExit p TEEC_ERROR_NOT_SUPPORTED s)
       else let Req = param_word (Memory s) (msg_param p 0) 0; Response = param_word (Memory s) (msg_param p 1) 0;
           cmd = (rd 2 (Memory s) Req :: u16) in
         if cmd = 0 then RpmbDataRequest (AssertStops (Pcd S)) Protocol p Req Response s
         else if cmd = 1 then Some (CmdExit p TEEC_SUCCESS (s\<lparr>Memory := RpmbDevInfo Protocol Response (Memory s)\<rparr>))
         else do { ASSERT (AssertStops (Pcd S)) False; Some (CmdExit p TEEC_ERROR_NOT_SUPPORTED s) })"

section \<open>Shared memory, time and waiting\<close>

text \<open>
  The two types of shared memory are 0 and 1. Another one fails an assertion; without assertions it makes the result an error, but the memory
  is allocated or freed all the same.
\<close>

definition OpteeRpcCmdShmAlloc :: "('g, 'w) optee_services \<Rightarrow> u64 \<Rightarrow> ('g, 'w) optee \<Rightarrow> (u32 \<times> ('g, 'w) optee) option" where
  "OpteeRpcCmdShmAlloc S p s =
    (let q = msg_param p 0 in
     if msg_num_params (Memory s) p \<noteq> 1 then Some (TEEC_ERROR_BAD_PARAMETERS, s)
     else if OPTEE_MSG_ATTR_GET_TYPE (param_attr (Memory s) q) \<noteq> OPTEE_MSG_ATTR_TYPE_VALUE_INPUT
     then Some (TEEC_ERROR_BAD_PARAMETERS, s)
     else do {
       TeecResult \<leftarrow> (if param_word (Memory s) q 0 = 0 \<or> param_word (Memory s) q 0 = 1 then Some TEEC_SUCCESS
         else do { ASSERT (AssertStops (Pcd S)) False; Some TEEC_ERROR_BAD_PARAMETERS });
       let BufferSize = param_word (Memory s) q 1;
       (Buffer, s) \<leftarrow> OpteeClientAlignedMemAlloc (Pcd S) (GcdServices S) BufferSize (param_word (Memory s) q 2) s;
       if Buffer = 0 then Some (TEEC_ERROR_OUT_OF_MEMORY, s)
       else Some (TeecResult, s\<lparr>Memory := set_param_word q 2 Buffer (set_param_word q 1 BufferSize
         (set_param_word q 0 Buffer (set_param_attr q OPTEE_MSG_ATTR_TYPE_TMEM_OUTPUT (Memory s))))\<rparr>)
     })"

definition OpteeRpcCmdShmFree :: "('g, 'w) optee_services \<Rightarrow> u64 \<Rightarrow> ('g, 'w) optee \<Rightarrow> (u32 \<times> ('g, 'w) optee) option" where
  "OpteeRpcCmdShmFree S p s =
    (let q = msg_param p 0 in
     if msg_num_params (Memory s) p \<noteq> 1 then Some (TEEC_ERROR_BAD_PARAMETERS, s)
     else if OPTEE_MSG_ATTR_GET_TYPE (param_attr (Memory s) q) \<noteq> OPTEE_MSG_ATTR_TYPE_VALUE_INPUT
     then Some (TEEC_ERROR_BAD_PARAMETERS, s)
     else do {
       TeecResult \<leftarrow> (if param_word (Memory s) q 0 = 0 \<or> param_word (Memory s) q 0 = 1 then Some TEEC_SUCCESS
         else do { ASSERT (AssertStops (Pcd S)) False; Some TEEC_ERROR_BAD_PARAMETERS });
       let (Status, s) = OpteeClientMemFree (GcdServices S) (param_word (Memory s) q 1) s in
         Some (if EFI_ERROR Status then TEEC_ERROR_BAD_STATE else TeecResult, s)
     })"

definition RpcTime :: "u64 \<Rightarrow> u64 \<Rightarrow> u64 \<times> u64" where
  "RpcTime Ticks Freq = (let ElapsedSeconds = Ticks div Freq; ElapsedNanos = (Ticks * 1000000000) div Freq in
     (Ticks div Freq, ElapsedNanos - ElapsedSeconds * 1000000000))"

definition OpteeRpcCmdGetTime :: "('g, 'w) optee_services \<Rightarrow> u64 \<Rightarrow> ('g, 'w) optee \<Rightarrow> (u32 \<times> ('g, 'w) optee) option" where
  "OpteeRpcCmdGetTime S p s =
    (let q = msg_param p 0 in
     if msg_num_params (Memory s) p \<noteq> 1 then Some (TEEC_ERROR_BAD_PARAMETERS, s)
     else if OPTEE_MSG_ATTR_GET_TYPE (param_attr (Memory s) q) \<noteq> OPTEE_MSG_ATTR_TYPE_VALUE_OUTPUT
     then Some (TEEC_ERROR_BAD_PARAMETERS, s)
     else let (Ticks, w) = GetPerformanceCounter S (World s); Freq = PerformanceCounterFrequency S in
       if Freq = 0 then None
       else let (seconds, nanos) = RpcTime Ticks Freq in
         Some (TEEC_SUCCESS, s\<lparr>World := w, Memory := set_param_word q 1 nanos (set_param_word q 0 seconds (Memory s))\<rparr>))"

definition OpteeRpcCmdWaitQueue :: "bool \<Rightarrow> u64 \<Rightarrow> ('g, 'w) optee \<Rightarrow> (u32 \<times> ('g, 'w) optee) option" where
  "OpteeRpcCmdWaitQueue stops p s =
    (let q = msg_param p 0 in
     if msg_num_params (Memory s) p \<noteq> 1 then Some (TEEC_ERROR_BAD_PARAMETERS, s)
     else if OPTEE_MSG_ATTR_GET_TYPE (param_attr (Memory s) q) \<noteq> OPTEE_MSG_ATTR_TYPE_VALUE_INPUT
     then Some (TEEC_ERROR_BAD_PARAMETERS, s)
     else if param_word (Memory s) q 0 \<noteq> 0 \<and> param_word (Memory s) q 0 \<noteq> 1
     then do { ASSERT stops False; Some (TEEC_ERROR_NOT_IMPLEMENTED, s) }
     else Some (TEEC_SUCCESS, s))"

section \<open>The callback\<close>

definition OPTEE_SMC_RETURN_UNKNOWN_FUNCTION :: u64 where "OPTEE_SMC_RETURN_UNKNOWN_FUNCTION = 0xFFFFFFFF"
definition OPTEE_SMC_CALL_RETURN_FROM_RPC :: u64 where "OPTEE_SMC_CALL_RETURN_FROM_RPC = 0x32000003"
definition OPTEE_SMC_RETURN_IS_RPC :: "u64 \<Rightarrow> bool" where
  "OPTEE_SMC_RETURN_IS_RPC r \<longleftrightarrow> r \<noteq> OPTEE_SMC_RETURN_UNKNOWN_FUNCTION \<and> r AND 0xFFFF0000 = 0xFFFF0000"
definition OPTEE_SMC_RETURN_GET_RPC_FUNC :: "u64 \<Rightarrow> u64" where "OPTEE_SMC_RETURN_GET_RPC_FUNC r = r AND 0xFFFF"

definition OpteeRpcCmd :: "('g, 'w) optee_services \<Rightarrow> u64 \<Rightarrow> ('g, 'w) optee \<Rightarrow> (u32 \<times> ('g, 'w) optee) option" where
  "OpteeRpcCmd S p s = do {
     ASSERT (AssertStops (Pcd S)) (p \<noteq> 0);
     (TeecResult, s) \<leftarrow>
       (let cmd = msg_cmd (Memory s) p in
        if cmd = 0 then Some (OpteeRpcCmdLoadTa S p s)
        else if cmd = 1 then OpteeRpcCmdRpmb S p s
        else if cmd = 3 then OpteeRpcCmdGetTime S p s
        else if cmd = 6 then OpteeRpcCmdShmAlloc S p s
        else if cmd = 7 then OpteeRpcCmdShmFree S p s
        else if cmd = 4 then OpteeRpcCmdWaitQueue (AssertStops (Pcd S)) p s
        else do { ASSERT (AssertStops (Pcd S)) False; Some (TEEC_ERROR_NOT_IMPLEMENTED, s) });
     Some (TeecResult, s\<lparr>Memory := set_msg_ret p TeecResult (Memory s)\<rparr>)
   }"

definition OpteeRpcCallback ::
  "('g, 'w) optee_services \<Rightarrow> ARM_SMC_ARGS \<Rightarrow> ('g, 'w) optee \<Rightarrow> ((u32 \<times> ARM_SMC_ARGS) \<times> ('g, 'w) optee) option" where
  "OpteeRpcCallback S args s = do {
     ASSERT (AssertStops (Pcd S)) (OPTEE_SMC_RETURN_IS_RPC (Arg0 args));
     ((TeecResult, args), s) \<leftarrow>
       (let func = OPTEE_SMC_RETURN_GET_RPC_FUNC (Arg0 args) in
        if func = 0 then OpteeRpcAlloc S args s
        else if func = 2 then Some (OpteeRpcFree S args s)
        else if func = 4 then Some ((TEEC_SUCCESS, args), s)
        else if func = 5 then do {
          (TeecResult, s) \<leftarrow> OpteeRpcCmd S (ADDRESS64 (ucast (Arg1 args)) (ucast (Arg2 args))) s;
          Some ((TeecResult, args), s)
        }
        else do { ASSERT (AssertStops (Pcd S)) False; Some ((TEEC_ERROR_NOT_IMPLEMENTED, args), s) });
     Some ((TeecResult, args\<lparr>Arg0 := OPTEE_SMC_CALL_RETURN_FROM_RPC\<rparr>), s)
   }"

section \<open>Addresses, bytes and time\<close>

lemma ADDRESS64_parts [simp]: "ADDRESS64 (H32 a) (L32 a) = a"
  by (rule bit_word_eqI) (auto simp: ADDRESS64_def H32_def L32_def bit_simps)

lemma ADDRESS64_halves [simp]: "H32 (ADDRESS64 h l) = h" "L32 (ADDRESS64 h l) = l"
  by (rule bit_word_eqI; auto simp: ADDRESS64_def H32_def L32_def bit_simps dest: bit_imp_le_length)+

lemma ucast_half [simp]: "ucast (ucast (x :: u32) :: u64) = x"
  by (rule bit_word_eqI) (simp add: bit_simps)

text \<open>The time in seconds and nanoseconds is exact as long as the product with 10^9 fits in 64 bits.\<close>

lemma time_split: "0 < f \<Longrightarrow> t * n div f = (t mod f) * n div f + t div f * n" for t n f :: nat
proof -
  assume f: "0 < f"
  have "t * n = (t mod f) * n + t div f * n * f"
    by (metis add_mult_distrib mod_mult_div_eq mult.commute mult.left_commute add.commute)
  then show ?thesis using f by (simp add: div_mult_self1)
qed

lemma nat_word: "unat w = n \<Longrightarrow> w = word_of_nat n" for w :: u64
  by auto

lemma RpcTime_nat:
  assumes "unat Ticks * 1000000000 < 2 ^ 64" and "Freq \<noteq> 0"
  shows "RpcTime Ticks Freq = (Ticks div Freq, word_of_nat (unat Ticks mod unat Freq * 1000000000 div unat Freq))"
proof -
  let ?t = "unat Ticks" and ?f = "unat Freq"
  have f: "0 < ?f" using assms(2) by (simp add: unat_gt_0)
  have p: "unat (Ticks * 1000000000) = ?t * 1000000000" using assms(1) by (simp add: unat_word_ariths)
  have "?t div ?f * 1000000000 \<le> ?t * 1000000000" by simp
  then have "?t div ?f * 1000000000 < 2 ^ 64" using assms(1) by linarith
  then have q: "unat (Ticks div Freq * 1000000000) = ?t div ?f * 1000000000"
    by (simp add: unat_word_ariths(2) unat_div)
  have "unat (Ticks * 1000000000 div Freq) = ?t mod ?f * 1000000000 div ?f + ?t div ?f * 1000000000"
    unfolding unat_div p by (rule time_split[OF f])
  then have "unat (Ticks * 1000000000 div Freq - Ticks div Freq * 1000000000) = ?t mod ?f * 1000000000 div ?f"
    by (simp add: unat_sub_if' q)
  then have "Ticks * 1000000000 div Freq - Ticks div Freq * 1000000000 = word_of_nat (?t mod ?f * 1000000000 div ?f)"
    by (intro nat_word) simp
  then show ?thesis by (simp add: RpcTime_def)
qed

section \<open>Requests that the client serves\<close>

definition room :: "block set \<Rightarrow> u64 \<Rightarrow> nat \<Rightarrow> bool" where
  "room H p n \<longleftrightarrow> (\<forall>i < n. \<exists>q \<in> H. user_area q (p + word_of_nat i))"

definition writes :: "block set \<Rightarrow> memory \<Rightarrow> memory \<Rightarrow> bool" where
  "writes H m m' \<longleftrightarrow> (\<forall>x. m' x \<noteq> m x \<longrightarrow> (\<exists>q \<in> H. user_area q x))"

lemma writes_refl: "writes H m m"
  by (simp add: writes_def)

lemma writes_trans: "writes H m m' \<Longrightarrow> writes H m' m'' \<Longrightarrow> writes H m m''"
  unfolding writes_def by metis

lemma room_at:
  assumes "room H p n" and "unat (x - (p + word_of_nat off)) < k" and "off + k \<le> n"
  shows "\<exists>q \<in> H. user_area q x"
proof -
  let ?j = "unat (x - (p + word_of_nat off))"
  have "off + ?j < n" using assms(2,3) by linarith
  from assms(1)[unfolded room_def, rule_format, OF this] show ?thesis by simp
qed

lemma writes_wr:
  assumes "room H p n" and "off + k \<le> n" and "k < 2 ^ 64"
  shows "writes H m (wr k v (p + word_of_nat off) m)"
  unfolding writes_def
proof (intro allI impI)
  fix x assume "wr k v (p + word_of_nat off) m x \<noteq> m x"
  then have "x - (p + word_of_nat off) < word_of_nat k" by (auto simp: wr_def split: if_splits)
  then have "unat (x - (p + word_of_nat off)) < k" using assms(3) by (simp add: word_less_nat_alt unat_word_of_nat64)
  from room_at[OF assms(1) this assms(2)] show "\<exists>q \<in> H. user_area q x" .
qed

lemma writes_StoreBytes: "room H p n \<Longrightarrow> length xs \<le> n \<Longrightarrow> writes H m (StoreBytes xs p m)"
  unfolding writes_def StoreBytes_def using room_at[of H p n _ 0 "length xs"] by auto

lemma room_0:
  assumes "room H p n" and "0 < n"
  shows "p \<noteq> 0"
proof -
  obtain q where "user_area q p" using assms(1)[unfolded room_def, rule_format, OF assms(2)] by auto
  then have "4096 \<le> unat p" by (simp add: user_area_def)
  then show ?thesis by auto
qed

lemma shm_ok_writes:
  assumes "shm_ok pcd blocks s" and "region_ok pcd" and "writes (held pcd blocks s) (Memory s) m"
    and "blocks (Gcd s') = blocks (Gcd s)" "gDriverImageHandle s' = gDriverImageHandle s"
    "mSharedMemAllocationCount s' = mSharedMemAllocationCount s" "mSharedMemAllocSize s' = mSharedMemAllocSize s" "Memory s' = m"
  shows "held pcd blocks s' = held pcd blocks s \<and> shm_ok pcd blocks s'"
  using assms(3) by (intro shm_ok_cong[OF assms(1,2,4-7)]) (auto simp: assms(8) writes_def)

text \<open>
  A request for the RPMB partition: the protocol is not there, or its member that the request is for returns and writes to the packets of its
  response only, which are in blocks that the secure world may use.
\<close>

definition RpmbCall ::
  "'w EFI_RPMB_IO_PROTOCOL \<Rightarrow> u64 \<Rightarrow> u64 \<Rightarrow> memory \<Rightarrow> 'w \<Rightarrow> ((EFI_STATUS \<times> buffer) \<times> 'w) option" where
  "RpmbCall Protocol Req Response m w =
    (let Request = Req + 6; This = RpmbProtocolAddress Protocol; t = RpcRpmbBytesToUint16 m (Request + 510) in
     if t = EFI_RPMB_REQUEST_PROGRAM_KEY then ProgramKey Protocol This (Request, packet m Request) (Response, packet m Response) w
     else if t = EFI_RPMB_REQUEST_COUNTER_VALUE
     then ReadCounter Protocol This (Request, packet m Request) (Response, packet m Response) w
     else if t = EFI_RPMB_REQUEST_AUTH_WRITE
     then AuthenticatedWrite Protocol This
       (1, \<lparr>Packets = Request, PacketCount = ucast (RpcRpmbBytesToUint16 m (Request + 506)), Contents = packet m Request\<rparr>)
       (Response, packet m Response) w
     else AuthenticatedRead Protocol This (Request, packet m Request)
       (1, \<lparr>Packets = Response, PacketCount = ucast (rd 2 m (Req + 4) :: u16), Contents = packet m Response\<rparr>) w)"

definition RpmbResponseSize :: "memory \<Rightarrow> u64 \<Rightarrow> nat" where
  "RpmbResponseSize m Req =
    (if RpcRpmbBytesToUint16 m (Req + 6 + 510) = EFI_RPMB_REQUEST_AUTH_READ then 512 * unat (rd 2 m (Req + 4) :: u16) else 512)"

definition answered :: "((EFI_STATUS \<times> buffer) \<times> 'w) option \<Rightarrow> nat \<Rightarrow> buffer \<Rightarrow> bool" where
  "answered r n b \<longleftrightarrow> (\<exists>Status b' w. r = Some ((Status, b'), w) \<and> (\<forall>i \<ge> n. b' i = b i))"

definition rpmb_request_ok :: "('g, 'w) optee_services \<Rightarrow> block set \<Rightarrow> u64 \<Rightarrow> memory \<Rightarrow> 'w \<Rightarrow> bool" where
  "rpmb_request_ok S H p m w \<longleftrightarrow>
    (let stops = AssertStops (Pcd S); ((Status, Protocol), w) = LocateRpmbProtocol S w; Req = param_word m (msg_param p 0) 0;
         Response = param_word m (msg_param p 1) 0; cmd = (rd 2 m Req :: u16)
     in EFI_ERROR Status \<or>
       (if cmd = 0
        then if RpcRpmbBytesToUint16 m (Req + 6 + 510) \<in> {1, 2, 3, 4}
          then room H Response (RpmbResponseSize m Req) \<and>
            answered (RpmbCall Protocol Req Response m w) (RpmbResponseSize m Req) (packet m Response)
          else \<not> stops
        else if cmd = 1 then length (Cid Protocol) = 16 \<and> room H Response 19 else \<not> stops))"

text \<open>
  A well-formed request, with \<open>H\<close> as the blocks that the secure world may use: its message lies in one of them, a buffer that it wants
  filled lies in blocks, it frees only blocks of its own, and not the block of its message. In a debug build it is also of a kind that the
  client knows; a release build answers the others with an error.
\<close>

definition RpcAddress :: "ARM_SMC_ARGS \<Rightarrow> u64" where
  "RpcAddress args = ADDRESS64 (ucast (Arg1 args)) (ucast (Arg2 args))"

definition msg_ok :: "('g, 'w) optee_services \<Rightarrow> block set \<Rightarrow> u64 \<Rightarrow> memory \<Rightarrow> 'w \<Rightarrow> bool" where
  "msg_ok S H p m w \<longleftrightarrow> (\<exists>q \<in> H. room {q} p 64 \<and>
     (let stops = AssertStops (Pcd S); cmd = msg_cmd m p; a = param_word m (msg_param p 0) 0; b = param_word m (msg_param p 0) 1;
          c = param_word m (msg_param p 0) 2 in
      if cmd = 0 then room {q} p 96 \<and> room H (param_word m (msg_param p 1) 0) (unat (param_word m (msg_param p 1) 1))
      else if cmd = 1 then rpmb_request_ok S H p m w
      else if cmd = 3 then PerformanceCounterFrequency S \<noteq> 0
      else if cmd = 4 then stops \<longrightarrow> a \<le> 1
      else if cmd = 6 then size_fits b \<and> (stops \<longrightarrow> a \<le> 1 \<and> (c = 0 \<or> IsPowerOf2 c \<and> c \<le> OPTEE_SHM_ALLOC_ALIGN))
      else if cmd = 7 then (stops \<longrightarrow> a \<le> 1) \<and> (\<exists>r \<in> H. r \<noteq> q \<and> b = user_ptr r)
      else \<not> stops))"

definition request_ok :: "('g, 'w) optee_services \<Rightarrow> block set \<Rightarrow> ARM_SMC_ARGS \<Rightarrow> memory \<Rightarrow> 'w \<Rightarrow> bool" where
  "request_ok S H args m w \<longleftrightarrow>
     (let func = OPTEE_SMC_RETURN_GET_RPC_FUNC (Arg0 args) in
      if func = 0 then size_fits (Arg1 args)
      else if func = 2 then \<exists>q \<in> H. RpcAddress args = user_ptr q
      else if func = 4 then True
      else if func = 5 then msg_ok S H (RpcAddress args) m w
      else \<not> AssertStops (Pcd S))"

text \<open>
  The environment: the GCD keeps its contract, also on where reserved memory comes from. The state: sound shared memory, in a region that is
  the only reserved memory up to its end.
\<close>

definition env_ok :: "('g, 'w) optee_services \<Rightarrow> ('g \<Rightarrow> block set) \<Rightarrow> ('g \<Rightarrow> u64 set) \<Rightarrow> bool" where
  "env_ok S blocks reserved \<longleftrightarrow>
     gcd_contract (GcdServices S) blocks \<and> gcd_spaces (GcdServices S) reserved \<and> region_ok (Pcd S)"

definition shm_in :: "('g, 'w) optee_services \<Rightarrow> ('g \<Rightarrow> block set) \<Rightarrow> ('g \<Rightarrow> u64 set) \<Rightarrow> ('g, 'w) optee \<Rightarrow> bool" where
  "shm_in S blocks reserved s \<longleftrightarrow> shm_ok (Pcd S) blocks s \<and> only_region (Pcd S) (reserved (Gcd s))"

lemma env_okD:
  assumes "env_ok S blocks reserved"
  shows "gcd_contract (GcdServices S) blocks" and "region_ok (Pcd S)" and "gcd_spaces (GcdServices S) reserved"
  using assms by (simp_all add: env_ok_def)

lemma shm_inD:
  assumes "shm_in S blocks reserved s" shows "shm_ok (Pcd S) blocks s" and "only_region (Pcd S) (reserved (Gcd s))"
  using assms by (simp_all add: shm_in_def)

lemma env_placed: "env_ok S blocks reserved \<Longrightarrow> shm_in S blocks reserved s \<Longrightarrow> placed (Pcd S) (GcdServices S) reserved (Gcd s)"
  by (simp add: placed_def env_ok_def shm_in_def)

text \<open>Allocation in such an environment.\<close>

lemma env_alloc:
  assumes e: "env_ok S blocks reserved" and h: "shm_in S blocks reserved s" and f: "size_fits n"
    and al: "AssertStops (Pcd S) \<Longrightarrow> ByteAlignment = 0 \<or> IsPowerOf2 ByteAlignment \<and> ByteAlignment \<le> OPTEE_SHM_ALLOC_ALIGN"
  obtains p s' where "InternalMemAlloc (Pcd S) (GcdServices S) n ByteAlignment s = Some (p, s')" "shm_in S blocks reserved s'"
    "held (Pcd S) blocks s \<subseteq> held (Pcd S) blocks s'"
    "\<And>q x. q \<in> held (Pcd S) blocks s \<Longrightarrow> user_area q x \<Longrightarrow> Memory s' x = Memory s x"
proof -
  note ok = env_okD[OF e] and hs = shm_inD[OF h]
  note pl = placed_answers[OF ok(1,2) f env_placed[OF e h]]
  obtain Status b g where a: "AllocateMemorySpace (GcdServices S) EfiGcdAllocateMaxAddressSearchTopDown 12 (n + 4127)
      (OPTEE_SHM_END (Pcd S)) (Gcd s) = ((Status, b), g)"
    by (metis prod.exhaust)
  have "n + 4127 \<noteq> 0" using unat_BlockSize[OF f] by auto
  then have i: "\<not> EFI_ERROR Status \<Longrightarrow> inside (Pcd S) (b, n + 4127)"
    using spaces_inside[OF ok(1,2,3) hs(2), of "n + 4127"] a by (auto simp: answers_in_def)
  obtain p s' where run: "InternalMemAlloc (Pcd S) (GcdServices S) n ByteAlignment s = Some (p, s')"
  proof (cases "ByteAlignment = 0 \<or> IsPowerOf2 ByteAlignment \<and> ByteAlignment \<le> OPTEE_SHM_ALLOC_ALIGN")
    case True
    then show ?thesis using InternalMemAlloc_returns[OF ok(1,2) f hs(1) True a i] that by auto
  next
    case False
    then have "\<not> AssertStops (Pcd S)" using al by blast
    with False have "InternalMemAlloc (Pcd S) (GcdServices S) n ByteAlignment s = Some (0, s)"
      unfolding InternalMemAlloc_def by (subst if_P) (auto simp: not_le ASSERT_def)
    then show ?thesis using that by blast
  qed
  have o: "only_region (Pcd S) (reserved (Gcd s'))" using alloc_Gcd[OF run ok(3)] hs(2) by simp
  from ok(1,2) f hs(1) pl run show thesis
  proof (cases rule: InternalMemAlloc_cases)
    case full
    then show thesis using that[OF run] o by (auto simp: shm_in_def)
  next
    case (block q)
    have "\<not> covers q x" if "r \<in> held (Pcd S) blocks s" "user_area r x" for r x
    proof -
      have "apart r q" using shm_okD(3)[OF block(6), of r q] that(1) block(4,5) by blast
      then show ?thesis using apart_covers user_covers[OF that(2)] by blast
    qed
    then show thesis using block that[OF run] o by (metis insertCI shm_in_def subsetI)
  qed
qed

text \<open>A chain of conditions, case by case.\<close>

lemma if_chain:
  assumes "if c = c0 then P0 else if c = c1 then P1 else if c = c2 then P2 else if c = c3 then P3 else if c = c4 then P4 else if c = c5 then P5 else P6"
  obtains "c = c0" P0 | "c = c1" P1 | "c = c2" P2 | "c = c3" P3 | "c = c4" P4 | "c = c5" P5 | "c \<notin> {c0, c1, c2, c3, c4, c5}" P6
  using assms by (metis empty_iff insert_iff)

text \<open>The stores to a message, as stores at an offset.\<close>

lemma set_param_attr_at: "set_param_attr (msg_param p j) v m = wr 8 v (p + word_of_nat (32 + 32 * j)) m"
  by (simp add: set_param_attr_def msg_param_def add.assoc)

lemma set_param_word_at: "set_param_word (msg_param p j) i v m = wr 8 v (p + word_of_nat (40 + 32 * j + 8 * i)) m"
  by (simp add: set_param_word_def msg_param_def add.assoc add.left_commute)

lemma set_msg_ret_at: "set_msg_ret p v m = wr 4 v (p + word_of_nat 20) m" "set_msg_ret_origin p v m = wr 4 v (p + word_of_nat 24) m"
  by (simp_all add: set_msg_ret_def set_msg_ret_origin_def)

lemma writes_msg:
  "room H p n \<Longrightarrow> 24 \<le> n \<Longrightarrow> writes H m (set_msg_ret p v m)"
  "room H p n \<Longrightarrow> 28 \<le> n \<Longrightarrow> writes H m (set_msg_ret_origin p v m)"
  "room H p n \<Longrightarrow> 40 + 32 * j \<le> n \<Longrightarrow> writes H m (set_param_attr (msg_param p j) a m)"
  "room H p n \<Longrightarrow> 48 + (32 * j + 8 * i) \<le> n \<Longrightarrow> writes H m (set_param_word (msg_param p j) i w m)"
  unfolding set_param_attr_at set_param_word_at set_msg_ret_at by (rule writes_wr; simp)+

lemma writes_mono: "writes H m m' \<Longrightarrow> H \<subseteq> K \<Longrightarrow> writes K m m'"
  unfolding writes_def by blast

lemma shm_ok_store:
  fixes s :: "('g, 'w) optee"
  assumes "env_ok S blocks reserved" and "shm_in S blocks reserved s" and "H \<subseteq> held (Pcd S) blocks s" and "writes H (Memory s) m"
  shows "held (Pcd S) blocks (s\<lparr>Memory := m\<rparr>) = held (Pcd S) blocks s" and "shm_in S blocks reserved (s\<lparr>Memory := m\<rparr>)"
    and "held (Pcd S) blocks (s\<lparr>World := w, Memory := m\<rparr>) = held (Pcd S) blocks s"
    and "shm_in S blocks reserved (s\<lparr>World := w, Memory := m\<rparr>)"
  using shm_ok_writes[OF shm_inD(1)[OF assms(2)] env_okD(2)[OF assms(1)] writes_mono[OF assms(4,3)], of "s\<lparr>Memory := m\<rparr>"]
    shm_ok_writes[OF shm_inD(1)[OF assms(2)] env_okD(2)[OF assms(1)] writes_mono[OF assms(4,3)], of "s\<lparr>World := w, Memory := m\<rparr>"]
    shm_inD(2)[OF assms(2)]
  by (simp_all add: shm_in_def)

text \<open>Every command of a well-formed request returns and keeps the memory sound, with the blocks \<open>K\<close> that it must not free.\<close>

definition serves :: "('g, 'w) optee_services \<Rightarrow> ('g \<Rightarrow> block set) \<Rightarrow> ('g \<Rightarrow> u64 set) \<Rightarrow> block set \<Rightarrow> ('r \<times> ('g, 'w) optee) option \<Rightarrow> bool" where
  "serves S blocks reserved K r \<longleftrightarrow> (\<exists>x s'. r = Some (x, s') \<and> shm_in S blocks reserved s' \<and> K \<subseteq> held (Pcd S) blocks s')"

lemma servesI: "shm_in S blocks reserved s' \<Longrightarrow> K \<subseteq> held (Pcd S) blocks s' \<Longrightarrow> serves S blocks reserved K (Some (x, s'))"
  by (simp add: serves_def)

lemma CmdExit_serves:
  assumes e: "env_ok S blocks reserved" and h: "shm_in S blocks reserved s" and K: "K \<subseteq> held (Pcd S) blocks s" "q \<in> K" and r: "room {q} p 64"
  shows "serves S blocks reserved K (Some (CmdExit p x s))"
proof -
  have "writes {q} (Memory s) (set_msg_ret_origin p TEEC_ORIGIN_API (set_msg_ret p x (Memory s)))"
    by (rule writes_trans[OF writes_msg(1)[OF r] writes_msg(2)[OF r]]) simp_all
  from shm_ok_store(1,2)[OF e h _ this] K show ?thesis
    unfolding CmdExit_def by (intro servesI) auto
qed

lemma OpteeRpcCmdLoadTa_serves:
  assumes e: "env_ok S blocks reserved" and h: "shm_in S blocks reserved s" and K: "K \<subseteq> held (Pcd S) blocks s" "q \<in> K"
    and r: "room {q} p 96" and H: "H \<subseteq> held (Pcd S) blocks s"
    and b: "room H (param_word (Memory s) (msg_param p 1) 0) (unat (param_word (Memory s) (msg_param p 1) 1))"
  shows "serves S blocks reserved K (Some (OpteeRpcCmdLoadTa S p s))"
proof -
  have r64: "room {q} p 64" using r by (simp add: room_def)
  obtain Status Image w where g: "GetSectionFromAnyFv S (TaGuid (Memory s) (msg_param p 0 + 8)) (World s) = ((Status, Image), w)"
    by (metis prod.exhaust)
  have ex: "serves S blocks reserved K (Some (CmdExit p x (s\<lparr>World := w, Memory := m\<rparr>)))" if "writes (held (Pcd S) blocks s) (Memory s) m" for x m
    using shm_ok_store(3,4)[OF e h order_refl that, of w] by (intro CmdExit_serves[OF e _ _ K(2) r64]) (use K(1) in auto)
  have "writes (held (Pcd S) blocks s) (Memory s) (set_param_word (msg_param p 1) 1 v (Memory s))" for v
    by (rule writes_mono[OF writes_msg(4)[OF r]]) (use K in auto)
  moreover have "writes (held (Pcd S) blocks s) (Memory s) (StoreBytes Image (param_word (Memory s) (msg_param p 1) 0) (Memory s))"
    if "length Image \<le> unat (param_word (Memory s) (msg_param p 1) 1)"
    by (rule writes_mono[OF writes_StoreBytes[OF b that] H])
  moreover have "serves S blocks reserved K (Some (CmdExit p x s))" for x
    by (rule CmdExit_serves[OF e h K r64])
  moreover have "serves S blocks reserved K (Some (CmdExit p x (s\<lparr>World := w\<rparr>)))" for x
    using ex[OF writes_refl, of x] by simp
  ultimately show ?thesis
    using ex g by (auto simp: OpteeRpcCmdLoadTa_def Let_def)
qed

lemma le_one: "a \<le> 1 \<Longrightarrow> a = 0 \<or> a = 1" for a :: u64
  by (auto simp: word_le_nat_alt word_unat_eq_iff)

lemma OpteeRpcCmdGetTime_serves:
  assumes e: "env_ok S blocks reserved" and h: "shm_in S blocks reserved s" and K: "K \<subseteq> held (Pcd S) blocks s" "q \<in> K"
    and r: "room {q} p 64" and f: "PerformanceCounterFrequency S \<noteq> 0"
  shows "serves S blocks reserved K (OpteeRpcCmdGetTime S p s)"
proof -
  obtain Ticks w where t: "GetPerformanceCounter S (World s) = (Ticks, w)" by fastforce
  obtain x y where xy: "RpcTime Ticks (PerformanceCounterFrequency S) = (x, y)" by fastforce
  have "writes {q} (Memory s) (set_param_word (msg_param p 0) 1 y (set_param_word (msg_param p 0) 0 x (Memory s)))"
    by (rule writes_trans[OF writes_msg(4)[OF r] writes_msg(4)[OF r]]) simp_all
  note w = shm_ok_store(3,4)[OF e h _ this, of w]
  show ?thesis
    using h K w f t xy by (auto simp: OpteeRpcCmdGetTime_def Let_def intro!: servesI)
qed

lemma OpteeRpcCmdWaitQueue_serves:
  assumes "shm_in S blocks reserved s" and "K \<subseteq> held (Pcd S) blocks s"
    and "AssertStops (Pcd S) \<longrightarrow> param_word (Memory s) (msg_param p 0) 0 \<le> 1"
  shows "serves S blocks reserved K (OpteeRpcCmdWaitQueue (AssertStops (Pcd S)) p s)"
proof -
  have "AssertStops (Pcd S) \<longrightarrow> param_word (Memory s) (msg_param p 0) 0 = 0 \<or> param_word (Memory s) (msg_param p 0) 0 = 1"
    using assms(3) le_one by blast
  then show ?thesis
    using assms by (cases "AssertStops (Pcd S)") (auto simp: OpteeRpcCmdWaitQueue_def Let_def intro!: servesI)
qed

text \<open>A memory type that is not known is an error, but not the end.\<close>

lemma type_check:
  assumes "AssertStops (Pcd S) \<longrightarrow> a \<le> 1"
  obtains r where "(if a = 0 \<or> a = (1 :: u64) then Some TEEC_SUCCESS
      else do { ASSERT (AssertStops (Pcd S)) False; Some TEEC_ERROR_BAD_PARAMETERS }) = Some r"
proof (cases "a = 0 \<or> a = 1")
  case True
  then show thesis using that[of TEEC_SUCCESS] by simp
next
  case False
  then have "\<not> AssertStops (Pcd S)" using assms le_one[of a] by blast
  then show thesis using that[of TEEC_ERROR_BAD_PARAMETERS] False by simp
qed

lemma OpteeRpcCmdShmAlloc_serves:
  assumes e: "env_ok S blocks reserved" and h: "shm_in S blocks reserved s" and K: "K \<subseteq> held (Pcd S) blocks s" "q \<in> K"
    and r: "room {q} p 64" and f: "size_fits (param_word (Memory s) (msg_param p 0) 1)"
    and a: "AssertStops (Pcd S) \<longrightarrow> param_word (Memory s) (msg_param p 0) 0 \<le> 1"
    and c: "AssertStops (Pcd S) \<Longrightarrow> param_word (Memory s) (msg_param p 0) 2 = 0 \<or>
      IsPowerOf2 (param_word (Memory s) (msg_param p 0) 2) \<and> param_word (Memory s) (msg_param p 0) 2 \<le> OPTEE_SHM_ALLOC_ALIGN"
  shows "serves S blocks reserved K (OpteeRpcCmdShmAlloc S p s)"
proof -
  let ?q = "msg_param p 0"
  obtain t where t: "(if param_word (Memory s) ?q 0 = 0 \<or> param_word (Memory s) ?q 0 = 1 then Some TEEC_SUCCESS
      else do { ASSERT (AssertStops (Pcd S)) False; Some TEEC_ERROR_BAD_PARAMETERS }) = Some t"
    by (rule type_check[OF a])
  obtain B s1 where A: "InternalMemAlloc (Pcd S) (GcdServices S) (param_word (Memory s) ?q 1) (param_word (Memory s) ?q 2) s = Some (B, s1)"
    and s1: "shm_in S blocks reserved s1" "held (Pcd S) blocks s \<subseteq> held (Pcd S) blocks s1"
    using env_alloc[OF e h f c] by metis
  let ?m = "set_param_word ?q 2 B (set_param_word ?q 1 (param_word (Memory s) ?q 1) (set_param_word ?q 0 B
      (set_param_attr ?q OPTEE_MSG_ATTR_TYPE_TMEM_OUTPUT (Memory s1))))"
  have "writes {q} (Memory s1) ?m"
    by (rule writes_trans[OF writes_trans[OF writes_trans[OF writes_msg(3)[OF r] writes_msg(4)[OF r]] writes_msg(4)[OF r]]
        writes_msg(4)[OF r]]) simp_all
  note w = shm_ok_store(1,2)[OF e s1(1) _ this]
  show ?thesis
    using h K s1 w A unfolding OpteeRpcCmdShmAlloc_def OpteeClientAlignedMemAlloc_def Let_def t
    by (auto intro!: servesI)
qed

lemma free_serves:
  assumes e: "env_ok S blocks reserved" and h: "shm_in S blocks reserved s" and K: "K \<subseteq> held (Pcd S) blocks s"
    and q: "q \<in> held (Pcd S) blocks s" "q \<notin> K"
  obtains Status s' where "OpteeClientMemFree (GcdServices S) (user_ptr q) s = (Status, s')" "shm_in S blocks reserved s'"
    "K \<subseteq> held (Pcd S) blocks s'"
proof -
  obtain Status s' where f: "OpteeClientMemFree (GcdServices S) (user_ptr q) s = (Status, s')" "shm_ok (Pcd S) blocks s'"
    "held (Pcd S) blocks s' = held (Pcd S) blocks s - {q}"
    using OpteeClientMemFree_block[OF env_okD(1,2)[OF e] shm_inD(1)[OF h] q(1)] by metis
  have "shm_in S blocks reserved s'" using f(2) free_Gcd[OF f(1) env_okD(3)[OF e]] shm_inD(2)[OF h] by (simp add: shm_in_def)
  then show thesis using that[OF f(1)] f(3) K q(2) by blast
qed

lemma OpteeRpcCmdShmFree_serves:
  assumes e: "env_ok S blocks reserved" and h: "shm_in S blocks reserved s" and K: "K \<subseteq> held (Pcd S) blocks s"
    and a: "AssertStops (Pcd S) \<longrightarrow> param_word (Memory s) (msg_param p 0) 0 \<le> 1"
    and b: "param_word (Memory s) (msg_param p 0) 1 = user_ptr q" "q \<in> held (Pcd S) blocks s" "q \<notin> K"
  shows "serves S blocks reserved K (OpteeRpcCmdShmFree S p s)"
proof -
  let ?q = "msg_param p 0"
  obtain t where t: "(if param_word (Memory s) ?q 0 = 0 \<or> param_word (Memory s) ?q 0 = 1 then Some TEEC_SUCCESS
      else do { ASSERT (AssertStops (Pcd S)) False; Some TEEC_ERROR_BAD_PARAMETERS }) = Some t"
    by (rule type_check[OF a])
  obtain Status s' where f: "OpteeClientMemFree (GcdServices S) (user_ptr q) s = (Status, s')" "shm_in S blocks reserved s'"
    "K \<subseteq> held (Pcd S) blocks s'"
    by (rule free_serves[OF e h K b(2,3)])
  show ?thesis
    using h K b f unfolding OpteeRpcCmdShmFree_def Let_def t by (auto intro!: servesI)
qed

text \<open>A request for the RPMB partition.\<close>

lemma writes_packet:
  assumes "room H Response n" and "\<forall>i \<ge> n. b i = packet m Response i"
  shows "writes H m (set_packet Response b)"
  unfolding writes_def
proof (intro allI impI)
  fix x assume x: "set_packet Response b x \<noteq> m x"
  have "packet m Response (unat (x - Response)) = m x" by (simp add: packet_def)
  then have "unat (x - Response) < n" using x assms(2) by (metis not_le set_packet_def)
  then show "\<exists>q \<in> H. user_area q x" using room_at[OF assms(1), of x 0] by simp
qed

lemma writes_RpmbDevInfo:
  assumes "room H a 19" and "length (Cid Protocol) = 16"
  shows "writes H m (RpmbDevInfo Protocol a m)"
  unfolding writes_def
proof (intro allI impI)
  fix x assume x: "RpmbDevInfo Protocol a m x \<noteq> m x"
  have k: "unat (x - a) < 19" if "x = a + word_of_nat k" "k < 19" for k
    using that by (simp add: unat_word_of_nat64)
  have "unat (x - a) < 19"
    using x k[of 17] k[of 16] k[of 18] assms(2) by (auto simp: RpmbDevInfo_def StoreBytes_def split: if_splits)
  then show "\<exists>q \<in> H. user_area q x" using room_at[OF assms(1), of x 0] by simp
qed

lemma RpmbDataRequest_call:
  assumes "RpcRpmbBytesToUint16 (Memory s) (Req + 6 + 510) \<in> {1, 2, 3, 4}"
  shows "RpmbDataRequest stops Protocol p Req Response s = RpmbReply p Response s (RpmbCall Protocol Req Response (Memory s) (World s))"
  using assms by (auto simp: RpmbDataRequest_def RpmbCall_def Let_def)

lemma OpteeRpcCmdRpmb_serves:
  assumes e: "env_ok S blocks reserved" and h: "shm_in S blocks reserved s" and K: "K \<subseteq> held (Pcd S) blocks s" "q \<in> K"
    and r: "room {q} p 64" and H: "H \<subseteq> held (Pcd S) blocks s" and ok: "rpmb_request_ok S H p (Memory s) (World s)"
  shows "serves S blocks reserved K (OpteeRpcCmdRpmb S p s)"
proof -
  obtain Status Protocol w where l: "LocateRpmbProtocol S (World s) = ((Status, Protocol), w)" by (metis prod.exhaust)
  let ?Req = "param_word (Memory s) (msg_param p 0) 0" and ?Response = "param_word (Memory s) (msg_param p 1) 0"
  let ?cmd = "rd 2 (Memory s) ?Req :: u16" and ?s = "s\<lparr>World := w\<rparr>" and ?n = "RpmbResponseSize (Memory s) ?Req"
  have ex: "serves S blocks reserved K (Some (CmdExit p x (s\<lparr>World := v, Memory := m\<rparr>)))" if "writes (held (Pcd S) blocks s) (Memory s) m" for x v m
    using shm_ok_store(3,4)[OF e h order_refl that, of v] by (intro CmdExit_serves[OF e _ _ K(2) r]) (use K(1) in auto)
  have plain: "serves S blocks reserved K (Some (CmdExit p x s))" for x
    by (rule CmdExit_serves[OF e h K r])
  have world: "serves S blocks reserved K (Some (CmdExit p x ?s))" for x
    using ex[OF writes_refl, of x w] by simp
  have handled: "serves S blocks reserved K
      (if ?cmd = 0 then RpmbDataRequest (AssertStops (Pcd S)) Protocol p ?Req ?Response ?s
       else if ?cmd = 1 then Some (CmdExit p TEEC_SUCCESS (?s\<lparr>Memory := RpmbDevInfo Protocol ?Response (Memory s)\<rparr>))
       else do { ASSERT (AssertStops (Pcd S)) False; Some (CmdExit p TEEC_ERROR_NOT_SUPPORTED ?s) })" if "\<not> EFI_ERROR Status"
  proof -
    note ok' = ok[unfolded rpmb_request_ok_def l Let_def prod.case, simplified that simp_thms]
    consider (data) "?cmd = 0" "RpcRpmbBytesToUint16 (Memory s) (?Req + 6 + 510) \<in> {1, 2, 3, 4}" "room H ?Response ?n"
        "answered (RpmbCall Protocol ?Req ?Response (Memory s) w) ?n (packet (Memory s) ?Response)"
      | (other) "?cmd = 0" "RpcRpmbBytesToUint16 (Memory s) (?Req + 6 + 510) \<notin> {1, 2, 3, 4}" "\<not> AssertStops (Pcd S)"
      | (info) "?cmd = 1" "length (Cid Protocol) = 16" "room H ?Response 19" | (unknown) "?cmd \<noteq> 0" "?cmd \<noteq> 1" "\<not> AssertStops (Pcd S)"
      using ok' by (auto split: if_splits)
    then show ?thesis
    proof cases
      case data
      obtain Status' b w' where c: "RpmbCall Protocol ?Req ?Response (Memory s) w = Some ((Status', b), w')"
        "\<forall>i \<ge> ?n. b i = packet (Memory s) ?Response i"
        using data(4) by (auto simp: answered_def)
      have wr: "writes (held (Pcd S) blocks s) (Memory s) (set_packet ?Response b)"
        by (rule writes_mono[OF writes_packet[OF data(3) c(2)] H])
      have "RpmbDataRequest (AssertStops (Pcd S)) Protocol p ?Req ?Response ?s =
          RpmbReply p ?Response ?s (RpmbCall Protocol ?Req ?Response (Memory s) w)"
        using RpmbDataRequest_call[of ?s ?Req "AssertStops (Pcd S)" Protocol p ?Response] data(2) by simp
      also have "\<dots> = Some (CmdExit p (if EFI_ERROR Status' then TEEC_ERROR_GENERIC else TEEC_SUCCESS)
          (s\<lparr>World := w', Memory := set_packet ?Response b\<rparr>))"
        unfolding RpmbReply_def c(1) by (cases s) (simp add: CmdExit_def)
      finally show ?thesis using ex[OF wr] data(1) by simp
    next
      case other
      then have "RpmbDataRequest (AssertStops (Pcd S)) Protocol p ?Req ?Response ?s = Some (CmdExit p TEEC_ERROR_BAD_PARAMETERS ?s)"
        by (simp add: RpmbDataRequest_def Let_def)
      then show ?thesis using world other(1) by simp
    next
      case info
      have "writes (held (Pcd S) blocks s) (Memory s) (RpmbDevInfo Protocol ?Response (Memory s))"
        by (rule writes_mono[OF writes_RpmbDevInfo[OF info(3,2)] H])
      from ex[OF this, of TEEC_SUCCESS w] info(1) show ?thesis by simp
    next
      case unknown
      then show ?thesis using world by simp
    qed
  qed
  show ?thesis
    using plain world handled unfolding OpteeRpcCmdRpmb_def l Let_def prod.case by auto
qed

lemma serves_bind:
  assumes "serves S blocks reserved K r" and "\<And>x s'. shm_in S blocks reserved s' \<Longrightarrow> K \<subseteq> held (Pcd S) blocks s' \<Longrightarrow> serves S blocks reserved K (f (x, s'))"
  shows "serves S blocks reserved K (Option.bind r f)"
proof -
  from assms(1) obtain x s' where "r = Some (x, s')" "shm_in S blocks reserved s'" "K \<subseteq> held (Pcd S) blocks s'"
    by (auto simp: serves_def)
  then show ?thesis using assms(2) by simp
qed

lemma serves_mono: "serves S blocks reserved K r \<Longrightarrow> L \<subseteq> K \<Longrightarrow> serves S blocks reserved L r"
  unfolding serves_def by blast

lemma OpteeRpcCmd_serves:
  fixes S :: "('g, 'w) optee_services"
  assumes e: "env_ok S blocks reserved" and h: "shm_in S blocks reserved s" and q0: "K \<subseteq> held (Pcd S) blocks s"
    and ok: "msg_ok S (held (Pcd S) blocks s - K) p (Memory s) (World s)"
  shows "serves S blocks reserved K (OpteeRpcCmd S p s)"
proof -
  let ?H = "held (Pcd S) blocks s - K"
  let ?a = "param_word (Memory s) (msg_param p 0) 0" and ?b = "param_word (Memory s) (msg_param p 0) 1"
    and ?c = "param_word (Memory s) (msg_param p 0) 2" and ?cmd = "msg_cmd (Memory s) p" and ?stops = "AssertStops (Pcd S)"
  obtain q where q: "q \<in> ?H" and r: "room {q} p 64" and cmd:
    "if ?cmd = 0 then room {q} p 96 \<and> room ?H (param_word (Memory s) (msg_param p 1) 0) (unat (param_word (Memory s) (msg_param p 1) 1))
     else if ?cmd = 1 then rpmb_request_ok S ?H p (Memory s) (World s)
     else if ?cmd = 3 then PerformanceCounterFrequency S \<noteq> 0
     else if ?cmd = 4 then ?stops \<longrightarrow> ?a \<le> 1
     else if ?cmd = 6 then size_fits ?b \<and> (?stops \<longrightarrow> ?a \<le> 1 \<and> (?c = 0 \<or> IsPowerOf2 ?c \<and> ?c \<le> OPTEE_SHM_ALLOC_ALIGN))
     else if ?cmd = 7 then (?stops \<longrightarrow> ?a \<le> 1) \<and> (\<exists>r \<in> ?H. r \<noteq> q \<and> ?b = user_ptr r)
     else \<not> ?stops"
    using ok unfolding msg_ok_def Let_def by blast
  let ?K = "insert q K"
  have K': "?K \<subseteq> held (Pcd S) blocks s" "q \<in> ?K" using q q0 by auto
  have p: "p \<noteq> 0" by (rule room_0[OF r]) simp
  have handled: "serves S blocks reserved ?K (let cmd = ?cmd in
          if cmd = 0 then Some (OpteeRpcCmdLoadTa S p s) else if cmd = 1 then OpteeRpcCmdRpmb S p s
          else if cmd = 3 then OpteeRpcCmdGetTime S p s else if cmd = 6 then OpteeRpcCmdShmAlloc S p s
          else if cmd = 7 then OpteeRpcCmdShmFree S p s else if cmd = 4 then OpteeRpcCmdWaitQueue ?stops p s
          else do { ASSERT ?stops False; Some (TEEC_ERROR_NOT_IMPLEMENTED, s) })"
    (is "serves S blocks reserved ?K ?m")
  proof -
    consider
        (ta) "?cmd = 0" "room {q} p 96" "room ?H (param_word (Memory s) (msg_param p 1) 0) (unat (param_word (Memory s) (msg_param p 1) 1))"
      | (rpmb) "?cmd = 1" "rpmb_request_ok S ?H p (Memory s) (World s)"
      | (time) "?cmd = 3" "PerformanceCounterFrequency S \<noteq> 0" | (wait) "?cmd = 4" "?stops \<longrightarrow> ?a \<le> 1"
      | (shm) "?cmd = 6" "size_fits ?b" "?stops \<longrightarrow> ?a \<le> 1" "?stops \<Longrightarrow> ?c = 0 \<or> IsPowerOf2 ?c \<and> ?c \<le> OPTEE_SHM_ALLOC_ALIGN"
      | (shm_free) x where "?cmd = 7" "?stops \<longrightarrow> ?a \<le> 1" "x \<in> ?H" "x \<noteq> q" "?b = user_ptr x"
      | (unknown) "?cmd \<notin> {0, 1, 3, 4, 6, 7}" "\<not> ?stops"
      by (rule if_chain[OF cmd]) blast+
    then show ?thesis
    proof cases
      case ta
      then show ?thesis using OpteeRpcCmdLoadTa_serves[OF e h K' ta(2) _ ta(3)] by simp
    next
      case rpmb
      then show ?thesis using OpteeRpcCmdRpmb_serves[OF e h K' r _ rpmb(2)] by simp
    next
      case time
      then show ?thesis using OpteeRpcCmdGetTime_serves[OF e h K' r] by simp
    next
      case wait
      then show ?thesis using OpteeRpcCmdWaitQueue_serves[OF h K'(1)] by simp
    next
      case shm
      have "serves S blocks reserved ?K (OpteeRpcCmdShmAlloc S p s)"
        by (rule OpteeRpcCmdShmAlloc_serves[OF e h K' r shm(2,3)]) (rule shm(4))
      then show ?thesis using shm(1) by simp
    next
      case (shm_free x)
      then show ?thesis using OpteeRpcCmdShmFree_serves[OF e h K'(1) shm_free(2,5)] by simp
    next
      case unknown
      then show ?thesis using h K'(1) by (auto intro!: servesI)
    qed
  qed
  have "serves S blocks reserved ?K (Option.bind ?m (\<lambda>(TeecResult, s). Some (TeecResult, s\<lparr>Memory := set_msg_ret p TeecResult (Memory s)\<rparr>)))"
  proof (rule serves_bind[OF handled])
    fix x and s' :: "('g, 'w) optee" assume s': "shm_in S blocks reserved s'" "?K \<subseteq> held (Pcd S) blocks s'"
    have "writes {q} (Memory s') (set_msg_ret p x (Memory s'))" by (rule writes_msg(1)[OF r]) simp
    from shm_ok_store(1,2)[OF e s'(1) _ this] s'(2)
    show "serves S blocks reserved ?K (case (x, s') of (x, s) \<Rightarrow> Some (x, s\<lparr>Memory := set_msg_ret p x (Memory s)\<rparr>))"
      by (auto intro!: servesI)
  qed
  then have "serves S blocks reserved K (Option.bind ?m (\<lambda>(TeecResult, s). Some (TeecResult, s\<lparr>Memory := set_msg_ret p TeecResult (Memory s)\<rparr>)))"
    by (rule serves_mono) blast
  then show ?thesis
    unfolding OpteeRpcCmd_def using p by simp
qed

lemma OpteeRpcCallback_serves:
  assumes e: "env_ok S blocks reserved" and h: "shm_in S blocks reserved s" and q0: "K \<subseteq> held (Pcd S) blocks s"
    and rpc: "OPTEE_SMC_RETURN_IS_RPC (Arg0 args)" and ok: "request_ok S (held (Pcd S) blocks s - K) args (Memory s) (World s)"
  shows "serves S blocks reserved K (OpteeRpcCallback S args s)"
proof -
  let ?func = "OPTEE_SMC_RETURN_GET_RPC_FUNC (Arg0 args)"
  let ?m = "let func = ?func in
        if func = 0 then OpteeRpcAlloc S args s
        else if func = 2 then Some (OpteeRpcFree S args s)
        else if func = 4 then Some ((TEEC_SUCCESS, args), s)
        else if func = 5 then do {
          (TeecResult, s) \<leftarrow> OpteeRpcCmd S (ADDRESS64 (ucast (Arg1 args)) (ucast (Arg2 args))) s;
          Some ((TeecResult, args), s)
        }
        else do { ASSERT (AssertStops (Pcd S)) False; Some ((TEEC_ERROR_NOT_IMPLEMENTED, args), s) }"
  consider (alloc) "?func = 0" "size_fits (Arg1 args)"
    | (release) q where "?func = 2" "q \<in> held (Pcd S) blocks s - K" "RpcAddress args = user_ptr q"
    | (intr) "?func = 4"
    | (cmd) "?func = 5" "msg_ok S (held (Pcd S) blocks s - K) (RpcAddress args) (Memory s) (World s)"
    | (unknown) "?func \<notin> {0, 2, 4, 5}" "\<not> AssertStops (Pcd S)"
    using ok unfolding request_ok_def Let_def by (auto split: if_splits)
  then have "serves S blocks reserved K ?m"
  proof cases
    case alloc
    obtain p s' where "InternalMemAlloc (Pcd S) (GcdServices S) (Arg1 args) 16 s = Some (p, s')"
      "shm_in S blocks reserved s'" "held (Pcd S) blocks s \<subseteq> held (Pcd S) blocks s'"
      by (rule env_alloc[OF e h alloc(2), of 16]) (simp_all add: IsPowerOf2_def OPTEE_SHM_ALLOC_ALIGN_def)
    then show ?thesis
      using alloc(1) h q0
      by (auto simp: OpteeRpcAlloc_def OpteeClientMemAlloc_def OPTEE_CLIENT_MEM_BYTE_ALIGNMENT_def intro!: servesI)
  next
    case (release q)
    have "K \<subseteq> held (Pcd S) blocks s" "q \<in> held (Pcd S) blocks s" "q \<notin> K" using release(2) q0 by auto
    then obtain Status s' where "OpteeClientMemFree (GcdServices S) (user_ptr q) s = (Status, s')" "shm_in S blocks reserved s'"
      "K \<subseteq> held (Pcd S) blocks s'"
      by (rule free_serves[OF e h])
    then show ?thesis
      using release(1,3) by (auto simp: OpteeRpcFree_def RpcAddress_def intro!: servesI)
  next
    case intr
    then show ?thesis using h q0 by (auto intro!: servesI)
  next
    case cmd
    have "serves S blocks reserved K (do { (TeecResult, s) \<leftarrow> OpteeRpcCmd S (RpcAddress args) s; Some ((TeecResult, args), s) })"
      by (rule serves_bind[OF OpteeRpcCmd_serves[OF e h q0 cmd(2)]]) (auto intro!: servesI)
    then show ?thesis using cmd(1) by (simp add: RpcAddress_def)
  next
    case unknown
    then show ?thesis using h q0 by (auto intro!: servesI)
  qed
  then have "serves S blocks reserved K (do { ((TeecResult, args), s) \<leftarrow> ?m; Some ((TeecResult, args\<lparr>Arg0 := OPTEE_SMC_CALL_RETURN_FROM_RPC\<rparr>), s) })"
    by (rule serves_bind) (auto intro!: servesI)
  then show ?thesis unfolding OpteeRpcCallback_def using rpc by simp
qed

section \<open>The RPMB protocol of the SD/MMC driver\<close>

definition SdMmcRpmbProtocol :: "'d sdhc_services \<Rightarrow> u64 \<Rightarrow> u8 list \<Rightarrow> u8 \<Rightarrow> u8 \<Rightarrow> 'd SDHC_INSTANCE EFI_RPMB_IO_PROTOCOL" where
  "SdMmcRpmbProtocol E This cid sectors mult =
     \<lparr>RpmbProtocolAddress = This, Cid = cid, ProtocolReliableSectorCount = sectors, ProtocolRpmbSizeMult = mult,
      ProgramKey = RpmbIoProgramKey E, ReadCounter = RpmbIoReadCounter E, AuthenticatedWrite = RpmbIoAuthenticatedWrite E,
      AuthenticatedRead = RpmbIoAuthenticatedRead E\<rparr>"

lemma RpmbType_packet: "RpmbType (packet m a) = RpcRpmbBytesToUint16 m (a + 510)"
  by (simp add: RpmbType_def RpmbBytesToUint16_def RequestOrResponseType_def packet_def RpcRpmbBytesToUint16_def add.assoc)

text \<open>What a request for the RPMB partition in a message asks for.\<close>

definition rpc_request :: "memory \<Rightarrow> u64 \<Rightarrow> EFI_RPMB_DATA_BUFFER" where
  "rpc_request m Req = (let Request = Req + 6 in \<lparr>Packets = Request,
     PacketCount = (if RpcRpmbBytesToUint16 m (Request + 510) = EFI_RPMB_REQUEST_AUTH_WRITE then ucast (RpcRpmbBytesToUint16 m (Request + 506)) else 1),
     Contents = packet m Request\<rparr>)"

definition rpc_response :: "memory \<Rightarrow> u64 \<Rightarrow> u64 \<Rightarrow> EFI_RPMB_DATA_BUFFER" where
  "rpc_response m Req Response = \<lparr>Packets = Response,
     PacketCount = (if RpcRpmbBytesToUint16 m (Req + 6 + 510) = EFI_RPMB_REQUEST_AUTH_READ then ucast (rd 2 m (Req + 4) :: u16) else 1),
     Contents = packet m Response\<rparr>"

lemma unat_u16_less: "unat (ucast (x :: u16) :: u64) < 65536"
  using unsigned_less[where 'a = nat, of x] by (simp add: unsigned_ucast_eq take_bit_nat_eq_self)

lemma RpmbDataRequest_dispatch:
  assumes "This \<noteq> 0" and "Req + 6 \<noteq> 0" and "Response \<noteq> 0" and "RpcRpmbBytesToUint16 (Memory s) (Req + 6 + 510) \<in> {1, 2, 3, 4}"
    and "PacketCount (rpc_request (Memory s) Req) \<noteq> 0" and "PacketCount (rpc_response (Memory s) Req Response) \<noteq> 0"
  shows "RpmbDataRequest stops (SdMmcRpmbProtocol E This cid sectors mult) p Req Response s =
    RpmbReply p Response s (RpmbRequest E (SdhcRecoverFromErrors E) (rpc_request (Memory s) Req)
      (rpc_response (Memory s) Req Response) (World s))"
  using assms
  by (auto simp: RpmbDataRequest_def SdMmcRpmbProtocol_def rpc_request_def rpc_response_def RpmbIoProgramKey_def RpmbIoReadCounter_def
      RpmbIoAuthenticatedWrite_def RpmbIoAuthenticatedRead_def RpmbType_packet Let_def)

section \<open>Identifiers in a message\<close>

definition big_endian :: "u8 list \<Rightarrow> 'a::len word" where
  "big_endian xs = foldl (\<lambda>v x. push_bit 8 v OR ucast x) 0 xs"

lemma bit_big_endian:
  "bit (big_endian xs :: 'a::len word) n \<longleftrightarrow> n < LENGTH('a) \<and> n < 8 * length xs \<and> bit (rev xs ! (n div 8)) (n mod 8)"
proof (induction xs arbitrary: n rule: rev_induct)
  case Nil
  then show ?case by (simp add: big_endian_def)
next
  case (snoc x xs)
  have "big_endian (xs @ [x]) = (push_bit 8 (big_endian xs) OR ucast x :: 'a word)" by (simp add: big_endian_def)
  then show ?case
  proof (cases "n < 8")
    case True
    then show ?thesis using bit_imp_le_length[of x n] by (auto simp: \<open>big_endian (xs @ [x]) = _\<close> bit_simps)
  next
    case False
    then obtain j where n: "n = 8 + j" using le_Suc_ex[of 8 n] by auto
    have d: "(8 + j) div 8 = Suc (j div 8)" by simp
    have "\<not> bit x (8 + j)" using bit_imp_le_length[of x "8 + j"] by auto
    then show ?thesis using snoc.IH[of j] by (auto simp: \<open>big_endian (xs @ [x]) = _\<close> n d bit_simps simp del: div_add_self1)
  qed
qed

lemma rd_big_endian: "rd k m a = big_endian (rev (map (\<lambda>i. m (a + word_of_nat i)) [0..<k]))"
proof (rule bit_word_eqI)
  fix n assume n: "n < LENGTH('a)"
  have "n < 8 * k \<Longrightarrow> n div 8 < k" by auto
  then show "bit (rd k m a :: 'a word) n \<longleftrightarrow> bit (big_endian (rev (map (\<lambda>i. m (a + word_of_nat i)) [0..<k])) :: 'a word) n"
    by (auto simp: bit_rd bit_big_endian)
qed

lemma SWAP_big_endian: "SWAP_B16 (big_endian [x, y]) = big_endian [y, x]"
  "SWAP_B32 (big_endian [w, x, y, z]) = big_endian [z, y, x, w]"
proof -
  have m: "(0xFF00 :: u16) = push_bit 8 (mask 8)" "(0xFF :: u16) = mask 8" "(0xFF000000 :: u32) = push_bit 24 (mask 8)"
    "(0xFF0000 :: u32) = push_bit 16 (mask 8)" "(0xFF00 :: u32) = push_bit 8 (mask 8)" "(0xFF :: u32) = mask 8"
    by (simp_all add: mask_eq_exp_minus_1 push_bit_eq_mult)
  have md: "(16 + n) mod 8 = n mod 8" "(24 + n) mod 8 = n mod 8" for n :: nat by presburger+
  show "SWAP_B16 (big_endian [x, y]) = big_endian [y, x]"
  proof (rule bit_word_eqI)
    fix n assume "n < LENGTH(16)"
    then consider "n < 8" | j where "n = 8 + j" "j < 8" using le_Suc_ex[of 8 n] by (cases "n < 8") (auto simp: not_less)
    then show "bit (SWAP_B16 (big_endian [x, y])) n \<longleftrightarrow> bit (big_endian [y, x] :: u16) n"
      by cases (simp_all add: SWAP_B16_def m bit_big_endian bit_simps)
  qed
  show "SWAP_B32 (big_endian [w, x, y, z]) = big_endian [z, y, x, w]"
  proof (rule bit_word_eqI)
    fix n assume "n < LENGTH(32)"
    then consider "n < 8" | j where "n = 8 + j" "j < 8" | j where "n = 16 + j" "j < 8" | j where "n = 24 + j" "j < 8"
      using le_Suc_ex[of 8 n] le_Suc_ex[of 16 n] le_Suc_ex[of 24 n] by (cases "n < 8"; cases "n < 16"; cases "n < 24") (auto simp: not_less)
    then show "bit (SWAP_B32 (big_endian [w, x, y, z])) n \<longleftrightarrow> bit (big_endian [z, y, x, w] :: u32) n"
      by cases (simp_all add: SWAP_B32_def m bit_big_endian bit_simps md)
  qed
qed

lemma TaGuid_bytes:
  assumes "xs = map (\<lambda>i. m (u + word_of_nat i)) [0..<16]"
  shows "TaGuid m u = \<lparr>Data1 = big_endian (take 4 xs), Data2 = big_endian (take 2 (drop 4 xs)), Data3 = big_endian (take 2 (drop 6 xs)),
    Data4 = big_endian (rev (drop 8 xs))\<rparr>"
  unfolding TaGuid_def rd_big_endian assms by (simp add: upt_conv_Cons SWAP_big_endian add.assoc)

text \<open>The result and the origin lie in the eight bytes at offset 20 of a message.\<close>

lemma message_result_apart:
  assumes "\<not> unat (x - (p + 20)) < 8"
  shows "wr 4 v (p + word_of_nat 24) (wr 4 v' (p + word_of_nat 20) m) x = m x"
proof -
  have "x - (p + 24) = (x - (p + 20)) - 4" by (simp add: algebra_simps)
  moreover have "unat ((x - (p + 20)) - 4) = unat (x - (p + 20)) - 4"
    by (subst unat_sub) (use assms in \<open>simp_all add: word_le_nat_alt\<close>)
  ultimately have "unat (x - (p + 24)) = unat (x - (p + 20)) - 4" by (rule ssubst)
  with assms have "\<not> unat (x - (p + 24)) < 4" by arith
  then show ?thesis using assms unfolding wr_def by (simp add: word_less_nat_alt)
qed

lemma result_outside: "96 \<le> unat (y - p) \<Longrightarrow> \<not> unat (y - (p + 20)) < 8" for y p :: u64
proof -
  assume a: "96 \<le> unat (y - p)"
  have "y - (p + 20) = (y - p) - 20" by (simp add: algebra_simps)
  moreover have "unat ((y - p) - 20) = unat (y - p) - 20"
    by (subst unat_sub) (use a in \<open>simp_all add: word_le_nat_alt\<close>)
  ultimately have "unat (y - (p + 20)) = unat (y - p) - 20" by (rule ssubst)
  with a show ?thesis by arith
qed

section \<open>Properties\<close>

text \<open>C5: A request of the secure world for the RPMB partition goes through the SD/MMC driver to the card: on a card that works, the frames
  of the request in shared memory are sent, the answer of the card is stored at the response of the message, the message reports
  success, and nothing else in memory changes.\<close>

theorem OpteeRpcCmdRpmb_exchange:
  assumes "rpmb_card E Q part cmd count frames answer" and "Q (Device (World s))" and "identified (World s)" and "CurrentMmcPartition (World s) < 8"
    and "\<And>w. LocateRpmbProtocol S w = ((EFI_SUCCESS, SdMmcRpmbProtocol E This cid sectors mult), w)" and "This \<noteq> 0"
    and "msg_num_params (Memory s) p = 2"
    and "OPTEE_MSG_ATTR_GET_TYPE (param_attr (Memory s) (msg_param p 0)) = OPTEE_MSG_ATTR_TYPE_TMEM_INPUT"
    and "OPTEE_MSG_ATTR_GET_TYPE (param_attr (Memory s) (msg_param p 1)) = OPTEE_MSG_ATTR_TYPE_TMEM_OUTPUT"
    and "param_word (Memory s) (msg_param p 0) 0 = Req" and "param_word (Memory s) (msg_param p 1) 0 = Response"
    and "(rd 2 (Memory s) Req :: u16) = 0" and "Req + 6 \<noteq> 0" and "Response \<noteq> 0"
    and "RpcRpmbBytesToUint16 (Memory s) (Req + 6 + 510) \<in> {1, 2, 3, 4}"
    and "PacketCount (rpc_request (Memory s) Req) \<noteq> 0" and "PacketCount (rpc_response (Memory s) Req Response) \<noteq> 0"
  shows "\<exists>w. let request = rpc_request (Memory s) Req; response = rpc_response (Memory s) Req Response in
    OpteeRpcCmdRpmb S p s = Some (TEEC_SUCCESS, s\<lparr>World := w, Memory := set_msg_ret_origin p TEEC_ORIGIN_API (set_msg_ret p TEEC_SUCCESS
      (set_packet Response (within (exchange_bytes request response)
        (answer (frames (Device (World s)) @ exchange_frames request)) (packet (Memory s) Response))))\<rparr>) \<and>
    frames (Device w) = frames (Device (World s)) @ exchange_frames request \<and>
    PARTITION_ACCESS (part (Device w)) = CurrentMmcPartition (World s)"
proof -
  let ?q = "rpc_request (Memory s) Req" and ?r = "rpc_response (Memory s) Req Response"
  have n: "unat (PacketCount ?q) < 65536" "unat (PacketCount ?r) < 65536"
    using unat_u16_less[of "RpcRpmbBytesToUint16 (Memory s) (Req + 6 + 506)"] unat_u16_less[of "rd 2 (Memory s) (Req + 4)"]
    by (simp_all add: rpc_request_def rpc_response_def Let_def)
  have q: "Packets ?q \<noteq> 0" "0 < unat (PacketCount ?q)" "RpmbType (Contents ?q) \<in> {1, 2, 3, 4}"
    using assms(13,15,16) by (simp_all add: rpc_request_def Let_def unat_gt_0 RpmbType_packet)
  obtain w where w: "RpmbRequest E (SdhcRecoverFromErrors E) ?q ?r (World s) = Some ((EFI_SUCCESS, within (exchange_bytes ?q ?r)
      (answer (frames (Device (World s)) @ exchange_frames ?q)) (Contents ?r)), w)"
    "frames (Device w) = frames (Device (World s)) @ exchange_frames ?q" "PARTITION_ACCESS (part (Device w)) = CurrentMmcPartition (World s)"
    using RpmbRequest_result[OF assms(1-4) q(1,2) n q(3)] by blast
  have "Contents ?r = packet (Memory s) Response" by (simp add: rpc_response_def)
  then show ?thesis
    using assms(5-12) w RpmbDataRequest_dispatch[OF assms(6,13,14) assms(15,16,17)]
    by (intro exI[of _ w]) (simp add: OpteeRpcCmdRpmb_def Let_def RpmbReply_def CmdExit_def)
qed

definition rpc_memory :: memory where
  "rpc_memory = (\<lambda>_. 0)(0x101C := 2, 0x1020 := 9, 0x1029 := 0x20, 0x1040 := 10, 0x1049 := 0x30, 0x2205 := 2)"

definition rpmb_services :: "(stack_state, echo_world SDHC_INSTANCE) optee_services" where
  "rpmb_services = \<lparr>Pcd = demo_pcd, GcdServices = stack_gcd, ArmCallSmc = (\<lambda>args m w. (args, m, w)),
     GetSectionFromAnyFv = (\<lambda>_ w. ((EFI_NOT_FOUND, []), w)),
     LocateRpmbProtocol = (\<lambda>w. ((EFI_SUCCESS, SdMmcRpmbProtocol echo_card 0x4000 [] 1 1), w)),
     GetPerformanceCounter = (\<lambda>w. (0, w)), PerformanceCounterFrequency = 24000000\<rparr>"

definition rpmb_client :: "(stack_state, echo_world SDHC_INSTANCE) optee" where
  "rpmb_client = \<lparr>Memory = rpc_memory, gDriverImageHandle = 1, mSharedMemAllocationCount = 0, mSharedMemAllocSize = 0,
     Gcd = ([(0x10000, 0x10000)], []), World = emmc_instance\<rparr>"

lemma OpteeRpcCmdRpmb_exchange_witness:
  "\<exists>s'. OpteeRpcCmdRpmb rpmb_services 0x1000 rpmb_client = Some (TEEC_SUCCESS, s') \<and>
     length (snd (snd (snd (Device (World s'))))) = 1 \<and> PARTITION_ACCESS (fst (Device (World s'))) = 1"
proof -
  have e: "identified emmc_instance" "CurrentMmcPartition emmc_instance = 1" "snd (snd (snd (Device emmc_instance))) = []"
    by (simp_all add: emmc_instance_def identified_def set_CardFunction_def new_instance_def)
  have m: "msg_num_params rpc_memory 0x1000 = 2"
    "OPTEE_MSG_ATTR_GET_TYPE (param_attr rpc_memory (msg_param 0x1000 0)) = OPTEE_MSG_ATTR_TYPE_TMEM_INPUT"
    "OPTEE_MSG_ATTR_GET_TYPE (param_attr rpc_memory (msg_param 0x1000 1)) = OPTEE_MSG_ATTR_TYPE_TMEM_OUTPUT"
    "param_word rpc_memory (msg_param 0x1000 0) 0 = 0x2000" "param_word rpc_memory (msg_param 0x1000 1) 0 = 0x3000"
    "(rd 2 rpc_memory 0x2000 :: u16) = 0" "RpcRpmbBytesToUint16 rpc_memory (0x2000 + 6 + 510) = 2"
    by code_simp+
  have t: "RpmbType (Contents (rpc_request rpc_memory 0x2000)) = 2"
    by (simp only: rpc_request_def Let_def EFI_RPMB_DATA_BUFFER.simps RpmbType_packet m(7))
  have f: "exchange_frames (rpc_request rpc_memory 0x2000) = [frame 512 (Contents (rpc_request rpc_memory 0x2000))]"
    unfolding exchange_frames_def t by simp
  have c: "PacketCount (rpc_request rpc_memory 0x2000) = 1" "PacketCount (rpc_response rpc_memory 0x2000 0x3000) = 1"
    unfolding rpc_request_def rpc_response_def Let_def m(7) by simp_all
  show ?thesis
    using OpteeRpcCmdRpmb_exchange[OF echo_card_ok, where s = rpmb_client and S = rpmb_services and This = "0x4000" and cid = "[]"
        and sectors = 1 and mult = 1 and p = "0x1000" and Req = "0x2000" and Response = "0x3000"] e m c f
    by (auto simp: rpmb_client_def rpmb_services_def Let_def)
qed

text \<open>C37: A trusted application that fits into the buffer of the request is copied there, byte for byte, and nothing else changes but the
  result of the message; one that does not fit leaves the buffer alone and reports the size that is needed. The firmware volumes
  are searched for the application that the message names: the first three fields of the identifier lie in the message with their
  most significant byte first.\<close>

theorem OpteeRpcCmdLoadTa_loads:
  assumes "msg_num_params (Memory s) p = 2"
    and "OPTEE_MSG_ATTR_GET_TYPE (param_attr (Memory s) (msg_param p 0)) = OPTEE_MSG_ATTR_TYPE_VALUE_INPUT"
    and "OPTEE_MSG_ATTR_GET_TYPE (param_attr (Memory s) (msg_param p 1)) = OPTEE_MSG_ATTR_TYPE_TMEM_OUTPUT"
    and "\<forall>i < 16. uuid ! i = Memory s (p + 40 + word_of_nat i)" and "length uuid = 16"
    and "GetSectionFromAnyFv S \<lparr>Data1 = big_endian (take 4 uuid), Data2 = big_endian (take 2 (drop 4 uuid)),
        Data3 = big_endian (take 2 (drop 6 uuid)), Data4 = big_endian (rev (drop 8 uuid))\<rparr> (World s) = ((EFI_SUCCESS, img), w)"
    and "param_word (Memory s) (msg_param p 1) 0 = buffer" and "param_word (Memory s) (msg_param p 1) 1 = sz"
    and "length img < 2 ^ 64" and "\<forall>i < length img. 96 \<le> unat (buffer + word_of_nat i - p)"
  shows "\<exists>s'. OpteeRpcCmdLoadTa S p s = (TEEC_SUCCESS, s') \<and> World s' = w \<and> msg_ret (Memory s') p = TEEC_SUCCESS \<and>
    msg_ret_origin (Memory s') p = TEEC_ORIGIN_API \<and>
    (if length img \<le> unat sz
     then (\<forall>i < length img. Memory s' (buffer + word_of_nat i) = img ! i) \<and>
       (\<forall>x. Memory s' x \<noteq> Memory s x \<longrightarrow> unat (x - (p + 20)) < 8 \<or> unat (x - buffer) < length img)
     else unat (param_word (Memory s') (msg_param p 1) 1) = length img \<and>
       (\<forall>x. Memory s' x \<noteq> Memory s x \<longrightarrow> unat (x - (p + 20)) < 8 \<or> unat (x - (p + 80)) < 8))"
proof -
  have "map (\<lambda>i. Memory s (msg_param p 0 + 8 + word_of_nat i)) [0..<16] = uuid"
    using assms(4,5) by (intro nth_equalityI) (simp_all add: msg_param_def add.commute[of 40 p])
  then have guid: "GetSectionFromAnyFv S (TaGuid (Memory s) (msg_param p 0 + 8)) (World s) = ((EFI_SUCCESS, img), w)"
    using assms(6) by (simp only: TaGuid_bytes)
  have ret: "msg_ret (set_msg_ret_origin p a (set_msg_ret p v m)) p = v" "msg_ret_origin (set_msg_ret_origin p a (set_msg_ret p v m)) p = a" for a v m
    by (simp_all add: msg_ret_def msg_ret_origin_def set_msg_ret_at rd_wr_full rd_wr_apart[of 20 4 24 4, where p = p, simplified])
  have keep: "Memory (snd (CmdExit p v s0)) x = Memory s0 x" if "\<not> unat (x - (p + 20)) < 8" for v x and s0 :: "('a, 'b) optee"
    unfolding CmdExit_def set_msg_ret_at using that by (simp add: message_result_apart[simplified])
  show ?thesis
  proof (cases "length img \<le> unat sz")
    case True
    let ?s = "s\<lparr>World := w, Memory := StoreBytes img buffer (Memory s)\<rparr>"
    let ?e = "CmdExit p TEEC_SUCCESS ?s"
    have run: "OpteeRpcCmdLoadTa S p s = ?e"
      using assms(1-3,7,8) guid True by (simp add: OpteeRpcCmdLoadTa_def Let_def)
    have "Memory (snd ?e) (buffer + word_of_nat i) = img ! i" if i: "i < length img" for i
    proof -
      have "\<not> unat (buffer + word_of_nat i - (p + 20)) < 8"
        using assms(10)[rule_format, OF i] by (rule result_outside)
      then show ?thesis using assms(9) i by (simp add: keep StoreBytes_def unat_word_of_nat64)
    qed
    moreover have "unat (x - (p + 20)) < 8 \<or> unat (x - buffer) < length img" if "Memory (snd ?e) x \<noteq> Memory s x" for x
      using keep[of x TEEC_SUCCESS ?s] that unfolding StoreBytes_def by (cases "unat (x - buffer) < length img") auto
    ultimately show ?thesis
      using True run by (auto simp: CmdExit_def ret)
  next
    case False
    let ?m = "set_param_word (msg_param p 1) 1 (word_of_nat (length img)) (Memory s)"
    let ?s = "s\<lparr>World := w, Memory := ?m\<rparr>"
    let ?e = "CmdExit p TEEC_SUCCESS ?s"
    have run: "OpteeRpcCmdLoadTa S p s = ?e"
      using assms(1-3,7,8) guid False by (simp add: OpteeRpcCmdLoadTa_def Let_def not_le)
    have "unat (x - (p + 20)) < 8 \<or> unat (x - (p + 80)) < 8" if "Memory (snd ?e) x \<noteq> Memory s x" for x
      using keep[of x TEEC_SUCCESS ?s] that unfolding set_param_word_at wr_def by (cases "unat (x - (p + 80)) < 8") (auto simp: word_less_nat_alt)
    moreover have "param_word (Memory (snd ?e)) (msg_param p 1) 1 = word_of_nat (length img)"
      by (simp add: CmdExit_def param_word_def set_msg_ret_at set_param_word_def msg_param_def add.assoc rd_wr_full
          rd_wr_apart[of 80 8 20 4, where p = p, simplified] rd_wr_apart[of 80 8 24 4, where p = p, simplified])
    ultimately show ?thesis
      using False run assms(9) by (auto simp: CmdExit_def ret unat_word_of_nat64)
  qed
qed

text \<open>A message that names the application with the identifier 8AAAF200-2450-11E4-ABE2-0002A5D5C51B.\<close>

definition ta_uuid :: "u8 list" where
  "ta_uuid = [0x8A, 0xAA, 0xF2, 0x00, 0x24, 0x50, 0x11, 0xE4, 0xAB, 0xE2, 0x00, 0x02, 0xA5, 0xD5, 0xC5, 0x1B]"

definition ta_memory :: memory where
  "ta_memory = (\<lambda>_. 0)(0x1F01C := 2, 0x1F020 := 1, 0x1F028 := 0x8A, 0x1F029 := 0xAA, 0x1F02A := 0xF2, 0x1F02C := 0x24, 0x1F02D := 0x50,
     0x1F02E := 0x11, 0x1F02F := 0xE4, 0x1F030 := 0xAB, 0x1F031 := 0xE2, 0x1F033 := 0x02, 0x1F034 := 0xA5, 0x1F035 := 0xD5, 0x1F036 := 0xC5,
     0x1F037 := 0x1B, 0x1F040 := 10, 0x1F049 := 0x30, 0x1F050 := 4)"

definition ta_services :: "(stack_state, unit) optee_services" where
  "ta_services = \<lparr>Pcd = demo_pcd, GcdServices = stack_gcd, ArmCallSmc = (\<lambda>args m w. (args, m, w)),
     GetSectionFromAnyFv = (\<lambda>guid w. (if Data1 guid = 0x8AAAF200 \<and> Data2 guid = 0x2450 \<and> Data3 guid = 0x11E4 \<and> Data4 guid = 0x1BC5D5A50200E2AB
       then (EFI_SUCCESS, [1, 2, 3]) else (EFI_NOT_FOUND, []), w)),
     LocateRpmbProtocol = (\<lambda>w. ((EFI_NOT_FOUND, undefined), w)),
     GetPerformanceCounter = (\<lambda>w. (0, w)), PerformanceCounterFrequency = 24000000\<rparr>"

definition ta_client :: "(stack_state, unit) optee" where
  "ta_client = \<lparr>Memory = ta_memory, gDriverImageHandle = 1, mSharedMemAllocationCount = 0, mSharedMemAllocSize = 0,
     Gcd = ([(0x10000, 0x10000)], []), World = ()\<rparr>"

lemma OpteeRpcCmdLoadTa_loads_witness:
  "\<exists>s'. OpteeRpcCmdLoadTa ta_services 0x1F000 ta_client = (TEEC_SUCCESS, s') \<and> Memory s' 0x3002 = 3"
proof -
  have m: "msg_num_params ta_memory 0x1F000 = 2"
    "OPTEE_MSG_ATTR_GET_TYPE (param_attr ta_memory (msg_param 0x1F000 0)) = OPTEE_MSG_ATTR_TYPE_VALUE_INPUT"
    "OPTEE_MSG_ATTR_GET_TYPE (param_attr ta_memory (msg_param 0x1F000 1)) = OPTEE_MSG_ATTR_TYPE_TMEM_OUTPUT"
    "param_word ta_memory (msg_param 0x1F000 1) 0 = 0x3000" "param_word ta_memory (msg_param 0x1F000 1) 1 = 4"
    by code_simp+
  have l: "ta_uuid = map (\<lambda>i. ta_memory (0x1F000 + 40 + word_of_nat i)) [0..<16]" by code_simp
  have u: "\<forall>i < 16. ta_uuid ! i = Memory ta_client (0x1F000 + 40 + word_of_nat i)" "length ta_uuid = 16"
    unfolding l by (simp_all add: ta_client_def)
  have g: "GetSectionFromAnyFv ta_services \<lparr>Data1 = big_endian (take 4 ta_uuid), Data2 = big_endian (take 2 (drop 4 ta_uuid)),
      Data3 = big_endian (take 2 (drop 6 ta_uuid)), Data4 = big_endian (rev (drop 8 ta_uuid))\<rparr> (World ta_client) = ((EFI_SUCCESS, [1, 2, 3]), ())"
    by code_simp
  have b: "\<forall>i < length [1, 2, 3 :: u8]. 96 \<le> unat (0x3000 + word_of_nat i - 0x1F000 :: u64)"
    by (auto simp: less_Suc_eq)
  obtain s' where "OpteeRpcCmdLoadTa ta_services 0x1F000 ta_client = (TEEC_SUCCESS, s')"
    "\<forall>i < length [1, 2, 3 :: u8]. Memory s' (0x3000 + word_of_nat i) = [1, 2, 3] ! i"
    using OpteeRpcCmdLoadTa_loads[OF _ _ _ u g _ _ _ b, of 4] m
    by (auto simp: ta_client_def)
  moreover from this(2)[rule_format, of 2] have "Memory s' 0x3002 = 3" by simp
  ultimately show ?thesis by blast
qed

text \<open>C38: The registers after a request for memory: with a block, both the address and the cookie are its pointer. Without one, all
  registers but the first still hold the request: where the protocol wants a null address, the secure world reads one that is not null,
  with the size that it asked for as the upper half.\<close>

theorem OpteeRpcAlloc_registers:
  assumes "OPTEE_SMC_RETURN_IS_RPC (Arg0 args)" and "OPTEE_SMC_RETURN_GET_RPC_FUNC (Arg0 args) = 0" and "Arg1 args \<noteq> 0"
    and "OpteeClientMemAlloc (Pcd S) (GcdServices S) (Arg1 args) s = Some (p, s')"
  shows "\<exists>r args'. OpteeRpcCallback S args s = Some ((r, args'), s') \<and> Arg0 args' = OPTEE_SMC_CALL_RETURN_FROM_RPC \<and>
    Arg3 args' = Arg3 args \<and> Arg6 args' = Arg6 args \<and> Arg7 args' = Arg7 args \<and>
    (if p \<noteq> 0 then r = TEEC_SUCCESS \<and> RpcAddress args' = p \<and> ADDRESS64 (ucast (Arg4 args')) (ucast (Arg5 args')) = p
     else r = TEEC_ERROR_OUT_OF_MEMORY \<and> args' = args\<lparr>Arg0 := OPTEE_SMC_CALL_RETURN_FROM_RPC\<rparr> \<and>
       (unat (Arg1 args) < 2 ^ 32 \<longrightarrow> RpcAddress args' \<noteq> 0))"
proof -
  have "ADDRESS64 (ucast (Arg1 args)) l \<noteq> 0" if "unat (Arg1 args) < 2 ^ 32" for l
  proof
    assume "ADDRESS64 (ucast (Arg1 args)) l = 0"
    then have "H32 (ADDRESS64 (ucast (Arg1 args)) l) = 0" by (simp add: H32_def)
    then have "(ucast (Arg1 args) :: u32) = 0" by simp
    then have "unat (ucast (Arg1 args) :: u32) = 0" by simp
    then have "unat (Arg1 args) = 0" using that by (simp add: unsigned_ucast_eq take_bit_nat_eq_self)
    then show False using assms(3) by (simp add: unat_eq_zero)
  qed
  then show ?thesis
    using assms by (auto simp: OpteeRpcCallback_def OpteeRpcAlloc_def RpcAddress_def)
qed

lemma OpteeRpcAlloc_registers_witness:
  "\<exists>args s'. OpteeRpcCallback ta_services \<lparr>Arg0 = 0xFFFF0000, Arg1 = 0x20000, Arg2 = 0, Arg3 = 7, Arg4 = 0, Arg5 = 0, Arg6 = 0, Arg7 = 0\<rparr>
     ta_client = Some ((TEEC_ERROR_OUT_OF_MEMORY, args), s') \<and> RpcAddress args \<noteq> 0"
proof -
  let ?args = "\<lparr>Arg0 = 0xFFFF0000, Arg1 = 0x20000, Arg2 = 0, Arg3 = 7, Arg4 = 0, Arg5 = 0, Arg6 = 0, Arg7 = 0\<rparr> :: ARM_SMC_ARGS"
  have i: "OPTEE_SMC_RETURN_IS_RPC (Arg0 ?args)" "OPTEE_SMC_RETURN_GET_RPC_FUNC (Arg0 ?args) = 0" "Arg1 ?args \<noteq> 0"
    by (simp_all add: OPTEE_SMC_RETURN_IS_RPC_def OPTEE_SMC_RETURN_UNKNOWN_FUNCTION_def OPTEE_SMC_RETURN_GET_RPC_FUNC_def)
  have p: "IsPowerOf2 16" by (simp add: IsPowerOf2_def)
  have "OpteeClientMemAlloc (Pcd ta_services) (GcdServices ta_services) (Arg1 ?args) ta_client = Some (0, ta_client)"
    using p by (simp add: OpteeClientMemAlloc_def InternalMemAlloc_def ta_services_def ta_client_def stack_gcd_def demo_region shm_constants
        lowest_def in_space_def Let_def)
  from OpteeRpcAlloc_registers[OF i this] show ?thesis by auto
qed

text \<open>The time is reported exactly, with less than 10^9 nanoseconds, as long as the ticks times 10^9 fit in 64 bits.\<close>

theorem RpcTime_exact:
  assumes "unat Ticks * 1000000000 < 2 ^ 64" and "Freq \<noteq> 0"
  shows "unat (fst (RpcTime Ticks Freq)) = unat Ticks div unat Freq \<and>
    unat (snd (RpcTime Ticks Freq)) = unat Ticks mod unat Freq * 1000000000 div unat Freq \<and> unat (snd (RpcTime Ticks Freq)) < 1000000000"
proof -
  have f: "0 < unat Freq" using assms(2) by (simp add: unat_gt_0)
  then have "unat Ticks mod unat Freq * 1000000000 < 1000000000 * unat Freq" by simp
  then have l: "unat Ticks mod unat Freq * 1000000000 div unat Freq < 1000000000" by (simp add: less_mult_imp_div_less)
  then show ?thesis
    unfolding RpcTime_nat[OF assms] by (simp add: unat_div unat_word_of_nat64)
qed

lemma RpcTime_exact_witness: "RpcTime 36000000 24000000 = (1, 500000000)"
proof -
  have "unat (fst (RpcTime 36000000 24000000)) = 1 \<and> unat (snd (RpcTime 36000000 24000000)) = 500000000"
    using RpcTime_exact[of 36000000 24000000] by simp
  then show ?thesis by (auto simp: prod_eq_iff word_unat_eq_iff)
qed

text \<open>After 1000 seconds of a counter of 24 MHz the product has wrapped, and the nanoseconds are not below 10^9.\<close>

lemma RpcTime_wraps: "RpcTime 24000000000 24000000 = (1000, 18446743305095215211)"
  by (simp add: RpcTime_def)

end
