(* ===== verification/OpteeSmc.thy ===== *)
theory OpteeSmc
  imports OpteeRpc
begin

unbundle bit_operations_syntax

text \<open>
  Calls to the secure world (\<open>Arm/OpteeClientSMC.c\<close>) and the TEE client API on top of them (\<open>OpteeClientApiLib.c\<close>): the parameters
  of an operation go into a message in shared memory, the call is made, the requests of the secure world in between are served, and the
  parameters come back.
\<close>

section \<open>Operations\<close>

text \<open>
  \<open>TEEC_Parameter\<close> is a union of 24 bytes, here three words: a value is the two halves of the first, a temporary reference is
  its buffer and size in the first and second.
\<close>

record TEEC_Parameter =
  word0 :: u64
  word1 :: u64
  word2 :: u64

record TEEC_Operation =
  paramTypes :: u32
  params :: "TEEC_Parameter list"

record TEEC_Session =
  session_id :: u32

definition TEEC_NONE :: u32 where "TEEC_NONE = 0"
definition TEEC_VALUE_INPUT :: u32 where "TEEC_VALUE_INPUT = 1"
definition TEEC_VALUE_INOUT :: u32 where "TEEC_VALUE_INOUT = 3"
definition TEEC_MEMREF_TEMP_INPUT :: u32 where "TEEC_MEMREF_TEMP_INPUT = 5"
definition TEEC_MEMREF_TEMP_INOUT :: u32 where "TEEC_MEMREF_TEMP_INOUT = 7"

lemmas teec_types = TEEC_NONE_def TEEC_VALUE_INPUT_def TEEC_VALUE_INOUT_def TEEC_MEMREF_TEMP_INPUT_def TEEC_MEMREF_TEMP_INOUT_def

definition TEEC_PARAM_TYPE_GET :: "u32 \<Rightarrow> nat \<Rightarrow> u32" where
  "TEEC_PARAM_TYPE_GET t i = drop_bit (i * 4) t AND 0xF"

definition value_a :: "TEEC_Parameter \<Rightarrow> u32" where "value_a x = L32 (word0 x)"
definition value_b :: "TEEC_Parameter \<Rightarrow> u32" where "value_b x = H32 (word0 x)"
definition set_value :: "u32 \<Rightarrow> u32 \<Rightarrow> TEEC_Parameter \<Rightarrow> TEEC_Parameter" where
  "set_value a b x = x\<lparr>word0 := ADDRESS64 b a\<rparr>"
definition set_tmpref :: "u64 \<Rightarrow> u64 \<Rightarrow> TEEC_Parameter \<Rightarrow> TEEC_Parameter" where
  "set_tmpref buffer sz x = x\<lparr>word0 := buffer, word1 := sz\<rparr>"

definition SetMsgParam :: "bool \<Rightarrow> u32 \<Rightarrow> TEEC_Parameter \<Rightarrow> u64 \<Rightarrow> memory \<Rightarrow> memory option" where
  "SetMsgParam stops attr x q m =
    (if attr = TEEC_NONE then Some (set_param_attr q OPTEE_MSG_ATTR_TYPE_NONE m)
     else if TEEC_VALUE_INPUT \<le> attr \<and> attr \<le> TEEC_VALUE_INOUT
     then Some (set_param_word q 1 (ucast (value_b x)) (set_param_word q 0 (ucast (value_a x))
       (set_param_attr q (ucast (1 + (attr - TEEC_VALUE_INPUT))) m)))
     else if TEEC_MEMREF_TEMP_INPUT \<le> attr \<and> attr \<le> TEEC_MEMREF_TEMP_INOUT
     then Some (set_param_word q 1 (word1 x) (set_param_word q 0 (word0 x)
       (set_param_attr q (ucast (9 + (attr - TEEC_MEMREF_TEMP_INPUT))) m)))
     else do { ASSERT stops False; Some m })"

function SetMsgParamsFrom :: "bool \<Rightarrow> nat \<Rightarrow> TEEC_Operation \<Rightarrow> u64 \<Rightarrow> memory \<Rightarrow> memory option" where
  "SetMsgParamsFrom stops i Operation a m =
    (if i < 4 then do {
       m \<leftarrow> SetMsgParam stops (TEEC_PARAM_TYPE_GET (paramTypes Operation) i) (params Operation ! i) (a + 32 * word_of_nat i) m;
       SetMsgParamsFrom stops (i + 1) Operation a m
     } else Some m)"
  by auto
termination by (relation "measure (\<lambda>(_, i, _). 4 - i)") auto

definition SetMsgParams :: "bool \<Rightarrow> TEEC_Operation \<Rightarrow> u64 \<Rightarrow> memory \<Rightarrow> memory option" where
  "SetMsgParams stops = SetMsgParamsFrom stops 0"

definition GetMsgParam :: "bool \<Rightarrow> u32 \<Rightarrow> memory \<Rightarrow> u64 \<Rightarrow> TEEC_Parameter \<Rightarrow> TEEC_Parameter option" where
  "GetMsgParam stops attr m q x =
    (if attr = TEEC_NONE then Some x
     else if TEEC_VALUE_INPUT \<le> attr \<and> attr \<le> TEEC_VALUE_INOUT
     then Some (set_value (ucast (param_word m q 0)) (ucast (param_word m q 1)) x)
     else if TEEC_MEMREF_TEMP_INPUT \<le> attr \<and> attr \<le> TEEC_MEMREF_TEMP_INOUT
     then Some (set_tmpref (param_word m q 0) (param_word m q 1) x)
     else do { ASSERT stops False; Some x })"

function GetMsgParamsFrom :: "bool \<Rightarrow> nat \<Rightarrow> memory \<Rightarrow> u64 \<Rightarrow> TEEC_Operation \<Rightarrow> TEEC_Operation option" where
  "GetMsgParamsFrom stops i m a Operation =
    (if i < 4 then do {
       x \<leftarrow> GetMsgParam stops (TEEC_PARAM_TYPE_GET (paramTypes Operation) i) m (a + 32 * word_of_nat i) (params Operation ! i);
       GetMsgParamsFrom stops (i + 1) m a (Operation\<lparr>params := (params Operation)[i := x]\<rparr>)
     } else Some Operation)"
  by auto
termination by (relation "measure (\<lambda>(_, i, _). 4 - i)") auto

definition GetMsgParams :: "bool \<Rightarrow> memory \<Rightarrow> u64 \<Rightarrow> TEEC_Operation \<Rightarrow> TEEC_Operation option" where
  "GetMsgParams stops = GetMsgParamsFrom stops 0"

declare SetMsgParamsFrom.simps [simp del] GetMsgParamsFrom.simps [simp del]

section \<open>Calls\<close>

definition OPTEE_SMC_CALL_WITH_ARG :: u64 where "OPTEE_SMC_CALL_WITH_ARG = 0x32000004"
definition OPTEE_SMC_RETURN_OK :: u64 where "OPTEE_SMC_RETURN_OK = 0"

text \<open>The loop of a call: it ends when the secure world returns with something else than a request.\<close>

partial_function (option) OpteeSmcLoop ::
  "('g, 'w) optee_services \<Rightarrow> ARM_SMC_ARGS \<Rightarrow> ('g, 'w) optee \<Rightarrow> (u32 \<times> ('g, 'w) optee) option" where
  "OpteeSmcLoop S args s =
    (let (args, m, w) = ArmCallSmc S args (Memory s) (World s); s = s\<lparr>World := w, Memory := m\<rparr> in
     if OPTEE_SMC_RETURN_IS_RPC (Arg0 args)
     then Option.bind (OpteeRpcCallback S args s) (\<lambda>r. OpteeSmcLoop S (snd (fst r)) (snd r))
     else if Arg0 args = OPTEE_SMC_RETURN_UNKNOWN_FUNCTION then Some (TEEC_ERROR_NOT_IMPLEMENTED, s)
     else if Arg0 args \<noteq> OPTEE_SMC_RETURN_OK then Some (TEEC_ERROR_COMMUNICATION, s)
     else Some (TEEC_SUCCESS, s))"

definition OpteeSmcArgs :: "u64 \<Rightarrow> ARM_SMC_ARGS" where
  "OpteeSmcArgs MsgAddr = \<lparr>Arg0 = OPTEE_SMC_CALL_WITH_ARG, Arg1 = drop_bit 32 MsgAddr, Arg2 = MsgAddr AND 0xFFFFFFFF,
     Arg3 = 0, Arg4 = 0, Arg5 = 0, Arg6 = 0, Arg7 = 0\<rparr>"

definition OpteeSmcCall :: "('g, 'w) optee_services \<Rightarrow> u64 \<Rightarrow> ('g, 'w) optee \<Rightarrow> (u32 \<times> ('g, 'w) optee) option" where
  "OpteeSmcCall S MsgArg s = OpteeSmcLoop S (OpteeSmcArgs MsgArg) s"

text \<open>
  The frame that the three commands share: allocate and clear the message, fill it in, call, collect the result and the origin from
  the message when the call came through, and free the message on every path.
\<close>

definition MessageCall ::
  "('g, 'w) optee_services \<Rightarrow> u64 \<Rightarrow> (u64 \<Rightarrow> memory \<Rightarrow> memory option) \<Rightarrow> (memory \<Rightarrow> u64 \<Rightarrow> 'r option) \<Rightarrow> 'r \<Rightarrow>
    ('g, 'w) optee \<Rightarrow> ((u32 \<times> u32 \<times> 'r) \<times> ('g, 'w) optee) option" where
  "MessageCall S MsgArgSize fill collect unchanged s = do {
     (MsgArg, s) \<leftarrow> OpteeClientMemAlloc (Pcd S) (GcdServices S) MsgArgSize s;
     if MsgArg = 0 then Some ((TEEC_ERROR_OUT_OF_MEMORY, TEEC_ORIGIN_API, unchanged), s)
     else do {
       m \<leftarrow> fill MsgArg (SetMem (Memory s) MsgArg MsgArgSize 0);
       (TeecResult, s) \<leftarrow> OpteeSmcCall S MsgArg (s\<lparr>Memory := m\<rparr>);
       r \<leftarrow> (if TeecResult \<noteq> TEEC_SUCCESS then Some (TeecResult, TEEC_ORIGIN_COMMS, unchanged)
         else do {
           x \<leftarrow> collect (Memory s) MsgArg;
           Some (msg_ret (Memory s) MsgArg, msg_ret_origin (Memory s) MsgArg, x)
         });
       Some (r, snd (OpteeClientMemFree (GcdServices S) MsgArg s))
     }
   }"

definition OPTEE_MSG_GET_ARG_SIZE :: "nat \<Rightarrow> u64" where "OPTEE_MSG_GET_ARG_SIZE n = 32 + 32 * word_of_nat n"

definition set_msg_cmd :: "u64 \<Rightarrow> u32 \<Rightarrow> memory \<Rightarrow> memory" where "set_msg_cmd p v m = wr 4 v p m"
definition set_msg_func :: "u64 \<Rightarrow> u32 \<Rightarrow> memory \<Rightarrow> memory" where "set_msg_func p v m = wr 4 v (p + 4) m"
definition set_msg_session :: "u64 \<Rightarrow> u32 \<Rightarrow> memory \<Rightarrow> memory" where "set_msg_session p v m = wr 4 v (p + 8) m"
definition set_msg_num_params :: "u64 \<Rightarrow> u32 \<Rightarrow> memory \<Rightarrow> memory" where "set_msg_num_params p v m = wr 4 v (p + 28) m"

text \<open>The identifier of a trusted application is its 16 bytes, as the caller has them.\<close>

definition TEEC_SMC_OpenSession ::
  "('g, 'w) optee_services \<Rightarrow> TEEC_Session \<Rightarrow> u8 list \<Rightarrow> TEEC_Operation \<Rightarrow> ('g, 'w) optee \<Rightarrow>
    ((u32 \<times> u32 \<times> TEEC_Session \<times> TEEC_Operation) \<times> ('g, 'w) optee) option" where
  "TEEC_SMC_OpenSession S Session Destination Operation =
     MessageCall S (OPTEE_MSG_GET_ARG_SIZE 6)
       (\<lambda>p m. SetMsgParams (AssertStops (Pcd S)) Operation (msg_param p 2)
         (set_param_word (msg_param p 1) 2 0 (set_param_attr (msg_param p 1) 0x101
           (StoreBytes Destination (msg_param p 0 + 8) (set_param_attr (msg_param p 0) 0x101
             (set_msg_num_params p 6 (set_msg_cmd p 0 m)))))))
       (\<lambda>m p. do {
         Operation \<leftarrow> GetMsgParams (AssertStops (Pcd S)) m (msg_param p 0) Operation;
         Some (Session\<lparr>session_id := msg_session m p\<rparr>, Operation)
       })
       (Session, Operation)"

definition TEEC_SMC_CloseSession ::
  "('g, 'w) optee_services \<Rightarrow> TEEC_Session \<Rightarrow> ('g, 'w) optee \<Rightarrow> ((u32 \<times> u32 \<times> unit) \<times> ('g, 'w) optee) option" where
  "TEEC_SMC_CloseSession S Session =
     MessageCall S (OPTEE_MSG_GET_ARG_SIZE 0)
       (\<lambda>p m. Some (set_msg_session p (session_id Session) (set_msg_cmd p 2 m))) (\<lambda>m p. Some ()) ()"

definition TEEC_SMC_InvokeCommand ::
  "('g, 'w) optee_services \<Rightarrow> TEEC_Session \<Rightarrow> u32 \<Rightarrow> TEEC_Operation \<Rightarrow> ('g, 'w) optee \<Rightarrow>
    ((u32 \<times> u32 \<times> TEEC_Operation) \<times> ('g, 'w) optee) option" where
  "TEEC_SMC_InvokeCommand S Session CmdId Operation =
     MessageCall S (OPTEE_MSG_GET_ARG_SIZE 4)
       (\<lambda>p m. SetMsgParams (AssertStops (Pcd S)) Operation (msg_param p 0)
         (set_msg_num_params p 4 (set_msg_session p (session_id Session) (set_msg_func p CmdId (set_msg_cmd p 1 m)))))
       (\<lambda>m p. GetMsgParams (AssertStops (Pcd S)) m (msg_param p 0) Operation) Operation"

section \<open>The client API\<close>

text \<open>A pointer that may be null is an option; what it points to comes back with the result.\<close>

record TEEC_SharedMemory =
  shm_buffer :: u64
  shm_size :: u64
  shm_flags :: u32
  shadow_buffer :: u64

definition TEEC_InitializeContext :: "bool \<Rightarrow> bool \<Rightarrow> u32" where
  "TEEC_InitializeContext has_name has_context =
    (if \<not> has_context then TEEC_ERROR_BAD_PARAMETERS else if has_name then TEEC_ERROR_ITEM_NOT_FOUND else TEEC_SUCCESS)"

definition TEEC_AllocateSharedMemory ::
  "('g, 'w) optee_services \<Rightarrow> bool \<Rightarrow> TEEC_SharedMemory option \<Rightarrow> ('g, 'w) optee \<Rightarrow>
    ((u32 \<times> TEEC_SharedMemory option) \<times> ('g, 'w) optee) option" where
  "TEEC_AllocateSharedMemory S has_context SharedMem s =
    (case SharedMem of None \<Rightarrow> Some ((TEEC_ERROR_BAD_PARAMETERS, None), s)
     | Some shm \<Rightarrow>
       if \<not> has_context then Some ((TEEC_ERROR_BAD_PARAMETERS, Some shm), s)
       else if shm_flags shm \<noteq> 0 then Some ((TEEC_ERROR_BAD_PARAMETERS, Some shm), s)
       else do {
         (p, s) \<leftarrow> OpteeClientMemAlloc (Pcd S) (GcdServices S) (shm_size shm) s;
         if p = 0 then Some ((TEEC_ERROR_OUT_OF_MEMORY, Some (shm\<lparr>shm_buffer := 0, shadow_buffer := 0\<rparr>)), s)
         else Some ((TEEC_SUCCESS, Some (shm\<lparr>shm_buffer := p, shadow_buffer := p\<rparr>)), s)
       })"

definition TEEC_ReleaseSharedMemory ::
  "('g, 'w) optee_services \<Rightarrow> TEEC_SharedMemory option \<Rightarrow> ('g, 'w) optee \<Rightarrow> TEEC_SharedMemory option \<times> ('g, 'w) optee" where
  "TEEC_ReleaseSharedMemory S SharedMem s =
    (case SharedMem of None \<Rightarrow> (None, s)
     | Some shm \<Rightarrow>
       if shm_buffer shm = 0 then (Some shm, s)
       else if shadow_buffer shm \<noteq> 0
       then let (Status, s) = OpteeClientMemFree (GcdServices S) (shadow_buffer shm) s in
         if EFI_ERROR Status then (Some shm, s)
         else (Some (shm\<lparr>shadow_buffer := 0, shm_buffer := 0, shm_size := 0\<rparr>), s)
       else (Some (shm\<lparr>shm_buffer := 0, shm_size := 0\<rparr>), s))"

definition TEEC_NULL_OPERATION :: TEEC_Operation where
  "TEEC_NULL_OPERATION = \<lparr>paramTypes = 0, params = replicate 4 \<lparr>word0 = 0, word1 = 0, word2 = 0\<rparr>\<rparr>"

definition TEEC_OpenSession ::
  "('g, 'w) optee_services \<Rightarrow> bool \<Rightarrow> TEEC_Session option \<Rightarrow> u8 list option \<Rightarrow> u32 \<Rightarrow> TEEC_Operation option \<Rightarrow> ('g, 'w) optee \<Rightarrow>
    ((u32 \<times> u32 \<times> TEEC_Session option \<times> TEEC_Operation option) \<times> ('g, 'w) optee) option" where
  "TEEC_OpenSession S has_context Session Destination ConnectionMethod Operation s =
    (case (Session, Destination) of
       (Some session, Some destination) \<Rightarrow>
         if \<not> has_context then Some ((TEEC_ERROR_BAD_PARAMETERS, TEEC_ORIGIN_API, Session, Operation), s)
         else if ConnectionMethod \<noteq> 0 then Some ((TEEC_ERROR_NOT_SUPPORTED, TEEC_ORIGIN_API, Session, Operation), s)
         else do {
           ((TeecResult, origin, session, operation), s) \<leftarrow> TEEC_SMC_OpenSession S session destination
             (case Operation of None \<Rightarrow> TEEC_NULL_OPERATION | Some x \<Rightarrow> x) s;
           Some ((TeecResult, origin, Some session, map_option (\<lambda>_. operation) Operation), s)
         }
     | _ \<Rightarrow> Some ((TEEC_ERROR_BAD_PARAMETERS, TEEC_ORIGIN_API, Session, Operation), s))"

definition TEEC_CloseSession :: "('g, 'w) optee_services \<Rightarrow> TEEC_Session option \<Rightarrow> ('g, 'w) optee \<Rightarrow> (unit \<times> ('g, 'w) optee) option" where
  "TEEC_CloseSession S Session s =
    (case Session of None \<Rightarrow> Some ((), s)
     | Some session \<Rightarrow> map_option (\<lambda>(r, s). ((), s)) (TEEC_SMC_CloseSession S session s))"

definition TEEC_InvokeCommand ::
  "('g, 'w) optee_services \<Rightarrow> TEEC_Session option \<Rightarrow> u32 \<Rightarrow> TEEC_Operation option \<Rightarrow> ('g, 'w) optee \<Rightarrow>
    ((u32 \<times> u32 \<times> TEEC_Operation option) \<times> ('g, 'w) optee) option" where
  "TEEC_InvokeCommand S Session CommandID Operation s =
    (case Session of None \<Rightarrow> Some ((TEEC_ERROR_BAD_PARAMETERS, TEEC_ORIGIN_API, Operation), s)
     | Some session \<Rightarrow> do {
         ((TeecResult, origin, operation), s) \<leftarrow> TEEC_SMC_InvokeCommand S session CommandID
           (case Operation of None \<Rightarrow> TEEC_NULL_OPERATION | Some x \<Rightarrow> x) s;
         Some ((TeecResult, origin, map_option (\<lambda>_. operation) Operation), s)
       })"


text \<open>There are no memory references to register, and no calls to cancel: the one is refused, the other is an assertion.\<close>

definition TEEC_RegisterSharedMemory :: "TEEC_SharedMemory option \<Rightarrow> u32 \<times> TEEC_SharedMemory option" where
  "TEEC_RegisterSharedMemory SharedMem = (TEEC_ERROR_NOT_IMPLEMENTED, SharedMem)"

definition TEEC_RequestCancellation :: "OPTEE_PCD \<Rightarrow> TEEC_Operation \<Rightarrow> unit option" where
  "TEEC_RequestCancellation pcd Operation = ASSERT (AssertStops pcd) False"

section \<open>Parameters in a message\<close>

definition supported_type :: "u32 \<Rightarrow> bool" where
  "supported_type t \<longleftrightarrow> t \<in> {0, 1, 2, 3, 5, 6, 7}"

definition supported :: "TEEC_Operation \<Rightarrow> bool" where
  "supported x \<longleftrightarrow> length (params x) = 4 \<and> (\<forall>i < 4. supported_type (TEEC_PARAM_TYPE_GET (paramTypes x) i))"

lemma supported_cases:
  assumes "supported x"
  obtains a b c d where "params x = [a, b, c, d]" "supported_type (TEEC_PARAM_TYPE_GET (paramTypes x) 0)"
    "supported_type (TEEC_PARAM_TYPE_GET (paramTypes x) 1)" "supported_type (TEEC_PARAM_TYPE_GET (paramTypes x) 2)"
    "supported_type (TEEC_PARAM_TYPE_GET (paramTypes x) 3)"
proof -
  have "length (params x) = Suc (Suc (Suc (Suc 0)))" using assms by (simp add: supported_def)
  then obtain a b c d where "params x = [a, b, c, d]" unfolding length_Suc_conv by auto
  then show thesis using assms that by (simp add: supported_def)
qed

lemma param_at: "msg_param p k + 32 * word_of_nat i = msg_param p (k + i)"
  by (simp add: msg_param_def algebra_simps)

lemma param_next: "msg_param p k + 32 = msg_param p (Suc k)" "msg_param p k + 64 = msg_param p (Suc (Suc k))"
  "msg_param p k + 96 = msg_param p (Suc (Suc (Suc k)))"
  by (simp_all add: msg_param_def algebra_simps)

lemma param_word_off: "param_word m (msg_param p j) i = rd 8 m (p + word_of_nat (40 + 32 * j + 8 * i))"
  by (simp add: param_word_def msg_param_def add.assoc add.left_commute)

lemma param_word_attr [simp]:
  "j < 1000 \<Longrightarrow> j' < 1000 \<Longrightarrow> i < 3 \<Longrightarrow> param_word (set_param_attr (msg_param p j') v m) (msg_param p j) i = param_word m (msg_param p j) i"
  unfolding param_word_off set_param_attr_at by (rule rd_wr_apart; cases "j' \<le> j"; simp)

lemma param_word_set [simp]:
  assumes "j < 1000" and "j' < 1000" and "i < 3" and "i' < 3"
  shows "param_word (set_param_word (msg_param p j') i' v m) (msg_param p j) i =
    (if j = j' \<and> i = i' then v else param_word m (msg_param p j) i)"
proof (cases "j = j' \<and> i = i'")
  case True
  then show ?thesis unfolding param_word_off set_param_word_at by (simp add: rd_wr_full)
next
  case False
  then have "40 + 32 * j + 8 * i + 8 \<le> 40 + 32 * j' + 8 * i' \<or> 40 + 32 * j' + 8 * i' + 8 \<le> 40 + 32 * j + 8 * i"
    using assms by (cases j j' rule: linorder_cases) auto
  then show ?thesis unfolding param_word_off set_param_word_at using assms False by (subst rd_wr_apart) auto
qed

lemma param_attr_off: "param_attr m (msg_param p j) = rd 8 m (p + word_of_nat (32 + 32 * j))"
  by (simp add: param_attr_def msg_param_def add.assoc)

lemma param_attr_word [simp]:
  "j < 1000 \<Longrightarrow> j' < 1000 \<Longrightarrow> i < 3 \<Longrightarrow> param_attr (set_param_word (msg_param p j') i v m) (msg_param p j) = param_attr m (msg_param p j)"
  unfolding param_attr_off set_param_word_at by (rule rd_wr_apart; cases "j \<le> j'"; simp)

lemma param_attr_set [simp]:
  assumes "j < 1000" and "j' < 1000"
  shows "param_attr (set_param_attr (msg_param p j') v m) (msg_param p j) = (if j = j' then v else param_attr m (msg_param p j))"
proof (cases "j = j'")
  case True
  then show ?thesis unfolding param_attr_off set_param_attr_at by (simp add: rd_wr_full)
next
  case False
  then have "32 + 32 * j + 8 \<le> 32 + 32 * j' \<or> 32 + 32 * j' + 8 \<le> 32 + 32 * j" by (cases j j' rule: linorder_cases) auto
  then show ?thesis unfolding param_attr_off set_param_attr_at using assms False by (subst rd_wr_apart) auto
qed

text \<open>What the message carries of a parameter, and what comes back of it.\<close>

definition carried :: "u32 \<Rightarrow> TEEC_Parameter \<Rightarrow> memory \<Rightarrow> u64 \<Rightarrow> bool" where
  "carried t x m q \<longleftrightarrow>
    (if t = 0 then True
     else if t \<le> 3 then param_word m q 0 = ucast (value_a x) \<and> param_word m q 1 = ucast (value_b x)
     else param_word m q 0 = word0 x \<and> param_word m q 1 = word1 x)"

definition sent_type :: "u32 \<Rightarrow> u64" where
  "sent_type t = (if t \<le> 3 then ucast t else ucast t + 4)"

definition returned :: "u32 \<Rightarrow> TEEC_Parameter \<Rightarrow> TEEC_Parameter \<Rightarrow> TEEC_Parameter" where
  "returned t x y = (if t = 0 then y else if t \<le> 3 then y\<lparr>word0 := word0 x\<rparr> else y\<lparr>word0 := word0 x, word1 := word1 x\<rparr>)"

lemma value_word: "ADDRESS64 (value_b x) (value_a x) = word0 x"
  by (simp add: value_a_def value_b_def)

lemma GetMsgParam_carried: "supported_type t \<Longrightarrow> carried t x m q \<Longrightarrow> GetMsgParam stops t m q y = Some (returned t x y)"
  by (auto simp: supported_type_def GetMsgParam_def carried_def returned_def set_value_def set_tmpref_def value_word teec_types)

lemma SetMsgParam_stores:
  assumes "supported_type t" and "j < 1000"
  obtains m' where "SetMsgParam stops t x (msg_param p j) m = Some m'" "carried t x m' (msg_param p j)" "param_attr m' (msg_param p j) = sent_type t"
    "\<And>j'. j' < 1000 \<Longrightarrow> j' \<noteq> j \<Longrightarrow> param_attr m' (msg_param p j') = param_attr m (msg_param p j')"
    "\<And>j' i. j' < 1000 \<Longrightarrow> i < 3 \<Longrightarrow> j' \<noteq> j \<Longrightarrow> param_word m' (msg_param p j') i = param_word m (msg_param p j') i"
    "\<And>H n. room H p n \<Longrightarrow> 64 + 32 * j \<le> n \<Longrightarrow> writes H m m'"
proof -
  have w: "writes H m (set_param_attr (msg_param p j) a m)"
    "writes H m (set_param_word (msg_param p j) 1 c (set_param_word (msg_param p j) 0 b (set_param_attr (msg_param p j) a m)))"
    if "room H p n" "64 + 32 * j \<le> n" for H n a b c
  proof -
    show a: "writes H m (set_param_attr (msg_param p j) a m)" by (rule writes_msg(3)[OF that(1)]) (use that(2) in simp)
    show "writes H m (set_param_word (msg_param p j) 1 c (set_param_word (msg_param p j) 0 b (set_param_attr (msg_param p j) a m)))"
      by (rule writes_trans[OF writes_trans[OF a writes_msg(4)[OF that(1)]] writes_msg(4)[OF that(1)]]) (use that(2) in simp_all)
  qed
  obtain m' where m': "SetMsgParam stops t x (msg_param p j) m = Some m'"
    using assms(1) by (auto simp: supported_type_def SetMsgParam_def teec_types)
  show thesis
  proof (rule that[OF m'])
    show "carried t x m' (msg_param p j)"
      using assms m' by (auto simp: supported_type_def SetMsgParam_def teec_types carried_def)
    show "param_attr m' (msg_param p j) = sent_type t"
      using assms m' by (auto simp: supported_type_def SetMsgParam_def teec_types sent_type_def msg_types)
    show "param_attr m' (msg_param p j') = param_attr m (msg_param p j')" if "j' < 1000" "j' \<noteq> j" for j'
      using assms m' that by (auto simp: supported_type_def SetMsgParam_def teec_types)
    show "param_word m' (msg_param p j') i = param_word m (msg_param p j') i" if "j' < 1000" "i < 3" "j' \<noteq> j" for j' i
      using assms m' that by (auto simp: supported_type_def SetMsgParam_def teec_types)
    show "writes H m m'" if "room H p n" "64 + 32 * j \<le> n" for H n
      using assms m' w[OF that] by (auto simp: supported_type_def SetMsgParam_def teec_types)
  qed
qed

lemma less_4: "i < 4 \<Longrightarrow> i = 0 \<or> i = 1 \<or> i = 2 \<or> i = (3 :: nat)"
  by auto

lemma SetMsgParams_stores:
  assumes "supported x" and "k < 900"
  obtains m' where "SetMsgParams stops x (msg_param p k) m = Some m'"
    "\<And>i. i < 4 \<Longrightarrow> carried (TEEC_PARAM_TYPE_GET (paramTypes x) i) (params x ! i) m' (msg_param p (k + i))"
    "\<And>i. i < 4 \<Longrightarrow> param_attr m' (msg_param p (k + i)) = sent_type (TEEC_PARAM_TYPE_GET (paramTypes x) i)"
    "\<And>j i. j < k \<Longrightarrow> i < 3 \<Longrightarrow> param_word m' (msg_param p j) i = param_word m (msg_param p j) i"
    "\<And>H n. room H p n \<Longrightarrow> 160 + 32 * k \<le> n \<Longrightarrow> writes H m m'"
proof -
  let ?t = "TEEC_PARAM_TYPE_GET (paramTypes x)"
  obtain a b c d where ps: "params x = [a, b, c, d]" and t: "supported_type (?t 0)" "supported_type (?t 1)" "supported_type (?t 2)"
    "supported_type (?t 3)"
    by (rule supported_cases[OF assms(1)])
  obtain m1 where m1: "SetMsgParam stops (?t 0) a (msg_param p k) m = Some m1" "carried (?t 0) a m1 (msg_param p k)"
    "param_attr m1 (msg_param p k) = sent_type (?t 0)"
    "\<And>j. j < 1000 \<Longrightarrow> j \<noteq> k \<Longrightarrow> param_attr m1 (msg_param p j) = param_attr m (msg_param p j)"
    "\<And>j i. j < 1000 \<Longrightarrow> i < 3 \<Longrightarrow> j \<noteq> k \<Longrightarrow> param_word m1 (msg_param p j) i = param_word m (msg_param p j) i"
    "\<And>H n. room H p n \<Longrightarrow> 64 + 32 * k \<le> n \<Longrightarrow> writes H m m1"
    by (rule SetMsgParam_stores[OF t(1), of k stops a p m]) (use assms(2) in auto)
  obtain m2 where m2: "SetMsgParam stops (?t 1) b (msg_param p (k + 1)) m1 = Some m2" "carried (?t 1) b m2 (msg_param p (k + 1))"
    "param_attr m2 (msg_param p (k + 1)) = sent_type (?t 1)"
    "\<And>j. j < 1000 \<Longrightarrow> j \<noteq> k + 1 \<Longrightarrow> param_attr m2 (msg_param p j) = param_attr m1 (msg_param p j)"
    "\<And>j i. j < 1000 \<Longrightarrow> i < 3 \<Longrightarrow> j \<noteq> k + 1 \<Longrightarrow> param_word m2 (msg_param p j) i = param_word m1 (msg_param p j) i"
    "\<And>H n. room H p n \<Longrightarrow> 64 + 32 * (k + 1) \<le> n \<Longrightarrow> writes H m1 m2"
    by (rule SetMsgParam_stores[OF t(2), of "k + 1" stops b p m1]) (use assms(2) in auto)
  obtain m3 where m3: "SetMsgParam stops (?t 2) c (msg_param p (k + 2)) m2 = Some m3" "carried (?t 2) c m3 (msg_param p (k + 2))"
    "param_attr m3 (msg_param p (k + 2)) = sent_type (?t 2)"
    "\<And>j. j < 1000 \<Longrightarrow> j \<noteq> k + 2 \<Longrightarrow> param_attr m3 (msg_param p j) = param_attr m2 (msg_param p j)"
    "\<And>j i. j < 1000 \<Longrightarrow> i < 3 \<Longrightarrow> j \<noteq> k + 2 \<Longrightarrow> param_word m3 (msg_param p j) i = param_word m2 (msg_param p j) i"
    "\<And>H n. room H p n \<Longrightarrow> 64 + 32 * (k + 2) \<le> n \<Longrightarrow> writes H m2 m3"
    by (rule SetMsgParam_stores[OF t(3), of "k + 2" stops c p m2]) (use assms(2) in auto)
  obtain m4 where m4: "SetMsgParam stops (?t 3) d (msg_param p (k + 3)) m3 = Some m4" "carried (?t 3) d m4 (msg_param p (k + 3))"
    "param_attr m4 (msg_param p (k + 3)) = sent_type (?t 3)"
    "\<And>j. j < 1000 \<Longrightarrow> j \<noteq> k + 3 \<Longrightarrow> param_attr m4 (msg_param p j) = param_attr m3 (msg_param p j)"
    "\<And>j i. j < 1000 \<Longrightarrow> i < 3 \<Longrightarrow> j \<noteq> k + 3 \<Longrightarrow> param_word m4 (msg_param p j) i = param_word m3 (msg_param p j) i"
    "\<And>H n. room H p n \<Longrightarrow> 64 + 32 * (k + 3) \<le> n \<Longrightarrow> writes H m3 m4"
    by (rule SetMsgParam_stores[OF t(4), of "k + 3" stops d p m3]) (use assms(2) in auto)
  note keep = m2(5) m3(5) m4(5)
  note keep_attr = m2(4) m3(4) m4(4)
  have four: "SetMsgParams stops x (msg_param p k) m = Some m4"
    using m1(1) m2(1) m3(1) m4(1)
    by (simp add: SetMsgParams_def SetMsgParamsFrom.simps param_next ps numeral_nat)
  show thesis
  proof (rule that[OF four])
    show "carried (?t i) (params x ! i) m4 (msg_param p (k + i))" if "i < 4" for i
      using less_4[OF that] m1(2) m2(2) m3(2) m4(2) assms(2) by (auto simp: ps carried_def keep)
    show "param_attr m4 (msg_param p (k + i)) = sent_type (?t i)" if "i < 4" for i
      using less_4[OF that] m1(3) m2(3) m3(3) m4(3) assms(2) by (auto simp: keep_attr)
    show "param_word m4 (msg_param p j) i = param_word m (msg_param p j) i" if "j < k" "i < 3" for j i
      using that assms(2) by (simp add: keep m1(5))
    show "writes H m m4" if "room H p n" "160 + 32 * k \<le> n" for H n
      by (rule writes_trans[OF writes_trans[OF writes_trans[OF m1(6)[OF that(1)] m2(6)[OF that(1)]] m3(6)[OF that(1)]] m4(6)[OF that(1)]])
        (use that(2) in simp_all)
  qed
qed

lemma GetMsgParams_four:
  assumes "length (params y) = 4"
    and "\<And>i. i < 4 \<Longrightarrow> GetMsgParam stops (TEEC_PARAM_TYPE_GET (paramTypes y) i) m (msg_param p (k + i)) (params y ! i) = Some (r i)"
  shows "GetMsgParams stops m (msg_param p k) y = Some (y\<lparr>params := map r [0..<4]\<rparr>)"
proof -
  have "length (params y) = Suc (Suc (Suc (Suc 0)))" using assms(1) by simp
  then obtain a b c d where ps: "params y = [a, b, c, d]" unfolding length_Suc_conv by auto
  show ?thesis
    using assms(2)[of 0] assms(2)[of 1] assms(2)[of 2] assms(2)[of 3]
    by (simp add: GetMsgParams_def GetMsgParamsFrom.simps param_next ps numeral_nat upt_rec)
qed

section \<open>Shared memory as the calls use it\<close>

text \<open>
  What a call relies on: an allocation returns, gives a null pointer or the pointer of a new block with room for what was asked, and keeps
  the blocks that there are; a release takes its block away, and only that. A client that works in a block in between, and gives
  back what it allocated, leaves the blocks that it must keep.
\<close>

locale shared_memory =
  fixes alloc :: "u64 \<Rightarrow> 's \<Rightarrow> (u64 \<times> 's) option"
    and release :: "u64 \<Rightarrow> 's \<Rightarrow> 's"
    and ok :: "'s \<Rightarrow> bool"
    and taken :: "'s \<Rightarrow> block set"
  assumes alloc_block: "ok s \<Longrightarrow> size_fits n \<Longrightarrow> \<exists>p s'. alloc n s = Some (p, s') \<and> ok s' \<and>
      (p = 0 \<and> taken s' = taken s \<or>
       (\<exists>q. p = user_ptr q \<and> p \<noteq> 0 \<and> q \<notin> taken s \<and> taken s' = insert q (taken s) \<and> room {q} p (unat n)))"
    and release_block: "ok s \<Longrightarrow> q \<in> taken s \<Longrightarrow> ok (release (user_ptr q) s) \<and> taken (release (user_ptr q) s) = taken s - {q}"
begin

lemma frame_returns:
  assumes "ok s" and "size_fits n" and "C \<subseteq> taken s"
    and body: "\<And>q s1. alloc n s = Some (user_ptr q, s1) \<Longrightarrow> ok s1 \<Longrightarrow> q \<notin> taken s \<Longrightarrow> taken s1 = insert q (taken s) \<Longrightarrow>
      room {q} (user_ptr q) (unat n) \<Longrightarrow>
      \<exists>r s2. body (user_ptr q) s1 = Some (r, s2) \<and> ok s2 \<and> insert q C \<subseteq> taken s2"
  obtains p s1 r s' where "alloc n s = Some (p, s1)"
    "do { (p, s1) \<leftarrow> alloc n s;
          if p = 0 then Some (e, s1) else do { (r, s2) \<leftarrow> body p s1; Some (r, release p s2) } } = Some (r, s')"
    "ok s'" "C \<subseteq> taken s'" "(taken s1 - taken s) \<inter> taken s' = {}"
proof -
  obtain p s1 where a: "alloc n s = Some (p, s1)" "ok s1" and
    c: "p = 0 \<and> taken s1 = taken s \<or>
       (\<exists>q. p = user_ptr q \<and> p \<noteq> 0 \<and> q \<notin> taken s \<and> taken s1 = insert q (taken s) \<and> room {q} p (unat n))"
    using alloc_block[OF assms(1,2)] by blast
  from c show thesis
  proof
    assume "p = 0 \<and> taken s1 = taken s"
    then show thesis using that[OF a(1)] a assms(3) by simp
  next
    assume "\<exists>q. p = user_ptr q \<and> p \<noteq> 0 \<and> q \<notin> taken s \<and> taken s1 = insert q (taken s) \<and> room {q} p (unat n)"
    then obtain q where q: "p = user_ptr q" "p \<noteq> 0" "q \<notin> taken s" "taken s1 = insert q (taken s)" "room {q} p (unat n)" by blast
    then obtain r s2 where b: "body p s1 = Some (r, s2)" "ok s2" "insert q C \<subseteq> taken s2" using body a by metis
    then have "ok (release p s2)" "taken (release p s2) = taken s2 - {q}" using release_block[of s2 q] q(1) by auto
    then show thesis using that[OF a(1)] a b q(2-4) assms(3) by auto
  qed
qed

end

lemma room_user: "snd q = n + 4127 \<Longrightarrow> size_fits n \<Longrightarrow> unat (fst q) + 4096 + unat n < 2 ^ 64 \<Longrightarrow> room {q} (user_ptr q) (unat n)"
proof -
  assume a: "snd q = n + 4127" "size_fits n" "unat (fst q) + 4096 + unat n < 2 ^ 64"
  have "user_area q (user_ptr q + word_of_nat i)" if "i < unat n" for i
  proof -
    have "unat (user_ptr q) = unat (fst q) + 4096" using a(3) by (simp add: user_ptr_def unat_word_ariths)
    moreover have "unat (user_ptr q + word_of_nat i) = unat (user_ptr q) + i"
      using a(3) that calculation by (simp add: unat_word_ariths(1)[of "user_ptr q"] unat_word_of_nat64)
    ultimately show ?thesis using a(1) unat_BlockSize[OF a(2)] that by (simp add: user_area_def)
  qed
  then show ?thesis by (simp add: room_def)
qed

interpretation messages: shared_memory "OpteeClientMemAlloc (Pcd S) (GcdServices S)" "\<lambda>p s. snd (OpteeClientMemFree (GcdServices S) p s)"
  "\<lambda>s :: ('g, 'w) optee. env_ok S blocks reserved \<and> shm_in S blocks reserved s" "held (Pcd S) blocks"
  for S :: "('g, 'w) optee_services" and blocks and reserved
proof
  fix s :: "('g, 'w) optee" and n
  assume h: "env_ok S blocks reserved \<and> shm_in S blocks reserved s" and f: "size_fits n"
  note e = env_okD[OF h[THEN conjunct1]] and hs = shm_inD[OF h[THEN conjunct2]]
  obtain p s' where run: "InternalMemAlloc (Pcd S) (GcdServices S) n OPTEE_CLIENT_MEM_BYTE_ALIGNMENT s = Some (p, s')"
    by (rule env_alloc[OF h[THEN conjunct1] h[THEN conjunct2] f, of OPTEE_CLIENT_MEM_BYTE_ALIGNMENT])
      (simp_all add: IsPowerOf2_def OPTEE_SHM_ALLOC_ALIGN_def OPTEE_CLIENT_MEM_BYTE_ALIGNMENT_def)
  have o: "only_region (Pcd S) (reserved (Gcd s'))" using alloc_Gcd[OF run e(3)] hs(2) by simp
  from e(1,2) f hs(1) placed_answers[OF e(1,2) f env_placed[OF h[THEN conjunct1] h[THEN conjunct2]]] run
  show "\<exists>p s'. OpteeClientMemAlloc (Pcd S) (GcdServices S) n s = Some (p, s') \<and> (env_ok S blocks reserved \<and> shm_in S blocks reserved s') \<and>
      (p = 0 \<and> held (Pcd S) blocks s' = held (Pcd S) blocks s \<or>
       (\<exists>q. p = user_ptr q \<and> p \<noteq> 0 \<and> q \<notin> held (Pcd S) blocks s \<and>
         held (Pcd S) blocks s' = insert q (held (Pcd S) blocks s) \<and> room {q} p (unat n)))"
  proof (cases rule: InternalMemAlloc_cases)
    case full
    then show ?thesis using h run o by (auto simp: OpteeClientMemAlloc_def shm_in_def)
  next
    case (block q)
    have "unat (fst q) + unat (snd q) < 2 ^ 64"
      using covers_END[OF e(2) shm_okD(2)[OF block(6), of q]] block(5) by auto
    then have "room {q} (user_ptr q) (unat n)"
      using room_user[OF block(1) f] unat_BlockSize[OF f] block(1) by simp
    then show ?thesis using block(2-6) h run o unfolding OpteeClientMemAlloc_def shm_in_def by blast
  qed
next
  fix s :: "('g, 'w) optee" and q
  assume h: "env_ok S blocks reserved \<and> shm_in S blocks reserved s" and q: "q \<in> held (Pcd S) blocks s"
  note e = env_okD[OF h[THEN conjunct1]] and hs = shm_inD[OF h[THEN conjunct2]]
  obtain Status s' where f: "OpteeClientMemFree (GcdServices S) (user_ptr q) s = (Status, s')" "shm_ok (Pcd S) blocks s'"
    "held (Pcd S) blocks s' = held (Pcd S) blocks s - {q}"
    by (rule OpteeClientMemFree_block[OF e(1,2) hs(1) q])
  have "only_region (Pcd S) (reserved (Gcd s'))" using free_Gcd[OF f(1) e(3)] hs(2) by simp
  then show "(env_ok S blocks reserved \<and> shm_in S blocks reserved (snd (OpteeClientMemFree (GcdServices S) (user_ptr q) s))) \<and>
      held (Pcd S) blocks (snd (OpteeClientMemFree (GcdServices S) (user_ptr q) s)) = held (Pcd S) blocks s - {q}"
    using h f by (simp add: shm_in_def)
qed

section \<open>Calls that end\<close>

text \<open>
  A secure world that finishes the call after finitely many well-formed requests, whatever the client answers. It writes to the blocks that
  are allocated, and does not ask to free the blocks \<open>K\<close>.
\<close>

inductive served ::
  "('g, 'w) optee_services \<Rightarrow> ('g \<Rightarrow> block set) \<Rightarrow> block set \<Rightarrow> ARM_SMC_ARGS \<Rightarrow> ('g, 'w) optee \<Rightarrow> bool"
  for S :: "('g, 'w) optee_services" and blocks :: "'g \<Rightarrow> block set" and K :: "block set" where
  ends: "ArmCallSmc S args (Memory s) (World s) = (args', m, w) \<Longrightarrow> writes (held (Pcd S) blocks s) (Memory s) m \<Longrightarrow>
    \<not> OPTEE_SMC_RETURN_IS_RPC (Arg0 args') \<Longrightarrow> served S blocks K args s"
| asks: "ArmCallSmc S args (Memory s) (World s) = (args', m, w) \<Longrightarrow> writes (held (Pcd S) blocks s) (Memory s) m \<Longrightarrow>
    OPTEE_SMC_RETURN_IS_RPC (Arg0 args') \<Longrightarrow> request_ok S (held (Pcd S) blocks s - K) args' m w \<Longrightarrow>
    (\<And>r args'' s'. OpteeRpcCallback S args' (s\<lparr>World := w, Memory := m\<rparr>) = Some ((r, args''), s') \<Longrightarrow> served S blocks K args'' s') \<Longrightarrow>
    served S blocks K args s"

lemma served_serves:
  assumes "served S blocks K args s" and e: "env_ok S blocks reserved" and "shm_in S blocks reserved s" and "K \<subseteq> held (Pcd S) blocks s"
  shows "serves S blocks reserved K (OpteeSmcLoop S args s)"
  using assms(1,3,4)
proof (induction rule: served.induct)
  case (ends args s args' m w)
  note st = shm_ok_store(3,4)[OF e ends.prems(1) order_refl ends.hyps(2), of w]
  show ?case
    using st ends by (subst OpteeSmcLoop.simps) (auto simp: Let_def intro!: servesI)
next
  case (asks args s args' m w)
  let ?s = "s\<lparr>World := w, Memory := m\<rparr>"
  note st = shm_ok_store(3,4)[OF e asks.prems(1) order_refl asks.hyps(2), of w]
  have "serves S blocks reserved K (OpteeRpcCallback S args' ?s)"
    by (rule OpteeRpcCallback_serves[OF e st(2)]) (use st(1) asks in simp_all)
  then obtain r args'' s' where cb: "OpteeRpcCallback S args' ?s = Some ((r, args''), s')" "shm_in S blocks reserved s'"
    "K \<subseteq> held (Pcd S) blocks s'"
    by (auto simp: serves_def)
  have "serves S blocks reserved K (OpteeSmcLoop S args'' s')" by (rule asks.IH[OF cb])
  then show ?case
    using asks.hyps(1,3) cb(1) by (subst OpteeSmcLoop.simps) simp
qed

lemma writes_SetMem: "room {q} p (unat n) \<Longrightarrow> writes {q} m (SetMem m p n v)"
  unfolding writes_def SetMem_def using room_at[of "{q}" p "unat n" _ 0 "unat n"] by (auto simp: word_less_nat_alt)

lemma writes_header:
  "room H p n \<Longrightarrow> 4 \<le> n \<Longrightarrow> writes H m (set_msg_cmd p v m)"
  "room H p n \<Longrightarrow> 8 \<le> n \<Longrightarrow> writes H m (set_msg_func p v m)"
  "room H p n \<Longrightarrow> 12 \<le> n \<Longrightarrow> writes H m (set_msg_session p v m)"
  "room H p n \<Longrightarrow> 32 \<le> n \<Longrightarrow> writes H m (set_msg_num_params p v m)"
  using writes_wr[of H p n 0 4 m v] writes_wr[of H p n 4 4 m v] writes_wr[of H p n 8 4 m v] writes_wr[of H p n 28 4 m v]
  by (simp_all add: set_msg_cmd_def set_msg_func_def set_msg_session_def set_msg_num_params_def)

definition message_body ::
  "('g, 'w) optee_services \<Rightarrow> u64 \<Rightarrow> (u64 \<Rightarrow> memory \<Rightarrow> memory option) \<Rightarrow> (memory \<Rightarrow> u64 \<Rightarrow> 'r option) \<Rightarrow> 'r \<Rightarrow> u64 \<Rightarrow>
    ('g, 'w) optee \<Rightarrow> ((u32 \<times> u32 \<times> 'r) \<times> ('g, 'w) optee) option" where
  "message_body S n fill collect unchanged p s = do {
     m \<leftarrow> fill p (SetMem (Memory s) p n 0);
     (TeecResult, s) \<leftarrow> OpteeSmcCall S p (s\<lparr>Memory := m\<rparr>);
     r \<leftarrow> (if TeecResult \<noteq> TEEC_SUCCESS then Some (TeecResult, TEEC_ORIGIN_COMMS, unchanged)
       else do {
         x \<leftarrow> collect (Memory s) p;
         Some (msg_ret (Memory s) p, msg_ret_origin (Memory s) p, x)
       });
     Some (r, s)
   }"

lemma MessageCall_frame:
  "MessageCall S n fill collect unchanged s = do {
     (p, s1) \<leftarrow> OpteeClientMemAlloc (Pcd S) (GcdServices S) n s;
     if p = 0 then Some ((TEEC_ERROR_OUT_OF_MEMORY, TEEC_ORIGIN_API, unchanged), s1)
     else do {
       (r, s2) \<leftarrow> message_body S n fill collect unchanged p s1;
       Some (r, snd (OpteeClientMemFree (GcdServices S) p s2))
     }
   }"
  unfolding MessageCall_def message_body_def
  by (intro arg_cong[where f = "Option.bind _"] ext) (auto split: bind_splits prod.splits intro!: arg_cong[where f = "Option.bind _"])

lemma OpteeClientMemAlloc_World: "OpteeClientMemAlloc pcd G n s = Some (p, s') \<Longrightarrow> World s' = World s"
  for s :: "('g, 'w) optee"
  unfolding OpteeClientMemAlloc_def InternalMemAlloc_def Let_def
  by (auto dest!: ASSERT_passed split: if_splits prod.splits)

lemma MessageCall_returns:
  fixes s :: "('g, 'w) optee"
  assumes e: "env_ok S blocks reserved" and h: "shm_in S blocks reserved s" and C: "C \<subseteq> held (Pcd S) blocks s" and n: "size_fits n"
    and fill: "\<And>q m. room {q} (user_ptr q) (unat n) \<Longrightarrow> \<exists>m'. fill (user_ptr q) m = Some m' \<and> writes {q} m m'"
    and collect: "\<And>m p. collect m p \<noteq> None"
    and world: "\<And>q s1. shm_in S blocks reserved s1 \<Longrightarrow> q \<notin> held (Pcd S) blocks s \<Longrightarrow>
      held (Pcd S) blocks s1 = insert q (held (Pcd S) blocks s) \<Longrightarrow> World s1 = World s \<Longrightarrow>
      served S blocks (insert q C) (OpteeSmcArgs (user_ptr q)) s1"
  obtains p s1 r s' where "OpteeClientMemAlloc (Pcd S) (GcdServices S) n s = Some (p, s1)"
    "MessageCall S n fill collect unchanged s = Some (r, s')" "shm_in S blocks reserved s'" "C \<subseteq> held (Pcd S) blocks s'"
    "(held (Pcd S) blocks s1 - held (Pcd S) blocks s) \<inter> held (Pcd S) blocks s' = {}"
proof (rule messages.frame_returns[where S = S and blocks = blocks and s = s and n = n and C = C
      and body = "message_body S n fill collect unchanged" and e = "(TEEC_ERROR_OUT_OF_MEMORY, TEEC_ORIGIN_API, unchanged)"])
  show "env_ok S blocks reserved \<and> shm_in S blocks reserved s" using e h by blast
  fix q and s1 :: "('g, 'w) optee"
  assume al: "OpteeClientMemAlloc (Pcd S) (GcdServices S) n s = Some (user_ptr q, s1)"
    and q: "env_ok S blocks reserved \<and> shm_in S blocks reserved s1" "q \<notin> held (Pcd S) blocks s"
    "held (Pcd S) blocks s1 = insert q (held (Pcd S) blocks s)" "room {q} (user_ptr q) (unat n)"
  obtain m where m: "fill (user_ptr q) (SetMem (Memory s1) (user_ptr q) n 0) = Some m"
    "writes {q} (SetMem (Memory s1) (user_ptr q) n 0) m"
    using fill[OF q(4)] by blast
  have "writes {q} (Memory s1) m" by (rule writes_trans[OF writes_SetMem[OF q(4)] m(2)])
  note st = shm_ok_store(1,2)[OF e q(1)[THEN conjunct2] _ this]
  have k: "insert q C \<subseteq> held (Pcd S) blocks (s1\<lparr>Memory := m\<rparr>)" using st(1) q(3) C by auto
  have "serves S blocks reserved (insert q C) (OpteeSmcCall S (user_ptr q) (s1\<lparr>Memory := m\<rparr>))"
    unfolding OpteeSmcCall_def
    by (rule served_serves[OF world[OF st(2) q(2)] e st(2) k]) (use st(1) q(3) OpteeClientMemAlloc_World[OF al] in simp_all)
  then obtain x s2 where c: "OpteeSmcCall S (user_ptr q) (s1\<lparr>Memory := m\<rparr>) = Some (x, s2)" "shm_in S blocks reserved s2"
    "insert q C \<subseteq> held (Pcd S) blocks s2"
    by (auto simp: serves_def)
  obtain y where "collect (Memory s2) (user_ptr q) = Some y" using collect by auto
  then show "\<exists>r s2. message_body S n fill collect unchanged (user_ptr q) s1 = Some (r, s2) \<and>
      (env_ok S blocks reserved \<and> shm_in S blocks reserved s2) \<and> insert q C \<subseteq> held (Pcd S) blocks s2"
    using m(1) c e by (simp add: message_body_def)
next
  fix p and s1 s' :: "('g, 'w) optee" and r
  assume a: "OpteeClientMemAlloc (Pcd S) (GcdServices S) n s = Some (p, s1)" "env_ok S blocks reserved \<and> shm_in S blocks reserved s'"
    "C \<subseteq> held (Pcd S) blocks s'" "(held (Pcd S) blocks s1 - held (Pcd S) blocks s) \<inter> held (Pcd S) blocks s' = {}"
    "do { (p, s1) \<leftarrow> OpteeClientMemAlloc (Pcd S) (GcdServices S) n s;
          if p = 0 then Some ((TEEC_ERROR_OUT_OF_MEMORY, TEEC_ORIGIN_API, unchanged), s1)
          else do { (r, s2) \<leftarrow> message_body S n fill collect unchanged p s1; Some (r, snd (OpteeClientMemFree (GcdServices S) p s2)) } }
      = Some (r, s')"
  show thesis by (rule that[OF a(1) _ a(2)[THEN conjunct2] a(3,4), of r]) (simp only: MessageCall_frame a(5))
qed (use n C in simp_all)

lemma GetMsgParams_total:
  assumes "supported x" shows "GetMsgParams stops m (msg_param p k) x \<noteq> None"
proof -
  have "\<exists>r. GetMsgParam stops (TEEC_PARAM_TYPE_GET (paramTypes x) i) m (msg_param p (k + i)) (params x ! i) = Some r" if "i < 4" for i
    using assms that by (auto simp: supported_def supported_type_def GetMsgParam_def teec_types)
  then obtain r where "\<And>i. i < 4 \<Longrightarrow> GetMsgParam stops (TEEC_PARAM_TYPE_GET (paramTypes x) i) m (msg_param p (k + i)) (params x ! i) = Some (r i)"
    by metis
  then show ?thesis using assms by (subst GetMsgParams_four[of x]) (auto simp: supported_def)
qed

lemma InvokeCommand_fill:
  assumes "supported x" and "room {q} p 160"
  shows "\<exists>m'. SetMsgParams stops x (msg_param p 0) (set_msg_num_params p 4 (set_msg_session p i (set_msg_func p f (set_msg_cmd p 1 m)))) = Some m' \<and>
    writes {q} m m'"
proof -
  let ?m = "set_msg_num_params p 4 (set_msg_session p i (set_msg_func p f (set_msg_cmd p 1 m)))"
  have "writes {q} m ?m"
    by (rule writes_trans[OF writes_trans[OF writes_trans[OF writes_header(1)[OF assms(2)] writes_header(2)[OF assms(2)]]
          writes_header(3)[OF assms(2)]] writes_header(4)[OF assms(2)]]) simp_all
  moreover obtain m' where "SetMsgParams stops x (msg_param p 0) ?m = Some m'" "writes {q} ?m m'"
    by (rule SetMsgParams_stores[OF assms(1), of 0 stops p ?m]) (use assms(2) in auto)
  ultimately show ?thesis by (auto intro: writes_trans)
qed

text \<open>The message of a session that is opened, before the parameters of the operation.\<close>

lemma param_word_header [simp]:
  "j < 1000 \<Longrightarrow> i < 3 \<Longrightarrow> param_word (set_msg_num_params p v m) (msg_param p j) i = param_word m (msg_param p j) i"
  "j < 1000 \<Longrightarrow> i < 3 \<Longrightarrow> param_word (set_msg_cmd p v m) (msg_param p j) i = param_word m (msg_param p j) i"
  using rd_wr_apart[of "40 + 32 * j + 8 * i" 8 28 4 v p m] rd_wr_apart[of "40 + 32 * j + 8 * i" 8 0 4 v p m]
  by (simp_all add: param_word_off set_msg_num_params_def set_msg_cmd_def)

lemma param_word_zero:
  assumes "48 + 32 * j + 8 * i \<le> unat n"
  shows "param_word (SetMem m p n 0) (msg_param p j) i = 0"
proof (rule bit_word_eqI)
  fix b
  have "unat (word_of_nat (40 + 32 * j + 8 * i + b div 8) :: u64) < unat n" if "b < 64"
    using assms that unsigned_less[where 'a = nat, of n] by (subst unat_word_of_nat64) auto
  then show "bit (param_word (SetMem m p n 0) (msg_param p j) i) b \<longleftrightarrow> bit (0 :: u64) b"
    unfolding param_word_off by (auto simp: bit_rd SetMem_def word_less_nat_alt add.assoc)
qed

lemma StoreBytes_at: "i < length xs \<Longrightarrow> length xs < 2 ^ 64 \<Longrightarrow> StoreBytes xs b m (b + word_of_nat i) = xs ! i"
  by (simp add: StoreBytes_def unat_word_of_nat64)

lemma rd_StoreBytes_apart:
  assumes "a + length xs \<le> b" "b + k < 2 ^ 64"
  shows "rd k (StoreBytes xs (p + word_of_nat a) m) (p + word_of_nat b) = rd k m (p + word_of_nat b)"
proof (rule rd_cong)
  fix i assume i: "i < k"
  have "(word_of_nat (b + i) :: u64) - word_of_nat a = word_of_nat (b + i - a)" using assms by (simp add: of_nat_diff)
  then have d: "p + word_of_nat b + word_of_nat i - (p + word_of_nat a) = word_of_nat (b + i - a)"
    by (simp add: add_diff_eq)
  have "unat (word_of_nat (b + i - a) :: u64) = b + i - a" using assms i by (intro unat_word_of_nat64) simp
  then have "\<not> unat (p + word_of_nat b + word_of_nat i - (p + word_of_nat a)) < length xs"
    unfolding d using assms i by linarith
  then show "StoreBytes xs (p + word_of_nat a) m (p + word_of_nat b + word_of_nat i) = m (p + word_of_nat b + word_of_nat i)"
    by (simp only: StoreBytes_def if_False)
qed

lemma le_bytes_low: "le_bytes 4 (ucast (rd 8 m a :: u64) :: u32) = map (\<lambda>i. m (a + word_of_nat i)) [0..<4]"
proof (rule nth_equalityI)
  fix i assume "i < length (le_bytes 4 (ucast (rd 8 m a :: u64) :: u32))"
  then have i: "i < 4" by (simp add: le_bytes_def)
  have "bit (ucast (drop_bit (8 * i) (ucast (rd 8 m a :: u64) :: u32)) :: u8) b \<longleftrightarrow> bit (m (a + word_of_nat i)) b" if b: "b < 8" for b
    using i b by (auto simp: bit_simps bit_rd)
  then have "(ucast (drop_bit (8 * i) (ucast (rd 8 m a :: u64) :: u32)) :: u8) = m (a + word_of_nat i)"
    by (intro bit_word_eqI) simp
  then show "le_bytes 4 (ucast (rd 8 m a :: u64) :: u32) ! i = map (\<lambda>i. m (a + word_of_nat i)) [0..<4] ! i"
    using i by (simp add: le_bytes_def)
qed (simp add: le_bytes_def)

text \<open>C39: What an operation sends comes back as it was: the message carries each parameter under the type of the message protocol that
  belongs to its type, and reading the message back gives the operation itself. Into another operation of the same types it writes the
  two halves of a value, or the buffer and size of a reference, and leaves a parameter without a type alone.\<close>

theorem SetMsgParams_GetMsgParams:
  assumes "supported x" and "length (params y) = 4" and "paramTypes y = paramTypes x" and "k < 900"
  shows "\<exists>m'. SetMsgParams stops x (msg_param p k) m = Some m' \<and>
    (\<forall>i < 4. param_attr m' (msg_param p (k + i)) = sent_type (TEEC_PARAM_TYPE_GET (paramTypes x) i)) \<and>
    GetMsgParams stops m' (msg_param p k) x = Some x \<and>
    GetMsgParams stops m' (msg_param p k) y =
      Some (y\<lparr>params := map (\<lambda>i. returned (TEEC_PARAM_TYPE_GET (paramTypes x) i) (params x ! i) (params y ! i)) [0..<4]\<rparr>)"
proof -
  let ?t = "TEEC_PARAM_TYPE_GET (paramTypes x)"
  obtain m' where m': "SetMsgParams stops x (msg_param p k) m = Some m'"
    "\<And>i. i < 4 \<Longrightarrow> carried (?t i) (params x ! i) m' (msg_param p (k + i))"
    "\<And>i. i < 4 \<Longrightarrow> param_attr m' (msg_param p (k + i)) = sent_type (?t i)"
    using SetMsgParams_stores[OF assms(1,4), of stops p m] by metis
  have s: "supported_type (?t i)" if "i < 4" for i using assms(1) that by (simp add: supported_def)
  have l: "length (params x) = 4" using assms(1) by (simp add: supported_def)
  have get: "GetMsgParams stops m' (msg_param p k) z = Some (z\<lparr>params := map (\<lambda>i. returned (?t i) (params x ! i) (params z ! i)) [0..<4]\<rparr>)"
    if "length (params z) = 4" "paramTypes z = paramTypes x" for z
    by (rule GetMsgParams_four[OF that(1)]) (simp add: that(2) GetMsgParam_carried s m'(2))
  have "returned (?t i) (params x ! i) (params x ! i) = params x ! i" for i by (simp add: returned_def)
  then have "map (\<lambda>i. returned (?t i) (params x ! i) (params x ! i)) [0..<4] = params x"
    by (intro nth_equalityI) (simp_all add: l)
  then have "GetMsgParams stops m' (msg_param p k) x = Some x" using get[OF l] by simp
  then show ?thesis using m'(1,3) get[OF assms(2,3)] by blast
qed

lemma SetMsgParams_GetMsgParams_witness:
  "\<exists>m. SetMsgParams True \<lparr>paramTypes = 0x0513, params = [\<lparr>word0 = 7, word1 = 8, word2 = 9\<rparr>, \<lparr>word0 = 1, word1 = 2, word2 = 3\<rparr>,
       \<lparr>word0 = 0x1000, word1 = 64, word2 = 0\<rparr>, \<lparr>word0 = 0, word1 = 0, word2 = 0\<rparr>]\<rparr> (msg_param 0x1F000 0) (\<lambda>_. 0) = Some m \<and>
     param_attr m (msg_param 0x1F000 2) = OPTEE_MSG_ATTR_TYPE_TMEM_INPUT"
proof -
  let ?x = "\<lparr>paramTypes = 0x0513, params = [\<lparr>word0 = 7, word1 = 8, word2 = 9\<rparr>, \<lparr>word0 = 1, word1 = 2, word2 = 3\<rparr>,
       \<lparr>word0 = 0x1000, word1 = 64, word2 = 0\<rparr>, \<lparr>word0 = 0, word1 = 0, word2 = 0\<rparr>]\<rparr>"
  have "TEEC_PARAM_TYPE_GET 0x0513 0 = 3" "TEEC_PARAM_TYPE_GET 0x0513 1 = 1" "TEEC_PARAM_TYPE_GET 0x0513 2 = 5"
    "TEEC_PARAM_TYPE_GET 0x0513 3 = 0"
    by (simp_all add: TEEC_PARAM_TYPE_GET_def)
  note t = this
  have s: "supported ?x"
    unfolding supported_def using t by (auto simp: supported_type_def dest!: less_4)
  obtain m where "SetMsgParams True ?x (msg_param 0x1F000 0) (\<lambda>_. 0) = Some m"
    "\<forall>i < 4. param_attr m (msg_param 0x1F000 (0 + i)) = sent_type (TEEC_PARAM_TYPE_GET (paramTypes ?x) i)"
    using SetMsgParams_GetMsgParams[OF s, of ?x 0 True "0x1F000" "\<lambda>_. 0"] by auto
  moreover from this(2)[rule_format, of 2] have "param_attr m (msg_param 0x1F000 2) = OPTEE_MSG_ATTR_TYPE_TMEM_INPUT"
    by (simp only: add_0 TEEC_Operation.simps t sent_type_def msg_types) simp
  ultimately show ?thesis by blast
qed


text \<open>C4: A command always comes back to its caller, with sound shared memory: when the secure world finishes each call after finitely
  many well-formed requests, the call returns, the blocks that the client keeps are still allocated, and the block of the message, if
  there was memory for one, is free again, on every path. A request is well-formed (\<open>request_ok\<close>) when it allocates a size that does not
  wrap around, frees a block of the secure world, reports an interrupt, or brings a message in such a block: to load an application into
  a buffer of its blocks, to exchange frames with the RPMB partition, through buffers of its blocks and with a protocol that answers, for
  the time, to wait, and to allocate or free; a build without assertions also answers every unknown request. The GCD keeps its contract,
  and the shared region is the only reserved memory below its end.\<close>

theorem TEEC_InvokeCommand_returns:
  fixes s :: "('g, 'w) optee"
  assumes "env_ok S blocks reserved" and "shm_in S blocks reserved s" and "C \<subseteq> held (Pcd S) blocks s" and "supported Operation"
    and "\<And>q s1. shm_in S blocks reserved s1 \<Longrightarrow> q \<notin> held (Pcd S) blocks s \<Longrightarrow>
      held (Pcd S) blocks s1 = insert q (held (Pcd S) blocks s) \<Longrightarrow> World s1 = World s \<Longrightarrow>
      served S blocks (insert q C) (OpteeSmcArgs (user_ptr q)) s1"
  shows "\<exists>TeecResult origin x p s1 s'. TEEC_InvokeCommand S (Some session) CmdId (Some Operation) s =
      Some ((TeecResult, origin, Some x), s') \<and> shm_in S blocks reserved s' \<and> C \<subseteq> held (Pcd S) blocks s' \<and>
    OpteeClientMemAlloc (Pcd S) (GcdServices S) 160 s = Some (p, s1) \<and>
    (held (Pcd S) blocks s1 - held (Pcd S) blocks s) \<inter> held (Pcd S) blocks s' = {}"
proof -
  have n: "OPTEE_MSG_GET_ARG_SIZE 4 = 160" by (simp add: OPTEE_MSG_GET_ARG_SIZE_def)
  let ?fill = "\<lambda>p m. SetMsgParams (AssertStops (Pcd S)) Operation (msg_param p 0)
    (set_msg_num_params p 4 (set_msg_session p (session_id session) (set_msg_func p CmdId (set_msg_cmd p 1 m))))"
  have fits: "size_fits 160" by (simp add: size_fits_def)
  have f: "\<exists>m'. ?fill (user_ptr q) m = Some m' \<and> writes {q} m m'" if "room {q} (user_ptr q) (unat (160 :: u64))" for q m
    using InvokeCommand_fill[OF assms(4), of q "user_ptr q"] that by simp
  obtain p s1 r s' where "OpteeClientMemAlloc (Pcd S) (GcdServices S) 160 s = Some (p, s1)"
    "MessageCall S 160 ?fill (\<lambda>m p. GetMsgParams (AssertStops (Pcd S)) m (msg_param p 0) Operation) Operation s = Some (r, s')"
    "shm_in S blocks reserved s'" "C \<subseteq> held (Pcd S) blocks s'"
    "(held (Pcd S) blocks s1 - held (Pcd S) blocks s) \<inter> held (Pcd S) blocks s' = {}"
    by (rule MessageCall_returns[OF assms(1-3) fits f GetMsgParams_total[OF assms(4)] assms(5)])
  moreover obtain a b c where "r = (a, b, c)" by (metis prod.exhaust)
  ultimately show ?thesis
    by (auto simp: TEEC_InvokeCommand_def TEEC_SMC_InvokeCommand_def n)
qed


lemma RpmbCall_SdMmc:
  assumes "This \<noteq> 0" and "Req + 6 \<noteq> 0" and "Response \<noteq> 0" and "RpcRpmbBytesToUint16 m (Req + 6 + 510) \<in> {1, 2, 3, 4}"
    and "PacketCount (rpc_request m Req) \<noteq> 0" and "PacketCount (rpc_response m Req Response) \<noteq> 0"
  shows "RpmbCall (SdMmcRpmbProtocol E This cid sectors mult) Req Response m w =
    RpmbRequest E (SdhcRecoverFromErrors E) (rpc_request m Req) (rpc_response m Req Response) w"
  using assms
  by (auto simp: RpmbCall_def SdMmcRpmbProtocol_def rpc_request_def rpc_response_def RpmbIoProgramKey_def RpmbIoReadCounter_def
      RpmbIoAuthenticatedWrite_def RpmbIoAuthenticatedRead_def RpmbType_packet Let_def)

text \<open>
  A secure world that reads the counter of the RPMB partition in every call: it puts the message and the request into a block that it was
  given before, from 0x1F000 on, and finishes when the answer is there.
\<close>

definition counter_message :: memory where
  "counter_message = (\<lambda>_. 0)(0x1F000 := 1, 0x1F01C := 2, 0x1F020 := 9, 0x1F029 := 0xF1, 0x1F02A := 1, 0x1F040 := 10, 0x1F049 := 0xF4,
     0x1F04A := 1, 0x1F305 := 2)"

definition with_message :: "memory \<Rightarrow> memory" where
  "with_message m = (\<lambda>x. if unat (x - 0x1F000) < 0x600 then counter_message x else m x)"

definition counter_world :: "ARM_SMC_ARGS \<Rightarrow> memory \<Rightarrow> 'w \<Rightarrow> ARM_SMC_ARGS \<times> memory \<times> 'w" where
  "counter_world args m w =
    (if Arg0 args = OPTEE_SMC_CALL_WITH_ARG then (args\<lparr>Arg0 := 0xFFFF0005, Arg1 := 0, Arg2 := 0x1F000\<rparr>, with_message m, w)
     else (args\<lparr>Arg0 := OPTEE_SMC_RETURN_OK\<rparr>, m, w))"

definition counter_services :: "(stack_state, echo_world SDHC_INSTANCE) optee_services" where
  "counter_services = rpmb_services\<lparr>ArmCallSmc := counter_world\<rparr>"

definition counter_client :: "(stack_state, echo_world SDHC_INSTANCE) optee" where
  "counter_client = \<lparr>Memory = MarkSharedMemoryRegionAsFree 0x10000 0x10000 (\<lambda>_. 0), gDriverImageHandle = 1,
     mSharedMemAllocationCount = 0, mSharedMemAllocSize = 0, Gcd = ([(0x10000, 0x10000)], []), World = emmc_instance\<rparr>"

lemma rd_with_message:
  assumes "a + k \<le> 0x600" shows "rd k (with_message m) (0x1F000 + word_of_nat a) = rd k counter_message (0x1F000 + word_of_nat a)"
proof (rule rd_cong)
  fix i assume "i < k"
  then have "unat (0x1F000 + word_of_nat a + word_of_nat i - 0x1F000 :: u64) < 0x600"
    using assms by (simp add: unat_word_of_nat64 flip: of_nat_add)
  then show "with_message m (0x1F000 + word_of_nat a + word_of_nat i) = counter_message (0x1F000 + word_of_nat a + word_of_nat i)"
    by (simp only: with_message_def if_True)
qed

lemma counter_fields:
  "msg_cmd (with_message m) 0x1F000 = 1" "param_word (with_message m) (msg_param 0x1F000 0) 0 = 0x1F100"
  "param_word (with_message m) (msg_param 0x1F000 1) 0 = 0x1F400" "(rd 2 (with_message m) 0x1F100 :: u16) = 0"
  "RpcRpmbBytesToUint16 (with_message m) (0x1F100 + 6 + 510) = 2"
proof -
  have c: "(rd 4 counter_message (0x1F000 + word_of_nat 0) :: u32) = 1" "(rd 8 counter_message (0x1F000 + word_of_nat 0x28) :: u64) = 0x1F100"
    "(rd 8 counter_message (0x1F000 + word_of_nat 0x48) :: u64) = 0x1F400" "(rd 2 counter_message (0x1F000 + word_of_nat 0x100) :: u16) = 0"
    "counter_message 0x1F304 = 0" "counter_message 0x1F305 = 2"
    by code_simp+
  have r: "(rd 4 (with_message m) (0x1F000 + word_of_nat 0) :: u32) = rd 4 counter_message (0x1F000 + word_of_nat 0)"
    "(rd 8 (with_message m) (0x1F000 + word_of_nat 0x28) :: u64) = rd 8 counter_message (0x1F000 + word_of_nat 0x28)"
    "(rd 8 (with_message m) (0x1F000 + word_of_nat 0x48) :: u64) = rd 8 counter_message (0x1F000 + word_of_nat 0x48)"
    "(rd 2 (with_message m) (0x1F000 + word_of_nat 0x100) :: u16) = rd 2 counter_message (0x1F000 + word_of_nat 0x100)"
    by (rule rd_with_message, simp)+
  note r = r[unfolded c(1-4), simplified]
  show "msg_cmd (with_message m) 0x1F000 = 1" "(rd 2 (with_message m) 0x1F100 :: u16) = 0"
    using r by (simp_all add: msg_cmd_def)
  show "param_word (with_message m) (msg_param 0x1F000 0) 0 = 0x1F100" "param_word (with_message m) (msg_param 0x1F000 1) 0 = 0x1F400"
    using r by (simp_all add: param_word_def msg_param_def)
  show "RpcRpmbBytesToUint16 (with_message m) (0x1F100 + 6 + 510) = 2"
    using c(5,6) by (simp add: RpcRpmbBytesToUint16_def with_message_def)
qed

lemma counter_env: "env_ok counter_services stack_blocks stack_reserved"
  using stack_gcd_ok stack_gcd_spaces demo_region_ok by (simp add: env_ok_def counter_services_def rpmb_services_def)

lemma demo_only: "only_region demo_pcd (stack_reserved ([(0x10000, 0x10000)], g))"
  by (simp add: only_region_def stack_reserved_def demo_region region_def covers_def)

lemma counter_start: "shm_in counter_services stack_blocks stack_reserved counter_client" "held demo_pcd stack_blocks counter_client = {}"
  using demo_start_ok demo_only
  by (simp_all add: shm_in_def shm_ok_def held_def demo_start_def counter_client_def counter_services_def rpmb_services_def)


lemma counter_request_ok:
  "request_ok counter_services {(0x1E000, 0x181F)} (args\<lparr>Arg0 := 0xFFFF0005, Arg1 := 0, Arg2 := 0x1F000\<rparr>) (with_message m) emmc_instance"
proof -
  let ?H = "{(0x1E000, 0x181F)} :: block set" and ?Req = "0x1F100 :: u64" and ?Response = "0x1F400 :: u64"
  have room: "room ?H (0x1F000 + word_of_nat a) n" if "a + n \<le> 0x800" for a n
  proof -
    have "user_area (0x1E000, 0x181F) (0x1F000 + word_of_nat a + word_of_nat i)" if "i < n" for i
    proof -
      have "unat (0x1F000 + word_of_nat a + word_of_nat i :: u64) = 0x1F000 + a + i"
        using \<open>a + n \<le> 0x800\<close> that by (simp add: unat_word_ariths unat_word_of_nat64)
      then show ?thesis using \<open>a + n \<le> 0x800\<close> that by (simp add: user_area_def)
    qed
    then show ?thesis by (simp add: room_def)
  qed
  note f = counter_fields[of m]
  have t: "RpmbType (Contents (rpc_request (with_message m) ?Req)) = 2"
    by (simp only: rpc_request_def Let_def EFI_RPMB_DATA_BUFFER.simps RpmbType_packet f(5))
  have n: "PacketCount (rpc_request (with_message m) ?Req) = 1" "PacketCount (rpc_response (with_message m) ?Req ?Response) = 1"
    unfolding rpc_request_def rpc_response_def Let_def f(5) by simp_all
  have e: "identified emmc_instance" "CurrentMmcPartition emmc_instance < 8"
    by (simp_all add: emmc_instance_def identified_def set_CardFunction_def new_instance_def)
  have "exchange_bytes (rpc_request (with_message m) ?Req) (rpc_response (with_message m) ?Req ?Response) = 512"
    unfolding exchange_bytes_def t by simp
  then obtain w b where "RpmbRequest echo_card (SdhcRecoverFromErrors echo_card) (rpc_request (with_message m) ?Req)
      (rpc_response (with_message m) ?Req ?Response) emmc_instance =
    Some ((EFI_SUCCESS, within 512 b (Contents (rpc_response (with_message m) ?Req ?Response))), w)"
    using RpmbRequest_result[OF echo_card_ok _ e, where Request = "rpc_request (with_message m) ?Req"
        and Response = "rpc_response (with_message m) ?Req ?Response" and R = "SdhcRecoverFromErrors echo_card"] t n by (auto simp: rpc_request_def)
  then have "answered (RpmbCall (SdMmcRpmbProtocol echo_card 0x4000 [] 1 1) ?Req ?Response (with_message m) emmc_instance)
      512 (packet (with_message m) ?Response)"
    using n f(5) by (subst RpmbCall_SdMmc) (auto simp: answered_def within_def rpc_response_def)
  moreover have "RpmbResponseSize (with_message m) ?Req = 512" by (simp only: RpmbResponseSize_def f(5)) simp
  ultimately have "rpmb_request_ok counter_services ?H 0x1F000 (with_message m) emmc_instance"
    using f room[of 1024 512] by (simp add: rpmb_request_ok_def counter_services_def rpmb_services_def Let_def)
  then have "msg_ok counter_services ?H 0x1F000 (with_message m) emmc_instance"
    using f(1) room[of 0 64] by (simp add: msg_ok_def)
  then show ?thesis
    by (simp add: request_ok_def OPTEE_SMC_RETURN_GET_RPC_FUNC_def RpcAddress_def ADDRESS64_def)
qed

lemma counter_served:
  assumes "shm_in counter_services stack_blocks stack_reserved s" and "held demo_pcd stack_blocks s = {q, (0x1E000, 0x181F)}"
    and "q \<noteq> (0x1E000, 0x181F)" and "World s = emmc_instance"
  shows "served counter_services stack_blocks {q} (OpteeSmcArgs p) s"
proof -
  let ?args = "OpteeSmcArgs p\<lparr>Arg0 := 0xFFFF0005, Arg1 := 0, Arg2 := 0x1F000\<rparr>"
  have pcd: "Pcd counter_services = demo_pcd" by (simp add: counter_services_def rpmb_services_def)
  have area: "user_area (0x1E000, 0x181F) x" if "unat (x - 0x1F000) < 0x600" for x
  proof -
    define y where "y = x - 0x1F000"
    have x: "x = 0x1F000 + y" by (simp add: y_def)
    have "unat x = 0x1F000 + unat y" using that unfolding x by (simp add: unat_word_ariths(1))
    then have "unat x = 0x1F000 + unat (x - 0x1F000)" by (simp add: y_def)
    then show ?thesis using that by (simp add: user_area_def)
  qed
  show ?thesis
  proof (rule served.asks)
    show "ArmCallSmc counter_services (OpteeSmcArgs p) (Memory s) (World s) = (?args, with_message (Memory s), World s)"
      by (simp add: counter_services_def rpmb_services_def counter_world_def OpteeSmcArgs_def)
    show "writes (held (Pcd counter_services) stack_blocks s) (Memory s) (with_message (Memory s))"
      using area assms(2) by (auto simp: writes_def with_message_def pcd split: if_splits)
    show "OPTEE_SMC_RETURN_IS_RPC (Arg0 ?args)"
      by (simp add: OPTEE_SMC_RETURN_IS_RPC_def OPTEE_SMC_RETURN_UNKNOWN_FUNCTION_def)
    have "held (Pcd counter_services) stack_blocks s - {q} = {(0x1E000, 0x181F)}" using assms(2,3) pcd by auto
    then show "request_ok counter_services (held (Pcd counter_services) stack_blocks s - {q}) ?args (with_message (Memory s)) (World s)"
      using counter_request_ok assms(4) by simp
    fix r args'' and s' :: "(stack_state, echo_world SDHC_INSTANCE) optee"
    assume "OpteeRpcCallback counter_services ?args (s\<lparr>World := World s, Memory := with_message (Memory s)\<rparr>) = Some ((r, args''), s')"
    then have a: "Arg0 args'' = OPTEE_SMC_CALL_RETURN_FROM_RPC"
      by (auto simp: OpteeRpcCallback_def Let_def split: bind_splits prod.splits if_splits)
    show "served counter_services stack_blocks {q} args'' s'"
      by (rule served.ends[where args' = "args''\<lparr>Arg0 := OPTEE_SMC_RETURN_OK\<rparr>" and m = "Memory s'" and w = "World s'"])
        (use a in \<open>simp_all add: counter_services_def rpmb_services_def counter_world_def OPTEE_SMC_CALL_WITH_ARG_def
          OPTEE_SMC_CALL_RETURN_FROM_RPC_def writes_refl OPTEE_SMC_RETURN_IS_RPC_def OPTEE_SMC_RETURN_OK_def\<close>)
  qed
qed

lemma counter_block:
  obtains s1 where "OpteeClientMemAlloc demo_pcd stack_gcd 0x800 counter_client = Some (0x1F000, s1)" "World s1 = emmc_instance"
    "shm_in counter_services stack_blocks stack_reserved s1" "held demo_pcd stack_blocks s1 = {(0x1E000, 0x181F)}"
proof -
  have pcd: "Pcd counter_services = demo_pcd" "GcdServices counter_services = stack_gcd"
    by (simp_all add: counter_services_def rpmb_services_def)
  have a: "AllocateMemorySpace stack_gcd EfiGcdAllocateMaxAddressSearchTopDown 12 (0x800 + 4127) (OPTEE_SHM_END demo_pcd) (Gcd counter_client) =
      ((EFI_SUCCESS, 0x1E000), [(0x10000, 0x10000)], [(0x1E000, 0x181F)])"
    by (simp add: stack_gcd_def demo_region counter_client_def lowest_def mask_eq_exp_minus_1 in_space_def)
  note start = shm_inD[OF counter_start(1), unfolded pcd]
  have "inside demo_pcd (0x1E000, 0x800 + 4127)" by (simp add: inside_def demo_region)
  then obtain s1 where run: "InternalMemAlloc demo_pcd stack_gcd 0x800 16 counter_client = Some (0x1F000, s1)"
    using InternalMemAlloc_returns[OF stack_gcd_ok demo_region_ok _ start(1) _ a, of 16]
    by (auto simp: size_fits_def IsPowerOf2_def OPTEE_SHM_ALLOC_ALIGN_def)
  then have al: "OpteeClientMemAlloc demo_pcd stack_gcd 0x800 counter_client = Some (0x1F000, s1)"
    by (simp add: OpteeClientMemAlloc_def OPTEE_CLIENT_MEM_BYTE_ALIGNMENT_def)
  have f: "size_fits 0x800" by (simp add: size_fits_def)
  have "AssertStops demo_pcd" by (simp add: demo_pcd_def)
  from stack_gcd_ok demo_region_ok f start(1) disjI1[OF this] run have "held demo_pcd stack_blocks s1 = {(0x1E000, 0x181F)}"
  proof (cases rule: InternalMemAlloc_cases)
    case (block q)
    then have "q = (0x1E000, 0x181F)" by (cases q) (simp add: user_ptr_def)
    then show ?thesis using block(5) counter_start(2) by simp
  qed simp
  moreover have "shm_in counter_services stack_blocks stack_reserved s1"
    using messages.alloc_block[of counter_services stack_blocks stack_reserved counter_client 2048] counter_start counter_env al f
    by (auto simp: pcd)
  moreover have "World s1 = emmc_instance" using OpteeClientMemAlloc_World[OF al] by (simp add: counter_client_def)
  ultimately show thesis using that al by blast
qed

lemma TEEC_InvokeCommand_returns_witness:
  "\<exists>s1 r s. OpteeClientMemAlloc demo_pcd stack_gcd 0x800 counter_client = Some (0x1F000, s1) \<and>
     TEEC_InvokeCommand counter_services (Some \<lparr>session_id = 5\<rparr>) 1 (Some TEEC_NULL_OPERATION) s1 = Some (r, s) \<and>
     shm_ok demo_pcd stack_blocks s"
proof -
  have pcd: "Pcd counter_services = demo_pcd" by (simp add: counter_services_def rpmb_services_def)
  obtain s1 where s1: "OpteeClientMemAlloc demo_pcd stack_gcd 0x800 counter_client = Some (0x1F000, s1)" "World s1 = emmc_instance"
    "shm_in counter_services stack_blocks stack_reserved s1" "held demo_pcd stack_blocks s1 = {(0x1E000, 0x181F)}"
    by (rule counter_block)
  have "supported TEEC_NULL_OPERATION"
    by (simp add: supported_def supported_type_def TEEC_NULL_OPERATION_def TEEC_PARAM_TYPE_GET_def)
  moreover have "served counter_services stack_blocks {q} (OpteeSmcArgs (user_ptr q)) s2"
    if "shm_in counter_services stack_blocks stack_reserved s2" "q \<notin> held demo_pcd stack_blocks s1"
      "held demo_pcd stack_blocks s2 = insert q (held demo_pcd stack_blocks s1)" "World s2 = World s1" for q s2
    using that s1 by (intro counter_served) auto
  ultimately show ?thesis
    using TEEC_InvokeCommand_returns[OF counter_env s1(3), where C = "{}" and Operation = TEEC_NULL_OPERATION
        and session = "\<lparr>session_id = 5\<rparr>" and CmdId = 1] s1(1) shm_inD(1) by (fastforce simp: pcd)
qed

text \<open>A secure world that is interrupted once in the first call, and then finishes every call.\<close>

definition quiet_services :: "(stack_state, bool) optee_services" where
  "quiet_services = \<lparr>Pcd = demo_pcd, GcdServices = stack_gcd,
     ArmCallSmc = (\<lambda>args m w. if w then (args\<lparr>Arg0 := 0\<rparr>, m, w) else (args\<lparr>Arg0 := 0xFFFF0004\<rparr>, m, True)),
     GetSectionFromAnyFv = (\<lambda>_ w. ((EFI_NOT_FOUND, []), w)), LocateRpmbProtocol = (\<lambda>w. ((EFI_NOT_FOUND, undefined), w)),
     GetPerformanceCounter = (\<lambda>w. (0, w)), PerformanceCounterFrequency = 24000000\<rparr>"

definition quiet_client :: "(stack_state, bool) optee" where
  "quiet_client = \<lparr>Memory = MarkSharedMemoryRegionAsFree 0x10000 0x10000 (\<lambda>_. 0), gDriverImageHandle = 1,
     mSharedMemAllocationCount = 0, mSharedMemAllocSize = 0, Gcd = ([(0x10000, 0x10000)], []), World = False\<rparr>"

lemma quiet_ok: "shm_ok demo_pcd stack_blocks quiet_client" "held demo_pcd stack_blocks quiet_client = {}"
  using demo_start_ok by (simp_all add: shm_ok_def held_def demo_start_def quiet_client_def)

text \<open>C40: An operation that goes with the opening of a session comes back shifted by two: the parameters are read from the start of the
  message, where the identifier of the application and the login are, instead of after them. Even when the secure world leaves the
  message as it is, the first value becomes bytes of the identifier, the second is cleared, the third and fourth become the first
  and second, and the last two are lost.\<close>

theorem TEEC_SMC_OpenSession_shifts:
  fixes s :: "('g, 'w) optee"
  assumes "length (params x) = 4" and types: "\<forall>i < 4. TEEC_PARAM_TYPE_GET (paramTypes x) i \<in> {1, 2, 3}" and "length Destination = 16"
    and "OpteeClientMemAlloc (Pcd S) (GcdServices S) 224 s = Some (p, s1)" and "p \<noteq> 0"
    and world: "\<And>s. \<exists>s'. OpteeSmcCall S p s = Some (TEEC_SUCCESS, s') \<and>
      (\<forall>j < 6. \<forall>i < 3. param_word (Memory s') (msg_param p j) i = param_word (Memory s) (msg_param p j) i)"
  shows "\<exists>TeecResult origin session y s'. TEEC_SMC_OpenSession S Session Destination x s = Some ((TeecResult, origin, session, y), s') \<and>
    le_bytes 4 (value_a (params y ! 0)) = take 4 Destination \<and> le_bytes 4 (value_b (params y ! 0)) = take 4 (drop 8 Destination) \<and>
    word0 (params y ! 1) = 0 \<and> word0 (params y ! 2) = word0 (params x ! 0) \<and> word0 (params y ! 3) = word0 (params x ! 1)"
proof -
  let ?t = "TEEC_PARAM_TYPE_GET (paramTypes x)"
  have sup: "supported x" using assms(1) types by (auto simp: supported_def supported_type_def)
  have n: "OPTEE_MSG_GET_ARG_SIZE 6 = 224" by (simp add: OPTEE_MSG_GET_ARG_SIZE_def)
  let ?h = "set_param_attr (msg_param p 0) 0x101 (set_msg_num_params p 6 (set_msg_cmd p 0 (SetMem (Memory s1) p 224 0)))"
  let ?m = "set_param_word (msg_param p 1) 2 0 (set_param_attr (msg_param p 1) 0x101 (StoreBytes Destination (msg_param p 0 + 8) ?h))"
  obtain m where m: "SetMsgParams (AssertStops (Pcd S)) x (msg_param p 2) ?m = Some m"
    "\<And>i. i < 4 \<Longrightarrow> carried (?t i) (params x ! i) m (msg_param p (2 + i))"
    "\<And>j i. j < 2 \<Longrightarrow> i < 3 \<Longrightarrow> param_word m (msg_param p j) i = param_word ?m (msg_param p j) i"
    by (rule SetMsgParams_stores[OF sup, of 2 "AssertStops (Pcd S)" p ?m]) (simp, blast)
  obtain s2 where c: "OpteeSmcCall S p (s1\<lparr>Memory := m\<rparr>) = Some (TEEC_SUCCESS, s2)"
    "\<And>j i. j < 6 \<Longrightarrow> i < 3 \<Longrightarrow> param_word (Memory s2) (msg_param p j) i = param_word m (msg_param p j) i"
    using world[of "s1\<lparr>Memory := m\<rparr>"] by auto
  have b: "msg_param p 0 + 8 = p + word_of_nat 40" by (simp add: msg_param_def)
  have second: "param_word m (msg_param p 1) i = 0" if "i < 2" for i
  proof -
    have "param_word (StoreBytes Destination (msg_param p 0 + 8) ?h) (msg_param p 1) i = param_word ?h (msg_param p 1) i"
      unfolding b param_word_off using that assms(3) by (intro rd_StoreBytes_apart) auto
    then show ?thesis using m(3)[of 1 i] that param_word_zero[of 1 i 224 "Memory s1" p] by simp
  qed
  have byte: "StoreBytes Destination (msg_param p 0 + 8) ?h (msg_param p 0 + 8 + word_of_nat k) = Destination ! k" if "k < 16" for k
    using StoreBytes_at[of k Destination] assms(3) that by simp
  have first: "le_bytes 4 (ucast (param_word m (msg_param p 0) 0) :: u32) = take 4 Destination"
    "le_bytes 4 (ucast (param_word m (msg_param p 0) 1) :: u32) = take 4 (drop 8 Destination)"
  proof -
    have w: "param_word m (msg_param p 0) i = rd 8 (StoreBytes Destination (msg_param p 0 + 8) ?h) (msg_param p 0 + 8 + word_of_nat (8 * i))"
      if "i < 2" for i
    proof -
      have "param_word m (msg_param p 0) i = param_word (StoreBytes Destination (msg_param p 0 + 8) ?h) (msg_param p 0) i"
        using m(3)[of 0 i] that by simp
      then show ?thesis by (simp only: param_word_def) simp
    qed
    show "le_bytes 4 (ucast (param_word m (msg_param p 0) 0) :: u32) = take 4 Destination"
      unfolding w[of 0, simplified] le_bytes_low
      by (rule nth_equalityI) (use byte assms(3) in auto)
    have one: "1 < (2 :: nat)" by simp
    have a: "msg_param p 0 + 8 + word_of_nat (8 * 1) + word_of_nat k = msg_param p 0 + 8 + word_of_nat (8 + k)" for k by simp
    have byte8: "StoreBytes Destination (msg_param p 0 + 8) ?h (msg_param p 0 + 8 + word_of_nat (8 * 1) + word_of_nat k) = Destination ! (8 + k)"
      if "k < 4" for k
      unfolding a using that by (intro byte) simp
    show "le_bytes 4 (ucast (param_word m (msg_param p 0) 1) :: u32) = take 4 (drop 8 Destination)"
      unfolding w[OF one] le_bytes_low
      by (rule nth_equalityI) (use byte8 assms(3) in auto)
  qed
  define r where "r i = set_value (ucast (param_word m (msg_param p i) 0)) (ucast (param_word m (msg_param p i) 1)) (params x ! i)" for i
  have "GetMsgParams (AssertStops (Pcd S)) (Memory s2) (msg_param p 0) x = Some (x\<lparr>params := map r [0..<4]\<rparr>)"
  proof (rule GetMsgParams_four[OF assms(1)])
    fix i :: nat assume i: "i < 4"
    show "GetMsgParam (AssertStops (Pcd S)) (?t i) (Memory s2) (msg_param p (0 + i)) (params x ! i) = Some (r i)"
      using types[rule_format, OF i] c(2)[of i 0] c(2)[of i 1] i by (auto simp: GetMsgParam_def teec_types r_def)
  qed
  then have run: "\<exists>TeecResult origin session s'. TEEC_SMC_OpenSession S Session Destination x s =
      Some ((TeecResult, origin, session, x\<lparr>params := map r [0..<4]\<rparr>), s')"
    using assms(4,5) m(1) c(1) by (simp add: TEEC_SMC_OpenSession_def MessageCall_def n)
  have shifted: "word0 (r (2 + i)) = word0 (params x ! i)" if "i < 2" for i
    using m(2)[of i] types[rule_format, of i] that by (auto simp: carried_def r_def set_value_def value_word)
  have v0: "value_a (r 0) = ucast (param_word m (msg_param p 0) 0)" "value_b (r 0) = ucast (param_word m (msg_param p 0) 1)"
    by (simp_all add: r_def set_value_def value_a_def value_b_def)
  have v1: "word0 (r 1) = 0" using second[of 0] second[of 1] by (simp add: r_def set_value_def ADDRESS64_def)
  have v2: "word0 (r 2) = word0 (params x ! 0)" "word0 (r 3) = word0 (params x ! 1)"
    using shifted[of 0] shifted[of 1] by (simp_all add: numeral_eq_Suc)
  have ps: "params (x\<lparr>params := map r [0..<4]\<rparr>) ! i = r i" if "i < 4" for i using that by simp
  have i: "(0 :: nat) < 4" "(1 :: nat) < 4" "(2 :: nat) < 4" "(3 :: nat) < 4" by simp_all
  from run show ?thesis
    by (elim exE) (intro exI conjI, assumption, simp_all only: i[THEN ps] v0 v1 v2 first)
qed

lemma quiet_call: "\<exists>s'. OpteeSmcCall quiet_services p s = Some (TEEC_SUCCESS, s') \<and> Memory s' = Memory s"
proof -
  have ends: "\<exists>s'. OpteeSmcLoop quiet_services args s = Some (TEEC_SUCCESS, s') \<and> Memory s' = Memory s" if "World s" for args s
    by (subst OpteeSmcLoop.simps) (use that in \<open>simp add: quiet_services_def OPTEE_SMC_RETURN_IS_RPC_def
        OPTEE_SMC_RETURN_UNKNOWN_FUNCTION_def OPTEE_SMC_RETURN_OK_def\<close>)
  show ?thesis
  proof (cases "World s")
    case False
    let ?s = "s\<lparr>World := True, Memory := Memory s\<rparr>" and ?args = "OpteeSmcArgs p\<lparr>Arg0 := 0xFFFF0004\<rparr>"
    have w: "ArmCallSmc quiet_services (OpteeSmcArgs p) (Memory s) (World s) = (?args, Memory s, True)"
      using False by (simp add: quiet_services_def)
    have cb: "OpteeRpcCallback quiet_services ?args ?s = Some ((TEEC_SUCCESS, ?args\<lparr>Arg0 := OPTEE_SMC_CALL_RETURN_FROM_RPC\<rparr>), ?s)"
      by (simp add: OpteeRpcCallback_def OPTEE_SMC_RETURN_IS_RPC_def OPTEE_SMC_RETURN_UNKNOWN_FUNCTION_def
          OPTEE_SMC_RETURN_GET_RPC_FUNC_def)
    have rpc: "OPTEE_SMC_RETURN_IS_RPC (Arg0 ?args)"
      by (simp add: OPTEE_SMC_RETURN_IS_RPC_def OPTEE_SMC_RETURN_UNKNOWN_FUNCTION_def)
    show ?thesis
      unfolding OpteeSmcCall_def
      using ends[of ?s] by (subst OpteeSmcLoop.simps) (simp only: w prod.case Let_def rpc if_True cb Option.bind.simps fst_conv snd_conv, simp)
  next
    case True
    then show ?thesis unfolding OpteeSmcCall_def by (rule ends)
  qed
qed

lemma TEEC_SMC_OpenSession_shifts_witness:
  "\<exists>r origin session y s. TEEC_SMC_OpenSession quiet_services \<lparr>session_id = 0\<rparr> [1, 2, 3, 4, 5, 6, 7, 8, 9, 10, 11, 12, 13, 14, 15, 16]
     \<lparr>paramTypes = 0x3333, params = [\<lparr>word0 = 7, word1 = 0, word2 = 0\<rparr>, \<lparr>word0 = 8, word1 = 0, word2 = 0\<rparr>,
       \<lparr>word0 = 9, word1 = 0, word2 = 0\<rparr>, \<lparr>word0 = 10, word1 = 0, word2 = 0\<rparr>]\<rparr> quiet_client = Some ((r, origin, session, y), s) \<and>
     le_bytes 4 (value_a (params y ! 0)) = [1, 2, 3, 4] \<and> word0 (params y ! 1) = 0 \<and> word0 (params y ! 2) = 7"
proof -
  let ?x = "\<lparr>paramTypes = 0x3333, params = [\<lparr>word0 = 7, word1 = 0, word2 = 0\<rparr>, \<lparr>word0 = 8, word1 = 0, word2 = 0\<rparr>,
       \<lparr>word0 = 9, word1 = 0, word2 = 0\<rparr>, \<lparr>word0 = 10, word1 = 0, word2 = 0\<rparr>]\<rparr>"
  have t: "\<forall>i < 4. TEEC_PARAM_TYPE_GET (paramTypes ?x) i \<in> {1, 2, 3}"
    by (auto simp: TEEC_PARAM_TYPE_GET_def dest!: less_4)
  have a: "AllocateMemorySpace stack_gcd EfiGcdAllocateMaxAddressSearchTopDown 12 (224 + 4127) (OPTEE_SHM_END demo_pcd) (Gcd quiet_client) =
      ((EFI_SUCCESS, 0x1E000), [(0x10000, 0x10000)], [(0x1E000, 4351)])"
    by (simp add: stack_gcd_def demo_region quiet_client_def lowest_def mask_eq_exp_minus_1 in_space_def)
  have "inside demo_pcd (0x1E000, 224 + 4127)" by (simp add: inside_def demo_region)
  then obtain s1 where "InternalMemAlloc demo_pcd stack_gcd 224 16 quiet_client = Some (0x1F000, s1)"
    using InternalMemAlloc_returns[OF stack_gcd_ok demo_region_ok _ quiet_ok(1) _ a, of 16]
    by (auto simp: size_fits_def IsPowerOf2_def OPTEE_SHM_ALLOC_ALIGN_def)
  then have al: "OpteeClientMemAlloc (Pcd quiet_services) (GcdServices quiet_services) 224 quiet_client = Some (0x1F000, s1)"
    by (simp add: OpteeClientMemAlloc_def OPTEE_CLIENT_MEM_BYTE_ALIGNMENT_def quiet_services_def)
  have w: "\<exists>s'. OpteeSmcCall quiet_services 0x1F000 s = Some (TEEC_SUCCESS, s') \<and>
      (\<forall>j < 6. \<forall>i < 3. param_word (Memory s') (msg_param 0x1F000 j) i = param_word (Memory s) (msg_param 0x1F000 j) i)" for s
    using quiet_call[of "0x1F000" s] by auto
  show ?thesis
    using TEEC_SMC_OpenSession_shifts[OF _ t _ al _ w, where Session = "\<lparr>session_id = 0\<rparr>" and
        Destination = "[1, 2, 3, 4, 5, 6, 7, 8, 9, 10, 11, 12, 13, 14, 15, 16]"] by fastforce
qed

end
