(* ===== verification/Spec2Isabelle.thy ===== *)
theory Spec2Isabelle
  imports Prelude Chains UsbHcMem UsbHcPool OhciReg OhciUrb OhciTree OhciSched OhciHub OhciTransfer OhciStages OhciSchedule OhciBulk
    VarBlockServiceDxe SdMmcHw SdMmcProtocol SdMmcInit SdMmcReset SdMmcRun SdMmcReady SdMmcCard SdMmcIo SdMmcRpmb SdMmcSlot
    OpteeClientMem OpteeRpc OpteeSmc
begin

text \<open>
  A model of four parts of the Rockchip RK356x UEFI platform, with the theorems that make them correct: the USB OHCI
  host controller driver (\<open>src/Silicon/Rockchip/Rk356xPkg/Drivers/OhciDxe\<close>), the firmware volume block
  service that holds the UEFI variables (\<open>src/Platforms/Rk356xPkg/Drivers/VarBlockServiceDxe\<close>), the driver of SD cards and
  eMMC devices (\<open>src/Microsoft/MsPkg/Drivers/SdMmcDxe\<close>), and the client library of the OP-TEE secure world
  (\<open>src/Microsoft/OpteeClientPkg/Library/OpteeClientApiLib\<close>). They carry
  the logic that is the platform's own; the rest of the repository mostly configures registers or calls services of EDK2.

  \<^bold>\<open>How the program is put together.\<close> The OHCI driver serves the USB stack. A transfer (\<open>Ohci.c\<close>) builds an endpoint descriptor
  and a list of transfer descriptors (\<open>OhciUrb.c\<close>) in DMA memory that it gets from a pool (\<open>UsbHcMem.c\<close>), hands them to the
  controller through registers (\<open>OhciReg.c\<close>), and waits, or leaves a context behind that a timer routine
  looks at (\<open>OhciSched.c\<close>). The variable service keeps the store in memory, gives the variable driver block-wise
  access to it (\<open>VarBlockService.c\<close>, \<open>FvbInfo.c\<close>), and writes it back to the boot medium on events (\<open>VarBlockServiceDxe.c\<close>).
  The SD/MMC driver identifies and initialises a card through the commands of an SDHC protocol (\<open>Protocol.c\<close>), installs a block protocol
  and, for an eMMC, an RPMB protocol (\<open>SdMmc.c\<close>), whose requests it cuts in transfers (\<open>BlockIo.c\<close>, \<open>RpmbIo.c\<close>); a command that
  fails starts a recovery that may reset and initialise the card with further commands.
  The OP-TEE client hands out shared memory with a header and a fence (\<open>OpteeClientMem.c\<close>), packs the parameters of a command into a
  message there and calls the secure world (\<open>OpteeClientApiLib.c\<close>, \<open>Arm/OpteeClientSMC.c\<close>), and until that returns serves its requests for
  memory, trusted applications, the time and the RPMB partition (\<open>Arm/OpteeClientRPC.c\<close>), the last through the SD/MMC driver.

  \<^bold>\<open>Theories, with the sources they model and what their lemmas show.\<close>
  \<^item> \<open>Prelude\<close>: machine words, status codes, EDK2 size macros, bit-fields of C structures, and the locale of step
    invariants. \<open>Chains\<close>: linked lists in a store, with insertion, removal and concatenation.
  \<^item> \<open>UsbHcMem\<close>, \<open>UsbHcPool\<close> (\<open>UsbHcMem.c\<close>): blocks with bit arrays. The search is first fit; an allocation is fresh, a free gives
    back exactly what it names, and any run of requests of a client keeps the pool well formed. The locale
    \<open>region_allocator\<close> is the interface the rest of the driver uses; its interpretation \<open>pool\<close> is on the model of the code.
  \<^item> \<open>OhciReg\<close> (\<open>OhciReg.c\<close>, \<open>OhciReg.h\<close>): register access by selector and member. The set and get routines agree, commands write no
    other bit, and the polling of a pointer register ends exactly when the register takes the value.
  \<^item> \<open>OhciUrb\<close> (\<open>OhciUrb.c\<close>, \<open>Descriptor.h\<close>): descriptors, their fields, endpoint lists, transfer lists; each
    routine is exact on the chains it walks. \<open>OhciTree\<close>: the tree of interrupt lists.
  \<^item> \<open>OhciSched\<close> (\<open>OhciSched.c\<close>): contexts of interrupt transfers, the check of a transfer, the timer routine.
  \<^item> \<open>OhciHub\<close> (\<open>Ohci.c\<close>): reset, start and state of the controller, and the root hub ports.
  \<^item> \<open>OhciTransfer\<close> (\<open>Ohci.c\<close>): the control, bulk, interrupt and isochronous transfers, every path with its cleanup.
    \<open>OhciStages\<close>: the data stage refines the cutting of a buffer in packets. \<open>OhciSchedule\<close>: the interrupt schedule is an
    invariant that initialisation establishes and the endpoint stage keeps. \<open>OhciBulk\<close>: a bulk transfer returns on every path and gives
    back all its descriptors, whatever the controller writes into them while the driver waits.
  \<^item> \<open>Bytes\<close>: memory as bytes, loads, stores and block copies. \<open>VarBlockService\<close>, \<open>VarBlockServiceDxe\<close>: the block map, access by
    block and offset, erasure, validation and repair of the header, and that what is in memory is on the medium after an event.
  \<^item> \<open>SdMmcHw\<close>: commands, card registers and the instance of the SD/MMC driver, and the services it calls. \<open>SdMmcProtocol\<close>, \<open>SdMmcInit\<close>,
    \<open>SdMmcReset\<close> (\<open>Protocol.c\<close>, \<open>SdMmc.c\<close>): commands, identification, initialisation, soft reset and recovery, each routine over the recovery
    routine it calls. \<open>SdMmcRun\<close>: the recursion through the recovery ends, and the locales \<open>recovery_run\<close> and \<open>instance_invariant\<close> with what
    every routine keeps. \<open>SdMmcReady\<close>: the state after an initialisation. \<open>SdMmcCard\<close>: the driver on a controller and a card that answer.
    \<open>SdMmcIo\<close> (\<open>BlockIo.c\<close>): reading gives the bytes of the card, and what is written is read back. \<open>SdMmcRpmb\<close> (\<open>RpmbIo.c\<close>): the
    exchange of frames with the RPMB partition. \<open>SdMmcSlot\<close> (\<open>SdMmc.c\<close>): instances, card detection, and the errors of a reset.
  \<^item> \<open>OpteeClientMem\<close> (\<open>OpteeClientMem.c\<close>): from the initialisation on the blocks are apart, headers and fence are intact and the counters
    exact, whatever is allocated and freed. \<open>OpteeRpc\<close> (\<open>OpteeClientRPC.c\<close>): every well-formed request is served and keeps the memory
    sound; a request for the RPMB partition composes with \<open>SdMmcRpmb\<close>. \<open>OpteeSmc\<close> (\<open>OpteeClientSMC.c\<close>, \<open>OpteeClientApiLib.c\<close>): parameters
    come back as they were sent, and a command returns with its message freed when the secure world is one that \<open>served\<close> describes. The
    locale \<open>shared_memory\<close> is what a call relies on, its interpretation \<open>messages\<close> the allocator of the code.

  \<^bold>\<open>Conventions.\<close> Words have their width where arithmetic can wrap. A pointer is a \<open>nat\<close> and 0 is \<open>NULL\<close>; the objects behind pointers
  are in stores (maps from addresses). \<open>None\<close> of an option result means that the call does not return normally: a failed
  \<open>ASSERT\<close>, an access outside the objects of the program, or a loop that does not end (\<open>partial_function (option)\<close>).
  A loop is structural, has a termination proof, or is partial, and then a theorem states when it returns. The one recursion with a
  bound is that of the SD/MMC recovery: \<open>Recover n\<close> recovers at most \<open>n\<close> levels deep, \<open>attempts_left\<close> gives the levels that the
  counter of the code leaves, and \<open>SdhcRecoverFromErrors_equation\<close> shows that they are enough.

  \<^bold>\<open>What is a parameter.\<close> The services that the repository only calls are members of records, functions on an opaque
  world: pool and DMA memory (\<open>dma_services\<close>), register access and delays (\<open>mmio\<close>), the wait in which the controller
  works on the descriptors, the mapping of buffers and the copy (\<open>usb_services\<close>), call-backs of the class drivers,
  the boot services of the variable driver (\<open>services\<close>), the SDHC protocol with the boot services of the SD/MMC driver (\<open>sdhc_services\<close>),
  the GCD services (\<open>gcd_services\<close>), and the secure world with the firmware volumes, the RPMB protocol and the counter (\<open>optee_services\<close>). The theorems name what they rely on: \<open>dma_ok\<close> (memory handed out is
  not in use), \<open>dma_low\<close> (DMA memory is below 4 GB), \<open>plain_registers\<close> and \<open>controller_ok\<close> (registers keep what is written), \<open>wait_ok\<close> (the controller leaves the software links alone),
  \<open>block_card\<close> and \<open>rpmb_card\<close> (a card that answers commands and keeps its blocks or frames), \<open>gcd_contract\<close> (blocks that are handed out are
  apart), \<open>request_ok\<close> and \<open>served\<close> (requests stay in blocks that are allocated, and are finitely many). Each
  theorem with hypotheses is applied to concrete services, such as the bump allocator of \<open>UsbHcPool\<close>.

  \<^bold>\<open>Not modelled.\<close> Debug output; the driver binding of the OHCI and SD/MMC drivers (start, stop, timers and exit events); and
  the other packages: the variable and TPM clients of the secure world, PCIe, clock, GPIO, I2C and RTC libraries,
  the boot menu and setup pages, the policy and settings libraries, and the second board family. They are register
  sequences of devices that the sources do not describe, or glue around services outside the repository.
\<close>

end
